(* ===== verification/Prelude.thy ===== *)
theory Prelude
  imports Main "HOL-Library.Code_Target_Nat"
begin

text \<open>
  Shared vocabulary of the development: results with errors as values, the
  fact collections the components extend, and generic lemmas on lists and
  finite maps.

  A Go function that returns \<open>(T, error)\<close> is modelled by \<open>'e + 'a\<close>: \<open>Inl\<close> holds
  the error, \<open>Inr\<close> the value.  \<open>rbind\<close> is the early return of
  \<open>if err != nil { return err }\<close>.
\<close>

named_theorems go_simps \<open>functional behaviour of the modelled Go library routines\<close>
named_theorems inv_intros \<open>operations that keep a component invariant\<close>

type_synonym ('e, 'a) result = "'e + 'a"

fun rbind :: "('e, 'a) result \<Rightarrow> ('a \<Rightarrow> ('e, 'b) result) \<Rightarrow> ('e, 'b) result" where
  "rbind (Inl e) k = Inl e"
| "rbind (Inr a) k = k a"

lemma rbind_cong [fundef_cong]:
  "r = r' \<Longrightarrow> (\<And>a. r' = Inr a \<Longrightarrow> k a = k' a) \<Longrightarrow> rbind r k = rbind r' k'"
  by (cases r') auto

lemma rbind_Inr_iff [simp]: "rbind r k = Inr b \<longleftrightarrow> (\<exists>a. r = Inr a \<and> k a = Inr b)"
  by (cases r) auto

lemma rbind_Inl_iff: "rbind r k = Inl e \<longleftrightarrow> r = Inl e \<or> (\<exists>a. r = Inr a \<and> k a = Inl e)"
  by (cases r) auto

fun rmap :: "('a \<Rightarrow> 'b) \<Rightarrow> ('e, 'a) result \<Rightarrow> ('e, 'b) result" where
  "rmap f (Inl e) = Inl e"
| "rmap f (Inr a) = Inr (f a)"

lemma rmap_Inr_iff [simp]: "rmap f r = Inr b \<longleftrightarrow> (\<exists>a. r = Inr a \<and> b = f a)"
  by (cases r) auto

lemma rmap_Inl_iff [simp]: "rmap f r = Inl e \<longleftrightarrow> r = Inl e"
  by (cases r) auto

lemma rmap_map_option_Some:
  "rmap (map_option f) r = Inr (Some b) \<longleftrightarrow> (\<exists>a. r = Inr (Some a) \<and> b = f a)"
  by (cases r) auto

fun is_ok :: "('e, 'a) result \<Rightarrow> bool" where
  "is_ok (Inl e) = False"
| "is_ok (Inr a) = True"

lemma is_ok_iff: "is_ok r \<longleftrightarrow> (\<exists>a. r = Inr a)"
  by (cases r) auto

fun traverse :: "('a \<Rightarrow> ('e, 'b) result) \<Rightarrow> 'a list \<Rightarrow> ('e, 'b list) result" where
  "traverse f [] = Inr []"
| "traverse f (x # xs) = rbind (f x) (\<lambda>y. rbind (traverse f xs) (\<lambda>ys. Inr (y # ys)))"

lemma traverse_cong [fundef_cong]:
  "xs = ys \<Longrightarrow> (\<And>x. x \<in> set ys \<Longrightarrow> f x = g x) \<Longrightarrow> traverse f xs = traverse g ys"
  by (induction ys arbitrary: xs) auto

lemma traverse_Inr: "traverse f xs = Inr ys \<longleftrightarrow> list_all2 (\<lambda>x y. f x = Inr y) xs ys"
  by (induction xs arbitrary: ys) (auto simp: list_all2_Cons1)

lemma set_takeWhile_subset: "set (takeWhile P xs) \<subseteq> set xs"
  by (meson set_takeWhileD subsetI)

lemma set_dropWhile_subset: "set (dropWhile P xs) \<subseteq> set xs"
  by (meson set_dropWhileD subsetI)

lemma length_filter_concat_le:
  "\<forall>x\<in>set xs. length x \<le> n \<Longrightarrow> length (concat xs) \<le> n * length xs"
  by (induction xs) auto

lemma dom_restrict_subset [simp]: "dom (m |` A) \<subseteq> dom m"
  by auto

lemma finite_dom_upd [intro]: "finite (dom m) \<Longrightarrow> finite (dom (m(k := v)))"
  by (cases v) auto

section \<open>Go maps as association lists\<close>

text \<open>
  A Go map whose size or iteration matters is an association list with distinct
  keys: \<open>map_of\<close> reads it, \<open>kv_put\<close> assigns, \<open>kv_del\<close> deletes, and a loop that
  deletes while ranging over the map is a \<open>filter\<close>.
\<close>

type_synonym ('k, 'v) gomap = "('k \<times> 'v) list"

fun kv_put :: "'k \<Rightarrow> 'v \<Rightarrow> ('k, 'v) gomap \<Rightarrow> ('k, 'v) gomap" where
  "kv_put k v [] = [(k, v)]"
| "kv_put k v ((k', v') # kvs) = (if k = k' then (k, v) # kvs else (k', v') # kv_put k v kvs)"

definition kv_del :: "'k \<Rightarrow> ('k, 'v) gomap \<Rightarrow> ('k, 'v) gomap" where
  "kv_del k kvs = filter (\<lambda>(k', v). k' \<noteq> k) kvs"

definition kv_wf :: "('k, 'v) gomap \<Rightarrow> bool" where
  "kv_wf kvs = distinct (map fst kvs)"

lemma map_of_kv_put [simp]: "map_of (kv_put k v kvs) = (map_of kvs)(k \<mapsto> v)"
  by (induction k v kvs rule: kv_put.induct) auto

lemma kv_put_keys: "fst ` set (kv_put k v kvs) = insert k (fst ` set kvs)"
  by (induction k v kvs rule: kv_put.induct) auto

lemma kv_wf_Nil [simp]: "kv_wf []"
  by (simp add: kv_wf_def)

lemma kv_wf_put [simp, inv_intros]: "kv_wf kvs \<Longrightarrow> kv_wf (kv_put k v kvs)"
proof (induction k v kvs rule: kv_put.induct)
  case (2 k v k' v' kvs)
  moreover have "k' \<notin> fst ` set (kv_put k v kvs)" if "k \<noteq> k'"
    using 2 that by (simp add: kv_put_keys kv_wf_def)
  ultimately show ?case by (auto simp: kv_wf_def)
qed (simp add: kv_wf_def)

lemma kv_wf_filter [simp, inv_intros]: "kv_wf kvs \<Longrightarrow> kv_wf (filter P kvs)"
  by (induction kvs) (auto simp: kv_wf_def)

lemma kv_wf_del [simp, inv_intros]: "kv_wf kvs \<Longrightarrow> kv_wf (kv_del k kvs)"
  by (simp add: kv_del_def)

lemma map_of_filter_wf:
  "kv_wf kvs \<Longrightarrow> map_of (filter P kvs) k =
     (case map_of kvs k of Some v \<Rightarrow> if P (k, v) then Some v else None | None \<Rightarrow> None)"
  by (induction kvs) (auto simp: kv_wf_def map_of_eq_None_iff image_iff split: option.split)

lemma map_of_del [simp]: "kv_wf kvs \<Longrightarrow> map_of (kv_del k kvs) = (map_of kvs)(k := None)"
  by (rule ext) (auto simp: kv_del_def map_of_filter_wf split: option.split)

lemma kv_put_length:
  "length (kv_put k v kvs) = (if map_of kvs k = None then Suc (length kvs) else length kvs)"
  by (induction k v kvs rule: kv_put.induct) auto

lemma kv_wf_in_set: "kv_wf kvs \<Longrightarrow> (k, v) \<in> set kvs \<longleftrightarrow> map_of kvs k = Some v"
  by (simp add: kv_wf_def)

lemma kv_all_iff: "kv_wf kvs \<Longrightarrow> (\<forall>(k, v)\<in>set kvs. P k v) \<longleftrightarrow> (\<forall>k v. map_of kvs k = Some v \<longrightarrow> P k v)"
  by (auto simp flip: kv_wf_in_set)

end
