(* ===== verification/Domain.thy ===== *)
theory Domain
  imports GoTime
begin

text \<open>
  \<open>internal/domain/domain.go\<close>: the sentinel errors and the entities the services
  work on, with their predicates.  \<open>ErrOther\<close> stands for an error that wraps no
  sentinel.  Optional times are options, maps are association lists.
\<close>

datatype domain_error =
    ErrNotFound | ErrConflict | ErrInvalidInput | ErrUnauthorized | ErrForbidden | ErrDisabled
  | ErrRateLimited | ErrUpstream | ErrEgressBlocked | ErrOther

datatype role = RoleAdmin | RoleViewer | RoleUnknown string

definition role_valid :: "role \<Rightarrow> bool" where
  "role_valid r = (r = RoleAdmin \<or> r = RoleViewer)"

record user =
  us_id :: string
  us_email :: string
  us_passwordHash :: string
  us_role :: role
  us_disabled :: bool
  us_createdAt :: int
  us_updatedAt :: int
  us_lastLoginAt :: "int option"

record web_session =
  ws_id :: string
  ws_userID :: string
  ws_csrfToken :: string
  ws_createdAt :: int
  ws_lastSeenAt :: int
  ws_expiresAt :: int
  ws_ip :: string
  ws_userAgent :: string

definition session_expired :: "web_session \<Rightarrow> int \<Rightarrow> bool" where
  "session_expired s now = (\<not> now < ws_expiresAt s)"

record instance_rec =
  in_id :: string
  in_slug :: string
  in_name :: string
  in_description :: string
  in_connectorID :: string
  in_baseURL :: string
  in_variables :: "(string, string) gomap"
  in_enabled :: bool
  in_allowPrivateNetwork :: bool
  in_hostHeaderOverride :: string
  in_timeoutMS :: int
  in_rateLimitPerMin :: int
  in_maxConcurrent :: int
  in_maxResponseBytes :: int
  in_createdAt :: int
  in_updatedAt :: int
  in_version :: int

definition instance_timeout :: "instance_rec \<Rightarrow> int" where
  "instance_timeout i = int64_wrap (in_timeoutMS i * 1000000)"

record tool_binding =
  tb_instanceID :: string
  tb_toolName :: string
  tb_enabled :: bool

record token =
  tk_id :: string
  tk_name :: string
  tk_hash :: string
  tk_prefix :: string
  tk_instanceID :: string
  tk_createdBy :: string
  tk_createdAt :: int
  tk_expiresAt :: "int option"
  tk_lastUsedAt :: "int option"
  tk_revokedAt :: "int option"

definition token_usable :: "token \<Rightarrow> int \<Rightarrow> bool" where
  "token_usable t now =
     (if tk_revokedAt t \<noteq> None then False
      else (case tk_expiresAt t of Some e \<Rightarrow> now < e | None \<Rightarrow> True))"

definition token_scopes :: "token \<Rightarrow> string \<Rightarrow> bool" where
  "token_scopes t i = (tk_instanceID t = [] \<or> tk_instanceID t = i)"

end
