(* ===== verification/GoStr.thy ===== *)
theory GoStr
  imports Prelude "HOL-Library.Char_ord"
begin

text \<open>
  The routines of Go's \<open>strings\<close>, \<open>unicode/utf8\<close> and \<open>strconv\<close> packages the
  program uses.  A Go string is a sequence of bytes, modelled as HOL's
  \<open>string\<close> (every \<open>char\<close> is a byte); \<open>[]rune(s)\<close> and \<open>range s\<close> decode it as
  UTF-8, an invalid byte giving U+FFFD with width one.
\<close>

abbreviation byte :: "char \<Rightarrow> nat" where "byte c \<equiv> of_char c"

subsection \<open>Searching and splitting\<close>

fun has_prefix :: "string \<Rightarrow> string \<Rightarrow> bool" where
  "has_prefix [] s = True"
| "has_prefix (p # ps) [] = False"
| "has_prefix (p # ps) (c # cs) = (p = c \<and> has_prefix ps cs)"

lemma has_prefix_iff: "has_prefix p s \<longleftrightarrow> (\<exists>t. s = p @ t)"
  by (induction p s rule: has_prefix.induct) auto

lemma has_prefix_append [simp]: "has_prefix p (p @ t)"
  by (auto simp: has_prefix_iff)

lemma has_prefix_length: "has_prefix p s \<Longrightarrow> length p \<le> length s"
  by (auto simp: has_prefix_iff)

lemma has_prefix_take: "has_prefix p s \<longleftrightarrow> take (length p) s = p"
  by (metis append_eq_conv_conj append_take_drop_id has_prefix_iff)

definition has_suffix :: "string \<Rightarrow> string \<Rightarrow> bool" where
  "has_suffix suf s = has_prefix (rev suf) (rev s)"

lemma has_suffix_iff: "has_suffix p s \<longleftrightarrow> (\<exists>t. s = t @ p)"
proof
  assume "has_suffix p s"
  then obtain t where "rev s = rev p @ t" by (auto simp: has_suffix_def has_prefix_iff)
  hence "s = rev t @ p" by (metis rev_append rev_rev_ident)
  thus "\<exists>t. s = t @ p" ..
qed (auto simp: has_suffix_def)

definition trim_prefix :: "string \<Rightarrow> string \<Rightarrow> string" where
  "trim_prefix p s = (if has_prefix p s then drop (length p) s else s)"

definition trim_suffix :: "string \<Rightarrow> string \<Rightarrow> string" where
  "trim_suffix p s = (if has_suffix p s then take (length s - length p) s else s)"

definition cut_prefix :: "string \<Rightarrow> string \<Rightarrow> string option" where
  "cut_prefix p s = (if has_prefix p s then Some (drop (length p) s) else None)"

lemma cut_prefix_Some [simp]: "cut_prefix p s = Some r \<longleftrightarrow> s = p @ r"
  by (auto simp: cut_prefix_def has_prefix_iff)

text \<open>\<open>strings.Index\<close>; \<open>None\<close> is the result -1.\<close>

fun str_index :: "string \<Rightarrow> string \<Rightarrow> nat option" where
  "str_index sub [] = (if sub = [] then Some 0 else None)"
| "str_index sub (c # cs) =
     (if has_prefix sub (c # cs) then Some 0 else map_option Suc (str_index sub cs))"

lemma str_index_bound: "str_index sub s = Some i \<Longrightarrow> i + length sub \<le> length s"
  by (induction s arbitrary: i) (auto split: if_splits dest: has_prefix_length)

lemma str_index_split:
  "str_index sub s = Some i \<Longrightarrow> s = take i s @ sub @ drop (i + length sub) s"
proof (induction s arbitrary: i)
  case Nil
  then show ?case by (auto split: if_splits)
next
  case (Cons c cs)
  show ?case
  proof (cases "has_prefix sub (c # cs)")
    case True
    thus ?thesis using Cons.prems by (auto simp: has_prefix_iff)
  next
    case False
    with Cons.prems obtain j where "i = Suc j" "str_index sub cs = Some j" by auto
    thus ?thesis using Cons.IH by simp
  qed
qed

lemma str_index_None_iff: "str_index sub s = None \<longleftrightarrow> (\<nexists>a b. s = a @ sub @ b)"
proof (induction s)
  case Nil
  then show ?case by auto
next
  case (Cons c cs)
  show ?case
  proof
    assume "str_index sub (c # cs) = None"
    hence np: "\<not> has_prefix sub (c # cs)" and n: "str_index sub cs = None"
      by (auto split: if_splits)
    show "\<nexists>a b. c # cs = a @ sub @ b"
    proof
      assume "\<exists>a b. c # cs = a @ sub @ b"
      then obtain a b where e: "c # cs = a @ sub @ b" by blast
      show False
      proof (cases a)
        case Nil thus False using e np by (auto simp: has_prefix_iff)
      next
        case (Cons x xs) thus False using e n Cons.IH by auto
      qed
    qed
  next
    assume a: "\<nexists>a b. c # cs = a @ sub @ b"
    have "\<not> has_prefix sub (c # cs)"
      using a by (metis append_Nil has_prefix_iff)
    moreover have "\<nexists>a b. cs = a @ sub @ b"
      using a by (metis append_Cons)
    ultimately show "str_index sub (c # cs) = None" using Cons.IH by auto
  qed
qed

definition contains :: "string \<Rightarrow> string \<Rightarrow> bool" where
  "contains s sub = (str_index sub s \<noteq> None)"

lemma contains_iff: "contains s sub \<longleftrightarrow> (\<exists>a b. s = a @ sub @ b)"
  by (simp add: contains_def str_index_None_iff)

text \<open>Splitting on a one-byte separator, and \<open>strings.Join\<close>.\<close>

fun split_on :: "char \<Rightarrow> string \<Rightarrow> string list" where
  "split_on d [] = [[]]"
| "split_on d (c # cs) =
     (if c = d then [] # split_on d cs
      else (case split_on d cs of [] \<Rightarrow> [[c]] | x # xs \<Rightarrow> (c # x) # xs))"

fun join_str :: "string \<Rightarrow> string list \<Rightarrow> string" where
  "join_str sep [] = []"
| "join_str sep [x] = x"
| "join_str sep (x # y # ys) = x @ sep @ join_str sep (y # ys)"

lemma split_on_not_Nil [simp]: "split_on d s \<noteq> []"
  by (induction s) (auto split: list.splits)

lemma split_on_no_sep: "d \<notin> set s \<Longrightarrow> split_on d s = [s]"
  by (induction s) auto

lemma split_on_elem: "x \<in> set (split_on d s) \<Longrightarrow> d \<notin> set x"
proof (induction s arbitrary: x)
  case (Cons c cs)
  then show ?case by (cases "split_on d cs") (auto split: if_splits)
qed simp

lemma split_on_append: "d \<notin> set x \<Longrightarrow> split_on d (x @ d # s) = x # split_on d s"
  by (induction x) auto

lemma join_Cons: "xs \<noteq> [] \<Longrightarrow> join_str sep (x # xs) = x @ sep @ join_str sep xs"
  by (cases xs) auto

lemma split_join:
  "xs \<noteq> [] \<Longrightarrow> \<forall>x\<in>set xs. d \<notin> set x \<Longrightarrow> split_on d (join_str [d] xs) = xs"
  by (induction "[d]" xs rule: join_str.induct) (auto simp: split_on_append split_on_no_sep)

lemma join_split: "join_str [d] (split_on d s) = s"
proof (induction s)
  case (Cons c cs)
  then show ?case
    by (cases "split_on d cs") (auto simp: join_Cons, (cases "tl (split_on d cs)"; simp)+)
qed simp

lemma set_join: "set (join_str sep xs) \<subseteq> set sep \<union> \<Union>(set ` set xs)"
  by (induction sep xs rule: join_str.induct) auto

text \<open>\<open>strings.Cut\<close> with a one-byte separator.\<close>

fun str_cut :: "char \<Rightarrow> string \<Rightarrow> (string \<times> string) option" where
  "str_cut d [] = None"
| "str_cut d (c # cs) =
     (if c = d then Some ([], cs) else map_option (\<lambda>(a, b). (c # a, b)) (str_cut d cs))"

lemma str_cut_Some: "str_cut d s = Some (a, b) \<longleftrightarrow> s = a @ d # b \<and> d \<notin> set a"
proof (induction s arbitrary: a)
  case (Cons c cs)
  then show ?case by (cases a) (auto)
qed auto

lemma str_cut_None: "str_cut d s = None \<longleftrightarrow> d \<notin> set s"
  by (induction s) auto

text \<open>The index found is the first one.\<close>

lemma str_index_le: "s = a @ sub @ b \<Longrightarrow> \<exists>i\<le>length a. str_index sub s = Some i"
proof (induction s arbitrary: a)
  case Nil
  then show ?case by auto
next
  case (Cons c cs)
  show ?case
  proof (cases "has_prefix sub (c # cs)")
    case False
    with Cons.prems obtain x a' where a: "a = x # a'"
      by (metis append_Nil has_prefix_append neq_Nil_conv)
    with Cons.prems have "cs = a' @ sub @ b" by simp
    from Cons.IH[OF this] False a show ?thesis by auto
  qed simp
qed

lemma str_index_before: "sub \<noteq> [] \<Longrightarrow> str_index sub s = Some i \<Longrightarrow> str_index sub (take i s) = None"
proof -
  assume ne: "sub \<noteq> []" and i: "str_index sub s = Some i"
  show ?thesis
  proof (rule ccontr)
    assume "str_index sub (take i s) \<noteq> None"
    then obtain a b where ab: "take i s = a @ sub @ b"
      using str_index_None_iff[of sub "take i s"] by auto
    hence "s = a @ sub @ (b @ drop i s)" by (metis append.assoc append_take_drop_id)
    then obtain j where j: "j \<le> length a" "str_index sub s = Some j" using str_index_le by blast
    have "length a + length sub \<le> i" using ab
      by (metis add.assoc length_append length_take le_add1 min.cobounded2 order_trans)
    with j i ne show False by (cases sub) auto
  qed
qed

lemma str_index_pair_fresh:
  "d \<notin> set body \<Longrightarrow> str_index [d, d] (body @ [d, d] @ rest) = Some (length body)"
  by (induction body) auto

lemma str_index_pair_lit:
  "str_index [d, d] lit = None \<Longrightarrow> lit = [] \<or> last lit \<noteq> d
   \<Longrightarrow> str_index [d, d] (lit @ [d, d] @ rest) = Some (length lit)"
proof (induction lit)
  case (Cons c cs)
  then show ?case by (cases cs) (auto split: if_splits)
qed simp

end
