(* ===== verification/Utf8.thy ===== *)
theory Utf8
  imports GoStr
begin

text \<open>
  UTF-8 as Go's \<open>unicode/utf8\<close> has it, the white-space trimming of \<open>strings\<close>,
  and \<open>strconv.Unquote\<close>, \<open>strconv.Itoa\<close> and \<open>strconv.ParseInt\<close> on decimal text.
\<close>

definition rune_error :: nat where "rune_error = 65533"

definition in_rng :: "nat \<Rightarrow> nat \<Rightarrow> char \<Rightarrow> bool" where
  "in_rng lo hi c = (lo \<le> byte c \<and> byte c \<le> hi)"

abbreviation is_cont :: "char \<Rightarrow> bool" where "is_cont \<equiv> in_rng 128 191"

text \<open>
  \<open>utf8.DecodeRuneInString\<close>: the rune and the number of bytes it takes.  The
  second byte's range excludes overlong forms, surrogates and values above
  U+10FFFF.
\<close>

definition decode_rune :: "string \<Rightarrow> nat \<times> nat" where
  "decode_rune s = (case s of
     [] \<Rightarrow> (rune_error, 0)
   | c0 # r0 \<Rightarrow>
      let b0 = byte c0 in
      if b0 < 128 then (b0, 1)
      else if b0 < 194 \<or> 244 < b0 then (rune_error, 1)
      else case r0 of
        [] \<Rightarrow> (rune_error, 1)
      | c1 # r1 \<Rightarrow>
         let lo = (if b0 = 224 then 160 else if b0 = 240 then 144 else 128);
             hi = (if b0 = 237 then 159 else if b0 = 244 then 143 else 191) in
         if \<not> in_rng lo hi c1 then (rune_error, 1)
         else if b0 < 224 then ((b0 - 192) * 64 + (byte c1 - 128), 2)
         else case r1 of
           [] \<Rightarrow> (rune_error, 1)
         | c2 # r2 \<Rightarrow>
            if \<not> is_cont c2 then (rune_error, 1)
            else if b0 < 240 then ((b0 - 224) * 4096 + (byte c1 - 128) * 64 + (byte c2 - 128), 3)
            else case r2 of
              [] \<Rightarrow> (rune_error, 1)
            | c3 # r3 \<Rightarrow>
               if \<not> is_cont c3 then (rune_error, 1)
               else ((b0 - 240) * 262144 + (byte c1 - 128) * 4096 + (byte c2 - 128) * 64
                      + (byte c3 - 128), 4))"

lemma decode_rune_width: "s \<noteq> [] \<Longrightarrow> 1 \<le> snd (decode_rune s)"
  by (auto simp: decode_rune_def Let_def split: list.splits)

lemma decode_rune_bound: "snd (decode_rune s) \<le> length s"
  by (auto simp: decode_rune_def Let_def split: list.splits)

text \<open>A string as its runes, each with the bytes it was decoded from.\<close>

function utf8_chunks :: "string \<Rightarrow> (nat \<times> string) list" where
  "utf8_chunks s =
     (if s = [] then []
      else (let (r, w) = decode_rune s in (r, take w s) # utf8_chunks (drop w s)))"
  by pat_completeness auto
termination
  apply (relation "measure length")
   apply simp
  subgoal for s x r w
    using decode_rune_width[of s] by (cases s) (simp_all flip: prod.sel(2), metis Suc_le_eq diff_less snd_conv zero_less_Suc)
  done

declare utf8_chunks.simps [simp del]

lemma utf8_chunks_Nil [simp]: "utf8_chunks [] = []"
  by (simp add: utf8_chunks.simps)

lemma utf8_chunks_eq_Nil [simp]: "utf8_chunks s = [] \<longleftrightarrow> s = []"
  by (subst utf8_chunks.simps) (auto split: prod.splits)

lemma utf8_chunks_bytes: "concat (map snd (utf8_chunks s)) = s"
proof (induction s rule: utf8_chunks.induct)
  case (1 s)
  show ?case
  proof (cases "s = []")
    case False
    obtain r w where rw: "decode_rune s = (r, w)" by fastforce
    have "concat (map snd (utf8_chunks (drop w s))) = drop w s"
      using 1[OF False, of "(r, w)" r w] rw by simp
    with False rw show ?thesis by (subst utf8_chunks.simps) simp
  qed simp
qed

definition runes :: "string \<Rightarrow> nat list" where
  "runes s = map fst (utf8_chunks s)"

definition encode_rune :: "nat \<Rightarrow> string" where
  "encode_rune r =
     (if r < 128 then [char_of r]
      else if r < 2048 then [char_of (192 + r div 64), char_of (128 + r mod 64)]
      else if 1114111 < r \<or> (55296 \<le> r \<and> r \<le> 57343) then [char_of (239::nat), char_of (191::nat), char_of (189::nat)]
      else if r < 65536 then
        [char_of (224 + r div 4096), char_of (128 + r div 64 mod 64), char_of (128 + r mod 64)]
      else
        [char_of (240 + r div 262144), char_of (128 + r div 4096 mod 64),
         char_of (128 + r div 64 mod 64), char_of (128 + r mod 64)])"

definition encode_runes :: "nat list \<Rightarrow> string" where
  "encode_runes rs = concat (map encode_rune rs)"

text \<open>\<open>utf8.ValidString\<close>: no byte decodes to an error of width one.\<close>

definition valid_utf8 :: "string \<Rightarrow> bool" where
  "valid_utf8 s = list_all (\<lambda>(r, b). \<not> (r = rune_error \<and> length b = 1)) (utf8_chunks s)"

text \<open>Runes Go's \<open>unicode.IsSpace\<close> accepts.\<close>

definition is_space_rune :: "nat \<Rightarrow> bool" where
  "is_space_rune r = (r \<in> {9, 10, 11, 12, 13, 32, 133, 160, 5760, 8232, 8233, 8239, 8287, 12288}
                      \<or> (8192 \<le> r \<and> r \<le> 8202))"

definition chunks_bytes :: "(nat \<times> string) list \<Rightarrow> string" where
  "chunks_bytes cs = concat (map snd cs)"

definition trim_left_space :: "string \<Rightarrow> string" where
  "trim_left_space s = chunks_bytes (dropWhile (is_space_rune \<circ> fst) (utf8_chunks s))"

definition trim_space :: "string \<Rightarrow> string" where
  "trim_space s =
     chunks_bytes (rev (dropWhile (is_space_rune \<circ> fst)
       (rev (dropWhile (is_space_rune \<circ> fst) (utf8_chunks s)))))"

text \<open>\<open>strings.Fields\<close>: the maximal runs of non-space runes.\<close>

function fields_chunks :: "(nat \<times> string) list \<Rightarrow> string list" where
  "fields_chunks cs =
     (let ds = dropWhile (is_space_rune \<circ> fst) cs in
      if ds = [] then []
      else chunks_bytes (takeWhile (Not \<circ> is_space_rune \<circ> fst) ds)
             # fields_chunks (dropWhile (Not \<circ> is_space_rune \<circ> fst) ds))"
  by pat_completeness auto
termination
proof (relation "measure length", goal_cases)
  case (2 cs ds)
  then obtain d ds' where d: "ds = d # ds'" by (meson neq_Nil_conv)
  hence "\<not> is_space_rune (fst d)"
    using 2 by (metis (mono_tags, lifting) comp_apply hd_dropWhile list.sel(1) list.distinct(1))
  hence "length (dropWhile (Not \<circ> is_space_rune \<circ> fst) ds) < length ds"
    using d by (auto simp: le_imp_less_Suc length_dropWhile_le)
  also have "length ds \<le> length cs" using 2 by (simp add: length_dropWhile_le)
  finally show ?case by simp
qed simp

definition fields :: "string \<Rightarrow> string list" where
  "fields s = fields_chunks (utf8_chunks s)"

text \<open>ASCII strings decode byte by byte.\<close>

definition ascii :: "string \<Rightarrow> bool" where
  "ascii s = list_all (\<lambda>c. byte c < (128::nat)) s"

lemma ascii_Nil [simp]: "ascii []" and ascii_Cons [simp]: "ascii (c # s) \<longleftrightarrow> byte c < (128::nat) \<and> ascii s"
  by (simp_all add: ascii_def)

lemma ascii_append [simp]: "ascii (s @ t) \<longleftrightarrow> ascii s \<and> ascii t"
  by (simp add: ascii_def)

lemma utf8_chunks_low: "byte c < (128::nat) \<Longrightarrow> utf8_chunks (c # s) = (byte c, [c]) # utf8_chunks s"
  by (subst utf8_chunks.simps) (simp add: decode_rune_def)

lemma utf8_chunks_ascii: "ascii s \<Longrightarrow> utf8_chunks s = map (\<lambda>c. (byte c, [c])) s"
  by (induction s) (auto simp: utf8_chunks_low)

lemma runes_ascii: "ascii s \<Longrightarrow> runes s = map byte s"
  by (simp add: runes_def utf8_chunks_ascii comp_def)

definition space_char :: "char \<Rightarrow> bool" where
  "space_char c = is_space_rune (byte c)"

lemma chunks_bytes_map: "chunks_bytes (map (\<lambda>c. (byte c, [c])) s) = s"
  by (induction s) (auto simp: chunks_bytes_def)

lemma trim_space_ascii:
  "ascii s \<Longrightarrow> trim_space s = rev (dropWhile space_char (rev (dropWhile space_char s)))"
  by (simp add: trim_space_def utf8_chunks_ascii dropWhile_map comp_def
      chunks_bytes_map space_char_def[abs_def] rev_map)

text \<open>A string whose first and last rune are not spaces is left alone.\<close>

lemma trim_space_id:
  assumes "ascii s" and "s \<noteq> []" and "\<not> space_char (hd s)" and "\<not> space_char (last s)"
  shows "trim_space s = s"
proof -
  have 1: "dropWhile space_char s = s"
    using assms by (cases s) auto
  have 2: "dropWhile space_char (rev s) = rev s"
    using assms by (cases s rule: rev_cases) auto
  show ?thesis using assms(1) by (simp add: trim_space_ascii 1 2)
qed

lemma trim_space_Nil [simp]: "trim_space [] = []"
  by (simp add: trim_space_def chunks_bytes_def)

subsection \<open>Decoding what was encoded\<close>

definition valid_rune :: "nat \<Rightarrow> bool" where
  "valid_rune r = (r \<le> 1114111 \<and> \<not> (55296 \<le> r \<and> r \<le> 57343))"

lemma of_char_char_of_nat: "n < 256 \<Longrightarrow> byte (char_of n) = (n :: nat)"
  by simp

lemma decode_encode2:
  assumes "128 \<le> r" "r < 2048"
  shows "decode_rune (encode_rune r @ s) = (r, 2)"
proof -
  have a: "r div 64 < 32" "2 \<le> r div 64" using assms by auto
  have e: "encode_rune r = [char_of (192 + r div 64), char_of (128 + r mod 64)]"
    using assms by (simp add: encode_rune_def)
  have b: "byte (char_of (192 + r div 64)) = 192 + r div 64"
          "byte (char_of (128 + r mod 64)) = 128 + r mod 64"
    using a by (auto intro!: of_char_char_of_nat)
  have "(r div 64) * 64 + r mod 64 = r" by simp
  thus ?thesis using a
    by (simp add: e decode_rune_def Let_def in_rng_def b del: of_char_of)
qed

lemma decode_encode3:
  assumes "2048 \<le> r" "r < 65536" "\<not> (55296 \<le> r \<and> r \<le> 57343)"
  shows "decode_rune (encode_rune r @ s) = (r, 3)"
proof -
  define x y z where d: "x = r div 4096" "y = r div 64 mod 64" "z = r mod 64"
  have r: "x * 4096 + y * 64 + z = r"
  proof -
    have "r div 64 = x * 64 + y" using d by (simp add: div_mult2_eq [of r 64 64, simplified])
    moreover have "r = r div 64 * 64 + z" using d by simp
    ultimately show ?thesis by (simp add: algebra_simps)
  qed
  have l: "x < 16" "y < 64" "z < 64" using d assms by auto
  have "\<not> (55296 \<le> r \<and> r \<le> 57343)" "\<not> r < 128" "\<not> r < 2048" "\<not> 1114111 < r"
    using assms by auto
  hence e: "encode_rune r = [char_of (224 + x), char_of (128 + y), char_of (128 + z)]"
    unfolding encode_rune_def d using assms(2) by (simp only: if_False simp_thms if_True)
  have b: "byte (char_of (224 + x)) = 224 + x" "byte (char_of (128 + y)) = 128 + y"
          "byte (char_of (128 + z)) = 128 + z"
    using l by (auto intro!: of_char_char_of_nat)
  have "x = 0 \<longrightarrow> 32 \<le> y" "x = 13 \<longrightarrow> y < 32" using r assms l by auto
  thus ?thesis using l r
    by (simp add: e decode_rune_def Let_def in_rng_def b del: of_char_of) auto
qed

lemma decode_encode4:
  assumes "65536 \<le> r" "r \<le> 1114111"
  shows "decode_rune (encode_rune r @ s) = (r, 4)"
proof -
  define w x y z where d: "w = r div 262144" "x = r div 4096 mod 64" "y = r div 64 mod 64" "z = r mod 64"
  have r: "w * 262144 + x * 4096 + y * 64 + z = r"
  proof -
    have "r div 4096 = w * 64 + x" using d by (simp add: div_mult2_eq [of r 4096 64, simplified])
    moreover have "r div 64 = r div 4096 * 64 + y"
      using d by (simp add: div_mult2_eq [of r 64 64, simplified])
    moreover have "r = r div 64 * 64 + z" using d by simp
    ultimately show ?thesis by (simp add: algebra_simps)
  qed
  have l: "w \<le> 4" "x < 64" "y < 64" "z < 64" using d assms by auto
  have e: "encode_rune r = [char_of (240 + w), char_of (128 + x), char_of (128 + y), char_of (128 + z)]"
    using assms d by (simp add: encode_rune_def)
  have b: "byte (char_of (240 + w)) = 240 + w" "byte (char_of (128 + x)) = 128 + x"
          "byte (char_of (128 + y)) = 128 + y" "byte (char_of (128 + z)) = 128 + z"
    using l by (auto intro!: of_char_char_of_nat)
  have "w = 0 \<longrightarrow> 16 \<le> x" "w = 4 \<longrightarrow> x < 16" using r assms l by auto
  thus ?thesis using l r
    by (simp add: e decode_rune_def Let_def in_rng_def b del: of_char_of) auto
qed

lemma decode_encode:
  assumes "valid_rune r"
  shows "decode_rune (encode_rune r @ s) = (r, length (encode_rune r))"
proof -
  consider "r < 128" | "128 \<le> r" "r < 2048" | "2048 \<le> r" "r < 65536" | "65536 \<le> r"
    by linarith
  thus ?thesis
  proof cases
    case 1
    thus ?thesis by (simp add: encode_rune_def decode_rune_def)
  next
    case 2
    thus ?thesis using decode_encode2 by (simp add: encode_rune_def)
  next
    case 3
    thus ?thesis using decode_encode3[of r s] assms by (simp add: encode_rune_def valid_rune_def)
  next
    case 4
    thus ?thesis using decode_encode4[of r s] assms by (simp add: encode_rune_def valid_rune_def)
  qed
qed

lemma encode_rune_not_Nil [simp]: "encode_rune r \<noteq> []"
  by (simp add: encode_rune_def)

lemma utf8_chunks_encode:
  "valid_rune r \<Longrightarrow> utf8_chunks (encode_rune r @ s) = (r, encode_rune r) # utf8_chunks s"
  by (subst utf8_chunks.simps) (simp add: decode_encode)

lemma runes_encode_runes: "list_all valid_rune rs \<Longrightarrow> runes (encode_runes rs) = rs"
  by (induction rs) (auto simp: runes_def encode_runes_def utf8_chunks_encode)

lemma encode_runes_append [simp]: "encode_runes (xs @ ys) = encode_runes xs @ encode_runes ys"
  by (simp add: encode_runes_def)

lemma encode_runes_concat: "encode_runes (concat xss) = concat (map encode_runes xss)"
  by (induction xss) (auto simp: encode_runes_def)

subsection \<open>Numbers as decimal text\<close>

fun nat_dec :: "nat \<Rightarrow> string" where
  "nat_dec n = (if n < 10 then [char_of (48 + n)] else nat_dec (n div 10) @ [char_of (48 + n mod 10)])"

declare nat_dec.simps [simp del]

definition itoa :: "int \<Rightarrow> string" where
  "itoa i = (if i < 0 then CHR ''-'' # nat_dec (nat (- i)) else nat_dec (nat i))"

definition is_digit :: "char \<Rightarrow> bool" where
  "is_digit c = in_rng 48 57 c"

definition dec_value :: "string \<Rightarrow> nat" where
  "dec_value s = foldl (\<lambda>n c. n * 10 + (byte c - 48)) 0 s"

lemma nat_dec_not_Nil [simp]: "nat_dec n \<noteq> []"
  by (subst nat_dec.simps) simp

lemma nat_dec_digits: "list_all is_digit (nat_dec n)"
proof (induction n rule: nat_dec.induct)
  case (1 n)
  have *: "is_digit (char_of (48 + k))" if "k < 10" for k :: nat
    using that by (simp add: is_digit_def in_rng_def)
  show ?case
    by (subst nat_dec.simps) (use 1 in \<open>auto intro!: *\<close>)
qed

lemma dec_value_nat_dec: "dec_value (nat_dec n) = n"
proof (induction n rule: nat_dec.induct)
  case (1 n)
  show ?case
    by (subst nat_dec.simps) (use 1 in \<open>auto simp: dec_value_def\<close>)
qed

text \<open>\<open>strconv.Atoi\<close> (and \<open>ParseInt\<close> base 10): an optional sign and at least one digit.\<close>

definition atoi :: "string \<Rightarrow> int option" where
  "atoi s =
     (let (neg, ds) = (case s of c # cs \<Rightarrow> if c = CHR ''-'' then (True, cs)
                                           else if c = CHR ''+'' then (False, cs) else (False, s)
                        | [] \<Rightarrow> (False, s));
          n = int (dec_value ds);
          v = (if neg then - n else n)
      in if ds = [] \<or> \<not> list_all is_digit ds then None
         else if v < - (2 ^ 63) \<or> 2 ^ 63 \<le> v then None else Some v)"

lemma atoi_itoa:
  assumes "- (2 ^ 63) \<le> i" "i < 2 ^ 63"
  shows "atoi (itoa i) = Some i"
proof (cases "i < 0")
  case True
  then show ?thesis
    using assms by (simp add: atoi_def itoa_def nat_dec_digits dec_value_nat_dec)
next
  case False
  obtain c cs where n: "nat_dec (nat i) = c # cs" by (meson nat_dec_not_Nil neq_Nil_conv)
  moreover have "is_digit c" using nat_dec_digits[of "nat i"] n by simp
  hence "c \<noteq> CHR ''-''" "c \<noteq> CHR ''+''" by (auto simp: is_digit_def in_rng_def)
  moreover have "dec_value (c # cs) = nat i" "list_all is_digit (c # cs)"
    using n dec_value_nat_dec[of "nat i"] nat_dec_digits[of "nat i"] by auto
  ultimately show ?thesis
    using False assms by (simp add: atoi_def itoa_def)
qed

subsection \<open>Quoted literals\<close>

definition hex_val :: "char \<Rightarrow> nat option" where
  "hex_val c = (if is_digit c then Some (byte c - 48)
                else if in_rng 97 102 c then Some (byte c - 87)
                else if in_rng 65 70 c then Some (byte c - 55) else None)"

fun hex_number :: "string \<Rightarrow> nat \<Rightarrow> nat option" where
  "hex_number [] acc = Some acc"
| "hex_number (c # cs) acc = (case hex_val c of None \<Rightarrow> None | Some v \<Rightarrow> hex_number cs (acc * 16 + v))"

definition oct_val :: "char \<Rightarrow> nat option" where
  "oct_val c = (if in_rng 48 55 c then Some (byte c - 48) else None)"

text \<open>
  \<open>strconv.UnquoteChar\<close> after a backslash, inside double quotes: the bytes the
  escape stands for and how many characters follow the backslash.
\<close>

definition unquote_escape :: "string \<Rightarrow> (string \<times> nat) option" where
  "unquote_escape s = (case s of [] \<Rightarrow> None | c # cs \<Rightarrow>
     if c = CHR ''a'' then Some ([char_of (7::nat)], 1)
     else if c = CHR ''b'' then Some ([char_of (8::nat)], 1)
     else if c = CHR ''f'' then Some ([char_of (12::nat)], 1)
     else if c = CHR ''n'' then Some ([char_of (10::nat)], 1)
     else if c = CHR ''r'' then Some ([char_of (13::nat)], 1)
     else if c = CHR ''t'' then Some ([char_of (9::nat)], 1)
     else if c = CHR ''v'' then Some ([char_of (11::nat)], 1)
     else if c = CHR 0x5C \<or> c = CHR 0x22 then Some ([c], 1)
     else if c = CHR ''x'' then
       (if length cs < 2 then None
        else map_option (\<lambda>v. ([char_of v], 3)) (hex_number (take 2 cs) 0))
     else if c = CHR ''u'' \<or> c = CHR ''U'' then
       (let n = (if c = CHR ''u'' then 4 else 8) in
        if length cs < n then None
        else case hex_number (take n cs) 0 of None \<Rightarrow> None
             | Some v \<Rightarrow> if valid_rune v then Some (encode_rune v, n + 1) else None)
     else if in_rng 48 55 c then
       (if length cs < 2 then None
        else case (oct_val c, oct_val (cs ! 0), oct_val (cs ! 1)) of
               (Some a, Some b, Some d) \<Rightarrow>
                 (if a * 64 + b * 8 + d < 256 then Some ([char_of (a * 64 + b * 8 + d)], 3) else None)
             | _ \<Rightarrow> None)
     else None)"

text \<open>
  \<open>strconv.Unquote\<close> on the text that follows the opening double quote.
\<close>

function unquote_body :: "string \<Rightarrow> string option" where
  "unquote_body [] = None"
| "unquote_body (c # cs) =
     (if c = CHR 0x22 then (if cs = [] then Some [] else None)
      else if c = CHR 0x0A then None
      else if c = CHR 0x5C then
        (case unquote_escape cs of None \<Rightarrow> None
         | Some (b, n) \<Rightarrow> map_option ((@) b) (unquote_body (drop n cs)))
      else
        (let (r, w) = decode_rune (c # cs) in
         map_option ((@) (encode_rune r)) (unquote_body (drop (w - 1) cs))))"
  by pat_completeness auto
termination by (relation "measure length") auto

end
