(* ===== verification/GoValue.thy ===== *)
theory GoValue
  imports Utf8 Complex_Main
begin

text \<open>
  Go's \<open>float64\<close> and the dynamically typed values (\<open>any\<close>) JSON decodes into.

  A finite \<open>float64\<close> is the rational number it denotes; \<open>rnd\<close> rounds to nearest,
  ties to even, with 53 bits of significand and the subnormal range, so a
  floating-point operation is \<open>rnd\<close> of the exact one as long as it does not
  overflow (\<open>f64_round\<close> says when it does).
\<close>

subsection \<open>Rounding to float64\<close>

fun bit_len :: "nat \<Rightarrow> nat" where
  "bit_len n = (if n = 0 then 0 else Suc (bit_len (n div 2)))"

declare bit_len.simps [simp del]

definition pow2 :: "int \<Rightarrow> rat" where
  "pow2 k = (if 0 \<le> k then 2 ^ nat k else 1 / 2 ^ nat (- k))"

definition round_half_even :: "rat \<Rightarrow> int" where
  "round_half_even q =
     (let f = floor q; d = q - of_int f in
      if d < 1 / 2 then f else if 1 / 2 < d then f + 1 else if even f then f else f + 1)"

text \<open>The exponent of a positive rational: the power of two below it.\<close>

definition rat_exp :: "rat \<Rightarrow> int" where
  "rat_exp a =
     (let (p, d) = quotient_of a; e = int (bit_len (nat p)) - int (bit_len (nat d)) in
      if a < pow2 e then e - 1 else e)"

definition ulp_exp :: "rat \<Rightarrow> int" where
  "ulp_exp a = max (rat_exp a - 52) (- 1074)"

definition rnd :: "rat \<Rightarrow> rat" where
  "rnd q = (if q = 0 then 0
            else let u = pow2 (ulp_exp \<bar>q\<bar>) in
                 sgn q * (of_int (round_half_even (\<bar>q\<bar> / u)) * u))"

definition f64_round :: "rat \<Rightarrow> rat option" where
  "f64_round q = (if rnd q = 0 \<or> rat_exp \<bar>rnd q\<bar> < 1024 then Some (rnd q) else None)"

lemma pow2_pos [simp]: "0 < pow2 k"
  by (simp add: pow2_def)

lemma rnd_0 [simp]: "rnd 0 = 0"
  by (simp add: rnd_def)

lemma round_half_even_of_int [simp]: "round_half_even (of_int k) = k"
  by (simp add: round_half_even_def)

lemma round_half_even_nonneg: "0 \<le> q \<Longrightarrow> 0 \<le> round_half_even q"
  by (auto simp: round_half_even_def Let_def)

lemma rnd_nonneg: "0 \<le> q \<Longrightarrow> 0 \<le> rnd q"
proof -
  assume q: "0 \<le> q"
  have u: "0 \<le> pow2 (ulp_exp q)" by (simp add: less_imp_le)
  hence "0 \<le> round_half_even (q / pow2 (ulp_exp q))"
    using q by (simp add: round_half_even_nonneg)
  hence "0 \<le> rat_of_int (round_half_even (q / pow2 (ulp_exp q))) * pow2 (ulp_exp q)"
    using u by (simp only: mult_nonneg_nonneg of_int_0_le_iff)
  thus ?thesis using q by (simp only: rnd_def Let_def sgn_if abs_of_nonneg) auto
qed

lemma rnd_minus: "rnd (- q) = - rnd q"
  by (auto simp: rnd_def Let_def sgn_if)

lemma bit_len_le: "n < 2 ^ k \<Longrightarrow> bit_len n \<le> k"
proof (induction n arbitrary: k rule: bit_len.induct)
  case (1 n)
  show ?case
  proof (cases "n = 0")
    case True thus ?thesis by (simp add: bit_len.simps)
  next
    case False
    with 1(2) obtain j where k: "k = Suc j" by (cases k) auto
    have "n div 2 < 2 ^ j" using 1(2) k by auto
    thus ?thesis using 1(1)[OF False] False k by (subst bit_len.simps) simp
  qed
qed

text \<open>Integers of at most 53 bits are exact.\<close>

lemma rnd_of_nat:
  assumes "n < 2 ^ 53"
  shows "rnd (of_nat n) = of_nat n"
proof (cases "n = 0")
  case False
  let ?u = "ulp_exp (of_nat n)"
  have q: "quotient_of (of_nat n) = (int n, 1)"
    by (metis of_int_of_nat_eq quotient_of_int Rat.of_int_def)
  have b1: "bit_len (Suc 0) = 1" by (simp add: bit_len.simps)
  have "bit_len n \<le> 53" using assms bit_len_le by blast
  hence "rat_exp (of_nat n) \<le> 52" by (simp add: rat_exp_def q b1 Let_def)
  hence u: "?u \<le> 0" by (simp add: ulp_exp_def)
  have nz: "pow2 ?u \<noteq> 0" using pow2_pos[of ?u] by linarith
  have "(of_nat n :: rat) / pow2 ?u = of_int (int n * 2 ^ nat (- ?u))"
    using u by (cases "?u = 0") (auto simp: pow2_def)
  hence "round_half_even ((of_nat n :: rat) / pow2 ?u) = int n * 2 ^ nat (- ?u)"
    by (metis round_half_even_of_int)
  moreover have "(2 ^ nat (- ?u) :: rat) * pow2 ?u = 1"
    using u by (cases "?u = 0") (auto simp: pow2_def)
  ultimately show ?thesis using False nz by (simp add: rnd_def Let_def)
qed simp

text \<open>Rounding is monotone.\<close>

lemma pow2_powi: "pow2 k = 2 powi k"
  by (simp add: pow2_def power_int_def field_simps)

lemma pow2_mono: "j \<le> k \<Longrightarrow> pow2 j \<le> pow2 k"
  by (simp add: pow2_powi power_int_increasing)

lemma pow2_strict_mono: "j < k \<Longrightarrow> pow2 j < pow2 k"
  by (simp add: pow2_powi power_int_strict_increasing)

lemma pow2_le_iff: "pow2 j \<le> pow2 k \<longleftrightarrow> j \<le> k"
  by (meson linorder_not_le pow2_mono pow2_strict_mono)

lemma pow2_less_iff: "pow2 j < pow2 k \<longleftrightarrow> j < k"
  by (meson linorder_not_le pow2_mono pow2_strict_mono)

lemma pow2_diff: "pow2 (j - k) = pow2 j / pow2 k"
  by (simp add: pow2_powi power_int_diff)

lemma pow2_nat: "0 \<le> k \<Longrightarrow> pow2 k = of_int (2 ^ nat k)"
  by (simp add: pow2_def)

lemma bit_len_bounds: "0 < n \<Longrightarrow> 2 ^ (bit_len n - 1) \<le> n \<and> n < 2 ^ bit_len n \<and> 0 < bit_len n"
proof (induction n rule: bit_len.induct)
  case (1 n)
  show ?case
  proof (cases "n div 2 = 0")
    case True
    hence "n = 1" using 1 by auto
    thus ?thesis by (simp add: bit_len.simps)
  next
    case False
    with 1 have "2 ^ (bit_len (n div 2) - 1) \<le> n div 2 \<and> n div 2 < 2 ^ bit_len (n div 2) \<and> 0 < bit_len (n div 2)"
      by auto
    moreover have "bit_len n = Suc (bit_len (n div 2))" using 1(2) by (subst bit_len.simps) simp
    ultimately show ?thesis by (cases "bit_len (n div 2)") auto
  qed
qed

lemma rat_exp_bounds:
  assumes "0 < a"
  shows "pow2 (rat_exp a) \<le> a" "a < pow2 (rat_exp a + 1)"
proof -
  obtain p d where pd: "quotient_of a = (p, d)" by fastforce
  hence a: "a = of_int p / of_int d" "0 < d"
    using quotient_of_div quotient_of_denom_pos by blast+
  hence "0 < p" using assms by (simp add: zero_less_divide_iff)
  define P D where PD: "P = nat p" "D = nat d"
  have pos: "0 < P" "0 < D" using a \<open>0 < p\<close> PD by auto
  have aPD: "a = of_nat P / of_nat D" using a \<open>0 < p\<close> PD by simp
  define e where "e = int (bit_len P) - int (bit_len D)"
  note bP = bit_len_bounds[OF pos(1)] and bD = bit_len_bounds[OF pos(2)]
  have cast: "of_nat (2 ^ k) = pow2 (int k)" for k by (simp add: pow2_def)
  have lP: "pow2 (int (bit_len P) - 1) \<le> of_nat P" and uP: "of_nat P < pow2 (int (bit_len P))"
    using bP cast[of "bit_len P - 1"] cast[of "bit_len P"]
    by (metis of_nat_le_iff of_nat_diff of_nat_1 Suc_leI One_nat_def, metis of_nat_less_iff)
  have lD: "pow2 (int (bit_len D) - 1) \<le> of_nat D" and uD: "of_nat D < pow2 (int (bit_len D))"
    using bD cast[of "bit_len D - 1"] cast[of "bit_len D"]
    by (metis of_nat_le_iff of_nat_diff of_nat_1 Suc_leI One_nat_def, metis of_nat_less_iff)
  have up: "a < pow2 (e + 1)"
  proof -
    have "a \<le> of_nat P / pow2 (int (bit_len D) - 1)"
      unfolding aPD using lD by (intro divide_left_mono) (auto simp: pos)
    also have "\<dots> < pow2 (int (bit_len P)) / pow2 (int (bit_len D) - 1)"
      using uP by (intro divide_strict_right_mono) auto
    also have "\<dots> = pow2 (e + 1)" by (simp add: e_def algebra_simps flip: pow2_diff)
    finally show ?thesis .
  qed
  have lo: "pow2 (e - 1) \<le> a"
  proof -
    have "pow2 (e - 1) = pow2 (int (bit_len P) - 1) / pow2 (int (bit_len D))"
      by (simp add: e_def algebra_simps flip: pow2_diff)
    also have "\<dots> \<le> of_nat P / pow2 (int (bit_len D))"
      using lP by (intro divide_right_mono) (auto simp: less_imp_le)
    also have "\<dots> \<le> a"
      unfolding aPD using uD by (intro divide_left_mono) (auto simp: pos)
    finally show ?thesis .
  qed
  have "rat_exp a = (if a < pow2 e then e - 1 else e)"
    by (simp add: rat_exp_def pd e_def PD Let_def)
  thus "pow2 (rat_exp a) \<le> a" "a < pow2 (rat_exp a + 1)" using lo up by (auto split: if_splits)
qed

lemma round_half_even_mono: "q \<le> r \<Longrightarrow> round_half_even q \<le> round_half_even r"
proof -
  assume qr: "q \<le> r"
  have b: "floor x \<le> round_half_even x \<and> round_half_even x \<le> floor x + 1" for x
    by (auto simp: round_half_even_def Let_def)
  consider "floor q = floor r" | "floor q + 1 \<le> floor r"
    using floor_mono[OF qr] by linarith
  thus ?thesis
  proof cases
    case 1
    thus ?thesis using qr by (auto simp: round_half_even_def Let_def)
  next
    case 2
    thus ?thesis using b[of q] b[of r] by linarith
  qed
qed

lemma rnd_mono_pos:
  assumes "0 < x" "x \<le> y"
  shows "rnd x \<le> rnd y"
proof -
  let ?ux = "ulp_exp x" and ?uy = "ulp_exp y"
  have y: "0 < y" using assms by simp
  note bx = rat_exp_bounds[OF assms(1)] and bY = rat_exp_bounds[OF y]
  have rx: "rnd x = of_int (round_half_even (x / pow2 ?ux)) * pow2 ?ux"
    and ry: "rnd y = of_int (round_half_even (y / pow2 ?uy)) * pow2 ?uy"
    using assms y by (simp_all add: rnd_def Let_def)
  have "pow2 (rat_exp x) < pow2 (rat_exp y + 1)" using bx bY assms by linarith
  hence e: "rat_exp x \<le> rat_exp y" by (simp add: pow2_less_iff)
  show ?thesis
  proof (cases "?ux = ?uy")
    case True
    have "round_half_even (x / pow2 ?ux) \<le> round_half_even (y / pow2 ?ux)"
      using assms by (intro round_half_even_mono divide_right_mono) (auto simp: less_imp_le)
    thus ?thesis unfolding rx ry True[symmetric]
      by (intro mult_right_mono) (auto simp: less_imp_le)
  next
    case False
    hence u: "?uy = rat_exp y - 52" "rat_exp x < rat_exp y" "?ux < ?uy"
      using e by (auto simp: ulp_exp_def)
    have xb: "x \<le> pow2 (rat_exp y)"
    proof -
      have "pow2 (rat_exp x + 1) \<le> pow2 (rat_exp y)" using u by (simp add: pow2_le_iff)
      thus ?thesis using bx by linarith
    qed
    have "x / pow2 ?ux \<le> pow2 (rat_exp y) / pow2 ?ux"
      using xb by (intro divide_right_mono) (auto simp: less_imp_le)
    also have "\<dots> = of_int (2 ^ nat (rat_exp y - ?ux))"
      using u by (simp add: pow2_nat flip: pow2_diff)
    finally have "round_half_even (x / pow2 ?ux) \<le> 2 ^ nat (rat_exp y - ?ux)"
      by (metis round_half_even_mono round_half_even_of_int)
    moreover have "pow2 (rat_exp y - ?ux) = of_int (2 ^ nat (rat_exp y - ?ux))"
      using u by (intro pow2_nat) simp
    ultimately have "of_int (round_half_even (x / pow2 ?ux)) \<le> pow2 (rat_exp y - ?ux)"
      by (simp only: of_int_le_iff)
    hence "rnd x \<le> pow2 (rat_exp y - ?ux) * pow2 ?ux"
      unfolding rx by (intro mult_right_mono) (auto simp: less_imp_le)
    hence 1: "rnd x \<le> pow2 (rat_exp y)"
      using pow2_pos[of ?ux] by (simp add: pow2_diff)
    have "of_int (2 ^ 52) = pow2 (rat_exp y) / pow2 ?uy"
      using u by (simp add: pow2_nat flip: pow2_diff)
    also have "\<dots> \<le> y / pow2 ?uy"
      using bY by (intro divide_right_mono) (auto simp: less_imp_le)
    finally have "2 ^ 52 \<le> round_half_even (y / pow2 ?uy)"
      by (metis round_half_even_mono round_half_even_of_int)
    hence "rat_of_int (2 ^ 52) \<le> of_int (round_half_even (y / pow2 ?uy))"
      by (simp only: of_int_le_iff)
    hence "(2 ^ 52 :: rat) \<le> of_int (round_half_even (y / pow2 ?uy))" by simp
    hence "2 ^ 52 * pow2 ?uy \<le> rnd y"
      unfolding ry by (intro mult_right_mono) (auto simp: less_imp_le)
    moreover have "2 ^ 52 * pow2 ?uy = pow2 (rat_exp y)"
      using u pow2_diff[of "rat_exp y" 52] by (simp add: pow2_def[of 52])
    ultimately show ?thesis using 1 by simp
  qed
qed

lemma rnd_mono: "x \<le> y \<Longrightarrow> rnd x \<le> rnd y"
proof -
  assume xy: "x \<le> y"
  consider "0 < x" | "x \<le> 0" "0 \<le> y" | "y < 0" by linarith
  thus ?thesis
  proof cases
    case 1 thus ?thesis using xy rnd_mono_pos by blast
  next
    case 2
    have "rnd x = - rnd (- x)" by (simp add: rnd_minus)
    thus ?thesis using 2 rnd_nonneg[of "- x"] rnd_nonneg[of y] by simp
  next
    case 3
    have "rnd (- y) \<le> rnd (- x)" using 3 xy by (intro rnd_mono_pos) auto
    thus ?thesis by (simp add: rnd_minus)
  qed
qed

lemma rnd_pow2:
  assumes "- 1022 \<le> k"
  shows "rnd (pow2 k) = pow2 k"
proof -
  have "pow2 k < pow2 (rat_exp (pow2 k) + 1)" "pow2 (rat_exp (pow2 k)) \<le> pow2 k"
    using rat_exp_bounds[of "pow2 k"] by simp_all
  hence "rat_exp (pow2 k) = k" by (simp add: pow2_less_iff pow2_le_iff)
  hence u: "ulp_exp (pow2 k) = k - 52" using assms by (simp add: ulp_exp_def)
  have "pow2 k / pow2 (k - 52) = of_int (2 ^ 52)"
    by (simp add: pow2_nat flip: pow2_diff)
  hence "round_half_even (pow2 k / pow2 (k - 52)) = 2 ^ 52" by (metis round_half_even_of_int)
  moreover have "2 ^ 52 * pow2 (k - 52) = pow2 k"
    using pow2_diff[of k 52] by (simp add: pow2_def[of 52])
  ultimately show ?thesis
    by (simp add: rnd_def Let_def u abs_of_pos)
qed

subsection \<open>Dynamically typed values\<close>

text \<open>
  The dynamic types that reach the program's type switches: what
  \<open>encoding/json\<close> decodes into (\<open>nil, bool, float64, string, []any,
  map[string]any\<close>) and the integer types the code builds itself.  A map is an
  association list; a key occurs once in values the decoder builds.
\<close>

datatype goval =
    VNil
  | VBool bool
  | VFloat rat
  | VInt int
  | VInt64 int
  | VNumber string
  | VStr string
  | VArr "goval list"
  | VObj "(string \<times> goval) list"

text \<open>\<open>float64(n)\<close> of an \<open>int64\<close>, and \<open>int64(x)\<close> of a float: truncation in range,
  an implementation-specific value out of range (the argument \<open>oor\<close>).\<close>

definition f64_of_int :: "int \<Rightarrow> rat" where
  "f64_of_int n = rnd (of_int n)"

definition trunc_rat :: "rat \<Rightarrow> int" where
  "trunc_rat q = (if 0 \<le> q then floor q else - floor (- q))"

definition int64_of_f64 :: "(rat \<Rightarrow> int) \<Rightarrow> rat \<Rightarrow> int" where
  "int64_of_f64 oor x =
     (let t = trunc_rat x in if - (2 ^ 63) \<le> t \<and> t < 2 ^ 63 then t else oor x)"

lemma int64_of_f64_int:
  "- (2 ^ 63) \<le> n \<Longrightarrow> n < 2 ^ 63 \<Longrightarrow> int64_of_f64 oor (of_int n) = n"
  by (simp add: int64_of_f64_def trunc_rat_def Let_def flip: of_int_minus)

text \<open>\<open>map[string]any\<close> lookups; a map is an association list with distinct keys.\<close>

fun obj_lookup :: "goval \<Rightarrow> string \<Rightarrow> goval option" where
  "obj_lookup (VObj kvs) k = map_of kvs k"
| "obj_lookup _ k = None"

subsection \<open>Floats as text\<close>

text \<open>
  \<open>strconv.FormatFloat(x, 'f', -1, 64)\<close>: the shortest decimal that reads back as
  \<open>x\<close>, nearest to \<open>x\<close> among those of its length, in positional notation.
\<close>

definition pow10 :: "int \<Rightarrow> rat" where
  "pow10 k = (if 0 \<le> k then 10 ^ nat k else 1 / 10 ^ nat (- k))"

definition dec_exp :: "rat \<Rightarrow> int" where
  "dec_exp x = (if 1 \<le> x then int (length (nat_dec (nat (floor x)))) - 1
                else - int (length (nat_dec (nat (ceiling (1 / x) - 1)))))"

definition dec_candidate :: "rat \<Rightarrow> nat \<Rightarrow> (nat \<times> int) option" where
  "dec_candidate x n =
     (let e = dec_exp x - int n + 1;
          lo = nat (floor (x / pow10 e));
          ok = (\<lambda>c. rnd (of_nat c * pow10 e) = x);
          dlo = x - of_nat lo * pow10 e;
          dhi = of_nat (lo + 1) * pow10 e - x
      in if ok lo \<and> ok (lo + 1) then
           Some (if dlo < dhi \<or> (dlo = dhi \<and> even lo) then lo else lo + 1, e)
         else if ok lo then Some (lo, e)
         else if ok (lo + 1) then Some (lo + 1, e) else None)"

fun first_candidate :: "rat \<Rightarrow> nat list \<Rightarrow> nat \<times> int" where
  "first_candidate x [] = (0, 0)"
| "first_candidate x (n # ns) =
     (case dec_candidate x n of Some c \<Rightarrow> c | None \<Rightarrow> first_candidate x ns)"

definition positional :: "string \<Rightarrow> int \<Rightarrow> string" where
  "positional ds e =
     (if 0 \<le> e then ds @ replicate (nat e) CHR ''0''
      else let k = nat (- e) in
           if k < length ds then take (length ds - k) ds @ ''.'' @ drop (length ds - k) ds
           else ''0.'' @ replicate (k - length ds) CHR ''0'' @ ds)"

definition format_float_f :: "rat \<Rightarrow> string" where
  "format_float_f x =
     (if x = 0 then ''0''
      else let (c, e) = first_candidate \<bar>x\<bar> [1..<18];
               t = positional (nat_dec c) e
           in if x < 0 then CHR ''-'' # t else t)"

end
