(* ===== verification/Json.thy ===== *)
theory Json
  imports GoValue
begin

text \<open>
  \<open>encoding/json\<close> as the program uses it: \<open>json.Unmarshal\<close> into an \<open>any\<close>.  The
  reader takes fuel, one unit per nested value and per element; \<open>json_unmarshal\<close>
  starts it with twice the length of the text, which no document exhausts,
  since every step but the last of a composite value consumes a byte.
\<close>

definition json_ws :: "char \<Rightarrow> bool" where
  "json_ws c = (byte c \<in> {32, 9, 10, 13 :: nat})"

definition skip_ws :: "string \<Rightarrow> string" where
  "skip_ws = dropWhile json_ws"

lemma skip_ws_length: "length (skip_ws s) \<le> length s"
  by (simp add: skip_ws_def length_dropWhile_le)

subsection \<open>Strings\<close>

definition u4 :: "string \<Rightarrow> nat option" where
  "u4 s = (if length s < 4 then None else hex_number (take 4 s) 0)"

definition is_surrogate :: "nat \<Rightarrow> bool" where
  "is_surrogate r = (55296 \<le> r \<and> r < 57344)"

text \<open>The rune a \<open>\\u\<close> escape stands for and the characters after the \<open>u\<close> it takes;
  a high surrogate followed by an escaped low one is one rune, a lone one is U+FFFD.\<close>

definition json_u_escape :: "string \<Rightarrow> (nat \<times> nat) option" where
  "json_u_escape s = (case u4 s of None \<Rightarrow> None | Some r \<Rightarrow>
     if \<not> is_surrogate r then Some (r, 4)
     else if r < 56320 \<and> take 2 (drop 4 s) = [CHR 0x5C, CHR ''u''] then
       (case u4 (drop 6 s) of
          Some r2 \<Rightarrow> if 56320 \<le> r2 \<and> r2 < 57344
                     then Some ((r - 55296) * 1024 + (r2 - 56320) + 65536, 10)
                     else Some (rune_error, 4)
        | None \<Rightarrow> Some (rune_error, 4))
     else Some (rune_error, 4))"

text \<open>The decoded string that follows an opening quote, and the text after the closing one.\<close>

function json_string :: "string \<Rightarrow> (string \<times> string) option" where
  "json_string [] = None"
| "json_string (c # cs) =
     (if c = CHR 0x22 then Some ([], cs)
      else if byte c < (32::nat) then None
      else if c = CHR 0x5C then
        (case cs of [] \<Rightarrow> None
         | e # es \<Rightarrow>
             if e = CHR ''u'' then
               (case json_u_escape es of None \<Rightarrow> None
                | Some (r, n) \<Rightarrow> map_option (\<lambda>(b, rest). (encode_rune r @ b, rest))
                                  (json_string (drop n es)))
             else
               (case map_of [(CHR 0x22, 34), (CHR 0x5C, 92), (CHR ''/'', 47), (CHR ''b'', 8),
                             (CHR ''f'', 12), (CHR ''n'', 10), (CHR ''r'', 13), (CHR ''t'', 9)] e of
                  None \<Rightarrow> None
                | Some (b :: nat) \<Rightarrow> map_option (\<lambda>(t, rest). (char_of b # t, rest)) (json_string es)))
      else
        (let (r, w) = decode_rune (c # cs) in
         map_option (\<lambda>(t, rest). (encode_rune r @ t, rest)) (json_string (drop (w - 1) cs))))"
  by pat_completeness auto
termination by (relation "measure length") auto

subsection \<open>Numbers\<close>

definition digits :: "string \<Rightarrow> string \<times> string" where
  "digits s = (takeWhile is_digit s, dropWhile is_digit s)"

text \<open>The grammar of RFC 8259: the exact value and the text that follows.\<close>

definition json_number :: "string \<Rightarrow> (rat \<times> string) option" where
  "json_number s0 =
     (let (neg, s1) = (case s0 of c # cs \<Rightarrow> if c = CHR ''-'' then (True, cs) else (False, s0)
                                 | [] \<Rightarrow> (False, s0));
          (ip, s2) = (if take 1 s1 = ''0'' then (''0'', drop 1 s1) else digits s1);
          (fp, s3, fok) = (case s2 of c # cs \<Rightarrow>
                              if c = CHR ''.'' then (let (f, r) = digits cs in (f, r, f \<noteq> []))
                              else ([], s2, True)
                            | [] \<Rightarrow> ([], s2, True));
          (ex, s4, eok) = (case s3 of c # cs \<Rightarrow>
                              if c = CHR ''e'' \<or> c = CHR ''E'' then
                                (let (sg, t) = (case cs of d # ds \<Rightarrow>
                                                   if d = CHR ''-'' then (- 1, ds)
                                                   else if d = CHR ''+'' then (1, ds) else (1, cs)
                                                 | [] \<Rightarrow> (1, cs));
                                     (e, r) = digits t
                                 in (sg * int (dec_value e), r, e \<noteq> []))
                              else (0, s3, True)
                            | [] \<Rightarrow> (0, s3, True));
          v = of_nat (dec_value (ip @ fp)) * pow10 (ex - int (length fp))
      in if ip = [] \<or> \<not> fok \<or> \<not> eok then None
         else Some (if neg then - v else v, s4))"

subsection \<open>Values\<close>

text \<open>A repeated key overwrites the earlier value (\<open>kv_put\<close>).\<close>

definition json_max_depth :: nat where "json_max_depth = 10000"

fun json_value :: "nat \<Rightarrow> nat \<Rightarrow> string \<Rightarrow> (goval \<times> string) option"
and json_array :: "nat \<Rightarrow> nat \<Rightarrow> string \<Rightarrow> (goval list \<times> string) option"
and json_object :: "nat \<Rightarrow> nat \<Rightarrow> (string \<times> goval) list \<Rightarrow> string \<Rightarrow> ((string \<times> goval) list \<times> string) option" where
  "json_value 0 d s = None"
| "json_value (Suc f) d s =
     (case skip_ws s of [] \<Rightarrow> None
      | c # cs \<Rightarrow>
          if c = CHR 0x22 then map_option (\<lambda>(t, r). (VStr t, r)) (json_string cs)
          else if c = CHR ''{'' then
            (if json_max_depth \<le> d then None
             else if take 1 (skip_ws cs) = ''}'' then Some (VObj [], drop 1 (skip_ws cs))
             else map_option (\<lambda>(kvs, r). (VObj kvs, r)) (json_object f (Suc d) [] cs))
          else if c = CHR ''['' then
            (if json_max_depth \<le> d then None
             else if take 1 (skip_ws cs) = '']'' then Some (VArr [], drop 1 (skip_ws cs))
             else map_option (\<lambda>(vs, r). (VArr vs, r)) (json_array f (Suc d) cs))
          else if has_prefix ''true'' (c # cs) then Some (VBool True, drop 4 (c # cs))
          else if has_prefix ''false'' (c # cs) then Some (VBool False, drop 5 (c # cs))
          else if has_prefix ''null'' (c # cs) then Some (VNil, drop 4 (c # cs))
          else (case json_number (c # cs) of None \<Rightarrow> None
                | Some (q, r) \<Rightarrow> map_option (\<lambda>x. (VFloat x, r)) (f64_round q)))"
| "json_array 0 d s = None"
| "json_array (Suc f) d s =
     (case json_value f d s of None \<Rightarrow> None
      | Some (v, r) \<Rightarrow>
          (case skip_ws r of [] \<Rightarrow> None
           | c # cs \<Rightarrow> if c = CHR '','' then map_option (\<lambda>(vs, r'). (v # vs, r')) (json_array f d cs)
                        else if c = CHR '']'' then Some ([v], cs) else None))"
| "json_object 0 d acc s = None"
| "json_object (Suc f) d acc s =
     (case skip_ws s of [] \<Rightarrow> None
      | q # qs \<Rightarrow> if q \<noteq> CHR 0x22 then None else
          (case json_string qs of None \<Rightarrow> None
           | Some (k, r0) \<Rightarrow>
              (case skip_ws r0 of [] \<Rightarrow> None
               | c0 # cs0 \<Rightarrow> if c0 \<noteq> CHR '':'' then None else
                   (case json_value f d cs0 of None \<Rightarrow> None
                    | Some (v, r) \<Rightarrow>
                        (case skip_ws r of [] \<Rightarrow> None
                         | c # cs \<Rightarrow> if c = CHR '','' then json_object f d (kv_put k v acc) cs
                                      else if c = CHR ''}'' then Some (kv_put k v acc, cs)
                                      else None)))))"

definition json_unmarshal :: "string \<Rightarrow> goval option" where
  "json_unmarshal s =
     (case json_value (2 * length s + 2) 0 s of
        Some (v, r) \<Rightarrow> if skip_ws r = [] then Some v else None
      | None \<Rightarrow> None)"

text \<open>Objects the decoder builds have distinct keys.\<close>

lemma json_object_distinct:
  "json_object f d acc s = Some (kvs, r) \<Longrightarrow> kv_wf acc \<Longrightarrow> kv_wf kvs"
proof (induction f arbitrary: acc s kvs r)
  case (Suc f)
  thus ?case
    by (auto split: list.splits if_splits option.splits prod.splits intro: kv_wf_put
        dest: Suc.IH)
qed simp

end
