(* ===== verification/JsonStruct.thy ===== *)
theory JsonStruct
  imports Json
begin

text \<open>
  \<open>encoding/json\<close>, decoding into structs: a syntactic scan with the raw text of each
  member (\<open>json.RawMessage\<close>), field names matched without regard to case, a shape a
  value must have, \<open>null\<close> leaving a field as it is, and the last occurrence of a
  field winning.  Scanning takes fuel as in \<open>Json\<close>, twice the length of the text.
\<close>

section \<open>Scanning\<close>

fun json_skip :: "nat \<Rightarrow> nat \<Rightarrow> string \<Rightarrow> string option"
and skip_elements :: "nat \<Rightarrow> nat \<Rightarrow> string \<Rightarrow> (string list \<times> string) option"
and skip_members :: "nat \<Rightarrow> nat \<Rightarrow> string \<Rightarrow> ((string \<times> string) list \<times> string) option" where
  "json_skip 0 d s = None"
| "json_skip (Suc f) d s =
     (case skip_ws s of [] \<Rightarrow> None
      | c # cs \<Rightarrow>
          if c = CHR 0x22 then map_option snd (json_string cs)
          else if c = CHR ''{'' then
            (if json_max_depth \<le> d then None
             else if take 1 (skip_ws cs) = ''}'' then Some (drop 1 (skip_ws cs))
             else map_option snd (skip_members f (Suc d) cs))
          else if c = CHR ''['' then
            (if json_max_depth \<le> d then None
             else if take 1 (skip_ws cs) = '']'' then Some (drop 1 (skip_ws cs))
             else map_option snd (skip_elements f (Suc d) cs))
          else if has_prefix ''true'' (c # cs) then Some (drop 4 (c # cs))
          else if has_prefix ''false'' (c # cs) then Some (drop 5 (c # cs))
          else if has_prefix ''null'' (c # cs) then Some (drop 4 (c # cs))
          else map_option snd (json_number (c # cs)))"
| "skip_elements 0 d s = None"
| "skip_elements (Suc f) d s =
     (let s1 = skip_ws s in
      case json_skip f d s1 of None \<Rightarrow> None
      | Some r \<Rightarrow>
          (case skip_ws r of [] \<Rightarrow> None
           | c # cs \<Rightarrow>
               let raw = take (length s1 - length r) s1 in
               if c = CHR '','' then map_option (\<lambda>(rs, r'). (raw # rs, r')) (skip_elements f d cs)
               else if c = CHR '']'' then Some ([raw], cs) else None))"
| "skip_members 0 d s = None"
| "skip_members (Suc f) d s =
     (case skip_ws s of [] \<Rightarrow> None
      | q # qs \<Rightarrow> if q \<noteq> CHR 0x22 then None else
          (case json_string qs of None \<Rightarrow> None
           | Some (k, r0) \<Rightarrow>
              (case skip_ws r0 of [] \<Rightarrow> None
               | c0 # cs0 \<Rightarrow> if c0 \<noteq> CHR '':'' then None else
                   (let s1 = skip_ws cs0 in
                    case json_skip f d s1 of None \<Rightarrow> None
                    | Some r \<Rightarrow>
                        (case skip_ws r of [] \<Rightarrow> None
                         | c # cs \<Rightarrow>
                             let raw = take (length s1 - length r) s1 in
                             if c = CHR '','' then map_option (\<lambda>(ms, r'). ((k, raw) # ms, r')) (skip_members f d cs)
                             else if c = CHR ''}'' then Some ([(k, raw)], cs)
                             else None)))))"

definition json_fuel :: "string \<Rightarrow> nat" where "json_fuel s = 2 * length s + 2"

definition json_valid :: "string \<Rightarrow> bool" where
  "json_valid s = (case json_skip (json_fuel s) 0 s of Some r \<Rightarrow> skip_ws r = [] | None \<Rightarrow> False)"

text \<open>The members of an object and the elements of an array, as raw text.\<close>

definition raw_members :: "string \<Rightarrow> (string \<times> string) list option" where
  "raw_members s =
     (case skip_ws s of [] \<Rightarrow> None
      | c # cs \<Rightarrow>
          if c \<noteq> CHR ''{'' then None
          else if take 1 (skip_ws cs) = ''}'' then Some []
          else map_option fst (skip_members (json_fuel s) 1 cs))"

definition raw_elements :: "string \<Rightarrow> string list option" where
  "raw_elements s =
     (case skip_ws s of [] \<Rightarrow> None
      | c # cs \<Rightarrow>
          if c \<noteq> CHR ''['' then None
          else if take 1 (skip_ws cs) = '']'' then Some []
          else map_option fst (skip_elements (json_fuel s) 1 cs))"

section \<open>Fields\<close>

text \<open>Case folding of names: besides the ASCII letters only two runes fold to ASCII.\<close>

definition json_fold_rune :: "nat \<Rightarrow> nat" where
  "json_fold_rune r = (if 65 \<le> r \<and> r \<le> 90 then r + 32 else if r = 383 then 115 else if r = 8490 then 107 else r)"

definition field_matches :: "string \<Rightarrow> string \<Rightarrow> bool" where
  "field_matches name k = (map json_fold_rune (runes name) = map json_fold_rune (runes k))"

datatype jshape = ShStr | ShBool | ShRaw | ShMap | ShStruct "(string \<times> jshape) list"

definition is_null :: "string \<Rightarrow> bool" where "is_null raw = (raw = ''null'')"

text \<open>A value fits a shape: no type error, at any depth.  A map takes any values the decoder
  of \<open>any\<close> takes.\<close>

fun conforms :: "jshape \<Rightarrow> string \<Rightarrow> bool" where
  "conforms ShStr raw = (is_null raw \<or> take 1 raw = [CHR 0x22])"
| "conforms ShBool raw = (is_null raw \<or> raw = ''true'' \<or> raw = ''false'')"
| "conforms ShRaw raw = True"
| "conforms ShMap raw = (is_null raw \<or> take 1 raw = ''{'' \<and> json_unmarshal raw \<noteq> None)"
| "conforms (ShStruct fs) raw =
     (is_null raw \<or>
      (case raw_members raw of
         None \<Rightarrow> False
       | Some ms \<Rightarrow> list_all (\<lambda>(n, sh). list_all (\<lambda>(k, r). field_matches n k \<longrightarrow> conforms sh r) ms) fs))"

text \<open>The occurrences of a field, in order.\<close>

definition occurrences :: "string \<Rightarrow> string \<Rightarrow> string list" where
  "occurrences name raw =
     (case raw_members raw of None \<Rightarrow> []
      | Some ms \<Rightarrow> map snd (filter (\<lambda>(k, r). field_matches name k) ms))"

definition raw_string :: "string \<Rightarrow> string" where
  "raw_string raw = (case json_string (drop 1 raw) of Some (t, r) \<Rightarrow> t | None \<Rightarrow> [])"

definition field_string :: "string \<Rightarrow> string \<Rightarrow> string" where
  "field_string name raw =
     List.fold (\<lambda>r v. if is_null r then v else raw_string r) (occurrences name raw) []"

definition field_raw :: "string \<Rightarrow> string \<Rightarrow> string" where
  "field_raw name raw = List.fold (\<lambda>r v. r) (occurrences name raw) []"

text \<open>A map field: each object adds its members to the map already there, \<open>null\<close> makes it nil.\<close>

definition merge_map :: "string \<Rightarrow> (string, goval) gomap option \<Rightarrow> (string, goval) gomap option" where
  "merge_map r m =
     (if is_null r then None
      else case json_unmarshal r of
        Some (VObj kvs) \<Rightarrow> Some (List.fold (\<lambda>(k, v) m. kv_put k v m) kvs (case m of None \<Rightarrow> [] | Some x \<Rightarrow> x))
      | _ \<Rightarrow> m)"

definition field_map :: "string \<Rightarrow> string \<Rightarrow> (string, goval) gomap option" where
  "field_map name raw = List.fold merge_map (occurrences name raw) None"

text \<open>A struct field is decoded in place, so its own fields are read over all its occurrences.\<close>

definition subfield_string :: "string \<Rightarrow> string \<Rightarrow> string \<Rightarrow> string" where
  "subfield_string outer name raw =
     List.fold (\<lambda>r v. if is_null r then v else raw_string r) (concat (map (occurrences name) (occurrences outer raw))) []"

end
