(* ===== verification/JsonEnc.thy ===== *)
theory JsonEnc
  imports Json "HOL-Library.List_Lexorder"
begin

text \<open>
  \<open>encoding/json\<close>, the encoder: \<open>json.Marshal\<close> and \<open>json.MarshalIndent\<close> on the
  values of \<open>goval\<close>.  Object keys are sorted, strings are escaped for HTML, and an
  invalid byte becomes U+FFFD.
\<close>

definition json_hex :: "nat \<Rightarrow> char" where
  "json_hex n = (if n < 10 then char_of (48 + n) else char_of (87 + n))"

definition json_u :: "nat \<Rightarrow> string" where
  "json_u r = [CHR 0x5C, CHR ''u'', json_hex (r div 4096 mod 16), json_hex (r div 256 mod 16),
               json_hex (r div 16 mod 16), json_hex (r mod 16)]"

definition json_chunk :: "nat \<times> string \<Rightarrow> string" where
  "json_chunk rb = (let r = fst rb in
     if r = 34 \<or> r = 92 then [CHR 0x5C, char_of r]
     else if r = 8 then [CHR 0x5C, CHR ''b'']
     else if r = 12 then [CHR 0x5C, CHR ''f'']
     else if r = 10 then [CHR 0x5C, CHR ''n'']
     else if r = 13 then [CHR 0x5C, CHR ''r'']
     else if r = 9 then [CHR 0x5C, CHR ''t'']
     else if r < 32 \<or> r = 60 \<or> r = 62 \<or> r = 38 \<or> r = 8232 \<or> r = 8233 then json_u r
     else if r = rune_error \<and> length (snd rb) = 1 then json_u rune_error
     else snd rb)"

definition json_quote :: "string \<Rightarrow> string" where
  "json_quote s = CHR 0x22 # concat (map json_chunk (utf8_chunks s)) @ [CHR 0x22]"

text \<open>Floats: positional notation except for very small and very large magnitudes.\<close>

definition scientific :: "string \<Rightarrow> int \<Rightarrow> string" where
  "scientific ds e =
     (let x = e + int (length ds) - 1;
          mant = (if length ds = 1 then ds else take 1 ds @ ''.'' @ drop 1 ds);
          ex = nat_dec (nat \<bar>x\<bar>)
      in mant @ ''e'' @ (if x < 0 then ''-'' else ''+'') @
         (if length ex = 1 \<and> 0 \<le> x then ''0'' @ ex else ex))"

definition json_float :: "rat \<Rightarrow> string" where
  "json_float x =
     (if x \<noteq> 0 \<and> (\<bar>x\<bar> < 1 / 1000000 \<or> 10 ^ 21 \<le> \<bar>x\<bar>) then
        (let (c, e) = first_candidate \<bar>x\<bar> [1..<18]; t = scientific (nat_dec c) e
         in if x < 0 then CHR ''-'' # t else t)
      else format_float_f x)"

definition json_number_ok :: "string \<Rightarrow> bool" where
  "json_number_ok s = (case json_number s of Some (q, r) \<Rightarrow> r = [] | None \<Rightarrow> False)"

fun json_marshal :: "goval \<Rightarrow> string option" where
  "json_marshal VNil = Some ''null''"
| "json_marshal (VBool b) = Some (if b then ''true'' else ''false'')"
| "json_marshal (VFloat x) = Some (json_float x)"
| "json_marshal (VInt i) = Some (itoa i)"
| "json_marshal (VInt64 i) = Some (itoa i)"
| "json_marshal (VNumber s) = (if s = [] then Some ''0'' else if json_number_ok s then Some s else None)"
| "json_marshal (VStr s) = Some (json_quote s)"
| "json_marshal (VArr vs) =
     (let es = map json_marshal vs in
      if None \<in> set es then None else Some (''['' @ join_str '','' (map the es) @ '']''))"
| "json_marshal (VObj kvs) =
     (let es = map (\<lambda>(k, v). (k, json_marshal v)) kvs in
      if None \<in> snd ` set es then None
      else Some (''{'' @ join_str '','' (map (\<lambda>(k, e). json_quote k @ '':'' @ the e) (sort_key fst es)) @ ''}''))"

definition newline :: string where "newline = [CHR 0x0A]"

definition indent_block :: "nat \<Rightarrow> string \<Rightarrow> string list \<Rightarrow> string \<Rightarrow> string" where
  "indent_block d op items cl =
     (if items = [] then op @ cl
      else op @ newline @ join_str ('','' @ newline) (map (\<lambda>i. replicate (2 * Suc d) CHR '' '' @ i) items)
           @ newline @ replicate (2 * d) CHR '' '' @ cl)"

fun json_indent :: "nat \<Rightarrow> goval \<Rightarrow> string option" where
  "json_indent d (VArr vs) =
     (let es = map (json_indent (Suc d)) vs in
      if None \<in> set es then None else Some (indent_block d ''['' (map the es) '']''))"
| "json_indent d (VObj kvs) =
     (let es = map (\<lambda>(k, v). (k, json_indent (Suc d) v)) kvs in
      if None \<in> snd ` set es then None
      else Some (indent_block d ''{'' (map (\<lambda>(k, e). json_quote k @ '': '' @ the e) (sort_key fst es)) ''}''))"
| "json_indent d v = json_marshal v"

definition marshal_indent :: "goval \<Rightarrow> string option" where
  "marshal_indent v = json_indent 0 v"

end
