(* ===== verification/McpProtocol.thy ===== *)
theory McpProtocol
  imports Domain JsonStruct JsonEnc
begin

text \<open>
  \<open>internal/mcp/jsonrpc.go\<close> and \<open>protocol.go\<close>: the JSON-RPC envelope and the MCP
  vocabulary, with what \<open>encoding/json\<close> makes of the struct tags: which bodies decode
  into a value, and the text a value is written as.  The structured content of a tool
  result is any value (\<open>any\<close>), the type variable \<open>'h\<close>, written by an argument.
\<close>

section \<open>JSON-RPC\<close>

definition jsonrpc_version :: string where "jsonrpc_version = ''2.0''"

definition code_parse_error :: int where "code_parse_error = - 32700"
definition code_invalid_request :: int where "code_invalid_request = - 32600"
definition code_method_not_found :: int where "code_method_not_found = - 32601"
definition code_invalid_params :: int where "code_invalid_params = - 32602"
definition code_internal_error :: int where "code_internal_error = - 32603"

text \<open>Identifier and parameters stay raw text; empty text is an absent member.\<close>

record rpc_request =
  rpc_jsonrpc :: string
  rpc_id :: string
  rpc_method :: string
  rpc_params :: string

text \<open>A message is a text, or a text followed by what the JSON decoder said of an input that
  does not have a shape.\<close>

datatype rpc_message = Msg string | MsgDecoder string jshape string

record rpc_error =
  err_code :: int
  err_message :: rpc_message

definition is_notification :: "rpc_request \<Rightarrow> bool" where
  "is_notification r = (rpc_id r = [] \<or> rpc_id r = ''null'')"

definition validate_request :: "rpc_request \<Rightarrow> rpc_error option" where
  "validate_request r =
     (if rpc_jsonrpc r \<noteq> jsonrpc_version
      then Some \<lparr>err_code = code_invalid_request, err_message = Msg (''jsonrpc must be '' @ json_quote ''2.0'')\<rparr>
      else if rpc_method r = []
      then Some \<lparr>err_code = code_invalid_request, err_message = Msg ''method must not be empty''\<rparr>
      else None)"

record 'r rpc_response =
  rsp_jsonrpc :: string
  rsp_id :: string
  rsp_result :: "'r option"
  rsp_error :: "rpc_error option"

definition new_result :: "string \<Rightarrow> 'r \<Rightarrow> 'r rpc_response" where
  "new_result i r = \<lparr>rsp_jsonrpc = jsonrpc_version, rsp_id = i, rsp_result = Some r, rsp_error = None\<rparr>"

definition rpc_failure :: "string \<Rightarrow> int \<Rightarrow> rpc_message \<Rightarrow> 'r rpc_response" where
  "rpc_failure i code m =
     \<lparr>rsp_jsonrpc = jsonrpc_version, rsp_id = (if i = [] then ''null'' else i), rsp_result = None,
      rsp_error = Some \<lparr>err_code = code, err_message = m\<rparr>\<rparr>"

section \<open>Protocol\<close>

definition supported_protocol_versions :: "string list" where
  "supported_protocol_versions = [''2025-06-18'', ''2025-03-26'', ''2024-11-05'']"

definition latest_protocol_version :: string where "latest_protocol_version = ''2025-06-18''"

definition is_supported_version :: "string \<Rightarrow> bool" where
  "is_supported_version v = list_ex (\<lambda>s. s = v) supported_protocol_versions"

definition method_initialize :: string where "method_initialize = ''initialize''"
definition method_ping :: string where "method_ping = ''ping''"
definition method_tools_list :: string where "method_tools_list = ''tools/list''"
definition method_tools_call :: string where "method_tools_call = ''tools/call''"
definition method_initialized :: string where "method_initialized = ''notifications/initialized''"
definition method_cancelled :: string where "method_cancelled = ''notifications/cancelled''"

lemmas method_defs = method_initialize_def method_ping_def method_tools_list_def method_tools_call_def
  method_initialized_def method_cancelled_def

record implementation =
  im_name :: string
  im_title :: string
  im_version :: string

text \<open>Of the client's half of the handshake the capabilities are decoded and dropped.\<close>

record initialize_params =
  ip_protocolVersion :: string
  ip_clientInfo :: implementation

record initialize_result =
  ir_protocolVersion :: string
  ir_listChanged :: bool
  ir_serverInfo :: implementation
  ir_instructions :: string

record tool_annotations =
  ta_title :: string
  ta_readOnlyHint :: "bool option"
  ta_destructiveHint :: "bool option"
  ta_idempotentHint :: "bool option"
  ta_openWorldHint :: "bool option"

record mcp_tool =
  mt_name :: string
  mt_title :: string
  mt_description :: string
  mt_inputSchema :: "(string, goval) gomap option"
  mt_outputSchema :: "(string, goval) gomap option"
  mt_annotations :: "tool_annotations option"

record call_tool_params =
  cp_name :: string
  cp_arguments :: "(string, goval) gomap option"

record content_block =
  cb_type :: string
  cb_text :: string

definition text_content :: "string \<Rightarrow> content_block" where
  "text_content s = \<lparr>cb_type = ''text'', cb_text = s\<rparr>"

record 'h call_tool_result =
  cr_content :: "content_block list"
  cr_structured :: "'h option"
  cr_isError :: bool

definition error_result :: "string \<Rightarrow> 'h call_tool_result" where
  "error_result m = \<lparr>cr_content = [text_content m], cr_structured = None, cr_isError = True\<rparr>"

datatype 'h rpc_result =
    RInitialize initialize_result | REmpty | RTools "mcp_tool list" | RCall "'h call_tool_result"

section \<open>Decoding\<close>

text \<open>The text of a whole valid document without the white space around it.\<close>

definition json_document :: "string \<Rightarrow> string option" where
  "json_document s =
     (let s1 = skip_ws s in
      case json_skip (json_fuel s) 0 s1 of
        Some r \<Rightarrow> if skip_ws r = [] then Some (take (length s1 - length r) s1) else None
      | None \<Rightarrow> None)"

text \<open>\<open>json.Unmarshal\<close> into a struct of a shape: the text, when there is no error.\<close>

definition unmarshal_shape :: "jshape \<Rightarrow> string \<Rightarrow> string option" where
  "unmarshal_shape sh s =
     (case json_document s of Some d \<Rightarrow> if conforms sh d then Some d else None | None \<Rightarrow> None)"

definition request_shape :: jshape where
  "request_shape = ShStruct [(''jsonrpc'', ShStr), (''id'', ShRaw), (''method'', ShStr), (''params'', ShRaw)]"

definition implementation_shape :: jshape where
  "implementation_shape = ShStruct [(''name'', ShStr), (''title'', ShStr), (''version'', ShStr)]"

definition capabilities_shape :: jshape where
  "capabilities_shape = ShStruct [(''roots'', ShStruct [(''ListChanged'', ShBool)]), (''sampling'', ShMap),
     (''elicitation'', ShMap), (''experimental'', ShMap)]"

definition initialize_shape :: jshape where
  "initialize_shape = ShStruct [(''protocolVersion'', ShStr), (''capabilities'', capabilities_shape),
     (''clientInfo'', implementation_shape)]"

definition list_tools_shape :: jshape where "list_tools_shape = ShStruct [(''cursor'', ShStr)]"

definition call_tool_shape :: jshape where
  "call_tool_shape = ShStruct [(''name'', ShStr), (''arguments'', ShMap)]"

definition request_of :: "string \<Rightarrow> rpc_request" where
  "request_of d =
     \<lparr>rpc_jsonrpc = field_string ''jsonrpc'' d, rpc_id = field_raw ''id'' d,
      rpc_method = field_string ''method'' d, rpc_params = field_raw ''params'' d\<rparr>"

definition initialize_params_of :: "string \<Rightarrow> initialize_params" where
  "initialize_params_of d =
     \<lparr>ip_protocolVersion = field_string ''protocolVersion'' d,
      ip_clientInfo = \<lparr>im_name = subfield_string ''clientInfo'' ''name'' d,
        im_title = subfield_string ''clientInfo'' ''title'' d,
        im_version = subfield_string ''clientInfo'' ''version'' d\<rparr>\<rparr>"

definition call_tool_params_of :: "string \<Rightarrow> call_tool_params" where
  "call_tool_params_of d = \<lparr>cp_name = field_string ''name'' d, cp_arguments = field_map ''arguments'' d\<rparr>"

text \<open>\<open>decodeParams\<close>: absent parameters leave the zero value, which is what the readers give
  on the empty text.\<close>

definition decode_params :: "jshape \<Rightarrow> string \<Rightarrow> (rpc_error, string) result" where
  "decode_params sh raw =
     (if raw = [] then Inr []
      else case unmarshal_shape sh raw of
        Some d \<Rightarrow> Inr d
      | None \<Rightarrow> Inl \<lparr>err_code = code_invalid_params, err_message = MsgDecoder ''params could not be decoded: '' sh raw\<rparr>)"

section \<open>Encoding\<close>

text \<open>A struct: the members that are not omitted, in the order of the fields.\<close>

definition json_struct :: "(string \<times> string option) list \<Rightarrow> string" where
  "json_struct ms =
     ''{'' @ join_str '','' (concat (map (\<lambda>(k, v). case v of None \<Rightarrow> [] | Some t \<Rightarrow> [json_quote k @ '':'' @ t]) ms)) @ ''}''"

definition omit_empty :: "string \<Rightarrow> string option" where
  "omit_empty s = (if s = [] then None else Some (json_quote s))"

definition json_bool :: "bool \<Rightarrow> string" where "json_bool b = (if b then ''true'' else ''false'')"

text \<open>A \<open>json.RawMessage\<close> is written compacted, with the characters HTML reserves escaped.
  The flag says whether the position is inside a string.\<close>

fun json_compact :: "bool \<Rightarrow> string \<Rightarrow> string" where
  "json_compact q [] = []"
| "json_compact q (c # cs) =
     (if c = CHR ''<'' \<or> c = CHR ''>'' \<or> c = CHR ''&'' then json_u (byte c) @ json_compact q cs
      else if byte c = (226 :: nat) \<and> has_prefix [char_of (128 :: nat), char_of (168 :: nat)] cs
      then json_u 8232 @ json_compact q (drop 2 cs)
      else if byte c = (226 :: nat) \<and> has_prefix [char_of (128 :: nat), char_of (169 :: nat)] cs
      then json_u 8233 @ json_compact q (drop 2 cs)
      else if q then
        (if c = CHR 0x5C then (case cs of [] \<Rightarrow> [c] | d # ds \<Rightarrow> c # d # json_compact q ds)
         else c # json_compact (c \<noteq> CHR 0x22) cs)
      else if json_ws c then json_compact q cs
      else c # json_compact (c = CHR 0x22) cs)"

definition implementation_json :: "implementation \<Rightarrow> string" where
  "implementation_json i =
     json_struct [(''name'', Some (json_quote (im_name i))), (''title'', omit_empty (im_title i)),
       (''version'', Some (json_quote (im_version i)))]"

definition initialize_json :: "initialize_result \<Rightarrow> string" where
  "initialize_json r =
     json_struct [(''protocolVersion'', Some (json_quote (ir_protocolVersion r))),
       (''capabilities'', Some (json_struct [(''tools'', Some (json_struct [(''listChanged'', Some (json_bool (ir_listChanged r)))]))])),
       (''serverInfo'', Some (implementation_json (ir_serverInfo r))), (''instructions'', omit_empty (ir_instructions r))]"

definition tool_annotations_json :: "tool_annotations \<Rightarrow> string" where
  "tool_annotations_json a =
     json_struct [(''title'', omit_empty (ta_title a)), (''readOnlyHint'', map_option json_bool (ta_readOnlyHint a)),
       (''destructiveHint'', map_option json_bool (ta_destructiveHint a)),
       (''idempotentHint'', map_option json_bool (ta_idempotentHint a)),
       (''openWorldHint'', map_option json_bool (ta_openWorldHint a))]"

definition mcp_tool_json :: "mcp_tool \<Rightarrow> string option" where
  "mcp_tool_json x =
     (case ((case mt_inputSchema x of None \<Rightarrow> Some ''null'' | Some m \<Rightarrow> json_marshal (VObj m)),
            (case mt_outputSchema x of None \<Rightarrow> Some [] | Some m \<Rightarrow> if m = [] then Some [] else json_marshal (VObj m))) of
        (Some i, Some oo) \<Rightarrow>
          Some (json_struct [(''name'', Some (json_quote (mt_name x))), (''title'', omit_empty (mt_title x)),
            (''description'', omit_empty (mt_description x)), (''inputSchema'', Some i),
            (''outputSchema'', if oo = [] then None else Some oo),
            (''annotations'', map_option tool_annotations_json (mt_annotations x))])
      | _ \<Rightarrow> None)"

definition list_tools_json :: "mcp_tool list \<Rightarrow> string option" where
  "list_tools_json ts =
     (let es = map mcp_tool_json ts in
      if None \<in> set es then None
      else Some (json_struct [(''tools'', Some (''['' @ join_str '','' (map the es) @ '']''))]))"

definition content_json :: "content_block \<Rightarrow> string" where
  "content_json c = json_struct [(''type'', Some (json_quote (cb_type c))), (''text'', omit_empty (cb_text c))]"

definition call_result_json :: "('h \<Rightarrow> string option) \<Rightarrow> 'h call_tool_result \<Rightarrow> string option" where
  "call_result_json henc r =
     (let body = (\<lambda>h. json_struct
        [(''content'', Some (''['' @ join_str '','' (map content_json (cr_content r)) @ '']'')),
         (''structuredContent'', h), (''isError'', if cr_isError r then Some ''true'' else None)]) in
      case cr_structured r of None \<Rightarrow> Some (body None) | Some h \<Rightarrow> map_option (\<lambda>t. body (Some t)) (henc h))"

fun result_json :: "('h \<Rightarrow> string option) \<Rightarrow> 'h rpc_result \<Rightarrow> string option" where
  "result_json henc (RInitialize r) = Some (initialize_json r)"
| "result_json henc REmpty = Some ''{}''"
| "result_json henc (RTools ts) = list_tools_json ts"
| "result_json henc (RCall r) = call_result_json henc r"

text \<open>\<open>dec\<close> gives the text of the JSON decoder's own error, which ends a decoding message.\<close>

definition rpc_error_json :: "(jshape \<Rightarrow> string \<Rightarrow> string) \<Rightarrow> rpc_error \<Rightarrow> string" where
  "rpc_error_json dec e =
     json_struct [(''code'', Some (itoa (err_code e))),
       (''message'', Some (json_quote (case err_message e of Msg m \<Rightarrow> m | MsgDecoder m sh raw \<Rightarrow> m @ dec sh raw)))]"

definition response_json :: "(jshape \<Rightarrow> string \<Rightarrow> string) \<Rightarrow> ('h \<Rightarrow> string option) \<Rightarrow> 'h rpc_result rpc_response \<Rightarrow> string option" where
  "response_json dec henc r =
     (let body = (\<lambda>t. json_struct
        [(''jsonrpc'', Some (json_quote (rsp_jsonrpc r))),
         (''id'', if rsp_id r = [] then None else Some (json_compact False (rsp_id r))),
         (''result'', t), (''error'', map_option (rpc_error_json dec) (rsp_error r))]) in
      case rsp_result r of None \<Rightarrow> Some (body None) | Some x \<Rightarrow> map_option (\<lambda>t. body (Some t)) (result_json henc x))"

end
