(* ===== verification/McpServer.thy ===== *)
theory McpServer
  imports McpProtocol
begin

text \<open>
  \<open>internal/mcp/server.go\<close>: the dispatch of a JSON-RPC request to the backend, and the
  decoding of a request body.  The \<open>Backend\<close> port is a record of functions over the
  platform's state; the locale \<open>tool_backend\<close> states what the server's clients rely on,
  and is interpreted on the platform's adapter in \<open>McpBackend\<close>.
\<close>

section \<open>The backend port\<close>

record ('s, 'h) backend =
  bk_describe :: "string \<Rightarrow> 's \<Rightarrow> (domain_error, implementation \<times> string) result \<times> 's"
  bk_listTools :: "string \<Rightarrow> 's \<Rightarrow> (domain_error, mcp_tool list option) result \<times> 's"
  bk_callTool :: "string \<Rightarrow> string \<Rightarrow> (string, goval) gomap option \<Rightarrow> 's
                  \<Rightarrow> (domain_error, 'h call_tool_result) result \<times> 's"

text \<open>A nil slice of tools is \<open>None\<close>.\<close>

section \<open>Dispatch\<close>

definition rpc_reply :: "rpc_request \<Rightarrow> 'r \<Rightarrow> 'r rpc_response option" where
  "rpc_reply req r = (if is_notification req then None else Some (new_result (rpc_id req) r))"

definition backend_error :: "rpc_request \<Rightarrow> domain_error \<Rightarrow> 'r rpc_response" where
  "backend_error req e =
     (case e of
        ErrNotFound \<Rightarrow> rpc_failure (rpc_id req) code_invalid_params (Msg ''the requested resource does not exist'')
      | ErrDisabled \<Rightarrow> rpc_failure (rpc_id req) code_invalid_request (Msg ''this MCP instance is disabled'')
      | ErrRateLimited \<Rightarrow> rpc_failure (rpc_id req) code_internal_error (Msg ''rate limit exceeded, retry shortly'')
      | _ \<Rightarrow> rpc_failure (rpc_id req) code_internal_error (Msg ''the server could not complete the request''))"

definition handle_initialize :: "('s, 'h) backend \<Rightarrow> string \<Rightarrow> rpc_request \<Rightarrow> 's \<Rightarrow> 'h rpc_result rpc_response option \<times> 's" where
  "handle_initialize b inst req s =
     (case decode_params initialize_shape (rpc_params req) of
        Inl e \<Rightarrow> (Some (rpc_failure (rpc_id req) (err_code e) (err_message e)), s)
      | Inr d \<Rightarrow>
          (let want = ip_protocolVersion (initialize_params_of d);
               version = (if is_supported_version want then want else latest_protocol_version) in
           case bk_describe b inst s of
             (Inl e, s1) \<Rightarrow> (Some (backend_error req e), s1)
           | (Inr (info, instructions), s1) \<Rightarrow>
               (rpc_reply req (RInitialize \<lparr>ir_protocolVersion = version, ir_listChanged = False,
                                            ir_serverInfo = info, ir_instructions = instructions\<rparr>), s1)))"

definition handle_tools_list :: "('s, 'h) backend \<Rightarrow> string \<Rightarrow> rpc_request \<Rightarrow> 's \<Rightarrow> 'h rpc_result rpc_response option \<times> 's" where
  "handle_tools_list b inst req s =
     (case decode_params list_tools_shape (rpc_params req) of
        Inl e \<Rightarrow> (Some (rpc_failure (rpc_id req) (err_code e) (err_message e)), s)
      | Inr d \<Rightarrow>
          (case bk_listTools b inst s of
             (Inl e, s1) \<Rightarrow> (Some (backend_error req e), s1)
           | (Inr ts, s1) \<Rightarrow> (rpc_reply req (RTools (case ts of None \<Rightarrow> [] | Some l \<Rightarrow> l)), s1)))"

definition handle_tools_call :: "('s, 'h) backend \<Rightarrow> string \<Rightarrow> rpc_request \<Rightarrow> 's \<Rightarrow> 'h rpc_result rpc_response option \<times> 's" where
  "handle_tools_call b inst req s =
     (case decode_params call_tool_shape (rpc_params req) of
        Inl e \<Rightarrow> (Some (rpc_failure (rpc_id req) (err_code e) (err_message e)), s)
      | Inr d \<Rightarrow>
          (let p = call_tool_params_of d in
           if cp_name p = [] then (Some (rpc_failure (rpc_id req) code_invalid_params (Msg ''tool name must not be empty'')), s)
           else case bk_callTool b inst (cp_name p) (cp_arguments p) s of
             (Inl e, s1) \<Rightarrow>
               (if e = ErrNotFound then Some (rpc_failure (rpc_id req) code_invalid_params (Msg (''unknown tool: '' @ cp_name p)))
                else Some (backend_error req e), s1)
           | (Inr r, s1) \<Rightarrow> (rpc_reply req (RCall r), s1)))"

definition rpc_handle :: "('s, 'h) backend \<Rightarrow> string \<Rightarrow> rpc_request \<Rightarrow> 's \<Rightarrow> 'h rpc_result rpc_response option \<times> 's" where
  "rpc_handle b inst req s =
     (case validate_request req of
        Some e \<Rightarrow> (if is_notification req then None else Some (rpc_failure (rpc_id req) (err_code e) (err_message e)), s)
      | None \<Rightarrow>
          (let m = rpc_method req in
           if m = method_initialize then handle_initialize b inst req s
           else if m = method_ping then (rpc_reply req REmpty, s)
           else if m = method_tools_list then handle_tools_list b inst req s
           else if m = method_tools_call then handle_tools_call b inst req s
           else if m = method_initialized \<or> m = method_cancelled then (None, s)
           else if is_notification req then (None, s)
           else (Some (rpc_failure (rpc_id req) code_method_not_found (Msg (''unknown method: '' @ m))), s)))"

fun handle_batch :: "('s, 'h) backend \<Rightarrow> string \<Rightarrow> rpc_request list \<Rightarrow> 's \<Rightarrow> 'h rpc_result rpc_response list \<times> 's" where
  "handle_batch b inst [] s = ([], s)"
| "handle_batch b inst (req # reqs) s =
     (let (r, s1) = rpc_handle b inst req s; (rs, s2) = handle_batch b inst reqs s1
      in (case r of None \<Rightarrow> rs | Some x \<Rightarrow> x # rs, s2))"

section \<open>Decoding a body\<close>

definition skip_space :: "string \<Rightarrow> string" where
  "skip_space = dropWhile (\<lambda>c. byte c \<in> {32, 9, 13, 10 :: nat})"

text \<open>A \<open>null\<close> element of a batch is a nil pointer.\<close>

definition decode_element :: "string \<Rightarrow> rpc_request option option" where
  "decode_element d =
     (if is_null d then Some None else if conforms request_shape d then Some (Some (request_of d)) else None)"

definition decode_requests :: "string \<Rightarrow> (rpc_message, rpc_request option list) result \<times> bool" where
  "decode_requests body =
     (let trimmed = skip_space body; bad = Inl (MsgDecoder [] request_shape body) in
      if trimmed = [] then (Inl (Msg ''empty request body''), False)
      else if hd trimmed = CHR ''['' then
        (case json_document body of
           None \<Rightarrow> (bad, True)
         | Some d \<Rightarrow>
             (case raw_elements d of
                None \<Rightarrow> (bad, True)
              | Some es \<Rightarrow>
                  (let ds = map decode_element es in
                   if None \<in> set ds then (bad, True)
                   else if ds = [] then (Inl (Msg ''batch must not be empty''), True)
                   else (Inr (map the ds), True))))
      else
        (case unmarshal_shape request_shape body of
           None \<Rightarrow> (bad, False)
         | Some d \<Rightarrow> (Inr [Some (request_of (if is_null d then [] else d))], False)))"

section \<open>Lemmas\<close>

lemma rpc_reply_Some: "rpc_reply req x = Some r \<longleftrightarrow> \<not> is_notification req \<and> r = new_result (rpc_id req) x"
  by (auto simp: rpc_reply_def)

lemma rpc_reply_None: "rpc_reply req x = None \<longleftrightarrow> is_notification req"
  by (simp add: rpc_reply_def)

text \<open>Every response is a success under the request's identifier or a failure built from it.\<close>

definition response_for :: "rpc_request \<Rightarrow> 'r rpc_response \<Rightarrow> bool" where
  "response_for req r =
     (rsp_jsonrpc r = jsonrpc_version \<and>
      (if rsp_error r = None then rsp_result r \<noteq> None \<and> \<not> is_notification req \<and> rsp_id r = rpc_id req
       else rsp_result r = None \<and> rsp_id r = (if rpc_id req = [] then ''null'' else rpc_id req)))"

lemma response_for_failure [simp]: "response_for req (rpc_failure (rpc_id req) c m)"
  by (simp add: response_for_def rpc_failure_def)

lemma response_for_result [simp]: "response_for req (new_result (rpc_id req) x) \<longleftrightarrow> \<not> is_notification req"
  by (simp add: response_for_def new_result_def)

lemma response_for_backend [simp]: "response_for req (backend_error req e)"
  by (simp add: backend_error_def split: domain_error.split)

lemmas handler_defs = handle_initialize_def handle_tools_list_def handle_tools_call_def

lemma handlers_response:
  "handle_initialize b inst req s = (Some r, s') \<Longrightarrow> response_for req r"
  "handle_tools_list b inst req s = (Some r, s') \<Longrightarrow> response_for req r"
  "handle_tools_call b inst req s = (Some r, s') \<Longrightarrow> response_for req r"
  by (auto simp: handler_defs Let_def rpc_reply_Some split: sum.splits prod.splits if_splits)

lemma handlers_answer:
  "handle_initialize b inst req s = (None, s') \<Longrightarrow> is_notification req"
  "handle_tools_list b inst req s = (None, s') \<Longrightarrow> is_notification req"
  "handle_tools_call b inst req s = (None, s') \<Longrightarrow> is_notification req"
  by (auto simp: handler_defs Let_def rpc_reply_None split: sum.splits prod.splits if_splits)

lemma rpc_handle_response: "rpc_handle b inst req s = (Some r, s') \<Longrightarrow> response_for req r"
  by (auto simp: rpc_handle_def Let_def rpc_reply_Some handlers_response split: option.splits if_splits)

lemma rpc_handle_silent:
  "rpc_handle b inst req s = (None, s')
   \<Longrightarrow> is_notification req \<or> rpc_method req = method_initialized \<or> rpc_method req = method_cancelled"
  by (auto simp: rpc_handle_def Let_def rpc_reply_None handlers_answer split: option.splits if_splits)


text \<open>The errors a client can be shown for a request: fixed texts, and texts built from the
  request alone.\<close>

definition visible_errors :: "rpc_request \<Rightarrow> rpc_error list" where
  "visible_errors req =
     (let e = (\<lambda>c m. \<lparr>err_code = c, err_message = m\<rparr>);
          decoding = (\<lambda>sh. e code_invalid_params (MsgDecoder ''params could not be decoded: '' sh (rpc_params req)));
          name = (case decode_params call_tool_shape (rpc_params req) of Inr d \<Rightarrow> cp_name (call_tool_params_of d) | Inl x \<Rightarrow> []) in
      [e code_invalid_request (Msg (''jsonrpc must be '' @ json_quote ''2.0'')),
       e code_invalid_request (Msg ''method must not be empty''),
       e code_method_not_found (Msg (''unknown method: '' @ rpc_method req)),
       decoding initialize_shape, decoding list_tools_shape, decoding call_tool_shape,
       e code_invalid_params (Msg ''tool name must not be empty''),
       e code_invalid_params (Msg (''unknown tool: '' @ name)),
       e code_invalid_params (Msg ''the requested resource does not exist''),
       e code_invalid_request (Msg ''this MCP instance is disabled''),
       e code_internal_error (Msg ''rate limit exceeded, retry shortly''),
       e code_internal_error (Msg ''the server could not complete the request'')])"

lemma decode_params_error:
  "decode_params sh raw = Inl e \<Longrightarrow> e = \<lparr>err_code = code_invalid_params, err_message = MsgDecoder ''params could not be decoded: '' sh raw\<rparr>"
  by (auto simp: decode_params_def split: if_splits option.splits)

lemma rpc_failure_error: "rsp_error (rpc_failure i c m) = Some \<lparr>err_code = c, err_message = m\<rparr>"
  by (simp add: rpc_failure_def)

lemma backend_error_visible: "rsp_error (backend_error req x) = Some e \<Longrightarrow> e \<in> set (visible_errors req)"
  by (auto simp: backend_error_def visible_errors_def rpc_failure_error split: domain_error.splits)

lemma reply_no_error: "rpc_reply req x = Some r \<Longrightarrow> rsp_error r = None"
  by (simp add: rpc_reply_Some new_result_def)

lemma handlers_visible:
  "handle_initialize b inst req s = (Some r, s') \<Longrightarrow> rsp_error r = Some e \<Longrightarrow> e \<in> set (visible_errors req)"
  "handle_tools_list b inst req s = (Some r, s') \<Longrightarrow> rsp_error r = Some e \<Longrightarrow> e \<in> set (visible_errors req)"
  "handle_tools_call b inst req s = (Some r, s') \<Longrightarrow> rsp_error r = Some e \<Longrightarrow> e \<in> set (visible_errors req)"
  unfolding handler_defs Let_def
  by (auto split: sum.splits prod.splits if_splits
      dest!: decode_params_error reply_no_error intro: backend_error_visible
      simp: rpc_failure_error) (auto simp: visible_errors_def)

section \<open>The contract of a backend\<close>

definition tool_names :: "mcp_tool list option \<Rightarrow> string set" where
  "tool_names ts = (case ts of None \<Rightarrow> {} | Some l \<Rightarrow> mt_name ` set l)"

text \<open>A tool an instance does not list cannot be called: the answer is that it does not exist,
  unless the whole instance is disabled.\<close>

locale tool_backend =
  fixes b :: "('s, 'h) backend" and ok :: "'s \<Rightarrow> bool"
  assumes unlisted: "ok s \<Longrightarrow> bk_listTools b i s = (Inr ts, s1) \<Longrightarrow> name \<notin> tool_names ts
    \<Longrightarrow> fst (bk_callTool b i name args s) = Inl ErrNotFound \<or> fst (bk_callTool b i name args s) = Inl ErrDisabled"
begin

lemma unlisted_refused:
  assumes "ok s" "bk_listTools b i s = (Inr ts, s1)" "cp_name (call_tool_params_of d) \<notin> tool_names ts"
    and "rpc_jsonrpc req = ''2.0''" "rpc_method req = ''tools/call''" "decode_params call_tool_shape (rpc_params req) = Inr d"
  shows "\<exists>r m. fst (rpc_handle b i req s) = Some r \<and> rsp_result r = None \<and>
     (rsp_error r = Some \<lparr>err_code = code_invalid_params, err_message = m\<rparr> \<or>
      rsp_error r = Some \<lparr>err_code = code_invalid_request, err_message = m\<rparr>)"
proof -
  obtain c s2 where c: "bk_callTool b i (cp_name (call_tool_params_of d)) (cp_arguments (call_tool_params_of d)) s = (c, s2)"
    by (metis surj_pair)
  have "c = Inl ErrNotFound \<or> c = Inl ErrDisabled"
    using unlisted[OF assms(1-3), of "cp_arguments (call_tool_params_of d)"] c by simp
  moreover have "fst (rpc_handle b i req s) = fst (handle_tools_call b i req s)"
    using assms(4,5) by (simp add: rpc_handle_def validate_request_def jsonrpc_version_def method_defs)
  ultimately show ?thesis using assms(6) c
    by (auto simp: handle_tools_call_def Let_def backend_error_def rpc_failure_def)
qed

end

section \<open>Properties\<close>

text \<open>C37: a request with an identifier gets exactly one response, a JSON-RPC 2.0 result or
  error but never both, carrying that identifier unchanged; a message without one never gets
  a result.  Two departures from JSON-RPC are part of the statement: the two notification
  methods stay unanswered even with an identifier, and a tool call without an identifier and
  without a tool name is answered with an error under \<open>null\<close>.\<close>
theorem rpc_handle_discipline:
  "(fst (rpc_handle b inst req s) = Some r \<longrightarrow> response_for req r) \<and>
   (\<not> is_notification req \<and> rpc_method req \<notin> {''notifications/initialized'', ''notifications/cancelled''}
     \<longrightarrow> (\<exists>r. fst (rpc_handle b inst req s) = Some r \<and> rsp_id r = rpc_id req)) \<and>
   (rpc_method req = ''notifications/cancelled'' \<longrightarrow> rpc_jsonrpc req = ''2.0'' \<longrightarrow> fst (rpc_handle b inst req s) = None) \<and>
   fst (rpc_handle b inst \<lparr>rpc_jsonrpc = ''2.0'', rpc_id = [], rpc_method = ''tools/call'', rpc_params = []\<rparr> s) =
     Some (rpc_failure [] code_invalid_params (Msg ''tool name must not be empty''))"
proof (intro conjI impI; (elim conjE)?)
  obtain ro s' where h: "rpc_handle b inst req s = (ro, s')" by (metis surj_pair)
  show "response_for req r" if "fst (rpc_handle b inst req s) = Some r"
    using that h rpc_handle_response[of b inst req s r s'] by simp
  show "\<exists>r. fst (rpc_handle b inst req s) = Some r \<and> rsp_id r = rpc_id req"
    if "\<not> is_notification req" "rpc_method req \<notin> {''notifications/initialized'', ''notifications/cancelled''}"
  proof (cases ro)
    case None
    thus ?thesis using that h rpc_handle_silent[of b inst req s s'] by (auto simp: method_defs)
  next
    case (Some r)
    thus ?thesis using that h rpc_handle_response[of b inst req s r s']
      by (auto simp: response_for_def is_notification_def split: if_splits)
  qed
  show "fst (rpc_handle b inst req s) = None" if "rpc_method req = ''notifications/cancelled''" "rpc_jsonrpc req = ''2.0''"
    using that by (simp add: rpc_handle_def validate_request_def jsonrpc_version_def method_defs)
  have "cp_name (call_tool_params_of []) = []" by code_simp
  thus "fst (rpc_handle b inst \<lparr>rpc_jsonrpc = ''2.0'', rpc_id = [], rpc_method = ''tools/call'', rpc_params = []\<rparr> s) =
     Some (rpc_failure [] code_invalid_params (Msg ''tool name must not be empty''))"
    by (simp add: rpc_handle_def validate_request_def jsonrpc_version_def method_defs handle_tools_call_def decode_params_def)
qed

definition demo_backend :: "(nat, unit) backend" where
  "demo_backend = \<lparr>bk_describe = (\<lambda>i s. (Inr (\<lparr>im_name = i, im_title = [], im_version = ''1''\<rparr>, ''hi''), s)),
     bk_listTools = (\<lambda>i s. (Inr None, s)), bk_callTool = (\<lambda>i n args s. (Inl ErrUpstream, s + 1))\<rparr>"

definition demo_rpc :: rpc_request where
  "demo_rpc = \<lparr>rpc_jsonrpc = ''2.0'', rpc_id = ''7'', rpc_method = ''tools/call'',
     rpc_params = ''{'' @ json_quote ''name'' @ '':'' @ json_quote ''x'' @ ''}''\<rparr>"

lemma rpc_handle_discipline_witness:
  "\<exists>r. fst (rpc_handle demo_backend ''i'' demo_rpc 0) = Some r \<and> rsp_id r = ''7''"
proof -
  have "\<not> is_notification demo_rpc \<and> rpc_method demo_rpc \<notin> {''notifications/initialized'', ''notifications/cancelled''}"
    "rpc_id demo_rpc = ''7''" by code_simp+
  thus ?thesis using rpc_handle_discipline[of demo_backend "''i''" demo_rpc 0] by auto
qed

text \<open>The errors a client sees say nothing of the platform: whatever the backend fails
  with, code and message are among twelve that the request alone determines.\<close>
theorem rpc_errors_opaque:
  assumes "rpc_handle b inst req s = (Some r, s')" "rsp_error r = Some e"
  shows "e \<in> set (visible_errors req) \<and> length (visible_errors req) = 12"
proof
  show "e \<in> set (visible_errors req)"
    using assms unfolding rpc_handle_def Let_def
    by (auto simp: handlers_visible rpc_failure_error validate_request_def split: option.splits if_splits
        dest: reply_no_error handlers_visible) (auto simp: visible_errors_def)
  show "length (visible_errors req) = 12" by (simp add: visible_errors_def Let_def)
qed

lemma rpc_errors_opaque_witness:
  "\<lparr>err_code = code_internal_error, err_message = Msg ''the server could not complete the request''\<rparr> \<in> set (visible_errors demo_rpc)"
proof -
  have "rpc_handle demo_backend ''i'' demo_rpc 0 =
      (Some (rpc_failure ''7'' code_internal_error (Msg ''the server could not complete the request'')), 1)"
    by code_simp
  thus ?thesis using rpc_errors_opaque by (metis rpc_failure_error)
qed

end
