(* ===== verification/Base64.thy ===== *)
theory Base64
  imports Utf8
begin

text \<open>\<open>encoding/base64\<close>, the standard alphabet with padding.\<close>

definition b64_char :: "nat \<Rightarrow> char" where
  "b64_char n = (if n < 26 then char_of (65 + n) else if n < 52 then char_of (71 + n)
                 else if n < 62 then char_of (n - 4) else if n = 62 then CHR ''+'' else CHR ''/'')"

definition b64_val :: "char \<Rightarrow> nat option" where
  "b64_val c = (if in_rng 65 90 c then Some (byte c - 65) else if in_rng 97 122 c then Some (byte c - 71)
                else if is_digit c then Some (byte c + 4) else if c = CHR ''+'' then Some 62
                else if c = CHR ''/'' then Some 63 else None)"

fun b64_encode :: "string \<Rightarrow> string" where
  "b64_encode [] = []"
| "b64_encode [a] = [b64_char (byte a div 4), b64_char (byte a mod 4 * 16), CHR ''='', CHR ''='']"
| "b64_encode [a, b] = [b64_char (byte a div 4), b64_char (byte a mod 4 * 16 + byte b div 16),
     b64_char (byte b mod 16 * 4), CHR ''='']"
| "b64_encode (a # b # c # r) =
     b64_char (byte a div 4) # b64_char (byte a mod 4 * 16 + byte b div 16) #
     b64_char (byte b mod 16 * 4 + byte c div 64) # b64_char (byte c mod 64) # b64_encode r"

fun b64_quads :: "string \<Rightarrow> string option" where
  "b64_quads [] = Some []"
| "b64_quads (a # b # c # d # r) =
     (case (b64_val a, b64_val b) of
        (Some x, Some y) \<Rightarrow>
          (case b64_val c of
             None \<Rightarrow> if c = CHR ''='' \<and> d = CHR ''='' \<and> r = [] then Some [char_of (x * 4 + y div 16)] else None
           | Some z \<Rightarrow>
               (case b64_val d of
                  None \<Rightarrow> if d = CHR ''='' \<and> r = []
                          then Some [char_of (x * 4 + y div 16), char_of (y mod 16 * 16 + z div 4)] else None
                | Some w \<Rightarrow> map_option (\<lambda>t. char_of (x * 4 + y div 16) # char_of (y mod 16 * 16 + z div 4) #
                                        char_of (z mod 4 * 64 + w) # t) (b64_quads r)))
      | _ \<Rightarrow> None)"
| "b64_quads _ = None"

text \<open>\<open>DecodeString\<close> skips line breaks.\<close>

definition b64_decode :: "string \<Rightarrow> string option" where
  "b64_decode s = b64_quads (filter (\<lambda>c. c \<noteq> CHR 0x0A \<and> c \<noteq> CHR 0x0D) s)"

lemma b64_val_char: "n < 64 \<Longrightarrow> b64_val (b64_char n) = Some n"
proof -
  assume "n < 64"
  hence "n \<in> set [0..<64]" by simp
  moreover have "\<forall>n\<in>set [0..<64]. b64_val (b64_char n) = Some n" by code_simp
  ultimately show ?thesis by blast
qed

lemma b64_quads_encode: "b64_quads (b64_encode s) = Some s"
proof (induction s rule: b64_encode.induct)
  have lt: "byte c < (256 :: nat)" for c
    by (metis mod_less_divisor of_char_mod_256 zero_less_numeral)
  have d4: "byte c div 4 < (64 :: nat)" "byte c div 16 < (16 :: nat)" "byte c div 64 < (4 :: nat)" for c
    using lt[of c] by (simp_all add: div_less_iff_less_mult)
  have pad: "b64_val (CHR ''='') = None" by code_simp
  { case 1 show ?case by simp }
  { case (2 a) show ?case using d4[of a] by (simp add: b64_val_char pad) }
  { case (3 a b)
    have "byte a mod 4 * 16 + byte b div 16 < (64 :: nat)" "byte b mod 16 * 4 < (64 :: nat)"
      using d4[of b] by (auto simp: less_Suc_eq_le intro: le_less_trans[OF add_le_mono])
    thus ?case using d4[of a] d4[of b] by (simp add: b64_val_char pad) }
  { case (4 a b c r)
    have "byte a mod 4 * 16 + byte b div 16 < (64 :: nat)" "byte b mod 16 * 4 + byte c div 64 < (64 :: nat)"
      using d4[of b] d4[of c] by linarith+
    thus ?case using 4 d4[of a] d4[of b] d4[of c] by (simp add: b64_val_char) }
qed

text \<open>No control character is ever produced.\<close>

lemma b64_char_printable: "32 < (byte (b64_char n) :: nat) \<and> byte (b64_char n) < (127 :: nat)"
  by (auto simp: b64_char_def)

lemma b64_encode_printable: "c \<in> set (b64_encode s) \<Longrightarrow> 32 < (byte c :: nat) \<and> byte c < (127 :: nat)"
  by (induction s rule: b64_encode.induct) (auto simp: b64_char_printable)

end
