(* ===== verification/McpSession.thy ===== *)
theory McpSession
  imports GoTime Base64
begin

text \<open>
  \<open>internal/mcp/session.go\<close>: the store of MCP sessions.  \<open>rand.Read\<close> is an argument,
  the 24 bytes or \<open>None\<close> for its error; the clock is read once per operation.  Every
  operation holds the store's mutex, so a run is a sequence of operations.
\<close>

section \<open>State\<close>

record session =
  ss_id :: string
  ss_instanceID :: string
  ss_protocolVersion :: string
  ss_clientName :: string
  ss_clientVersion :: string
  ss_createdAt :: int
  ss_lastSeenAt :: int

record session_store =
  st_ttl :: int
  st_max :: int
  st_sessions :: "(string, session) gomap"

record session_config =
  sc_ttl :: int
  sc_max :: int

datatype session_error = NoRandomness | TooManySessions

section \<open>Operations\<close>

definition new_session_store :: "session_config \<Rightarrow> session_store" where
  "new_session_store cfg =
     \<lparr>st_ttl = (if sc_ttl cfg \<le> 0 then 3600 * second else sc_ttl cfg),
      st_max = (if sc_max cfg \<le> 0 then 10000 else sc_max cfg), st_sessions = []\<rparr>"

definition session_stale :: "int \<Rightarrow> int \<Rightarrow> session \<Rightarrow> bool" where
  "session_stale ttl now x = (ttl < time_sub now (ss_lastSeenAt x))"

definition prune_locked :: "int \<Rightarrow> session_store \<Rightarrow> session_store" where
  "prune_locked now st =
     st\<lparr>st_sessions := filter (\<lambda>(k, x). \<not> session_stale (st_ttl st) now x) (st_sessions st)\<rparr>"

text \<open>\<open>base64.RawURLEncoding\<close>: the alphabet with \<open>-\<close> and \<open>_\<close>, no padding.\<close>

definition raw_url_encode :: "string \<Rightarrow> string" where
  "raw_url_encode bs =
     map (\<lambda>c. if c = CHR ''+'' then CHR ''-'' else if c = CHR ''/'' then CHR ''_'' else c)
       (filter (\<lambda>c. c \<noteq> CHR ''='') (b64_encode bs))"

definition session_create :: "string option \<Rightarrow> int \<Rightarrow> string \<Rightarrow> string \<Rightarrow> string \<Rightarrow> string \<Rightarrow> session_store
    \<Rightarrow> (session_error, session) result \<times> session_store" where
  "session_create rnd now inst ver cname cver st =
     (case rnd of None \<Rightarrow> (Inl NoRandomness, st)
      | Some raw \<Rightarrow>
          (let x = \<lparr>ss_id = raw_url_encode raw, ss_instanceID = inst, ss_protocolVersion = ver,
                    ss_clientName = cname, ss_clientVersion = cver, ss_createdAt = now, ss_lastSeenAt = now\<rparr>;
               st1 = prune_locked now st in
           if st_max st1 \<le> int (length (st_sessions st1)) then (Inl TooManySessions, st1)
           else (Inr x, st1\<lparr>st_sessions := kv_put (ss_id x) x (st_sessions st1)\<rparr>)))"

definition session_get :: "int \<Rightarrow> string \<Rightarrow> session_store \<Rightarrow> session option \<times> session_store" where
  "session_get now i st =
     (if i = [] then (None, st)
      else case map_of (st_sessions st) i of
        None \<Rightarrow> (None, st)
      | Some x \<Rightarrow>
          if session_stale (st_ttl st) now x then (None, st\<lparr>st_sessions := kv_del i (st_sessions st)\<rparr>)
          else (let x' = x\<lparr>ss_lastSeenAt := now\<rparr> in
                (Some x', st\<lparr>st_sessions := kv_put i x' (st_sessions st)\<rparr>)))"

definition session_delete :: "string \<Rightarrow> session_store \<Rightarrow> session_store" where
  "session_delete i st = st\<lparr>st_sessions := kv_del i (st_sessions st)\<rparr>"

definition delete_by_instance :: "string \<Rightarrow> session_store \<Rightarrow> session_store" where
  "delete_by_instance inst st =
     st\<lparr>st_sessions := filter (\<lambda>(k, x). ss_instanceID x \<noteq> inst) (st_sessions st)\<rparr>"

definition session_len :: "int \<Rightarrow> session_store \<Rightarrow> nat \<times> session_store" where
  "session_len now st = (length (st_sessions (prune_locked now st)), prune_locked now st)"

section \<open>Runs of the store\<close>

inductive session_step :: "session_store \<Rightarrow> session_store \<Rightarrow> bool" where
  step_create: "session_create r now i v cn cv st = (res, st') \<Longrightarrow> session_step st st'"
| step_get: "session_get now i st = (res, st') \<Longrightarrow> session_step st st'"
| step_delete: "session_step st (session_delete i st)"
| step_instance: "session_step st (delete_by_instance i st)"
| step_len: "session_len now st = (n, st') \<Longrightarrow> session_step st st'"

inductive_cases session_stepE: "session_step st st'"

inductive session_reach :: "session_config \<Rightarrow> session_store \<Rightarrow> bool" for cfg where
  reach_new: "session_reach cfg (new_session_store cfg)"
| reach_step: "session_reach cfg st \<Longrightarrow> session_step st st' \<Longrightarrow> session_reach cfg st'"

section \<open>The invariant\<close>

definition session_inv :: "session_store \<Rightarrow> bool" where
  "session_inv st =
     (0 < st_ttl st \<and> 0 < st_max st \<and> kv_wf (st_sessions st) \<and>
      int (length (st_sessions st)) \<le> st_max st \<and>
      list_all (\<lambda>(k, x). ss_id x = k) (st_sessions st))"

lemma session_inv_new [inv_intros]: "session_inv (new_session_store cfg)"
  by (simp add: session_inv_def new_session_store_def second_def)

lemma session_inv_filter [inv_intros]:
  assumes "session_inv st" shows "session_inv (st\<lparr>st_sessions := filter P (st_sessions st)\<rparr>)"
proof -
  have "int (length (filter P (st_sessions st))) \<le> st_max st"
    using assms length_filter_le[of P "st_sessions st"] unfolding session_inv_def by linarith
  thus ?thesis using assms by (auto simp: session_inv_def list_all_iff)
qed

lemma session_inv_put [inv_intros]:
  assumes "session_inv st" "ss_id x = k"
    and "map_of (st_sessions st) k \<noteq> None \<or> int (length (st_sessions st)) < st_max st"
  shows "session_inv (st\<lparr>st_sessions := kv_put k x (st_sessions st)\<rparr>)"
proof -
  have "list_all (\<lambda>(k, x). ss_id x = k) (kv_put k x (st_sessions st))"
    using assms(1,2) kv_all_iff[of "kv_put k x (st_sessions st)" "\<lambda>k x. ss_id x = k"]
      kv_all_iff[of "st_sessions st" "\<lambda>k x. ss_id x = k"]
    by (auto simp: session_inv_def list_all_iff)
  thus ?thesis using assms by (auto simp: session_inv_def kv_put_length)
qed

lemma session_inv_own_id: "session_inv st \<Longrightarrow> map_of (st_sessions st) i = Some x \<Longrightarrow> ss_id x = i"
  by (auto simp: session_inv_def list_all_iff dest!: map_of_SomeD)

lemma session_inv_step [inv_intros]:
  assumes "session_step st st'" "session_inv st" shows "session_inv st'"
  using assms(1)
proof (cases rule: session_step.cases)
  case (step_create r now i v cn cv res)
  have "session_inv (prune_locked now st)"
    unfolding prune_locked_def by (rule session_inv_filter[OF assms(2)])
  with step_create assms(2) show ?thesis
    by (auto simp: session_create_def Let_def intro: session_inv_put split: option.splits if_splits)
next
  case (step_get now i res)
  then show ?thesis
    using session_inv_filter[OF assms(2), of "\<lambda>(k, v). k \<noteq> i"] assms(2)
    by (auto simp: session_get_def kv_del_def Let_def session_inv_own_id[OF assms(2)]
        intro!: session_inv_put split: option.splits if_splits)
next
  case step_delete
  then show ?thesis unfolding session_delete_def kv_del_def by (simp add: session_inv_filter[OF assms(2)])
next
  case step_instance
  then show ?thesis unfolding delete_by_instance_def by (simp add: session_inv_filter[OF assms(2)])
next
  case step_len
  then show ?thesis by (auto simp: session_len_def prune_locked_def session_inv_filter[OF assms(2)])
qed

lemma session_reach_inv: "session_reach cfg st \<Longrightarrow> session_inv st"
  by (induction rule: session_reach.induct) (auto intro: inv_intros)

lemma session_step_config: "session_step st st' \<Longrightarrow> st_max st' = st_max st \<and> st_ttl st' = st_ttl st"
  by (erule session_stepE)
     (auto simp: session_create_def session_get_def session_delete_def delete_by_instance_def session_len_def
        prune_locked_def Let_def split: option.splits if_splits)

lemma session_reach_config:
  "session_reach cfg st \<Longrightarrow> st_max st = st_max (new_session_store cfg) \<and> st_ttl st = st_ttl (new_session_store cfg)"
  by (induction rule: session_reach.induct) (auto dest: session_step_config)

text \<open>What \<open>Get\<close> answers, over the entries of the map.\<close>

lemma session_get_Some:
  "session_get now i st = (Some x, st') \<longleftrightarrow>
     i \<noteq> [] \<and> (\<exists>x0. map_of (st_sessions st) i = Some x0 \<and> \<not> session_stale (st_ttl st) now x0 \<and>
       x = x0\<lparr>ss_lastSeenAt := now\<rparr> \<and> st' = st\<lparr>st_sessions := kv_put i x (st_sessions st)\<rparr>)"
  by (auto simp: session_get_def Let_def split: option.splits)

lemma session_get_Some_ex:
  "fst (session_get now i st) = Some x \<longleftrightarrow>
     i \<noteq> [] \<and> (\<exists>x0. map_of (st_sessions st) i = Some x0 \<and> \<not> session_stale (st_ttl st) now x0 \<and>
       x = x0\<lparr>ss_lastSeenAt := now\<rparr>)"
  by (auto simp: session_get_def Let_def split: option.splits)

lemma session_create_Inr:
  assumes "session_create (Some raw) now inst ver cn cv st = (Inr x, st')"
  shows "ss_id x = raw_url_encode raw" "ss_instanceID x = inst" "ss_lastSeenAt x = now"
    "map_of (st_sessions st') (ss_id x) = Some x" "st_ttl st' = st_ttl st"
  using assms by (auto simp: session_create_def Let_def prune_locked_def split: if_splits)

lemma raw_url_encode_Nil: "raw_url_encode bs = [] \<longleftrightarrow> bs = []"
proof (cases bs rule: b64_encode.cases)
  have e: "b64_char n \<noteq> CHR ''=''" if "n < 64" for n
    using that b64_val_char[OF that] by (auto simp: b64_val_def in_rng_def is_digit_def)
  show ?thesis if "bs = []" using that by (simp add: raw_url_encode_def)
  have div4: "(byte a :: nat) div 4 < 64" for a :: char
    using nat_of_char_less_256[of a] by linarith
  show ?thesis if "bs = [a]" for a using that e[OF div4] by (auto simp: raw_url_encode_def)
  show ?thesis if "bs = [a, b]" for a b using that e[OF div4] by (auto simp: raw_url_encode_def)
  show ?thesis if "bs = a # b # c # v" for a b c v using that e[OF div4] by (auto simp: raw_url_encode_def)
qed

section \<open>Properties\<close>

text \<open>C40: in every state the session store can reach, however its operations interleave, it
  holds at most its configured maximum of sessions, each under its own identifier; a lookup
  only ever returns the session of that identifier, and only if the store holds it and it was
  last used no longer ago than the time to live; a new session can be looked up for that
  long; a deleted session, and every session of a deleted instance, cannot be looked up.\<close>
theorem session_store_sound:
  assumes "session_reach cfg st"
  shows "int (length (st_sessions st)) \<le> st_max (new_session_store cfg) \<and>
    (\<forall>now i x. fst (session_get now i st) = Some x \<longrightarrow>
       ss_id x = i \<and> ss_lastSeenAt x = now \<and>
       (\<exists>x0. (i, x0) \<in> set (st_sessions st) \<and> ss_instanceID x = ss_instanceID x0 \<and>
             time_sub now (ss_lastSeenAt x0) \<le> st_ttl (new_session_store cfg))) \<and>
    (\<forall>raw t inst v cn cv x st' now. session_create (Some raw) t inst v cn cv st = (Inr x, st') \<and> raw \<noteq> [] \<longrightarrow>
       (fst (session_get now (ss_id x) st') = Some (x\<lparr>ss_lastSeenAt := now\<rparr>)
        \<longleftrightarrow> time_sub now t \<le> st_ttl (new_session_store cfg))) \<and>
    (\<forall>now i. fst (session_get now i (session_delete i st)) = None) \<and>
    (\<forall>now i inst x. fst (session_get now i (delete_by_instance inst st)) = Some x \<longrightarrow> ss_instanceID x \<noteq> inst)"
proof (intro conjI allI impI; (elim conjE)?)
  have inv: "session_inv st" and cfg: "st_max st = st_max (new_session_store cfg)" "st_ttl st = st_ttl (new_session_store cfg)"
    using assms session_reach_inv session_reach_config by blast+
  note wf = inv[unfolded session_inv_def]
  show "int (length (st_sessions st)) \<le> st_max (new_session_store cfg)" using wf cfg by simp
  show "ss_id x = i" "ss_lastSeenAt x = now" if "fst (session_get now i st) = Some x" for now i x
    using that session_inv_own_id[OF inv] by (auto simp: session_get_Some_ex)
  show "\<exists>x0. (i, x0) \<in> set (st_sessions st) \<and> ss_instanceID x = ss_instanceID x0 \<and>
             time_sub now (ss_lastSeenAt x0) \<le> st_ttl (new_session_store cfg)"
    if "fst (session_get now i st) = Some x" for now i x
    using that cfg wf by (auto simp: session_get_Some_ex session_stale_def kv_wf_in_set)
  show "fst (session_get now (ss_id x) st') = Some (x\<lparr>ss_lastSeenAt := now\<rparr>)
        \<longleftrightarrow> time_sub now t \<le> st_ttl (new_session_store cfg)"
    if "session_create (Some raw) t inst v cn cv st = (Inr x, st')" "raw \<noteq> []" for raw t inst v cn cv x st' now
    using session_create_Inr[OF that(1)] that(2) cfg
    by (auto simp: session_get_Some_ex session_stale_def raw_url_encode_Nil)
  show "fst (session_get now i (session_delete i st)) = None" for now i
    using wf by (simp add: session_get_def session_delete_def)
  show "ss_instanceID x \<noteq> inst" if "fst (session_get now i (delete_by_instance inst st)) = Some x" for now i inst x
    using that wf by (auto simp: session_get_Some_ex delete_by_instance_def map_of_filter_wf split: option.splits if_splits)
qed

definition demo_config :: session_config where "demo_config = \<lparr>sc_ttl = 0, sc_max = 0\<rparr>"

definition demo_store :: session_store where
  "demo_store = snd (session_create (Some ''abcdef'') 5 ''i1'' ''2025-06-18'' ''cl'' ''1'' (new_session_store demo_config))"

lemma demo_store_reach: "session_reach demo_config demo_store"
  unfolding demo_store_def
  by (rule reach_step[OF reach_new step_create[where res = "fst (session_create (Some ''abcdef'') 5 ''i1'' ''2025-06-18'' ''cl'' ''1'' (new_session_store demo_config))"]]) simp

lemma session_store_sound_witness:
  "length (st_sessions demo_store) = 1 \<and> st_max (new_session_store demo_config) = 10000 \<and>
   (\<exists>x. fst (session_get 9 ''YWJjZGVm'' demo_store) = Some x \<and> ss_instanceID x = ''i1'') \<and>
   fst (session_get 9 ''YWJjZGVm'' (session_delete ''YWJjZGVm'' demo_store)) = None"
proof -
  have "fst (session_get 9 ''YWJjZGVm'' (session_delete ''YWJjZGVm'' demo_store)) = None"
    using session_store_sound[OF demo_store_reach] by blast
  moreover have "length (st_sessions demo_store) = 1" "st_max (new_session_store demo_config) = 10000"
    "map_option ss_instanceID (fst (session_get 9 ''YWJjZGVm'' demo_store)) = Some ''i1''"
    by code_simp+
  ultimately show ?thesis by auto
qed

end
