(* ===== verification/Url.thy ===== *)
theory Url
  imports Utf8 "HOL-Library.List_Lexorder"
begin

text \<open>
  \<open>net/url\<close> as the program uses it: percent-encoding (\<open>PathEscape\<close>,
  \<open>QueryEscape\<close> and their inverses), \<open>Parse\<close>, the escaped path of a URL, and
  \<open>Values\<close> with \<open>Encode\<close> and \<open>ParseQuery\<close>.  The lemmas are the round trips and
  the alphabets of the encoders.
\<close>

section \<open>Percent-encoding\<close>

datatype esc_mode = EPath | EPathSeg | EQuery | EHost | EZone | EFragment

definition alnum :: "char \<Rightarrow> bool" where
  "alnum c = (in_rng 97 122 c \<or> in_rng 65 90 c \<or> is_digit c)"

definition should_escape :: "esc_mode \<Rightarrow> char \<Rightarrow> bool" where
  "should_escape m c =
     (if alnum c then False
      else if (m = EHost \<or> m = EZone) \<and> c \<in> set ''!$&()*+,;=:[]<>'' \<union> {CHR 0x22, CHR 0x27} then False
      else if c \<in> set ''-_.~'' then False
      else if c \<in> set ''$&+,/:;=?@'' then
        (case m of EPath \<Rightarrow> c = CHR ''?''
         | EPathSeg \<Rightarrow> c \<in> set ''/;,?''
         | EQuery \<Rightarrow> True
         | EFragment \<Rightarrow> False
         | _ \<Rightarrow> True)
      else if m = EFragment \<and> c \<in> set ''!()*'' then False
      else True)"

definition hex_digit :: "nat \<Rightarrow> char" where
  "hex_digit n = (if n < 10 then char_of (48 + n) else char_of (55 + n))"

definition esc_char :: "esc_mode \<Rightarrow> char \<Rightarrow> string" where
  "esc_char m c =
     (if should_escape m c then
        (if c = CHR '' '' \<and> m = EQuery then ''+''
         else [CHR ''%'', hex_digit (byte c div 16), hex_digit (byte c mod 16)])
      else [c])"

definition url_escape :: "esc_mode \<Rightarrow> string \<Rightarrow> string" where
  "url_escape m s = concat (map (esc_char m) s)"

definition path_escape :: "string \<Rightarrow> string" where "path_escape = url_escape EPathSeg"
definition query_escape :: "string \<Rightarrow> string" where "query_escape = url_escape EQuery"

function url_unescape :: "esc_mode \<Rightarrow> string \<Rightarrow> string option" where
  "url_unescape m [] = Some []"
| "url_unescape m (c # cs) =
     (if c = CHR ''%'' then
        (case cs of
           a # b # r \<Rightarrow>
             (case (hex_val a, hex_val b) of
                (Some x, Some y) \<Rightarrow>
                  if m = EHost \<and> x < 8 \<and> \<not> (x = 2 \<and> y = 5) then None
                  else if m = EZone \<and> \<not> (x = 2 \<and> y = 5) \<and> 16 * x + y \<noteq> 32 \<and>
                          should_escape EHost (char_of (16 * x + y)) then None
                  else map_option ((#) (char_of (16 * x + y))) (url_unescape m r)
              | _ \<Rightarrow> None)
         | _ \<Rightarrow> None)
      else if c = CHR ''+'' \<and> m = EQuery then map_option ((#) CHR '' '') (url_unescape m cs)
      else if (m = EHost \<or> m = EZone) \<and> byte c < (128::nat) \<and> should_escape m c then None
      else map_option ((#) c) (url_unescape m cs))"
  by pat_completeness auto
termination by (relation "measure (length \<circ> snd)") auto

lemma byte_lt: "byte c < (256 :: nat)"
  by (metis mod_less_divisor of_char_mod_256 zero_less_numeral)

lemma byte_div: "byte c div 16 < (16 :: nat)"
  using byte_lt[of c] by (simp add: div_less_iff_less_mult)

lemma hex_val_digit: "n < 16 \<Longrightarrow> hex_val (hex_digit n) = Some n"
proof -
  assume "n < 16"
  hence "n \<in> {0..<16}" by simp
  hence "n \<in> set [0..<16]" by simp
  moreover have "\<forall>n\<in>set [0..<16]. hex_val (hex_digit n) = Some n" by code_simp
  ultimately show ?thesis by blast
qed

lemma unescape_escape:
  assumes "m \<in> {EPath, EPathSeg, EQuery}"
  shows "url_unescape m (url_escape m s) = Some s"
proof (induction s)
  case (Cons c s)
  have split: "16 * (byte c div 16) + byte c mod 16 = (byte c :: nat)" by simp
  have hd: "hex_val (hex_digit (byte c div 16)) = Some (byte c div 16)"
    "hex_val (hex_digit (byte c mod 16)) = Some (byte c mod 16)"
    using byte_div[of c] by (auto intro!: hex_val_digit)
  have unp: "should_escape m (CHR ''%'')" "m = EQuery \<Longrightarrow> should_escape m (CHR ''+'')"
    using assms by (auto simp: should_escape_def alnum_def in_rng_def is_digit_def)
  show ?case
  proof (cases "should_escape m c")
    case True
    thus ?thesis using Cons assms hd split by (auto simp: url_escape_def esc_char_def)
  next
    case False
    hence "c \<noteq> CHR ''%''" "\<not> (c = CHR ''+'' \<and> m = EQuery)" using unp by auto
    thus ?thesis using Cons assms False by (auto simp: url_escape_def esc_char_def)
  qed
qed (simp add: url_escape_def)

text \<open>What an escaped path segment or query value can contain.\<close>

lemma hex_digit_alnum: "n < 16 \<Longrightarrow> alnum (hex_digit n)"
  by (auto simp: hex_digit_def alnum_def in_rng_def is_digit_def)

lemma esc_char_set: "x \<in> set (esc_char m c) \<Longrightarrow> (x = c \<and> \<not> should_escape m c) \<or> x = CHR ''%'' \<or> alnum x \<or> x = CHR ''+''"
  using byte_div[of c] by (auto simp: esc_char_def hex_digit_alnum split: if_splits)

lemma path_escape_alphabet:
  "x \<in> set (path_escape s) \<Longrightarrow> alnum x \<or> x \<in> set ''%-_.~$&+=:@''"
  by (auto simp: path_escape_def url_escape_def dest!: esc_char_set)
     (auto simp: should_escape_def split: if_splits)

lemma query_escape_alphabet:
  "x \<in> set (query_escape s) \<Longrightarrow> alnum x \<or> x \<in> set ''%-_.~+''"
  by (auto simp: query_escape_def url_escape_def dest!: esc_char_set)
     (auto simp: should_escape_def split: if_splits)

section \<open>Paths\<close>

text \<open>\<open>URL.setPath\<close> and \<open>URL.EscapedPath\<close> on the pair of \<open>Path\<close> and \<open>RawPath\<close>.\<close>

definition valid_encoded :: "string \<Rightarrow> bool" where
  "valid_encoded s = list_all (\<lambda>c. c \<in> set ''!$&()*+,;=:@[]%'' \<or> c = CHR 0x27 \<or> \<not> should_escape EPath c) s"

definition set_path :: "string \<Rightarrow> (string \<times> string) option" where
  "set_path p =
     (case url_unescape EPath p of
        None \<Rightarrow> None
      | Some path \<Rightarrow> Some (path, if p = url_escape EPath path then [] else p))"

definition escaped_path :: "string \<Rightarrow> string \<Rightarrow> string" where
  "escaped_path path rawpath =
     (if rawpath \<noteq> [] \<and> valid_encoded rawpath \<and> url_unescape EPath rawpath = Some path then rawpath
      else if path = ''*'' then ''*'' else url_escape EPath path)"

text \<open>A path that starts with a slash and is validly encoded goes out as it was given.\<close>

lemma unescape_slash: "url_unescape EPath (CHR ''/'' # cs) = map_option ((#) CHR ''/'') (url_unescape EPath cs)"
  by simp

lemma escaped_set_path:
  assumes "set_path p = Some (path, raw)" "valid_encoded p" "take 1 p = ''/''"
  shows "escaped_path path raw = p"
proof -
  have u: "url_unescape EPath p = Some path" and r: "raw = (if p = url_escape EPath path then [] else p)"
    using assms(1) by (auto simp: set_path_def split: option.splits)
  obtain cs where "p = CHR ''/'' # cs" using assms(3) by (cases p) auto
  hence "path \<noteq> ''*''" using u by auto
  thus ?thesis using r u assms(2) \<open>p = CHR ''/'' # cs\<close> by (auto simp: escaped_path_def)
qed

section \<open>Parsing\<close>

record url =
  u_scheme :: string
  u_opaque :: string
  u_user :: bool
  u_host :: string
  u_path :: string
  u_rawpath :: string
  u_rawquery :: string
  u_fragment :: string

definition empty_url :: url where
  "empty_url = \<lparr>u_scheme = [], u_opaque = [], u_user = False, u_host = [], u_path = [],
               u_rawpath = [], u_rawquery = [], u_fragment = []\<rparr>"

definition lower_char :: "char \<Rightarrow> char" where
  "lower_char c = (if in_rng 65 90 c then char_of (byte c + 32) else c)"

text \<open>\<open>strings.ToLower\<close> and \<open>EqualFold\<close> on ASCII text; other bytes are left alone.\<close>

definition to_lower :: "string \<Rightarrow> string" where "to_lower = map lower_char"

fun last_ix :: "char \<Rightarrow> string \<Rightarrow> nat option" where
  "last_ix c [] = None"
| "last_ix c (x # xs) =
     (case last_ix c xs of Some i \<Rightarrow> Some (Suc i) | None \<Rightarrow> if x = c then Some 0 else None)"

text \<open>\<open>getScheme\<close>: \<open>None\<close> is the error of a leading colon.\<close>

definition get_scheme :: "string \<Rightarrow> (string \<times> string) option" where
  "get_scheme s =
     (let ok = (\<lambda>c. alnum c \<or> c \<in> set ''+-.'');
          pre = takeWhile ok s; rest = dropWhile ok s
      in if pre \<noteq> [] \<and> (is_digit (hd pre) \<or> hd pre \<in> set ''+-.'') then Some ([], s)
         else if take 1 rest = '':'' then (if pre = [] then None else Some (to_lower pre, drop 1 rest))
         else Some ([], s))"

definition valid_optional_port :: "string \<Rightarrow> bool" where
  "valid_optional_port p = (p = [] \<or> (hd p = CHR '':'' \<and> list_all is_digit (tl p)))"

definition parse_host :: "string \<Rightarrow> string option" where
  "parse_host h =
     (if take 1 h = ''['' then
        (case last_ix CHR '']'' h of
           None \<Rightarrow> None
         | Some i \<Rightarrow>
             if \<not> valid_optional_port (drop (i + 1) h) then None
             else case str_index ''%25'' (take i h) of
                Some z \<Rightarrow>
                  (case (url_unescape EHost (take z h), url_unescape EZone (drop z (take i h)),
                         url_unescape EHost (drop i h)) of
                     (Some a, Some b, Some c) \<Rightarrow> Some (a @ b @ c) | _ \<Rightarrow> None)
              | None \<Rightarrow> url_unescape EHost h)
      else
        (case last_ix CHR '':'' h of
           Some i \<Rightarrow> if valid_optional_port (drop i h) then url_unescape EHost h else None
         | None \<Rightarrow> url_unescape EHost h))"

definition valid_userinfo :: "string \<Rightarrow> bool" where
  "valid_userinfo s = list_all (\<lambda>c. alnum c \<or> c \<in> set ''-._:~!$&()*+,;=%@'' \<or> c = CHR 0x27) s"

text \<open>\<open>parseAuthority\<close>: whether there is user information, and the host.\<close>

definition parse_authority :: "string \<Rightarrow> (bool \<times> string) option" where
  "parse_authority a =
     (case last_ix CHR ''@'' a of
        None \<Rightarrow> map_option (Pair False) (parse_host a)
      | Some i \<Rightarrow>
          (case parse_host (drop (i + 1) a) of
             None \<Rightarrow> None
           | Some h \<Rightarrow>
               if valid_userinfo (take i a) \<and> url_unescape EPathSeg (take i a) \<noteq> None
               then Some (True, h) else None))"

definition has_ctl :: "string \<Rightarrow> bool" where
  "has_ctl s = list_ex (\<lambda>c. byte c < (32::nat) \<or> byte c = (127::nat)) s"

definition cut_or :: "char \<Rightarrow> string \<Rightarrow> string \<times> string" where
  "cut_or c s = (case str_cut c s of None \<Rightarrow> (s, []) | Some ab \<Rightarrow> ab)"

definition set_url_path :: "string \<Rightarrow> url \<Rightarrow> url option" where
  "set_url_path p u = map_option (\<lambda>(path, raw). u\<lparr>u_path := path, u_rawpath := raw\<rparr>) (set_path p)"

text \<open>\<open>Parse\<close> without the fragment.\<close>

definition parse_nofrag :: "string \<Rightarrow> url option" where
  "parse_nofrag raw =
     (if has_ctl raw then None
      else if raw = ''*'' then Some (empty_url\<lparr>u_path := ''*''\<rparr>)
      else case get_scheme raw of
        None \<Rightarrow> None
      | Some (scheme, rest0) \<Rightarrow>
          let (rest, q) = cut_or CHR ''?'' rest0;
              u = empty_url\<lparr>u_scheme := scheme, u_rawquery := q\<rparr> in
          if take 1 rest \<noteq> ''/'' \<and> scheme \<noteq> [] then Some (u\<lparr>u_opaque := rest\<rparr>)
          else if take 1 rest \<noteq> ''/'' \<and> CHR '':'' \<in> set (fst (cut_or CHR ''/'' rest)) then None
          else if (scheme \<noteq> [] \<or> take 3 rest \<noteq> ''///'') \<and> take 2 rest = ''//'' then
            (let a = drop 2 rest; auth = takeWhile (\<lambda>c. c \<noteq> CHR ''/'') a; p = dropWhile (\<lambda>c. c \<noteq> CHR ''/'') a in
             case parse_authority auth of
               None \<Rightarrow> None
             | Some (usr, h) \<Rightarrow> set_url_path p (u\<lparr>u_user := usr, u_host := h\<rparr>))
          else set_url_path rest u)"

definition url_parse :: "string \<Rightarrow> url option" where
  "url_parse raw =
     (let (s, frag) = cut_or CHR ''#'' raw in
      case parse_nofrag s of
        None \<Rightarrow> None
      | Some u \<Rightarrow>
          if frag = [] then Some u
          else map_option (\<lambda>f. u\<lparr>u_fragment := f\<rparr>) (url_unescape EFragment frag))"

section \<open>Query strings\<close>

text \<open>\<open>url.Values\<close>: each key with its list of values.  \<open>Set\<close>, \<open>Encode\<close> and \<open>ParseQuery\<close>
  (whose malformed pairs are dropped, as \<open>URL.Query\<close> does).\<close>

type_synonym url_values = "(string, string list) gomap"

definition values_set :: "string \<Rightarrow> string \<Rightarrow> url_values \<Rightarrow> url_values" where
  "values_set k v vs = kv_put k [v] vs"

definition values_encode :: "url_values \<Rightarrow> string" where
  "values_encode vs =
     join_str ''&'' (concat (map (\<lambda>(k, xs). map (\<lambda>v. query_escape k @ ''='' @ query_escape v) xs)
       (sort_key fst vs)))"

definition query_pair :: "string \<Rightarrow> (string \<times> string) option" where
  "query_pair s =
     (if s = [] \<or> CHR '';'' \<in> set s then None
      else let (k, v) = cut_or CHR ''='' s in
        case (url_unescape EQuery k, url_unescape EQuery v) of (Some a, Some b) \<Rightarrow> Some (a, b) | _ \<Rightarrow> None)"

definition values_add :: "string \<times> string \<Rightarrow> url_values \<Rightarrow> url_values" where
  "values_add kv vs =
     (case map_of vs (fst kv) of None \<Rightarrow> kv_put (fst kv) [snd kv] vs
      | Some xs \<Rightarrow> kv_put (fst kv) (xs @ [snd kv]) vs)"

definition parse_query :: "string \<Rightarrow> url_values" where
  "parse_query q = fold values_add (List.map_filter query_pair (split_on CHR ''&'' q)) []"

text \<open>Encoding single-valued parameters and parsing the query string gives them back, sorted.\<close>

lemma query_escape_no: "c \<notin> set (query_escape s)" if "c \<in> set ''&=;''" for c
  using that query_escape_alphabet[of c s] by (auto simp: alnum_def in_rng_def is_digit_def)

lemma query_unescape_escape [simp]: "url_unescape EQuery (query_escape s) = Some s"
  by (simp add: query_escape_def unescape_escape)

lemma query_pair_encode: "query_pair (query_escape k @ ''='' @ query_escape v) = Some (k, v)"
proof -
  have "str_cut CHR ''='' (query_escape k @ ''='' @ query_escape v) = Some (query_escape k, query_escape v)"
    using query_escape_no[of "CHR ''=''" k] by (simp add: str_cut_Some)
  moreover have "CHR '';'' \<notin> set (query_escape k @ ''='' @ query_escape v)"
    using query_escape_no[of "CHR '';''"] by auto
  ultimately show ?thesis by (simp add: query_pair_def cut_or_def)
qed

lemma kv_put_new: "map_of vs k = None \<Longrightarrow> kv_put k v vs = vs @ [(k, v)]"
  by (induction k v vs rule: kv_put.induct) (auto split: if_splits)

lemma fold_values_add:
  "distinct (map fst vs @ map fst ws) \<Longrightarrow>
   fold values_add (map (\<lambda>(k, v). (k, v)) ws) vs = vs @ map (\<lambda>(k, v). (k, [v])) ws"
proof (induction ws arbitrary: vs)
  case (Cons w ws)
  obtain k v where w: "w = (k, v)" by fastforce
  have "map_of vs k = None" using Cons.prems w by (auto simp: map_of_eq_None_iff)
  hence "values_add (k, v) vs = vs @ [(k, [v])]" by (simp add: values_add_def kv_put_new)
  moreover have "distinct (map fst (vs @ [(k, [v])]) @ map fst ws)" using Cons.prems w by auto
  ultimately show ?case using Cons.IH[of "vs @ [(k, [v])]"] w by simp
qed simp

definition singles :: "(string \<times> string) list \<Rightarrow> url_values" where
  "singles ps = map (\<lambda>(k, v). (k, [v])) ps"

lemma insort_map: "(\<And>x. f (g x) = h x) \<Longrightarrow> insort_key f (g x) (map g ys) = map g (insort_key h x ys)"
  by (induction ys) auto

lemma sort_key_map: "(\<And>x. f (g x) = h x) \<Longrightarrow> sort_key f (map g xs) = map g (sort_key h xs)"
  by (induction xs) (simp_all add: insort_map)

lemma values_encode_singles:
  "values_encode (singles ps) =
     join_str ''&'' (map (\<lambda>(k, v). query_escape k @ ''='' @ query_escape v) (sort_key fst ps))"
proof -
  have "sort_key fst (singles ps) = singles (sort_key fst ps)"
    unfolding singles_def by (intro sort_key_map) auto
  moreover have "concat (map (\<lambda>(k, xs). map (\<lambda>v. query_escape k @ ''='' @ query_escape v) xs) (singles qs)) =
      map (\<lambda>(k, v). query_escape k @ ''='' @ query_escape v) qs" for qs
    by (induction qs) (auto simp: singles_def)
  ultimately show ?thesis by (simp add: values_encode_def)
qed

lemma parse_query_encode:
  assumes "distinct (map fst ps)"
  shows "parse_query (values_encode (singles ps)) = singles (sort_key fst ps)"
proof (cases "ps = []")
  case True
  have "query_pair [] = None" by (simp add: query_pair_def)
  moreover have "values_encode (singles ps) = []" using True by (simp add: values_encode_singles)
  ultimately show ?thesis using True by (simp add: parse_query_def singles_def map_filter_simps)
next
  case False
  define qs where "qs = sort_key fst ps"
  have ne: "qs \<noteq> []" using False by (metis qs_def set_empty set_sort)
  have "CHR ''&'' \<notin> set (query_escape k @ ''='' @ query_escape v)" for k v
    using query_escape_no[of "CHR ''&''"] by auto
  hence sp: "split_on CHR ''&'' (values_encode (singles ps)) =
      map (\<lambda>(k, v). query_escape k @ ''='' @ query_escape v) qs"
    using ne unfolding values_encode_singles qs_def[symmetric] by (intro split_join) auto
  have "List.map_filter query_pair (map (\<lambda>(k, v). query_escape k @ ''='' @ query_escape v) qs) = qs"
    by (induction qs) (auto simp: query_pair_encode[simplified] map_filter_simps)
  moreover have "distinct (map fst qs)" using assms by (simp add: qs_def distinct_map)
  ultimately show ?thesis
    using fold_values_add[of "[]" qs] unfolding parse_query_def sp
    by (simp add: singles_def qs_def[symmetric] split_def)
qed

end
