(* ===== verification/Mime.thy ===== *)
theory Mime
  imports Utf8 GoStr Url
begin

text \<open>
  \<open>mime.ParseMediaType\<close>, for the media type and the fact of an error: a header whose
  parameters are malformed or contradictory is an error for the caller.
\<close>

text \<open>\<open>strings.ToLower\<close>, as far as its result can be ASCII.\<close>

definition lower_rune :: "nat \<Rightarrow> nat" where
  "lower_rune r = (if 65 \<le> r \<and> r \<le> 90 then r + 32 else if r = 304 then 105 else if r = 8490 then 107 else r)"

definition lower_str :: "string \<Rightarrow> string" where
  "lower_str s = encode_runes (map lower_rune (runes s))"

definition token_char :: "char \<Rightarrow> bool" where
  "token_char c = (32 < (byte c :: nat) \<and> byte c < (127 :: nat) \<and>
     c \<notin> set ''()<>@,;:/[]?='' \<and> c \<noteq> CHR 0x5C \<and> c \<noteq> CHR 0x22)"

definition consume_token :: "string \<Rightarrow> string \<times> string" where
  "consume_token s = (takeWhile token_char s, dropWhile token_char s)"

definition tspecial :: "char \<Rightarrow> bool" where
  "tspecial c = (c \<in> set ''()<>@,;:/[]?='' \<or> c = CHR 0x5C \<or> c = CHR 0x22)"

fun quoted_value :: "string \<Rightarrow> string \<Rightarrow> (string \<times> string) option" where
  "quoted_value acc [] = None"
| "quoted_value acc (c # cs) =
     (if c = CHR 0x22 then Some (acc, cs)
      else case cs of
        d # ds \<Rightarrow>
          if c = CHR 0x5C \<and> tspecial d then quoted_value (acc @ [d]) ds
          else if c = CHR 0x0D \<or> c = CHR 0x0A then None
          else quoted_value (acc @ [c]) cs
      | [] \<Rightarrow> None)"

definition consume_value :: "string \<Rightarrow> string \<times> string" where
  "consume_value v =
     (case v of [] \<Rightarrow> ([], [])
      | c # cs \<Rightarrow> if c \<noteq> CHR 0x22 then consume_token v
                  else (case quoted_value [] cs of Some r \<Rightarrow> r | None \<Rightarrow> ([], v)))"

text \<open>\<open>consumeMediaParam\<close>: \<open>None\<close> stands for an empty key.\<close>

definition consume_param :: "string \<Rightarrow> (string \<times> string \<times> string) option" where
  "consume_param v =
     (case trim_left_space v of
        [] \<Rightarrow> None
      | c # cs \<Rightarrow>
          if c \<noteq> CHR '';'' then None
          else let (param, rest) = consume_token (trim_left_space cs) in
            if param = [] then None
            else case trim_left_space rest of
              [] \<Rightarrow> None
            | e # es \<Rightarrow>
                if e \<noteq> CHR ''='' then None
                else let r = trim_left_space es; (value, rest2) = consume_value r in
                  if value = [] \<and> rest2 = r then None
                  else Some (lower_str param, value, rest2))"

fun media_params :: "nat \<Rightarrow> (string, string) gomap \<Rightarrow> string \<Rightarrow> bool" where
  "media_params 0 seen v = False"
| "media_params (Suc n) seen v =
     (let v' = trim_left_space v in
      if v' = [] then True
      else case consume_param v' of
        None \<Rightarrow> trim_space v' = '';''
      | Some (k, x, rest) \<Rightarrow>
          (case map_of seen k of
             Some y \<Rightarrow> if x = y then media_params n seen rest else False
           | None \<Rightarrow> media_params n (kv_put k x seen) rest))"

definition media_type_ok :: "string \<Rightarrow> bool" where
  "media_type_ok s =
     (let (typ, rest) = consume_token s in
      typ \<noteq> [] \<and>
      (case rest of [] \<Rightarrow> True
       | c # cs \<Rightarrow> c = CHR ''/'' \<and> (let (sub, rest2) = consume_token cs in sub \<noteq> [] \<and> rest2 = [])))"

text \<open>Every parameter consumes a byte, so the fuel is enough.\<close>

definition parse_media_type :: "string \<Rightarrow> string option" where
  "parse_media_type v =
     (let base = fst (cut_or CHR '';'' v); m = trim_space (lower_str base) in
      if media_type_ok m \<and> media_params (Suc (length v)) [] (drop (length base) v) then Some m else None)"

end
