(* ===== verification/Tmpl.thy ===== *)
theory Tmpl
  imports Json
begin

text \<open>
  \<open>internal/tmpl/tmpl.go\<close>: the substitution language of connector manifests.
  \<open>tmpl_parse\<close> is \<open>Parse\<close>, \<open>tmpl_render\<close> is \<open>Render\<close> and \<open>tmpl_render_value\<close> is
  \<open>RenderValue\<close>; errors are the values of \<open>tmpl_error\<close>.  The lemmas show what a
  successful parse guarantees, that a rendering is the concatenation of its
  parts with every substituted value escaped, and that printing a well-formed
  template and parsing it gives it back.
\<close>

section \<open>Data\<close>

record tmpl_ref =
  ref_namespace :: string
  ref_path :: "string list"

record tmpl_part =
  part_literal :: string
  part_ref :: "tmpl_ref option"
  part_default :: string
  part_hasDefault :: bool

record template =
  tmpl_src :: string
  tmpl_parts :: "tmpl_part list"

datatype tmpl_error =
    Unterminated string
  | EmptyPlaceholder
  | NotNamespacePath string
  | UnknownNamespace string
  | InvalidPathElement string string
  | UnsupportedFilter string
  | InTemplate string tmpl_error
  | ValueIsNull
  | CannotInterpolate
  | AtRef tmpl_ref tmpl_error

definition tmpl_namespaces :: "string list" where
  "tmpl_namespaces = [''input'', ''vars'', ''secrets'']"

definition ref_string :: "tmpl_ref \<Rightarrow> string" where
  "ref_string r = ref_namespace r @ ''.'' @ join_str ''.'' (ref_path r)"

definition lit_part :: "string \<Rightarrow> tmpl_part" where
  "lit_part s = \<lparr>part_literal = s, part_ref = None, part_default = [], part_hasDefault = False\<rparr>"

section \<open>Parsing\<close>

definition ident_head :: "char \<Rightarrow> bool" where
  "ident_head c = (in_rng 97 122 c \<or> in_rng 65 90 c \<or> c = CHR ''_'')"

definition ident_tail :: "char \<Rightarrow> bool" where
  "ident_tail c = (is_digit c \<or> c = CHR ''-'')"

fun valid_ident_from :: "nat \<Rightarrow> string \<Rightarrow> bool" where
  "valid_ident_from i [] = True"
| "valid_ident_from i (c # cs) =
     (if ident_head c then valid_ident_from (Suc i) cs
      else if ident_tail c \<and> 0 < i then valid_ident_from (Suc i) cs
      else False)"

definition valid_ident :: "string \<Rightarrow> bool" where
  "valid_ident s = (s \<noteq> [] \<and> valid_ident_from 0 s)"

definition tmpl_unquote :: "string \<Rightarrow> string" where
  "tmpl_unquote s =
     (case s of [] \<Rightarrow> s
      | q # r \<Rightarrow>
          if 2 \<le> length s \<and> (q = CHR 0x22 \<or> q = CHR 0x27) \<and> last s = q then
            (if q = CHR 0x22 then
               (case unquote_body r of Some out \<Rightarrow> out | None \<Rightarrow> butlast r)
             else butlast r)
          else s)"

text \<open>The filter loop: every segment after the first \<open>|\<close>; the last default wins.\<close>

fun parse_filters :: "tmpl_part \<Rightarrow> string list \<Rightarrow> (tmpl_error, tmpl_part) result" where
  "parse_filters p [] = Inr p"
| "parse_filters p (seg # segs) =
     (let filt = trim_space seg in
      case cut_prefix ''default:'' filt of
        None \<Rightarrow> Inl (UnsupportedFilter filt)
      | Some v \<Rightarrow> parse_filters (p\<lparr>part_default := tmpl_unquote (trim_space v),
                                  part_hasDefault := True\<rparr>) segs)"

definition parse_placeholder :: "string \<Rightarrow> (tmpl_error, tmpl_part) result" where
  "parse_placeholder body =
     (let segs = split_on CHR ''|'' body; look = trim_space (hd segs) in
      if look = [] then Inl EmptyPlaceholder
      else case str_cut CHR ''.'' look of
        None \<Rightarrow> Inl (NotNamespacePath look)
      | Some (ns, path) \<Rightarrow>
          if path = [] then Inl (NotNamespacePath look)
          else if ns \<notin> set tmpl_namespaces then Inl (UnknownNamespace ns)
          else let elems = split_on CHR ''.'' path in
            (case find (\<lambda>e. \<not> valid_ident e) elems of
               Some e \<Rightarrow> Inl (InvalidPathElement e look)
             | None \<Rightarrow>
                 parse_filters
                   \<lparr>part_literal = [], part_ref = Some \<lparr>ref_namespace = ns, ref_path = elems\<rparr>,
                    part_default = [], part_hasDefault = False\<rparr> (tl segs)))"

text \<open>The loop of \<open>Parse\<close> over the text that remains.\<close>

function parse_loop :: "string \<Rightarrow> string \<Rightarrow> (tmpl_error, tmpl_part list) result" where
  "parse_loop src rest =
     (case str_index ''{{'' rest of
        None \<Rightarrow> Inr (if rest = [] then [] else [lit_part rest])
      | Some op \<Rightarrow>
          let pre = (if 0 < op then [lit_part (take op rest)] else []);
              rest1 = drop (op + 2) rest in
          case str_index ''}}'' rest1 of
            None \<Rightarrow> Inl (Unterminated src)
          | Some cl \<Rightarrow>
              (case parse_placeholder (take cl rest1) of
                 Inl e \<Rightarrow> Inl (InTemplate src e)
               | Inr p \<Rightarrow> rmap (\<lambda>ps. pre @ p # ps) (parse_loop src (drop (cl + 2) rest1))))"
  by pat_completeness auto
termination
  by (relation "measure (length \<circ> snd)") (auto dest: str_index_bound)

declare parse_loop.simps [simp del]

definition tmpl_parse :: "string \<Rightarrow> (tmpl_error, template) result" where
  "tmpl_parse src = rmap (\<lambda>ps. \<lparr>tmpl_src = src, tmpl_parts = ps\<rparr>) (parse_loop src src)"

section \<open>Queries\<close>

definition tmpl_static :: "template \<Rightarrow> bool" where
  "tmpl_static t = list_all (\<lambda>p. part_ref p = None) (tmpl_parts t)"

definition tmpl_refs :: "template \<Rightarrow> tmpl_ref list" where
  "tmpl_refs t = List.map_filter part_ref (tmpl_parts t)"

definition uses_secrets :: "template \<Rightarrow> bool" where
  "uses_secrets t = list_ex (\<lambda>p. case part_ref p of None \<Rightarrow> False
                                 | Some r \<Rightarrow> ref_namespace r = ''secrets'') (tmpl_parts t)"

section \<open>Rendering\<close>

text \<open>\<open>Scope.Lookup\<close>: the value at a path, if there is one.\<close>

type_synonym scope = "string \<Rightarrow> string list \<Rightarrow> goval option"

definition tmpl_resolve :: "scope option \<Rightarrow> tmpl_part \<Rightarrow> goval option" where
  "tmpl_resolve sc p =
     (let found = (case (sc, part_ref p) of
                     (Some lk, Some r) \<Rightarrow> lk (ref_namespace r) (ref_path r) | _ \<Rightarrow> None) in
      case found of
        Some v \<Rightarrow> if v \<noteq> VNil then Some v
                  else if part_hasDefault p then Some (VStr (part_default p)) else None
      | None \<Rightarrow> if part_hasDefault p then Some (VStr (part_default p)) else None)"

text \<open>\<open>oor\<close> is the platform's conversion of an out-of-range float to \<open>int64\<close>.\<close>

definition stringify :: "(rat \<Rightarrow> int) \<Rightarrow> goval \<Rightarrow> (tmpl_error, string) result" where
  "stringify oor v = (case v of
     VStr s \<Rightarrow> Inr s
   | VBool b \<Rightarrow> Inr (if b then ''true'' else ''false'')
   | VFloat x \<Rightarrow> Inr (if x = f64_of_int (int64_of_f64 oor x) then itoa (int64_of_f64 oor x)
                      else format_float_f x)
   | VInt i \<Rightarrow> Inr (itoa i)
   | VInt64 i \<Rightarrow> Inr (itoa i)
   | VNumber s \<Rightarrow> Inr s
   | VNil \<Rightarrow> Inl ValueIsNull
   | VArr _ \<Rightarrow> Inl CannotInterpolate
   | VObj _ \<Rightarrow> Inl CannotInterpolate)"

fun render_parts :: "(rat \<Rightarrow> int) \<Rightarrow> scope option \<Rightarrow> (string \<Rightarrow> string) \<Rightarrow> tmpl_part list
    \<Rightarrow> (tmpl_error, string option) result" where
  "render_parts oor sc esc [] = Inr (Some [])"
| "render_parts oor sc esc (p # ps) =
     (case part_ref p of
        None \<Rightarrow> rmap (map_option ((@) (part_literal p))) (render_parts oor sc esc ps)
      | Some r \<Rightarrow>
          (case tmpl_resolve sc p of
             None \<Rightarrow> Inr None
           | Some raw \<Rightarrow>
               (case stringify oor raw of
                  Inl e \<Rightarrow> Inl (AtRef r e)
                | Inr s \<Rightarrow> rmap (map_option ((@) (esc s))) (render_parts oor sc esc ps))))"

text \<open>\<open>Render\<close>: \<open>Inr None\<close> is the result \<open>"", false, nil\<close>; a nil escaper is the identity.\<close>

definition tmpl_render :: "(rat \<Rightarrow> int) \<Rightarrow> template \<Rightarrow> scope option \<Rightarrow> (string \<Rightarrow> string) option
    \<Rightarrow> (tmpl_error, string option) result" where
  "tmpl_render oor t sc esc =
     render_parts oor sc (case esc of None \<Rightarrow> id | Some e \<Rightarrow> e) (tmpl_parts t)"

definition coerce_default :: "string \<Rightarrow> goval" where
  "coerce_default s = (case json_unmarshal s of
     Some (VFloat x) \<Rightarrow> VFloat x
   | Some (VBool b) \<Rightarrow> VBool b
   | Some VNil \<Rightarrow> VNil
   | _ \<Rightarrow> VStr s)"

definition tmpl_render_value :: "(rat \<Rightarrow> int) \<Rightarrow> template \<Rightarrow> scope option
    \<Rightarrow> (tmpl_error, goval option) result" where
  "tmpl_render_value oor t sc =
     (case tmpl_parts t of
        [p] \<Rightarrow>
          (if part_ref p \<noteq> None then
             (case tmpl_resolve sc p of
                None \<Rightarrow> Inr None
              | Some raw \<Rightarrow>
                  if part_hasDefault p \<and> raw = VStr (part_default p)
                  then Inr (Some (coerce_default (part_default p)))
                  else Inr (Some raw))
           else rmap (map_option VStr) (tmpl_render oor t sc (Some id)))
      | _ \<Rightarrow> rmap (map_option VStr) (tmpl_render oor t sc (Some id)))"

section \<open>The map-backed scope\<close>

record map_scope =
  sc_input :: "(string \<times> goval) list"
  sc_vars :: "(string \<times> string) list"
  sc_secrets :: "(string \<times> string) list"

fun lookup_nested :: "goval \<Rightarrow> string list \<Rightarrow> goval option" where
  "lookup_nested cur [] = Some cur"
| "lookup_nested cur (k # ks) =
     (case obj_lookup cur k of None \<Rightarrow> None | Some v \<Rightarrow> lookup_nested v ks)"

definition map_scope_lookup :: "map_scope \<Rightarrow> scope" where
  "map_scope_lookup m ns path =
     (if ns = ''input'' then lookup_nested (VObj (sc_input m)) path
      else if ns = ''vars'' then
        (case path of [k] \<Rightarrow> map_option VStr (map_of (sc_vars m) k) | _ \<Rightarrow> None)
      else if ns = ''secrets'' then
        (case path of [k] \<Rightarrow> map_option VStr (map_of (sc_secrets m) k) | _ \<Rightarrow> None)
      else None)"

section \<open>What a successful parse guarantees\<close>

definition wf_ref :: "tmpl_ref \<Rightarrow> bool" where
  "wf_ref r = (ref_namespace r \<in> set tmpl_namespaces \<and> ref_path r \<noteq> [] \<and> list_all valid_ident (ref_path r))"

definition wf_literal :: "tmpl_part \<Rightarrow> bool" where
  "wf_literal p = (p = lit_part (part_literal p) \<and> part_literal p \<noteq> [] \<and> \<not> contains (part_literal p) ''{{'')"

definition wf_part :: "tmpl_part \<Rightarrow> bool" where
  "wf_part p = (case part_ref p of None \<Rightarrow> wf_literal p | Some r \<Rightarrow> part_literal p = [] \<and> wf_ref r)"

lemma lit_part_simps [simp]:
  "part_literal (lit_part s) = s" "part_ref (lit_part s) = None"
  "part_default (lit_part s) = []" "\<not> part_hasDefault (lit_part s)"
  by (simp_all add: lit_part_def)

lemma parse_filters_keeps:
  "parse_filters p segs = Inr q \<Longrightarrow> part_ref q = part_ref p \<and> part_literal q = part_literal p"
  by (induction p segs rule: parse_filters.induct)
     (auto simp: Let_def split: option.splits)

lemma find_None_list_all: "find (\<lambda>e. \<not> P e) xs = None \<longleftrightarrow> list_all P xs"
  by (induction xs) auto

lemma parse_placeholder_wf: "parse_placeholder body = Inr p \<Longrightarrow> wf_part p"
  by (auto simp: parse_placeholder_def Let_def wf_part_def wf_ref_def find_None_list_all
      split: if_splits option.splits dest!: parse_filters_keeps)

lemma parse_placeholder_ref: "parse_placeholder body = Inr p \<Longrightarrow> part_ref p \<noteq> None"
  by (auto simp: parse_placeholder_def Let_def
      split: if_splits option.splits dest!: parse_filters_keeps)

lemma parse_loop_wf: "parse_loop src rest = Inr ps \<Longrightarrow> list_all wf_part ps"
proof (induction src rest arbitrary: ps rule: parse_loop.induct)
  case (1 src rest)
  show ?case
  proof (cases "str_index ''{{'' rest")
    case None
    with "1.prems" show ?thesis
      by (subst (asm) parse_loop.simps)
         (auto simp: wf_part_def wf_literal_def contains_def split: if_splits)
  next
    case (Some op)
    with "1.prems" obtain cl p qs where c:
      "str_index ''}}'' (drop (op + 2) rest) = Some cl"
      "parse_placeholder (take cl (drop (op + 2) rest)) = Inr p"
      "parse_loop src (drop (cl + 2) (drop (op + 2) rest)) = Inr qs"
      "ps = (if 0 < op then [lit_part (take op rest)] else []) @ p # qs"
      by (subst (asm) parse_loop.simps) (auto simp: Let_def split: option.splits sum.splits)
    have "list_all wf_part qs"
      using "1.IH"[OF Some refl refl c(1) c(2)] c(3) by simp
    moreover have "wf_part (lit_part (take op rest))" if "0 < op"
      using str_index_before[OF _ Some] str_index_bound[OF Some] that
      by (auto simp: wf_part_def wf_literal_def contains_def)
    ultimately show ?thesis using c parse_placeholder_wf by auto
  qed
qed

section \<open>Rendering, part by part\<close>

text \<open>What one part contributes: nothing (the whole field is dropped), an error, or text.\<close>

definition part_out :: "(rat \<Rightarrow> int) \<Rightarrow> scope option \<Rightarrow> (string \<Rightarrow> string) \<Rightarrow> tmpl_part
    \<Rightarrow> (tmpl_error, string option) result" where
  "part_out oor sc esc p =
     (case part_ref p of
        None \<Rightarrow> Inr (Some (part_literal p))
      | Some r \<Rightarrow>
          (case tmpl_resolve sc p of
             None \<Rightarrow> Inr None
           | Some raw \<Rightarrow> (case stringify oor raw of
                             Inl e \<Rightarrow> Inl (AtRef r e) | Inr s \<Rightarrow> Inr (Some (esc s)))))"

lemma render_parts_Cons:
  "render_parts oor sc esc (p # ps) =
     (case part_out oor sc esc p of
        Inl e \<Rightarrow> Inl e
      | Inr None \<Rightarrow> Inr None
      | Inr (Some s) \<Rightarrow> rmap (map_option ((@) s)) (render_parts oor sc esc ps))"
  by (simp add: part_out_def split: option.split sum.split)

lemma render_parts_Some_iff:
  "render_parts oor sc esc ps = Inr (Some out) \<longleftrightarrow>
     (\<exists>ss. list_all2 (\<lambda>p s. part_out oor sc esc p = Inr (Some s)) ps ss \<and> out = concat ss)"
proof (induction ps arbitrary: out)
  case (Cons p ps)
  show ?case
  proof (cases "part_out oor sc esc p")
    case (Inl e)
    thus ?thesis by (simp add: render_parts_Cons list_all2_Cons1 del: render_parts.simps)
  next
    case (Inr o')
    thus ?thesis using Cons.IH
      by (cases o') (auto simp: render_parts_Cons list_all2_Cons1 rmap_map_option_Some
          simp del: render_parts.simps rmap_Inr_iff)
  qed
qed auto


lemma render_parts_None_iff:
  "render_parts oor sc esc ps = Inr None \<longleftrightarrow>
     (\<exists>pre p post ss. ps = pre @ p # post \<and> part_out oor sc esc p = Inr None \<and>
        list_all2 (\<lambda>p s. part_out oor sc esc p = Inr (Some s)) pre ss)" (is "_ \<longleftrightarrow> ?R ps")
proof
  show "render_parts oor sc esc ps = Inr None \<Longrightarrow> ?R ps"
  proof (induction ps)
    case (Cons p ps)
    show ?case
    proof (cases "part_out oor sc esc p")
      case (Inl e)
      thus ?thesis using Cons.prems by (simp add: render_parts_Cons del: render_parts.simps)
    next
      case (Inr o')
      show ?thesis
      proof (cases o')
        case None
        hence "p # ps = [] @ p # ps" "part_out oor sc esc p = Inr None"
          "list_all2 (\<lambda>p s. part_out oor sc esc p = Inr (Some s)) [] []" using Inr by simp_all
        thus ?thesis by blast
      next
        case (Some s)
        hence "render_parts oor sc esc ps = Inr None"
          using Cons.prems Inr by (auto simp: render_parts_Cons simp del: render_parts.simps)
        then obtain pre q post ss where "ps = pre @ q # post" "part_out oor sc esc q = Inr None"
          "list_all2 (\<lambda>p s. part_out oor sc esc p = Inr (Some s)) pre ss"
          using Cons.IH by blast
        hence "p # ps = (p # pre) @ q # post" "part_out oor sc esc q = Inr None"
          "list_all2 (\<lambda>p s. part_out oor sc esc p = Inr (Some s)) (p # pre) (s # ss)"
          using Inr Some by simp_all
        thus ?thesis by blast
      qed
    qed
  qed simp
  have "list_all2 (\<lambda>p s. part_out oor sc esc p = Inr (Some s)) pre ss \<Longrightarrow>
        part_out oor sc esc p = Inr None \<Longrightarrow> render_parts oor sc esc (pre @ p # post) = Inr None"
    for pre ss p post
    by (induction pre ss rule: list_all2_induct)
       (auto simp: render_parts_Cons simp del: render_parts.simps)
  thus "?R ps \<Longrightarrow> render_parts oor sc esc ps = Inr None" by blast
qed

text \<open>
  Confinement: bytes the escaper never produces come from literal text only, in
  the order and number the manifest's author wrote them.
\<close>

lemma filter_confined:
  assumes esc: "\<And>s. set (esc s) \<inter> B = {}"
    and out: "list_all2 (\<lambda>p s. part_out oor sc esc p = Inr (Some s)) ps ss"
    and wf: "list_all wf_part ps"
  shows "filter (\<lambda>c. c \<in> B) (concat ss) = filter (\<lambda>c. c \<in> B) (concat (map part_literal ps))"
  using out wf
proof (induction ps ss rule: list_all2_induct)
  case (Cons p ps s ss)
  have "filter (\<lambda>c. c \<in> B) s = filter (\<lambda>c. c \<in> B) (part_literal p)"
  proof (cases "part_ref p")
    case None
    thus ?thesis using Cons.hyps(1) by (simp add: part_out_def)
  next
    case (Some r)
    then obtain t where "s = esc t"
      using Cons.hyps(1) by (auto simp: part_out_def split: option.splits sum.splits)
    hence "filter (\<lambda>c. c \<in> B) s = []" using esc[of t] by (auto simp: filter_empty_conv)
    moreover have "part_literal p = []" using Some Cons.prems by (simp add: wf_part_def)
    ultimately show ?thesis by simp
  qed
  with Cons show ?case by simp
qed simp

lemma static_parts:
  assumes "list_all (\<lambda>p. part_ref p = None) ps"
  shows "render_parts oor sc esc ps = Inr (Some (concat (map part_literal ps)))"
  using assms by (induction ps) auto

lemma parse_loop_static:
  "parse_loop src rest = Inr ps \<Longrightarrow> list_all (\<lambda>p. part_ref p = None) ps
   \<Longrightarrow> concat (map part_literal ps) = rest"
  by (subst (asm) parse_loop.simps)
     (auto simp: Let_def split: option.splits sum.splits if_splits dest: parse_placeholder_ref)

section \<open>Printing\<close>

definition print_part :: "tmpl_part \<Rightarrow> string" where
  "print_part p = (case part_ref p of
     None \<Rightarrow> part_literal p
   | Some r \<Rightarrow> ''{{'' @ ref_string r @
        (if part_hasDefault p then ''|default:'' @ part_default p else []) @ ''}}'')"

definition plain_default :: "string \<Rightarrow> bool" where
  "plain_default d = (d = [] \<or>
     (ascii d \<and> \<not> space_char (hd d) \<and> \<not> space_char (last d) \<and>
      hd d \<noteq> CHR 0x22 \<and> hd d \<noteq> CHR 0x27 \<and> CHR ''|'' \<notin> set d \<and> CHR ''}'' \<notin> set d))"

definition printable_ref :: "tmpl_part \<Rightarrow> bool" where
  "printable_ref p = (wf_part p \<and> plain_default (part_default p) \<and>
                      (\<not> part_hasDefault p \<longrightarrow> part_default p = []))"

text \<open>Parts as the parser produces them: literals are maximal and do not run into a placeholder.\<close>

fun printable :: "tmpl_part list \<Rightarrow> bool" where
  "printable [] = True"
| "printable (p # ps) =
     (if part_ref p = None
      then wf_literal p \<and> printable ps \<and>
           (case ps of [] \<Rightarrow> True | q # _ \<Rightarrow> part_ref q \<noteq> None \<and> last (part_literal p) \<noteq> CHR ''{'')
      else printable_ref p \<and> printable ps)"

definition print_parts :: "tmpl_part list \<Rightarrow> string" where
  "print_parts ps = concat (map print_part ps)"

lemma valid_ident_chars: "valid_ident s \<Longrightarrow> c \<in> set s \<Longrightarrow> ident_head c \<or> ident_tail c"
proof -
  have "valid_ident_from i s \<Longrightarrow> c \<in> set s \<Longrightarrow> ident_head c \<or> ident_tail c" for i
    by (induction i s rule: valid_ident_from.induct) (auto split: if_splits)
  thus "valid_ident s \<Longrightarrow> c \<in> set s \<Longrightarrow> ident_head c \<or> ident_tail c"
    unfolding valid_ident_def by blast
qed

definition ref_char :: "char \<Rightarrow> bool" where
  "ref_char c = (ident_head c \<or> ident_tail c \<or> c = CHR ''.'')"

lemma ref_char_facts:
  assumes "ref_char c"
  shows "byte c < (128::nat)" "\<not> space_char c" "c \<noteq> CHR ''|''" "c \<noteq> CHR ''}''" "c \<noteq> CHR ''{''"
  using assms
  by (auto simp: ref_char_def ident_head_def ident_tail_def is_digit_def in_rng_def space_char_def
      is_space_rune_def)


lemma namespace_chars: "ns \<in> set tmpl_namespaces \<Longrightarrow> list_all (\<lambda>c. ref_char c \<and> c \<noteq> CHR ''.'') ns \<and> ns \<noteq> []"
  by (auto simp: tmpl_namespaces_def ref_char_def ident_head_def in_rng_def)

lemma ident_no_dot: "valid_ident e \<Longrightarrow> CHR ''.'' \<notin> set e"
  by (auto dest!: valid_ident_chars simp: ident_head_def ident_tail_def is_digit_def in_rng_def)

lemma ref_string_chars:
  assumes "wf_ref r"
  shows "list_all ref_char (ref_string r)"
proof -
  have "set (join_str ''.'' (ref_path r)) \<subseteq> {CHR ''.''} \<union> \<Union>(set ` set (ref_path r))"
    using set_join[of "''.''" "ref_path r"] by simp
  moreover have "ref_char c" if "e \<in> set (ref_path r)" "c \<in> set e" for e c
    using that assms valid_ident_chars[of e c] by (auto simp: wf_ref_def list_all_iff ref_char_def)
  ultimately have "list_all ref_char (join_str ''.'' (ref_path r))"
    by (auto simp: list_all_iff ref_char_def dest!: subsetD)
  thus ?thesis
    using assms namespace_chars[of "ref_namespace r"]
    by (auto simp: ref_string_def wf_ref_def list_all_iff ref_char_def)
qed

lemma ref_string_plain:
  assumes "wf_ref r"
  shows "ref_string r \<noteq> []" "trim_space (ref_string r) = ref_string r"
    "CHR ''|'' \<notin> set (ref_string r)" "CHR ''}'' \<notin> set (ref_string r)"
proof -
  note chars = ref_string_chars[OF assms]
  show ne: "ref_string r \<noteq> []" by (simp add: ref_string_def)
  show "trim_space (ref_string r) = ref_string r"
    using chars ne
    by (intro trim_space_id) (auto simp: ascii_def list_all_iff ref_char_facts)
  show "CHR ''|'' \<notin> set (ref_string r)" "CHR ''}'' \<notin> set (ref_string r)"
    using chars ref_char_facts(3,4) by (auto simp: list_all_iff)
qed

lemma plain_default_facts:
  assumes "plain_default d"
  shows "trim_space (''default:'' @ d) = ''default:'' @ d" "trim_space d = d" "tmpl_unquote d = d"
    "CHR ''|'' \<notin> set d" "CHR ''}'' \<notin> set d"
proof -
  have sp: "\<not> space_char (CHR ''d'')" "\<not> space_char (CHR '':'')"
    by (simp_all add: space_char_def is_space_rune_def)
  show "trim_space (''default:'' @ d) = ''default:'' @ d"
    using assms sp by (intro trim_space_id) (auto simp: plain_default_def)
  show "trim_space d = d"
    using assms by (cases "d = []") (auto simp: plain_default_def intro!: trim_space_id)
  show "tmpl_unquote d = d" using assms by (cases d) (auto simp: plain_default_def tmpl_unquote_def)
  show "CHR ''|'' \<notin> set d" "CHR ''}'' \<notin> set d" using assms by (auto simp: plain_default_def)
qed

definition print_body :: "tmpl_part \<Rightarrow> tmpl_ref \<Rightarrow> string" where
  "print_body p r = ref_string r @ (if part_hasDefault p then ''|default:'' @ part_default p else [])"

lemma parse_placeholder_print:
  assumes p: "printable_ref p" and r: "part_ref p = Some r"
  shows "parse_placeholder (print_body p r) = Inr p"
proof -
  have wf: "wf_ref r" "part_literal p = []" and pd: "plain_default (part_default p)"
    using p r by (auto simp: printable_ref_def wf_part_def)
  note rs = ref_string_plain[OF wf(1)]
  have split: "split_on CHR ''|'' (print_body p r) =
      ref_string r # (if part_hasDefault p then [''default:'' @ part_default p] else [])"
  proof (cases "part_hasDefault p")
    case True
    have "print_body p r = ref_string r @ CHR ''|'' # (''default:'' @ part_default p)"
      using True by (simp add: print_body_def)
    moreover have "CHR ''|'' \<notin> set (''default:'' @ part_default p)"
      using plain_default_facts(4)[OF pd] by simp
    ultimately show ?thesis using rs(3) True
      by (simp only: split_on_append split_on_no_sep if_True simp_thms)
  qed (simp add: print_body_def split_on_no_sep rs(3))
  have ns: "CHR ''.'' \<notin> set (ref_namespace r)"
    using wf(1) namespace_chars by (auto simp: wf_ref_def list_all_iff)
  have cut: "str_cut CHR ''.'' (ref_string r) = Some (ref_namespace r, join_str ''.'' (ref_path r))"
    using ns by (simp add: str_cut_Some ref_string_def)
  obtain e es where path: "ref_path r = e # es" "e \<noteq> []"
    using wf(1) by (cases "ref_path r") (auto simp: wf_ref_def valid_ident_def)
  have jne: "join_str ''.'' (ref_path r) \<noteq> []" using path by (cases es) auto
  have sj: "split_on CHR ''.'' (join_str ''.'' (ref_path r)) = ref_path r"
    using wf(1) ident_no_dot by (intro split_join) (auto simp: wf_ref_def list_all_iff)
  have fd: "find (\<lambda>e. \<not> valid_ident e) (ref_path r) = None"
    using wf(1) by (simp add: find_None_list_all wf_ref_def)
  have filters: "parse_filters \<lparr>part_literal = [], part_ref = Some r, part_default = [], part_hasDefault = False\<rparr>
      (if part_hasDefault p then [''default:'' @ part_default p] else []) = Inr p"
    using r wf(2) p plain_default_facts[OF pd]
    by (cases p) (auto simp: printable_ref_def Let_def cut_prefix_def)
  have eta: "\<lparr>ref_namespace = ref_namespace r, ref_path = ref_path r\<rparr> = r" by simp
  show ?thesis
    using wf(1) jne filters
    by (simp add: parse_placeholder_def split Let_def rs(1,2) cut sj fd wf_ref_def eta
        del: parse_filters.simps)
qed

lemma parse_loop_ref:
  assumes "str_index ''{{'' (pre @ ''{{'' @ body @ ''}}'' @ rest) = Some (length pre)"
    and "CHR ''}'' \<notin> set body" and "parse_placeholder body = Inr p"
  shows "parse_loop src (pre @ ''{{'' @ body @ ''}}'' @ rest) =
    rmap (\<lambda>ps. (if pre \<noteq> [] then [lit_part pre] else []) @ p # ps) (parse_loop src rest)"
  using assms str_index_pair_fresh[OF assms(2), of rest]
  by (subst parse_loop.simps) (auto simp: Let_def)

lemma print_body_plain:
  assumes "printable_ref p" "part_ref p = Some r"
  shows "CHR ''}'' \<notin> set (print_body p r)" "print_part p = ''{{'' @ print_body p r @ ''}}''"
  using assms ref_string_plain(4)[of r] plain_default_facts(5)[of "part_default p"]
  by (auto simp: print_body_def print_part_def printable_ref_def wf_part_def)

lemma parse_print_parts: "printable ps \<Longrightarrow> parse_loop src (print_parts ps) = Inr ps"
proof (induction ps rule: length_induct)
  case (1 ps)
  show ?case
  proof (cases ps)
    case Nil thus ?thesis by (simp add: print_parts_def parse_loop.simps)
  next
    case (Cons p qs)
    show ?thesis
    proof (cases "part_ref p")
      case (Some r)
      have pr: "printable_ref p" "printable qs" using 1(2) Cons Some by auto
      note body = print_body_plain[OF pr(1) Some]
      have "parse_loop src ([] @ ''{{'' @ print_body p r @ ''}}'' @ print_parts qs) = Inr (p # qs)"
        using 1(1) Cons pr body(1) parse_placeholder_print[OF pr(1) Some]
        by (subst parse_loop_ref) auto
      thus ?thesis using body(2) Cons by (simp add: print_parts_def)
    next
      case None
      define l where "l = part_literal p"
      have l: "p = lit_part l" "l \<noteq> []" "str_index ''{{'' l = None"
        using 1(2) Cons None by (auto simp: wf_literal_def contains_def l_def)
      show ?thesis
      proof (cases qs)
        case Nil
        thus ?thesis using l Cons by (simp add: print_parts_def print_part_def parse_loop.simps)
      next
        case (Cons q rs)
        then obtain r where r: "part_ref q = Some r" and last: "last l \<noteq> CHR ''{''"
            and pr: "printable_ref q" "printable rs"
          using 1(2) \<open>ps = p # qs\<close> None by (auto simp: l_def)
        note body = print_body_plain[OF pr(1) r]
        have ix: "str_index ''{{'' (l @ ''{{'' @ t) = Some (length l)" for t
          using l last by (intro str_index_pair_lit) auto
        have "parse_loop src (l @ ''{{'' @ print_body q r @ ''}}'' @ print_parts rs) = Inr (p # q # rs)"
          using 1(1) Cons \<open>ps = p # qs\<close> pr l
          by (subst parse_loop_ref[OF ix body(1) parse_placeholder_print[OF pr(1) r]]) auto
        thus ?thesis using body(2) Cons \<open>ps = p # qs\<close> None
          by (simp add: print_parts_def print_part_def l_def[symmetric])
      qed
    qed
  qed
qed

section \<open>Properties\<close>

text \<open>C21: what a manifest author writes in the template language is what the
  parser reads: printing any well-formed list of parts (maximal literals that do
  not run into a placeholder, namespaced references with valid identifiers and
  plain defaults) and parsing the text gives the same parts back.\<close>

theorem tmpl_parse_print:
  "printable ps \<Longrightarrow>
   tmpl_parse (print_parts ps) = Inr \<lparr>tmpl_src = print_parts ps, tmpl_parts = ps\<rparr>"
  by (simp add: tmpl_parse_def parse_print_parts)

lemma tmpl_parse_print_witness:
  "tmpl_parse ''/a/{{input.id|default:x}}'' =
     Inr \<lparr>tmpl_src = ''/a/{{input.id|default:x}}'',
          tmpl_parts = [lit_part ''/a/'',
            \<lparr>part_literal = [], part_ref = Some \<lparr>ref_namespace = ''input'', ref_path = [''id'']\<rparr>,
             part_default = ''x'', part_hasDefault = True\<rparr>]\<rparr>"
  using tmpl_parse_print[of "[lit_part ''/a/'',
            \<lparr>part_literal = [], part_ref = Some \<lparr>ref_namespace = ''input'', ref_path = [''id'']\<rparr>,
             part_default = ''x'', part_hasDefault = True\<rparr>]"]
  by (simp add: print_parts_def print_part_def ref_string_def wf_literal_def contains_def
      printable_ref_def wf_part_def wf_ref_def tmpl_namespaces_def valid_ident_def ident_head_def
      in_rng_def plain_default_def space_char_def is_space_rune_def)

text \<open>A template that parses reads only the three declared namespaces along
  non-empty paths of valid identifiers, its literals contain no placeholder
  opening, and a template without references renders, in any scope and with any
  escaper, to exactly its source.\<close>

theorem tmpl_parse_sound:
  assumes "tmpl_parse src = Inr t"
  shows "list_all wf_part (tmpl_parts t) \<and> list_all wf_ref (tmpl_refs t) \<and> tmpl_src t = src \<and>
         (tmpl_static t \<longrightarrow> tmpl_render oor t sc esc = Inr (Some src))"
proof -
  have l: "parse_loop src src = Inr (tmpl_parts t)" "tmpl_src t = src"
    using assms by (auto simp: tmpl_parse_def)
  have wf: "list_all wf_part (tmpl_parts t)" by (rule parse_loop_wf[OF l(1)])
  hence "list_all wf_ref (tmpl_refs t)"
    by (auto simp: tmpl_refs_def list_all_iff map_filter_def wf_part_def)
  moreover have "tmpl_static t \<longrightarrow> tmpl_render oor t sc esc = Inr (Some src)"
    using parse_loop_static[OF l(1)] by (auto simp: tmpl_static_def tmpl_render_def static_parts)
  ultimately show ?thesis using wf l by blast
qed

lemma tmpl_parse_sound_witness:
  "\<exists>t. tmpl_parse ''q={{vars.team}}'' = Inr t \<and> list_all wf_ref (tmpl_refs t) \<and> tmpl_refs t \<noteq> []"
proof -
  obtain t where t: "tmpl_parse ''q={{vars.team}}'' = Inr t" "tmpl_refs t \<noteq> []"
  proof -
    have "(case tmpl_parse ''q={{vars.team}}'' of Inr t \<Rightarrow> tmpl_refs t \<noteq> [] | Inl e \<Rightarrow> False)"
      by code_simp
    thus ?thesis using that by (auto split: sum.splits)
  qed
  thus ?thesis using tmpl_parse_sound[OF t(1)] by blast
qed

text \<open>The sink's escaping cannot be escaped from: if the escaper never
  produces a byte of the set \<open>B\<close>, then in every rendering the bytes of \<open>B\<close> are
  exactly those of the manifest's literal text, in number and order, whatever
  values the scope supplies.\<close>

theorem tmpl_render_confined:
  assumes "tmpl_parse src = Inr t" and "\<And>s. set (esc s) \<inter> B = {}"
    and "tmpl_render oor t sc (Some esc) = Inr (Some out)"
  shows "filter (\<lambda>c. c \<in> B) out = filter (\<lambda>c. c \<in> B) (concat (map part_literal (tmpl_parts t)))"
proof -
  obtain ss where ss: "list_all2 (\<lambda>p s. part_out oor sc esc p = Inr (Some s)) (tmpl_parts t) ss"
    "out = concat ss"
    using assms(3) by (auto simp: tmpl_render_def render_parts_Some_iff)
  have wf: "list_all wf_part (tmpl_parts t)"
    using assms(1) parse_loop_wf by (auto simp: tmpl_parse_def)
  show ?thesis unfolding ss(2) by (rule filter_confined[OF assms(2) ss(1) wf])
qed

lemma tmpl_render_confined_witness:
  "\<exists>t out. tmpl_parse ''/a/{{input.id}}'' = Inr t \<and>
     tmpl_render (\<lambda>_. 0) t (Some (\<lambda>_ _. Some (VStr ''x/y''))) (Some (filter (\<lambda>c. c \<noteq> CHR ''/''))) = Inr (Some out) \<and>
     filter (\<lambda>c. c \<in> {CHR ''/''}) out = filter (\<lambda>c. c \<in> {CHR ''/''}) (concat (map part_literal (tmpl_parts t)))"
proof -
  have "(case tmpl_parse ''/a/{{input.id}}'' of Inr t \<Rightarrow>
     tmpl_render (\<lambda>_. 0) t (Some (\<lambda>_ _. Some (VStr ''x/y''))) (Some (filter (\<lambda>c. c \<noteq> CHR ''/''))) =
       Inr (Some ''/a/xy'') | Inl e \<Rightarrow> False)"
    by code_simp
  then obtain t where t: "tmpl_parse ''/a/{{input.id}}'' = Inr t"
    "tmpl_render (\<lambda>_. 0) t (Some (\<lambda>_ _. Some (VStr ''x/y''))) (Some (filter (\<lambda>c. c \<noteq> CHR ''/''))) =
       Inr (Some ''/a/xy'')"
    by (auto split: sum.splits)
  have "set (filter (\<lambda>c. c \<noteq> CHR ''/'') s) \<inter> {CHR ''/''} = {}" for s by auto
  from tmpl_render_confined[OF t(1) this t(2)] t show ?thesis by blast
qed

text \<open>Rendering is all or nothing: it produces text exactly when every part
  does, the text is then the concatenation of the parts' texts, and the whole
  field is dropped exactly when the parts before some unresolved reference (absent
  or null, and without a default) all produced text.\<close>

theorem tmpl_render_parts:
  "(tmpl_render oor t sc (Some esc) = Inr (Some out) \<longleftrightarrow>
      (\<exists>ss. list_all2 (\<lambda>p s. part_out oor sc esc p = Inr (Some s)) (tmpl_parts t) ss \<and> out = concat ss))
   \<and> (tmpl_render oor t sc (Some esc) = Inr None \<longleftrightarrow>
      (\<exists>pre p post ss. tmpl_parts t = pre @ p # post \<and> part_out oor sc esc p = Inr None \<and>
         list_all2 (\<lambda>p s. part_out oor sc esc p = Inr (Some s)) pre ss))"
  by (simp add: tmpl_render_def render_parts_Some_iff render_parts_None_iff)

end
