(* ===== verification/Manifest.thy ===== *)
theory Manifest
  imports Tmpl Url
begin

text \<open>
  \<open>internal/connector/manifest.go\<close>: the declarative description of an upstream
  API, as the YAML decoder delivers it, and the compiled form of
  \<open>internal/connector/compile.go\<close>.  The JSON-Schema library is a type \<open>'sc\<close> of
  compiled schemas with the operations of \<open>libs\<close>; regular expressions an operator
  supplies go through the same record, the fixed ones are the predicates below.
\<close>

section \<open>Manifests\<close>

record metadata =
  md_id :: string
  md_name :: string
  md_version :: string
  md_description :: string
  md_documentation :: string
  md_tags :: "string list"

record base_url_spec =
  bu_default :: string
  bu_description :: string
  bu_requiresPrivateNetwork :: bool
  bu_locked :: bool
  bu_suggestHostHeaderOverride :: bool

record auth_spec =
  au_type :: string
  au_in :: string
  au_name :: string
  au_value :: string
  au_username :: string
  au_password :: string

record variable =
  va_name :: string
  va_description :: string
  va_default :: string
  va_required :: bool
  va_pattern :: string
  va_enum :: "string list"
  va_example :: string
  va_advanced :: bool

record secret_def =
  se_name :: string
  se_description :: string
  se_required :: bool

record defaults =
  df_headers :: "(string, string) gomap"
  df_timeoutMS :: int
  df_maxResponseBytes :: int
  df_rateLimitPerMin :: int
  df_maxConcurrent :: int

text \<open>\<open>JSON any\<close> is nil when absent; \<open>Body *BodySpec\<close> is an option.\<close>

record body_spec =
  bs_contentType :: string
  bs_json :: goval
  bs_from :: string
  bs_text :: string

record request_spec =
  rq_method :: string
  rq_path :: string
  rq_query :: "(string, string) gomap"
  rq_headers :: "(string, string) gomap"
  rq_body :: "body_spec option"
  rq_auth :: string

record response_spec =
  rs_successCodes :: "int list"
  rs_select :: string
  rs_includeHeaders :: "string list"
  rs_format :: string
  rs_structured :: bool
  rs_maxBytes :: int
  rs_decodeBase64 :: bool
  rs_paginate :: bool

record annotations =
  an_title :: string
  an_readOnly :: "bool option"
  an_destructive :: "bool option"
  an_idempotent :: "bool option"
  an_openWorld :: "bool option"

record tool =
  tl_name :: string
  tl_title :: string
  tl_description :: string
  tl_annotations :: "annotations option"
  tl_inputSchema :: "(string, goval) gomap option"
  tl_outputSchema :: "(string, goval) gomap option"
  tl_request :: request_spec
  tl_response :: response_spec
  tl_disabled :: bool

record spec =
  sp_baseURL :: base_url_spec
  sp_auth :: auth_spec
  sp_variables :: "variable list"
  sp_secrets :: "secret_def list"
  sp_defaults :: defaults
  sp_tools :: "tool list"

record manifest =
  mf_apiVersion :: string
  mf_kind :: string
  mf_metadata :: metadata
  mf_spec :: spec

definition api_version :: string where "api_version = ''mcpaw.dev/v1''"
definition manifest_kind :: string where "manifest_kind = ''Connector''"

section \<open>Compiled connectors\<close>

record pair =
  pr_key :: string
  pr_value :: template

record compiled_auth =
  ca_type :: string
  ca_in :: string
  ca_name :: string
  ca_value :: "template option"
  ca_username :: "template option"
  ca_password :: "template option"

datatype body_node =
    BTmpl template
  | BObj "(string \<times> body_node) list"
  | BArr "body_node list"
  | BLit goval

record compiled_body =
  cb_contentType :: string
  cb_json :: "body_node option"
  cb_from :: "template option"
  cb_text :: "template option"

record 'sc compiled_tool =
  ct_def :: tool
  ct_inputSchema :: "'sc option"
  ct_path :: "template option"
  ct_query :: "pair list"
  ct_headers :: "pair list"
  ct_body :: "compiled_body option"
  ct_successCodes :: "int list"
  ct_selectPath :: "string list"
  ct_includeHeaders :: "string list"
  ct_decodeBase64 :: bool
  ct_paginate :: bool

record 'sc compiled =
  cc_manifest :: manifest
  cc_auth :: compiled_auth
  cc_headers :: "pair list"
  cc_tools :: "'sc compiled_tool list"
  cc_byName :: "(string, 'sc compiled_tool) gomap"
  cc_variables :: "(string, variable) gomap"
  cc_secretDefs :: "(string, secret_def) gomap"

text \<open>
  Third-party and table-driven parts: the JSON-Schema compiler on a decoded schema
  (with the normalised document), its validator with the library's error tree, \<open>regexp.Compile\<close> on an operator's
  pattern, and the upper-case mapping of non-ASCII runes.
\<close>

datatype output_unit = OutputUnit (ou_location: string) (ou_error: "string option") (ou_errors: "output_unit list")

datatype validate_error = ValidationError output_unit | OtherValidateError

record 'sc libs =
  lib_schema :: "(string, goval) gomap \<Rightarrow> ('sc \<times> (string, goval) gomap) option"
  lib_validate :: "'sc \<Rightarrow> (string, goval) gomap \<Rightarrow> validate_error option"
  lib_regex :: "string \<Rightarrow> (string \<Rightarrow> bool) option"
  lib_upper :: "nat \<Rightarrow> nat"

definition upper_rune :: "(nat \<Rightarrow> nat) \<Rightarrow> nat \<Rightarrow> nat" where
  "upper_rune up r = (if 97 \<le> r \<and> r \<le> 122 then r - 32 else if r < 128 then r else up r)"

definition to_upper :: "(nat \<Rightarrow> nat) \<Rightarrow> string \<Rightarrow> string" where
  "to_upper up s = encode_runes (map (upper_rune up) (runes s))"

section \<open>The fixed patterns\<close>

definition lower_digit :: "char \<Rightarrow> bool" where
  "lower_digit c = (in_rng 97 122 c \<or> is_digit c)"

definition connector_id_ok :: "string \<Rightarrow> bool" where
  "connector_id_ok s = (s \<noteq> [] \<and> lower_digit (hd s) \<and> 2 \<le> length s \<and> length s \<le> 63 \<and>
     list_all (\<lambda>c. lower_digit c \<or> c \<in> set ''._-'') (tl s))"

definition letter :: "char \<Rightarrow> bool" where
  "letter c = (in_rng 97 122 c \<or> in_rng 65 90 c)"

text \<open>\<open>toolNameRe\<close> and \<open>identifierRe\<close> are the same pattern.\<close>

definition name_ok :: "string \<Rightarrow> bool" where
  "name_ok s = (s \<noteq> [] \<and> letter (hd s) \<and> length s \<le> 64 \<and>
     list_all (\<lambda>c. alnum c \<or> c \<in> set ''_-'') (tl s))"

definition header_name_ok :: "string \<Rightarrow> bool" where
  "header_name_ok s = (s \<noteq> [] \<and>
     list_all (\<lambda>c. alnum c \<or> c \<in> set ''!#$%&*+.^_|~-'' \<or> c = CHR 0x27 \<or> c = CHR 0x60) s)"

definition allowed_methods :: "string list" where
  "allowed_methods = [''GET'', ''POST'', ''PUT'', ''PATCH'', ''DELETE'', ''HEAD'']"

definition forbidden_headers :: "string list" where
  "forbidden_headers = [''host'', ''content-length'', ''transfer-encoding'', ''connection'', ''upgrade'',
     ''proxy-authorization'', ''proxy-connection'', ''te'', ''trailer'']"

definition is_forbidden_header :: "string \<Rightarrow> bool" where
  "is_forbidden_header n = (to_lower n \<in> set forbidden_headers)"

definition default_timeout_ms :: int where "default_timeout_ms = 15000"
definition max_timeout_ms :: int where "max_timeout_ms = 120000"
definition default_max_response_bytes :: int where "default_max_response_bytes = 1048576"
definition max_response_bytes_cap :: int where "max_response_bytes_cap = 16777216"
definition default_rate_limit_per_min :: int where "default_rate_limit_per_min = 120"
definition default_max_concurrent :: int where "default_max_concurrent = 4"
definition max_tools_per_connector :: nat where "max_tools_per_connector = 256"

end
