(* ===== verification/Compile.thy ===== *)
theory Compile
  imports Manifest
begin

text \<open>
  \<open>internal/connector/compile.go\<close>: validation and compilation of a manifest.
  Every check that calls \<open>p.addf\<close> contributes a value of \<open>problem\<close>; a function
  that compiles something returns it with the problems it found, and \<open>compile\<close>
  succeeds exactly when there are none.  The lemmas show what a compiled connector
  guarantees to the engine.
\<close>

section \<open>Problems\<close>

datatype base_url_error = BUNotValid | BUScheme string | BUNoHost | BUCredentials | BUQueryOrFragment

datatype problem =
    PApiVersion string | PKind string | PMetadataID string | PNameEmpty | PVersionEmpty
  | PBaseURLEmpty | PBaseURL base_url_error
  | PVarName string | PVarDup string | PVarPattern string | PVarDefaultPattern string
  | PVarDefaultEnum string | PSecretName string | PSecretDup string
  | PTimeout | PMaxBytes | PRateLimit | PMaxConcurrent
  | PHeaderName string string | PHeaderForbidden string string | PTemplate string tmpl_error
  | PAuthRequired string string | PAuthHeaderName string | PAuthQueryName | PAuthIn string | PAuthType string
  | PNoTools | PTooManyTools nat | PToolDup string | PToolName string | PToolDescription string
  | PSchemaMissing string | PSchemaType string | PSchema string | POutputSchema string
  | PMethod string string | PPathSlash string | PPathURL string | PPathQuery string
  | PRequestAuth string | PBodyMethod string string | PBodyOne string
  | PStatus string int | PFormat string string | PResponseMax string | PSelectEmpty string string
  | PIncludeHeader string string | PDecodeSelect string | PPaginateSelect string | PPaginateProps string
  | PUndeclaredVar string string | PUndeclaredSecret string string | PUndeclaredInput string string
  | PVarRequired string | PVarMismatch string | PVarEnum string | PUnknownVar string | PUnknownSecret string

section \<open>Declarations\<close>

definition validate_base_url :: "string \<Rightarrow> base_url_error option" where
  "validate_base_url raw =
     (case url_parse raw of
        None \<Rightarrow> Some BUNotValid
      | Some u \<Rightarrow>
          if u_scheme u \<noteq> ''http'' \<and> u_scheme u \<noteq> ''https'' then Some (BUScheme (u_scheme u))
          else if u_host u = [] then Some BUNoHost
          else if u_user u then Some BUCredentials
          else if u_rawquery u \<noteq> [] \<or> u_fragment u \<noteq> [] then Some BUQueryOrFragment
          else None)"

definition check_base_url :: "base_url_spec \<Rightarrow> problem list" where
  "check_base_url b =
     (if bu_default b = [] then [PBaseURLEmpty]
      else case validate_base_url (bu_default b) of None \<Rightarrow> [] | Some e \<Rightarrow> [PBaseURL e])"

definition variable_problems :: "'sc libs \<Rightarrow> variable \<Rightarrow> problem list" where
  "variable_problems lib v =
     (if va_pattern v = [] then []
      else case lib_regex lib (va_pattern v) of
             None \<Rightarrow> [PVarPattern (va_name v)]
           | Some re \<Rightarrow> if va_default v \<noteq> [] \<and> \<not> re (va_default v) then [PVarDefaultPattern (va_name v)] else [])
     @ (if va_enum v \<noteq> [] \<and> va_default v \<noteq> [] \<and> va_default v \<notin> set (va_enum v)
        then [PVarDefaultEnum (va_name v)] else [])"

fun compile_variables :: "'sc libs \<Rightarrow> variable list \<Rightarrow> (string, variable) gomap
    \<Rightarrow> (string, variable) gomap \<times> problem list" where
  "compile_variables lib [] m = (m, [])"
| "compile_variables lib (v # vs) m =
     (if \<not> name_ok (va_name v) then apsnd ((#) (PVarName (va_name v))) (compile_variables lib vs m)
      else if map_of m (va_name v) \<noteq> None then apsnd ((#) (PVarDup (va_name v))) (compile_variables lib vs m)
      else apsnd ((@) (variable_problems lib v)) (compile_variables lib vs (kv_put (va_name v) v m)))"

fun compile_secrets :: "secret_def list \<Rightarrow> (string, secret_def) gomap
    \<Rightarrow> (string, secret_def) gomap \<times> problem list" where
  "compile_secrets [] m = (m, [])"
| "compile_secrets (s # ss) m =
     (if \<not> name_ok (se_name s) then apsnd ((#) (PSecretName (se_name s))) (compile_secrets ss m)
      else if map_of m (se_name s) \<noteq> None then apsnd ((#) (PSecretDup (se_name s))) (compile_secrets ss m)
      else compile_secrets ss (kv_put (se_name s) s m))"

definition check_defaults :: "defaults \<Rightarrow> problem list" where
  "check_defaults d =
     (if df_timeoutMS d < 0 \<or> max_timeout_ms < df_timeoutMS d then [PTimeout] else [])
     @ (if df_maxResponseBytes d < 0 \<or> max_response_bytes_cap < df_maxResponseBytes d then [PMaxBytes] else [])
     @ (if df_rateLimitPerMin d < 0 then [PRateLimit] else [])
     @ (if df_maxConcurrent d < 0 then [PMaxConcurrent] else [])"

section \<open>Templates\<close>

text \<open>What templates may read: declared variables, declared secrets, and the schema's
  properties (\<open>None\<close> when they are unknown).\<close>

record decls =
  dc_variables :: "string list"
  dc_secrets :: "string list"
  dc_inputs :: "string list option"

definition check_ref :: "string \<Rightarrow> decls \<Rightarrow> tmpl_ref \<Rightarrow> problem list" where
  "check_ref wh d r =
     (let k = hd (ref_path r) in
      if ref_namespace r = ''vars'' then (if k \<in> set (dc_variables d) then [] else [PUndeclaredVar wh k])
      else if ref_namespace r = ''secrets'' then (if k \<in> set (dc_secrets d) then [] else [PUndeclaredSecret wh k])
      else if ref_namespace r = ''input'' then
        (case dc_inputs d of None \<Rightarrow> [] | Some ps \<Rightarrow> if k \<in> set ps then [] else [PUndeclaredInput wh k])
      else [])"

definition check_refs :: "string \<Rightarrow> decls \<Rightarrow> template \<Rightarrow> problem list" where
  "check_refs wh d t = concat (map (check_ref wh d) (tmpl_refs t))"

fun compile_pair_list :: "string \<Rightarrow> bool \<Rightarrow> (string \<times> string) list \<Rightarrow> pair list \<times> problem list" where
  "compile_pair_list wh hdr [] = ([], [])"
| "compile_pair_list wh hdr ((k, src) # kvs) =
     (if hdr \<and> \<not> header_name_ok k then apsnd ((#) (PHeaderName wh k)) (compile_pair_list wh hdr kvs)
      else if hdr \<and> is_forbidden_header k then apsnd ((#) (PHeaderForbidden wh k)) (compile_pair_list wh hdr kvs)
      else case tmpl_parse src of
             Inl e \<Rightarrow> apsnd ((#) (PTemplate wh e)) (compile_pair_list wh hdr kvs)
           | Inr t \<Rightarrow> apfst ((#) \<lparr>pr_key = k, pr_value = t\<rparr>) (compile_pair_list wh hdr kvs))"

definition compile_pairs :: "string \<Rightarrow> bool \<Rightarrow> (string, string) gomap \<Rightarrow> pair list \<times> problem list" where
  "compile_pairs wh hdr m = compile_pair_list wh hdr (sort_key fst m)"

section \<open>Authentication\<close>

definition parse_credential :: "decls \<Rightarrow> string \<Rightarrow> string \<Rightarrow> string \<Rightarrow> template option \<times> problem list" where
  "parse_credential d typ field src =
     (if src = [] then (None, [PAuthRequired field typ])
      else case tmpl_parse src of
             Inl e \<Rightarrow> (None, [PTemplate (''spec.auth.'' @ field) e])
           | Inr t \<Rightarrow> (Some t, check_refs (''spec.auth.'' @ field) (d\<lparr>dc_inputs := None\<rparr>) t))"

definition compile_auth :: "decls \<Rightarrow> auth_spec \<Rightarrow> compiled_auth \<times> problem list" where
  "compile_auth d a =
     (let typ = (if au_type a = [] then ''none'' else au_type a);
          out = \<lparr>ca_type = typ, ca_in = au_in a, ca_name = au_name a,
                 ca_value = None, ca_username = None, ca_password = None\<rparr>
      in if typ = ''none'' then (out, [])
         else if typ = ''apiKey'' then
           (let ps = (if au_in a = ''header'' then
                        (if header_name_ok (au_name a) then [] else [PAuthHeaderName (au_name a)])
                      else if au_in a = ''query'' then (if au_name a = [] then [PAuthQueryName] else [])
                      else [PAuthIn (au_in a)]);
                (v, qs) = parse_credential d typ ''value'' (au_value a)
            in (out\<lparr>ca_value := v\<rparr>, ps @ qs))
         else if typ = ''bearer'' then
           (let (v, qs) = parse_credential d typ ''value'' (au_value a) in (out\<lparr>ca_value := v\<rparr>, qs))
         else if typ = ''basic'' then
           (let (u, us) = parse_credential d typ ''username'' (au_username a);
                (p, ps) = parse_credential d typ ''password'' (au_password a)
            in (out\<lparr>ca_username := u, ca_password := p\<rparr>, us @ ps))
         else (out, [PAuthType typ]))"

section \<open>Tools\<close>

definition compile_input_schema :: "'sc libs \<Rightarrow> string \<Rightarrow> (string, goval) gomap option
    \<Rightarrow> ('sc option \<times> string list option) \<times> problem list" where
  "compile_input_schema lib wh raw =
     (case raw of
        None \<Rightarrow> ((None, None), [PSchemaMissing wh])
      | Some m \<Rightarrow>
          let ps = (if map_of m ''type'' = Some (VStr ''object'') then [] else [PSchemaType wh]) in
          (case lib_schema lib m of
             None \<Rightarrow> ((None, None), ps @ [PSchema wh])
           | Some (sc, doc) \<Rightarrow>
               (case map_of doc ''properties'' of
                  Some (VObj kvs) \<Rightarrow> ((Some sc, if kvs = [] then None else Some (map fst kvs)), ps)
                | _ \<Rightarrow> ((Some sc, None), ps))))"

definition compile_path :: "string \<Rightarrow> decls \<Rightarrow> string \<Rightarrow> template option \<times> problem list" where
  "compile_path wh d path =
     (if \<not> has_prefix ''/'' path then (None, [PPathSlash wh])
      else if contains path ''://'' \<or> has_prefix ''//'' path then (None, [PPathURL wh])
      else if contains path ''?'' \<or> contains path ''#'' then (None, [PPathQuery wh])
      else case tmpl_parse path of
             Inl e \<Rightarrow> (None, [PTemplate wh e])
           | Inr t \<Rightarrow> (Some t, check_refs wh d t))"

definition compile_leaf :: "string \<Rightarrow> decls \<Rightarrow> string \<Rightarrow> template option \<times> problem list" where
  "compile_leaf wh d src =
     (case tmpl_parse src of
        Inl e \<Rightarrow> (None, [PTemplate wh e])
      | Inr t \<Rightarrow> (Some t, check_refs wh d t))"

text \<open>A child that does not compile is left out of its object or array.\<close>

fun compile_body_node :: "string \<Rightarrow> decls \<Rightarrow> goval \<Rightarrow> body_node option \<times> problem list" where
  "compile_body_node wh d (VStr s) = apfst (map_option BTmpl) (compile_leaf wh d s)"
| "compile_body_node wh d (VObj kvs) =
     (let rs = map (\<lambda>(k, v). (k, compile_body_node wh d v)) kvs in
      (Some (BObj (List.map_filter (\<lambda>(k, r). map_option (Pair k) (fst r)) rs)), concat (map (snd \<circ> snd) rs)))"
| "compile_body_node wh d (VArr vs) =
     (let rs = map (compile_body_node wh d) vs in
      (Some (BArr (List.map_filter fst rs)), concat (map snd rs)))"
| "compile_body_node wh d v = (Some (BLit v), [])"

definition compile_body :: "string \<Rightarrow> decls \<Rightarrow> string \<Rightarrow> body_spec option \<Rightarrow> compiled_body option \<times> problem list" where
  "compile_body wh d meth b0 =
     (case b0 of None \<Rightarrow> (None, [])
      | Some b \<Rightarrow>
          if meth = ''GET'' \<or> meth = ''HEAD'' then (None, [PBodyMethod wh meth])
          else if (if bs_json b \<noteq> VNil then 1 else 0) + (if bs_from b \<noteq> [] then 1 else 0) +
                  (if bs_text b \<noteq> [] then 1 else 0) \<noteq> (1::nat) then (None, [PBodyOne wh])
          else
            let ct = (\<lambda>dflt. if bs_contentType b = [] then dflt else bs_contentType b);
                out = \<lparr>cb_contentType = [], cb_json = None, cb_from = None, cb_text = None\<rparr> in
            if bs_json b \<noteq> VNil then
              (let (n, ps) = compile_body_node wh d (bs_json b)
               in (Some (out\<lparr>cb_contentType := ct ''application/json'', cb_json := n\<rparr>), ps))
            else if bs_from b \<noteq> [] then
              (case compile_leaf wh d (''{{'' @ bs_from b @ ''}}'') of
                 (None, ps) \<Rightarrow> (None, ps)
               | (Some t, ps) \<Rightarrow> (Some (out\<lparr>cb_contentType := ct ''application/json'', cb_from := Some t\<rparr>), ps))
            else
              (case compile_leaf wh d (bs_text b) of
                 (None, ps) \<Rightarrow> (None, ps)
               | (Some t, ps) \<Rightarrow> (Some (out\<lparr>cb_contentType := ct ''text/plain; charset=utf-8'', cb_text := Some t\<rparr>), ps)))"

definition status_ok :: "int \<Rightarrow> bool" where "status_ok c = (100 \<le> c \<and> c \<le> 599)"

definition response_problems :: "string \<Rightarrow> string list option \<Rightarrow> response_spec \<Rightarrow> problem list" where
  "response_problems wh props r =
     (let declared = (\<lambda>k. case props of None \<Rightarrow> False | Some ps \<Rightarrow> k \<in> set ps) in
      map (PStatus wh) (filter (\<lambda>c. \<not> status_ok c) (rs_successCodes r))
      @ (if rs_format r \<in> set [[], ''auto'', ''json'', ''text''] then [] else [PFormat wh (rs_format r)])
      @ (if rs_maxBytes r < 0 \<or> max_response_bytes_cap < rs_maxBytes r then [PResponseMax wh] else [])
      @ (if rs_select r \<noteq> [] \<and> [] \<in> set (split_on CHR ''.'' (rs_select r))
         then [PSelectEmpty wh (rs_select r)] else [])
      @ map (PIncludeHeader wh) (filter (\<lambda>h. \<not> header_name_ok h) (rs_includeHeaders r))
      @ (if rs_decodeBase64 r \<and> rs_select r = [] then [PDecodeSelect wh] else [])
      @ (if rs_paginate r \<and> rs_format r = ''json'' \<and> rs_select r = [] then [PPaginateSelect wh] else [])
      @ (if rs_paginate r \<and> (\<not> declared ''offset'' \<or> \<not> declared ''limit'') then [PPaginateProps wh] else []))"

definition quote_name :: "string \<Rightarrow> string" where
  "quote_name s = CHR 0x22 # s @ [CHR 0x22]"

text \<open>The compiled tool points into the manifest, whose method is rewritten in place.\<close>

definition normalise_method :: "'sc libs \<Rightarrow> tool \<Rightarrow> tool" where
  "normalise_method lib t =
     t\<lparr>tl_request := (tl_request t)\<lparr>rq_method := to_upper (lib_upper lib) (trim_space (rq_method (tl_request t)))\<rparr>\<rparr>"

definition compile_tool :: "'sc libs \<Rightarrow> decls \<Rightarrow> tool \<Rightarrow> 'sc compiled_tool option \<times> problem list" where
  "compile_tool lib d0 t =
     (let wh = ''tool '' @ quote_name (tl_name t) in
      if \<not> name_ok (tl_name t) then (None, [PToolName wh])
      else
        let p1 = (if trim_space (tl_description t) = [] then [PToolDescription wh] else []);
            ((schema, props), p2) = compile_input_schema lib wh (tl_inputSchema t);
            p3 = (case tl_outputSchema t of None \<Rightarrow> []
                  | Some o' \<Rightarrow> if lib_schema lib o' = None then [POutputSchema wh] else []);
            rq = tl_request t; rs = tl_response t; d = d0\<lparr>dc_inputs := props\<rparr>;
            meth = to_upper (lib_upper lib) (trim_space (rq_method rq));
            p4 = (if meth \<in> set allowed_methods then [] else [PMethod wh (rq_method rq)]);
            (path, p5) = compile_path wh d (rq_path rq);
            (query, p6) = compile_pairs (wh @ ''.request.query'') False (rq_query rq);
            (headers, p7) = compile_pairs (wh @ ''.request.headers'') True (rq_headers rq);
            p8 = concat (map (\<lambda>p. check_refs wh d (pr_value p)) (query @ headers));
            p9 = (if rq_auth rq \<noteq> [] \<and> rq_auth rq \<noteq> ''none'' then [PRequestAuth wh] else []);
            (body, p10) = compile_body wh d meth (rq_body rq);
            p11 = response_problems wh props rs
        in (Some \<lparr>ct_def = normalise_method lib t, ct_inputSchema = schema, ct_path = path,
                  ct_query = query, ct_headers = headers, ct_body = body,
                  ct_successCodes = filter status_ok (rs_successCodes rs),
                  ct_selectPath = (if rs_select rs = [] then [] else split_on CHR ''.'' (rs_select rs)),
                  ct_includeHeaders = filter header_name_ok (rs_includeHeaders rs),
                  ct_decodeBase64 = rs_decodeBase64 rs, ct_paginate = rs_paginate rs\<rparr>,
            p1 @ p2 @ p3 @ p4 @ p5 @ p6 @ p7 @ p8 @ p9 @ p10 @ p11))"

fun compile_tool_list :: "'sc libs \<Rightarrow> decls \<Rightarrow> tool list \<Rightarrow> 'sc compiled_tool list
    \<Rightarrow> 'sc compiled_tool list \<times> problem list" where
  "compile_tool_list lib d [] acc = (acc, [])"
| "compile_tool_list lib d (t # ts) acc =
     (case compile_tool lib d t of
        (None, ps) \<Rightarrow> apsnd ((@) ps) (compile_tool_list lib d ts acc)
      | (Some ct, ps) \<Rightarrow>
          if tl_name t \<in> (\<lambda>c. tl_name (ct_def c)) ` set acc
          then apsnd ((@) (ps @ [PToolDup (tl_name t)])) (compile_tool_list lib d ts acc)
          else apsnd ((@) ps) (compile_tool_list lib d ts (acc @ [ct])))"

definition compile_tools :: "'sc libs \<Rightarrow> decls \<Rightarrow> tool list \<Rightarrow> 'sc compiled_tool list \<times> problem list" where
  "compile_tools lib d ts =
     (if ts = [] then ([], [PNoTools])
      else if max_tools_per_connector < length ts then ([], [PTooManyTools (length ts)])
      else compile_tool_list lib d ts [])"

section \<open>The whole manifest\<close>

definition envelope_problems :: "manifest \<Rightarrow> problem list" where
  "envelope_problems m =
     (if mf_apiVersion m = api_version then [] else [PApiVersion (mf_apiVersion m)])
     @ (if mf_kind m = manifest_kind then [] else [PKind (mf_kind m)])
     @ (if connector_id_ok (md_id (mf_metadata m)) then [] else [PMetadataID (md_id (mf_metadata m))])
     @ (if trim_space (md_name (mf_metadata m)) = [] then [PNameEmpty] else [])
     @ (if trim_space (md_version (mf_metadata m)) = [] then [PVersionEmpty] else [])"

definition compile :: "'sc libs \<Rightarrow> manifest \<Rightarrow> (problem list, 'sc compiled) result" where
  "compile lib m =
     (let sp = mf_spec m;
          (vars, q1) = compile_variables lib (sp_variables sp) [];
          (secs, q2) = compile_secrets (sp_secrets sp) [];
          d = \<lparr>dc_variables = map fst vars, dc_secrets = map fst secs, dc_inputs = None\<rparr>;
          (headers, q3) = compile_pairs ''spec.defaults.headers'' True (df_headers (sp_defaults sp));
          (auth, q4) = compile_auth d (sp_auth sp);
          (tools, q5) = compile_tools lib d (sp_tools sp);
          ps = envelope_problems m @ check_base_url (sp_baseURL sp) @ q1 @ q2 @
               check_defaults (sp_defaults sp) @ q3 @ q4 @ q5
      in if ps = [] then
           Inr \<lparr>cc_manifest = m\<lparr>mf_spec := sp\<lparr>sp_tools := map (normalise_method lib) (sp_tools sp)\<rparr>\<rparr>, cc_auth = auth, cc_headers = headers, cc_tools = tools,
                cc_byName = map (\<lambda>c. (tl_name (ct_def c), c)) tools,
                cc_variables = vars, cc_secretDefs = secs\<rparr>
         else Inl ps)"

section \<open>What compilation guarantees\<close>

definition ref_declared :: "decls \<Rightarrow> tmpl_ref \<Rightarrow> bool" where
  "ref_declared d r =
     ((ref_namespace r = ''vars'' \<longrightarrow> hd (ref_path r) \<in> set (dc_variables d)) \<and>
      (ref_namespace r = ''secrets'' \<longrightarrow> hd (ref_path r) \<in> set (dc_secrets d)) \<and>
      (ref_namespace r = ''input'' \<longrightarrow>
         (case dc_inputs d of None \<Rightarrow> True | Some ps \<Rightarrow> hd (ref_path r) \<in> set ps)))"

definition reads_declared :: "decls \<Rightarrow> template \<Rightarrow> bool" where
  "reads_declared d t = list_all (ref_declared d) (tmpl_refs t)"

lemma check_refs_Nil [simp]: "check_refs wh d t = [] \<longleftrightarrow> reads_declared d t"
proof -
  have "check_ref wh d r = [] \<longleftrightarrow> ref_declared d r" for r
    by (auto simp: check_ref_def ref_declared_def Let_def split: option.splits)
  thus ?thesis by (simp add: check_refs_def reads_declared_def list_all_iff)
qed

definition header_ok :: "string \<Rightarrow> bool" where
  "header_ok k = (header_name_ok k \<and> \<not> is_forbidden_header k)"

lemma compile_pair_list_sound:
  "compile_pair_list wh hdr kvs = (ps, []) \<Longrightarrow>
   list_all2 (\<lambda>(k, src) p. pr_key p = k \<and> tmpl_parse src = Inr (pr_value p) \<and> (hdr \<longrightarrow> header_ok k)) kvs ps"
proof (induction wh hdr kvs arbitrary: ps rule: compile_pair_list.induct)
  case (2 wh hdr k src kvs)
  obtain qs rs where r: "compile_pair_list wh hdr kvs = (qs, rs)" by fastforce
  show ?case using 2 r by (auto simp: header_ok_def split: if_splits sum.splits)
qed simp

lemma compile_pairs_headers:
  "compile_pairs wh True m = (ps, []) \<Longrightarrow> p \<in> set ps \<Longrightarrow> header_ok (pr_key p)"
  using compile_pair_list_sound[of wh True "sort_key fst m" ps]
  by (auto simp: compile_pairs_def list_all2_conv_all_nth in_set_conv_nth split_def)

lemma compile_path_sound:
  "compile_path wh d path = (t, []) \<Longrightarrow>
   \<exists>u. t = Some u \<and> tmpl_parse path = Inr u \<and> reads_declared d u \<and> has_prefix ''/'' path \<and>
       \<not> has_prefix ''//'' path \<and> \<not> contains path ''?'' \<and> \<not> contains path ''#''"
  by (auto simp: compile_path_def split: if_splits sum.splits)

primrec node_templates :: "body_node \<Rightarrow> template list" where
  "node_templates (BTmpl t) = [t]"
| "node_templates (BObj kns) = concat (map snd (map (map_prod id node_templates) kns))"
| "node_templates (BArr ns) = concat (map node_templates ns)"
| "node_templates (BLit v) = []"

definition body_templates :: "compiled_body \<Rightarrow> template list" where
  "body_templates b =
     (case cb_json b of None \<Rightarrow> [] | Some n \<Rightarrow> node_templates n)
     @ (case cb_from b of None \<Rightarrow> [] | Some t \<Rightarrow> [t]) @ (case cb_text b of None \<Rightarrow> [] | Some t \<Rightarrow> [t])"

lemma compile_leaf_sound: "compile_leaf wh d src = (r, []) \<Longrightarrow> \<exists>t. r = Some t \<and> reads_declared d t"
  by (auto simp: compile_leaf_def split: sum.splits)

lemma compile_body_node_sound:
  "compile_body_node wh d v = (Some n, []) \<Longrightarrow> list_all (reads_declared d) (node_templates n)"
proof (induction wh d v arbitrary: n rule: compile_body_node.induct)
  case (1 wh d s)
  obtain r ps where "compile_leaf wh d s = (r, ps)" by fastforce
  thus ?case using 1 compile_leaf_sound[of wh d s r] by auto
next
  case (2 wh d kvs)
  define rs where "rs = map (\<lambda>(k, v). (k, compile_body_node wh d v)) kvs"
  have n: "n = BObj (List.map_filter (\<lambda>(k, r). map_option (Pair k) (fst r)) rs)" "\<forall>(k, r)\<in>set rs. snd r = []"
    using 2(2) by (auto simp: rs_def Let_def)
  have "list_all (reads_declared d) (node_templates m)" if m: "(k, r) \<in> set rs" "fst r = Some m" for k r m
  proof -
    obtain v where v: "(k, v) \<in> set kvs" "r = compile_body_node wh d v" using m(1) unfolding rs_def by force
    hence "compile_body_node wh d v = (Some m, [])" using m n(2) by (intro prod_eqI) auto
    thus ?thesis using 2(1)[OF v(1) refl] by blast
  qed
  thus ?case by (fastforce simp: n(1) list_all_iff map_filter_def)
next
  case (3 wh d vs)
  define rs where "rs = map (compile_body_node wh d) vs"
  have n: "n = BArr (List.map_filter fst rs)" "\<forall>r\<in>set rs. snd r = []"
    using 3(2) by (auto simp: rs_def Let_def)
  have "list_all (reads_declared d) (node_templates m)" if m: "r \<in> set rs" "fst r = Some m" for r m
  proof -
    obtain v where v: "v \<in> set vs" "r = compile_body_node wh d v" using m(1) by (auto simp: rs_def)
    hence "compile_body_node wh d v = (Some m, [])" using m n(2) by (intro prod_eqI) auto
    thus ?thesis using 3(1)[OF v(1)] by blast
  qed
  thus ?case by (fastforce simp: n(1) list_all_iff map_filter_def)
qed auto

lemma compile_body_sound:
  "compile_body wh d meth b0 = (Some b, []) \<Longrightarrow> list_all (reads_declared d) (body_templates b)"
  by (auto simp: compile_body_def body_templates_def Let_def split: option.splits if_splits prod.splits
      dest!: compile_leaf_sound compile_body_node_sound)


definition tool_ok :: "decls \<Rightarrow> 'sc compiled_tool \<Rightarrow> bool" where
  "tool_ok d ct =
     (name_ok (tl_name (ct_def ct)) \<and> rq_method (tl_request (ct_def ct)) \<in> set allowed_methods \<and>
      ct_inputSchema ct \<noteq> None \<and>
      (case ct_path ct of None \<Rightarrow> False
       | Some t \<Rightarrow> tmpl_parse (tmpl_src t) = Inr t \<and> reads_declared d t \<and> has_prefix ''/'' (tmpl_src t) \<and> \<not> has_prefix ''//'' (tmpl_src t) \<and>
                   \<not> contains (tmpl_src t) ''?'' \<and> \<not> contains (tmpl_src t) ''#'') \<and>
      list_all (\<lambda>p. reads_declared d (pr_value p)) (ct_query ct @ ct_headers ct) \<and>
      list_all (\<lambda>p. header_ok (pr_key p)) (ct_headers ct) \<and>
      (case ct_body ct of None \<Rightarrow> True | Some b \<Rightarrow> list_all (reads_declared d) (body_templates b)) \<and>
      list_all status_ok (ct_successCodes ct) \<and> list_all header_name_ok (ct_includeHeaders ct))"

text \<open>What a compiled tool keeps of the tool it was compiled from; the properties the
  schema declares are those its input references are checked against.\<close>

definition schema_properties :: "'sc libs \<Rightarrow> (string, goval) gomap option \<Rightarrow> string list option" where
  "schema_properties lib raw =
     (case Option.bind raw (lib_schema lib) of
        None \<Rightarrow> None
      | Some (sc, doc) \<Rightarrow>
          (case map_of doc ''properties'' of
             Some (VObj kvs) \<Rightarrow> if kvs = [] then None else Some (map fst kvs)
           | _ \<Rightarrow> None))"

definition pairs_match :: "(string, string) gomap \<Rightarrow> pair list \<Rightarrow> bool" where
  "pairs_match m ps = list_all2 (\<lambda>(k, src) p. pr_key p = k \<and> tmpl_parse src = Inr (pr_value p)) (sort_key fst m) ps"

definition body_matches :: "body_spec option \<Rightarrow> compiled_body option \<Rightarrow> bool" where
  "body_matches b0 c0 =
     (case (b0, c0) of
        (None, None) \<Rightarrow> True
      | (Some b, Some c) \<Rightarrow>
          (cb_json c = None \<longleftrightarrow> bs_json b = VNil) \<and>
          map_option tmpl_src (cb_from c) = (if bs_from b = [] then None else Some (''{{'' @ bs_from b @ ''}}'')) \<and>
          map_option tmpl_src (cb_text c) = (if bs_text b = [] then None else Some (bs_text b)) \<and>
          cb_contentType c = (if bs_contentType b \<noteq> [] then bs_contentType b
                              else if bs_text b = [] then ''application/json'' else ''text/plain; charset=utf-8'')
      | _ \<Rightarrow> False)"

definition tool_matches :: "'sc libs \<Rightarrow> tool \<Rightarrow> 'sc compiled_tool \<Rightarrow> bool" where
  "tool_matches lib t ct =
     (ct_def ct = normalise_method lib t \<and>
      Option.bind (tl_inputSchema t) (\<lambda>m. map_of m ''type'') = Some (VStr ''object'') \<and>
      ct_inputSchema ct = map_option fst (Option.bind (tl_inputSchema t) (lib_schema lib)) \<and>
      map_option tmpl_src (ct_path ct) = Some (rq_path (tl_request t)) \<and>
      pairs_match (rq_query (tl_request t)) (ct_query ct) \<and>
      pairs_match (rq_headers (tl_request t)) (ct_headers ct) \<and>
      body_matches (rq_body (tl_request t)) (ct_body ct) \<and>
      ct_successCodes ct = rs_successCodes (tl_response t) \<and>
      ct_includeHeaders ct = rs_includeHeaders (tl_response t))"

lemma compile_pairs_match:
  "compile_pairs wh hdr m = (ps, []) \<Longrightarrow> pairs_match m ps"
  using compile_pair_list_sound[of wh hdr "sort_key fst m" ps]
  by (auto simp: compile_pairs_def pairs_match_def elim!: list_all2_mono)

lemma compile_leaf_src: "compile_leaf wh d src = (r, []) \<Longrightarrow> \<exists>t. r = Some t \<and> tmpl_src t = src"
  by (auto simp: compile_leaf_def tmpl_parse_def split: sum.splits)

lemma compile_body_node_Some: "compile_body_node wh d v = (n, []) \<Longrightarrow> n \<noteq> None"
  by (cases v) (auto simp: Let_def compile_leaf_def split: sum.splits)

lemma compile_body_matches:
  "compile_body wh d meth b0 = (c0, []) \<Longrightarrow> body_matches b0 c0"
  by (auto simp: compile_body_def body_matches_def Let_def split: option.splits if_splits prod.splits
      dest!: compile_leaf_src compile_body_node_Some)

lemma compile_input_schema_sound:
  "compile_input_schema lib wh raw = ((schema, props), []) \<Longrightarrow>
   props = schema_properties lib raw \<and> schema = map_option fst (Option.bind raw (lib_schema lib)) \<and> schema \<noteq> None \<and>
   Option.bind raw (\<lambda>m. map_of m ''type'') = Some (VStr ''object'')"
  by (auto simp: compile_input_schema_def schema_properties_def Let_def split: option.splits goval.splits if_splits)

lemma response_problems_Nil:
  assumes "response_problems wh props r = []"
  shows "filter status_ok (rs_successCodes r) = rs_successCodes r"
    "filter header_name_ok (rs_includeHeaders r) = rs_includeHeaders r"
  using assms by (auto simp: response_problems_def Let_def filter_empty_conv filter_id_conv)

lemma compile_tool_sound:
  assumes "compile_tool lib d0 t = (Some ct, [])"
  shows "tool_matches lib t ct \<and> tool_ok (d0\<lparr>dc_inputs := schema_properties lib (tl_inputSchema t)\<rparr>) ct"
proof -
  define wh where "wh = ''tool '' @ quote_name (tl_name t)"
  obtain schema props p2 where s: "compile_input_schema lib wh (tl_inputSchema t) = ((schema, props), p2)"
    by (metis surj_pair)
  define d where "d = d0\<lparr>dc_inputs := props\<rparr>"
  define meth where "meth = to_upper (lib_upper lib) (trim_space (rq_method (tl_request t)))"
  obtain path p5 where p: "compile_path wh d (rq_path (tl_request t)) = (path, p5)" by fastforce
  obtain query p6 where q: "compile_pairs (wh @ ''.request.query'') False (rq_query (tl_request t)) = (query, p6)"
    by fastforce
  obtain headers p7 where h: "compile_pairs (wh @ ''.request.headers'') True (rq_headers (tl_request t)) = (headers, p7)"
    by fastforce
  obtain body p10 where b: "compile_body wh d meth (rq_body (tl_request t)) = (body, p10)" by fastforce
  have ct: "ct = \<lparr>ct_def = normalise_method lib t, ct_inputSchema = schema, ct_path = path,
                  ct_query = query, ct_headers = headers, ct_body = body,
                  ct_successCodes = filter status_ok (rs_successCodes (tl_response t)),
                  ct_selectPath = (if rs_select (tl_response t) = [] then [] else split_on CHR ''.'' (rs_select (tl_response t))),
                  ct_includeHeaders = filter header_name_ok (rs_includeHeaders (tl_response t)),
                  ct_decodeBase64 = rs_decodeBase64 (tl_response t), ct_paginate = rs_paginate (tl_response t)\<rparr>"
    and nil: "name_ok (tl_name t)" "p2 = []" "p5 = []" "p6 = []" "p7 = []" "p10 = []" "meth \<in> set allowed_methods"
      "\<forall>p\<in>set (query @ headers). reads_declared d (pr_value p)" "response_problems wh props (tl_response t) = []"
    using assms unfolding compile_tool_def Let_def wh_def[symmetric] s
    by (auto simp: p q h b d_def[symmetric] meth_def[symmetric] split: if_splits)
  note sch = compile_input_schema_sound[OF s[unfolded nil(2)]]
  obtain u where u: "path = Some u" "tmpl_parse (rq_path (tl_request t)) = Inr u" "reads_declared d u"
    "has_prefix ''/'' (rq_path (tl_request t))" "\<not> has_prefix ''//'' (rq_path (tl_request t))"
    "\<not> contains (rq_path (tl_request t)) ''?''" "\<not> contains (rq_path (tl_request t)) ''#''"
    using compile_path_sound p nil(3) by metis
  hence src: "tmpl_src u = rq_path (tl_request t)" by (auto simp: tmpl_parse_def)
  have "\<forall>p\<in>set headers. header_ok (pr_key p)" using compile_pairs_headers h nil(5) by blast
  moreover have "case body of None \<Rightarrow> True | Some b \<Rightarrow> list_all (reads_declared d) (body_templates b)"
    using compile_body_sound b nil(6) by (auto split: option.split)
  ultimately have "tool_ok d ct"
    using nil sch[THEN conjunct2, THEN conjunct2, THEN conjunct1] u src
    by (simp add: ct tool_ok_def list_all_iff normalise_method_def meth_def)
  moreover have "tool_matches lib t ct"
    using compile_pairs_match[OF q[unfolded nil(4)]] compile_pairs_match[OF h[unfolded nil(5)]]
      compile_body_matches[OF b[unfolded nil(6)]] response_problems_Nil[OF nil(9)] sch u src by (simp add: ct tool_matches_def)
  ultimately show ?thesis using sch by (simp add: d_def)
qed

definition tools_ok :: "'sc libs \<Rightarrow> decls \<Rightarrow> tool list \<Rightarrow> 'sc compiled_tool list \<Rightarrow> bool" where
  "tools_ok lib d ts cts = (distinct (map tl_name ts) \<and>
     list_all2 (\<lambda>t ct. tool_matches lib t ct \<and> tool_ok (d\<lparr>dc_inputs := schema_properties lib (tl_inputSchema t)\<rparr>) ct) ts cts)"

lemma tools_ok_defs: "tools_ok lib d ts cts \<Longrightarrow> map ct_def cts = map (normalise_method lib) ts"
  by (simp add: tools_ok_def list_all2_conv_all_nth tool_matches_def list_eq_iff_nth_eq)

lemma tools_ok_names:
  assumes "tools_ok lib d ts cts"
  shows "map (\<lambda>c. tl_name (ct_def c)) cts = map tl_name ts"
proof -
  have "map tl_name (map ct_def cts) = map tl_name (map (normalise_method lib) ts)" by (simp only: tools_ok_defs[OF assms])
  thus ?thesis by (simp add: comp_def normalise_method_def)
qed

lemma apsnd_eq_iff: "apsnd f x = (a, b) \<longleftrightarrow> (\<exists>c. x = (a, c) \<and> f c = b)"
  by (cases x) auto

lemma compile_tool_list_sound:
  "compile_tool_list lib d ts acc = (cts, []) \<Longrightarrow> tools_ok lib d us acc \<Longrightarrow> tools_ok lib d (us @ ts) cts"
proof (induction lib d ts acc arbitrary: cts us rule: compile_tool_list.induct)
  case (2 lib d t ts acc)
  obtain r ps where r: "compile_tool lib d t = (r, ps)" by fastforce
  show ?case
  proof (cases r)
    case None
    hence "ps \<noteq> []" using r by (auto simp: compile_tool_def Let_def split: if_splits prod.splits)
    thus ?thesis using 2 r None by (auto simp: apsnd_eq_iff)
  next
    case (Some ct)
    have fresh: "tl_name t \<notin> (\<lambda>c. tl_name (ct_def c)) ` set acc" and ps: "ps = []"
      and rest: "compile_tool_list lib d ts (acc @ [ct]) = (cts, [])"
      using 2 r Some by (auto simp: apsnd_eq_iff split: if_splits)
    have "tl_name t \<notin> set (map tl_name us)"
      using fresh by (simp add: tools_ok_names[OF "2.prems"(2), symmetric])
    moreover have "tool_matches lib t ct \<and> tool_ok (d\<lparr>dc_inputs := schema_properties lib (tl_inputSchema t)\<rparr>) ct"
      using compile_tool_sound[of lib d t ct] r Some ps by auto
    ultimately have "tools_ok lib d (us @ [t]) (acc @ [ct])"
      using "2.prems"(2) by (auto simp: tools_ok_def list_all2_appendI)
    thus ?thesis using "2.IH"(3)[OF r[symmetric] Some fresh rest] by fastforce
  qed
qed auto

definition auth_templates :: "compiled_auth \<Rightarrow> template list" where
  "auth_templates a = List.map_filter id [ca_value a, ca_username a, ca_password a]"

lemma parse_credential_sound:
  "parse_credential d typ field src = (Some u, []) \<Longrightarrow> reads_declared (d\<lparr>dc_inputs := None\<rparr>) u"
  by (auto simp: parse_credential_def split: if_splits sum.splits)

lemma compile_auth_sound:
  "compile_auth d a = (b, []) \<Longrightarrow> list_all (reads_declared (d\<lparr>dc_inputs := None\<rparr>)) (auth_templates b)"
  by (auto simp: compile_auth_def auth_templates_def Let_def List.map_filter_def split: if_splits prod.splits
      dest!: parse_credential_sound)

section \<open>Properties\<close>

text \<open>C17: a manifest that compiles gives only executable tools: one for each of its
  tools, between one and 256 with distinct names and in the same order.  Each keeps its
  definition, its method trimmed, upper-cased and allowed, with the compiled form of its
  input schema, the parsed template of its path, which is an absolute path with no query,
  fragment or origin, and the parsed templates of its query and headers in the order of
  their keys, and the body the manifest gives; every template of its path, query, headers and body reads declared variables
  and secrets only, and of the arguments only properties its own input schema declares
  when it declares any; its header names are valid and none is one the transport owns.
  The credentials read declared variables and secrets only, the tools are found under
  their names, and the manifest kept with them is the given one with its methods rewritten.\<close>

theorem compile_sound:
  assumes "compile lib m = Inr c"
  shows "tools_ok lib \<lparr>dc_variables = map fst (cc_variables c), dc_secrets = map fst (cc_secretDefs c), dc_inputs = None\<rparr>
           (sp_tools (mf_spec m)) (cc_tools c) \<and>
         list_all (reads_declared \<lparr>dc_variables = map fst (cc_variables c), dc_secrets = map fst (cc_secretDefs c), dc_inputs = None\<rparr>)
           (auth_templates (cc_auth c)) \<and>
         cc_manifest c = m\<lparr>mf_spec := (mf_spec m)\<lparr>sp_tools := map ct_def (cc_tools c)\<rparr>\<rparr> \<and>
         map (\<lambda>t. tl_name (ct_def t)) (cc_tools c) = map tl_name (sp_tools (mf_spec m)) \<and>
         1 \<le> length (cc_tools c) \<and> length (cc_tools c) \<le> 256 \<and>
         list_all (\<lambda>p. header_ok (pr_key p)) (cc_headers c) \<and>
         (\<forall>ct. map_of (cc_byName c) n = Some ct \<longleftrightarrow> ct \<in> set (cc_tools c) \<and> tl_name (ct_def ct) = n)"
proof -
  define sp where "sp = mf_spec m"
  obtain vars q1 where v: "compile_variables lib (sp_variables sp) [] = (vars, q1)" by fastforce
  obtain secs q2 where s: "compile_secrets (sp_secrets sp) [] = (secs, q2)" by fastforce
  define d where "d = \<lparr>dc_variables = map fst vars, dc_secrets = map fst secs, dc_inputs = None\<rparr>"
  obtain headers q3 where h: "compile_pairs ''spec.defaults.headers'' True (df_headers (sp_defaults sp)) = (headers, q3)"
    by fastforce
  obtain auth q4 where a: "compile_auth d (sp_auth sp) = (auth, q4)" by fastforce
  obtain tools q5 where t: "compile_tools lib d (sp_tools sp) = (tools, q5)" by fastforce
  have c: "c = \<lparr>cc_manifest = m\<lparr>mf_spec := sp\<lparr>sp_tools := map (normalise_method lib) (sp_tools sp)\<rparr>\<rparr>, cc_auth = auth,
                cc_headers = headers, cc_tools = tools, cc_byName = map (\<lambda>c. (tl_name (ct_def c), c)) tools,
                cc_variables = vars, cc_secretDefs = secs\<rparr>" and nil: "q3 = []" "q4 = []" "q5 = []"
    using assms unfolding compile_def Let_def sp_def[symmetric] v s
    by (auto simp: h a t d_def[symmetric] split: if_splits)
  have tl: "compile_tool_list lib d (sp_tools sp) [] = (tools, [])" "sp_tools sp \<noteq> []" "length (sp_tools sp) \<le> 256"
    using t nil by (auto simp: compile_tools_def max_tools_per_connector_def split: if_splits)
  have ok: "tools_ok lib d (sp_tools sp) tools"
    using compile_tool_list_sound[OF tl(1), of "[]"] by (simp add: tools_ok_def)
  note names = tools_ok_names[OF ok]
  have len: "length tools = length (sp_tools sp)" using names map_eq_imp_length_eq by blast
  have "distinct (map (\<lambda>c. tl_name (ct_def c)) tools)" using ok names by (simp add: tools_ok_def)
  hence by_name: "map_of (map (\<lambda>c. (tl_name (ct_def c), c)) tools) n = Some ct \<longleftrightarrow> ct \<in> set tools \<and> tl_name (ct_def ct) = n" for ct
    by (subst map_of_eq_Some_iff) (auto simp: comp_def)
  have "\<forall>p\<in>set headers. header_ok (pr_key p)" using compile_pairs_headers h nil(1) by blast
  thus ?thesis using ok names tools_ok_defs[OF ok] by_name len tl compile_auth_sound[OF a[unfolded nil(2)]]
    by (simp add: c d_def sp_def list_all_iff Suc_le_eq)
qed

text \<open>A small manifest: one tool, and a connector-wide header that reads a secret the
  manifest never declares.\<close>

definition plain_libs :: "unit libs" where
  "plain_libs = \<lparr>lib_schema = (\<lambda>m. Some ((), m)), lib_validate = (\<lambda>_ _. None), lib_regex = (\<lambda>_. None), lib_upper = id\<rparr>"

definition demo_tool :: tool where
  "demo_tool = \<lparr>tl_name = ''get_item'', tl_title = [], tl_description = ''Get an item'', tl_annotations = None,
     tl_inputSchema = Some [(''type'', VStr ''object''), (''properties'', VObj [(''id'', VObj [])])],
     tl_outputSchema = None,
     tl_request = \<lparr>rq_method = ''get'', rq_path = ''/{{input.id}}/items'', rq_query = [], rq_headers = [],
                   rq_body = None, rq_auth = []\<rparr>,
     tl_response = \<lparr>rs_successCodes = [], rs_select = [], rs_includeHeaders = [], rs_format = [],
                    rs_structured = False, rs_maxBytes = 0, rs_decodeBase64 = False, rs_paginate = False\<rparr>,
     tl_disabled = False\<rparr>"

definition demo_manifest :: manifest where
  "demo_manifest = \<lparr>mf_apiVersion = api_version, mf_kind = manifest_kind,
     mf_metadata = \<lparr>md_id = ''demo'', md_name = ''Demo'', md_version = ''1'', md_description = [],
                    md_documentation = [], md_tags = []\<rparr>,
     mf_spec = \<lparr>
       sp_baseURL = \<lparr>bu_default = ''https://api.example'', bu_description = [], bu_requiresPrivateNetwork = False,
                     bu_locked = False, bu_suggestHostHeaderOverride = False\<rparr>,
       sp_auth = \<lparr>au_type = [], au_in = [], au_name = [], au_value = [], au_username = [], au_password = []\<rparr>,
       sp_variables = [], sp_secrets = [],
       sp_defaults = \<lparr>df_headers = [(''X-Key'', ''{{secrets.key}}'')], df_timeoutMS = 0, df_maxResponseBytes = 0,
                      df_rateLimitPerMin = 0, df_maxConcurrent = 0\<rparr>,
       sp_tools = [demo_tool]\<rparr>\<rparr>"

lemma demo_compiles: "is_ok (compile plain_libs demo_manifest)"
  by code_simp

lemma compile_sound_witness:
  "\<exists>c. compile plain_libs demo_manifest = Inr c \<and> length (cc_tools c) \<le> 256 \<and>
       map (\<lambda>t. tl_name (ct_def t)) (cc_tools c) = map tl_name (sp_tools (mf_spec demo_manifest))"
proof -
  obtain c where c: "compile plain_libs demo_manifest = Inr c"
    using demo_compiles by (auto simp: is_ok_iff)
  from compile_sound[OF c] c show ?thesis by blast
qed

text \<open>Two references the validation lets through although they can never resolve:
  a connector-wide default header may read a secret the manifest does not declare, and a
  variable or secret may be followed by a longer path, of which only the first element is
  checked while the run-time lookup of such a path always fails.\<close>

theorem compile_reference_gaps:
  "(\<exists>c t. compile plain_libs demo_manifest = Inr c \<and> cc_secretDefs c = [] \<and>
      map pr_value (cc_headers c) = [t] \<and> tmpl_refs t = [\<lparr>ref_namespace = ''secrets'', ref_path = [''key'']\<rparr>])
   \<and> (check_ref wh d \<lparr>ref_namespace = ''vars'', ref_path = a # b # ps\<rparr> =
        check_ref wh d \<lparr>ref_namespace = ''vars'', ref_path = [a]\<rparr>)
   \<and> map_scope_lookup sc ''vars'' (a # b # ps) = None"
proof (intro conjI)
  have "(case compile plain_libs demo_manifest of
      Inr c \<Rightarrow> cc_secretDefs c = [] \<and>
        map (\<lambda>p. tmpl_refs (pr_value p)) (cc_headers c) = [[\<lparr>ref_namespace = ''secrets'', ref_path = [''key'']\<rparr>]]
    | Inl ps \<Rightarrow> False)"
    by code_simp
  thus "\<exists>c t. compile plain_libs demo_manifest = Inr c \<and> cc_secretDefs c = [] \<and>
      map pr_value (cc_headers c) = [t] \<and> tmpl_refs t = [\<lparr>ref_namespace = ''secrets'', ref_path = [''key'']\<rparr>]"
    by (auto split: sum.splits simp: map_eq_Cons_conv)
qed (simp_all add: check_ref_def map_scope_lookup_def Let_def)

end
