(* ===== verification/Ssrf.thy ===== *)
theory Ssrf
  imports Utf8 "HOL-Library.Word"
begin

text \<open>
  \<open>internal/upstream/ssrf.go\<close>: the egress policy on resolved addresses.  An
  address is \<open>netip.Addr\<close>: IPv4 as a 32-bit word, IPv6 as a 128-bit word with its
  zone (empty for none).  \<open>check_ip\<close> is \<open>CheckIP\<close>, \<open>check_address\<close> is
  \<open>CheckAddress\<close> on the text the dialer hands to its control hook, with
  \<open>net.SplitHostPort\<close> and \<open>netip.ParseAddr\<close> translated as well.  The lemmas turn
  prefix tests into address ranges and show which destinations no policy lets
  through.
\<close>

section \<open>Addresses and prefixes\<close>

datatype ipaddr = IPNone | V4 "32 word" | V6 "128 word" string

datatype ipprefix = P4 "32 word" nat | P6 "128 word" nat

fun ip_valid :: "ipaddr \<Rightarrow> bool" where
  "ip_valid IPNone = False"
| "ip_valid _ = True"

fun ip_is4 :: "ipaddr \<Rightarrow> bool" where
  "ip_is4 (V4 _) = True"
| "ip_is4 _ = False"

text \<open>\<open>Addr.Unmap\<close>: the IPv4 address of \<open>::ffff:a.b.c.d\<close>, whose zone is dropped.\<close>

fun ip_unmap :: "ipaddr \<Rightarrow> ipaddr" where
  "ip_unmap (V6 w z) = (if drop_bit 32 w = 65535 then V4 (ucast w) else V6 w z)"
| "ip_unmap ip = ip"

fun prefix_is4 :: "ipprefix \<Rightarrow> bool" where
  "prefix_is4 (P4 _ _) = True"
| "prefix_is4 (P6 _ _) = False"

text \<open>\<open>Prefix.Contains\<close>: false for the other family and for an address with a zone.\<close>

fun go_prefix_contains :: "ipprefix \<Rightarrow> ipaddr \<Rightarrow> bool" where
  "go_prefix_contains (P4 a n) (V4 w) = (drop_bit (32 - n) w = drop_bit (32 - n) a)"
| "go_prefix_contains (P6 a n) (V6 w z) = (z = [] \<and> drop_bit (128 - n) w = drop_bit (128 - n) a)"
| "go_prefix_contains _ _ = False"

definition prefix_contains :: "ipprefix \<Rightarrow> ipaddr \<Rightarrow> bool" where
  "prefix_contains p ip = (if prefix_is4 p \<noteq> ip_is4 ip then False else go_prefix_contains p ip)"

definition ip4 :: "nat \<Rightarrow> nat \<Rightarrow> nat \<Rightarrow> nat \<Rightarrow> 32 word" where
  "ip4 a b c d = of_nat (((a * 256 + b) * 256 + c) * 256 + d)"

text \<open>The first two 16-bit groups of an IPv6 address and the last one.\<close>

definition ip6 :: "nat \<Rightarrow> nat \<Rightarrow> nat \<Rightarrow> nat \<Rightarrow> 128 word" where
  "ip6 a b c h = of_nat (a * 2 ^ 112 + b * 2 ^ 96 + c * 2 ^ 80 + h)"

definition blocked_always :: "ipprefix list" where
  "blocked_always =
     [P4 (ip4 0 0 0 0) 8, P4 (ip4 169 254 0 0) 16, P4 (ip4 224 0 0 0) 4, P4 (ip4 240 0 0 0) 4,
      P4 (ip4 198 18 0 0) 15,
      P6 (ip6 0 0 0 0) 128, P6 (ip6 0xfe80 0 0 0) 10, P6 (ip6 0xff00 0 0 0) 8,
      P6 (ip6 0x2001 0xdb8 0 0) 32, P6 (ip6 0x64 0xff9b 1 0) 48, P6 (ip6 0x100 0 0 0) 64]"

definition blocked_unless_private :: "ipprefix list" where
  "blocked_unless_private =
     [P4 (ip4 127 0 0 0) 8, P4 (ip4 10 0 0 0) 8, P4 (ip4 172 16 0 0) 12, P4 (ip4 192 168 0 0) 16,
      P4 (ip4 100 64 0 0) 10, P4 (ip4 192 0 0 0) 24,
      P6 (ip6 0 0 0 1) 128, P6 (ip6 0xfc00 0 0 0) 7]"

text \<open>The same lists with the addresses as literals, which evaluation uses.\<close>

lemma blocked_always_code [code]:
  "blocked_always =
     [P4 0 8, P4 0xa9fe0000 16, P4 0xe0000000 4,
      P4 0xf0000000 4, P4 0xc6120000 15, P6 0 128,
      P6 0xfe800000000000000000000000000000 10, P6 0xff000000000000000000000000000000 8, P6 0x20010db8000000000000000000000000 32,
      P6 0x64ff9b000100000000000000000000 48, P6 0x1000000000000000000000000000000 64]"
  by (simp add: blocked_always_def ip4_def ip6_def)

lemma blocked_unless_private_code [code]:
  "blocked_unless_private =
     [P4 0x7f000000 8, P4 0xa000000 8, P4 0xac100000 12,
      P4 0xc0a80000 16, P4 0x64400000 10, P4 0xc0000000 24,
      P6 1 128, P6 0xfc000000000000000000000000000000 7]"
  by (simp add: blocked_unless_private_def ip4_def ip6_def)

record egress_policy =
  allow_private_networks :: bool

datatype block_reason = NotValidIP | PermanentlyBlocked ipprefix | PrivateBlocked ipprefix

datatype egress_error =
    BlockedIP ipaddr block_reason
  | CannotParseAddress string
  | NotResolved string
  | NetworkNotPermitted string

text \<open>\<open>CheckIP\<close>: \<open>None\<close> is a nil error.\<close>

definition check_ip :: "ipaddr \<Rightarrow> egress_policy \<Rightarrow> egress_error option" where
  "check_ip ip0 policy =
     (if \<not> ip_valid ip0 then Some (BlockedIP ip0 NotValidIP)
      else let ip = ip_unmap ip0 in
        case find (\<lambda>p. prefix_contains p ip) blocked_always of
          Some p \<Rightarrow> Some (BlockedIP ip (PermanentlyBlocked p))
        | None \<Rightarrow>
            if allow_private_networks policy then None
            else (case find (\<lambda>p. prefix_contains p ip) blocked_unless_private of
                    Some p \<Rightarrow> Some (BlockedIP ip (PrivateBlocked p))
                  | None \<Rightarrow> None))"

section \<open>Parsing the dialled address\<close>

fun last_index :: "char \<Rightarrow> string \<Rightarrow> nat option" where
  "last_index c [] = None"
| "last_index c (x # xs) =
     (case last_index c xs of Some i \<Rightarrow> Some (Suc i) | None \<Rightarrow> if x = c then Some 0 else None)"

text \<open>\<open>net.SplitHostPort\<close>; every error is \<open>None\<close>.\<close>

definition split_host_port :: "string \<Rightarrow> (string \<times> string) option" where
  "split_host_port s =
     (case last_index CHR '':'' s of
        None \<Rightarrow> None
      | Some i \<Rightarrow>
          if take 1 s = ''['' then
            (case str_index '']'' s of
               None \<Rightarrow> None
             | Some e \<Rightarrow>
                 if e + 1 \<noteq> i then None
                 else if CHR ''['' \<in> set (drop 1 s) \<or> CHR '']'' \<in> set (drop (e + 1) s) then None
                 else Some (take (e - 1) (drop 1 s), drop (i + 1) s))
          else if CHR '':'' \<in> set (take i s) then None
          else if CHR ''['' \<in> set s \<or> CHR '']'' \<in> set s then None
          else Some (take i s, drop (i + 1) s))"

text \<open>One dotted field: digits without a leading zero, at most 255.\<close>

definition ipv4_field :: "string \<Rightarrow> nat option" where
  "ipv4_field f =
     (if f = [] \<or> \<not> list_all is_digit f then None
      else if 1 < length f \<and> hd f = CHR ''0'' then None
      else if 255 < dec_value f then None else Some (dec_value f))"

definition parse_ipv4 :: "string \<Rightarrow> 32 word option" where
  "parse_ipv4 s =
     (case map ipv4_field (split_on CHR ''.'' s) of
        [Some a, Some b, Some c, Some d] \<Rightarrow> Some (ip4 a b c d)
      | _ \<Rightarrow> None)"

text \<open>
  The group loop of \<open>netip.parseIPv6\<close>: the 16-bit groups read so far, the
  position of the ellipsis if one was seen, and the text that remains.
\<close>

function ipv6_groups :: "nat list \<Rightarrow> nat option \<Rightarrow> string \<Rightarrow> (nat list \<times> nat option) option" where
  "ipv6_groups gs el s =
     (if 8 \<le> length gs then (if s = [] then Some (gs, el) else None)
      else
        let hs = takeWhile (\<lambda>c. hex_val c \<noteq> None) s; r = dropWhile (\<lambda>c. hex_val c \<noteq> None) s in
        if hs = [] \<or> 4 < length hs then None
        else if take 1 r = ''.'' then
          (if (el = None \<and> length gs \<noteq> 6) \<or> 6 < length gs then None
           else map_option (\<lambda>w. (gs @ [unat w div 65536, unat w mod 65536], el)) (parse_ipv4 s))
        else
          let gs' = gs @ [the (hex_number hs 0)] in
          if r = [] then Some (gs', el)
          else if hd r \<noteq> CHR '':'' \<or> length r = 1 then None
          else if r ! 1 = CHR '':'' then
            (if el \<noteq> None then None
             else if length r = 2 then Some (gs', Some (length gs'))
             else ipv6_groups gs' (Some (length gs')) (drop 2 r))
          else ipv6_groups gs' el (drop 1 r))"
  by pat_completeness auto
termination
proof (relation "measure (\<lambda>(gs, _, s). 8 - length gs)", goal_cases)
qed auto

declare ipv6_groups.simps [simp del]

definition groups_word :: "nat list \<Rightarrow> 128 word" where
  "groups_word gs = of_nat (foldl (\<lambda>n g. n * 65536 + g) 0 gs)"

definition parse_ipv6 :: "string \<Rightarrow> ipaddr option" where
  "parse_ipv6 s0 =
     (let (s, zone, zok) = (case str_cut CHR ''%'' s0 of None \<Rightarrow> (s0, [], True)
                            | Some (a, z) \<Rightarrow> (a, z, z \<noteq> []));
          start = (if take 2 s = ''::'' then (Some (0::nat), drop 2 s) else (None, s))
      in if \<not> zok then None
         else if fst start = Some 0 \<and> snd start = [] then Some (V6 0 zone)
         else case ipv6_groups [] (fst start) (snd start) of
            None \<Rightarrow> None
          | Some (gs, None) \<Rightarrow> if length gs = 8 then Some (V6 (groups_word gs) zone) else None
          | Some (gs, Some e) \<Rightarrow>
              if 8 \<le> length gs then None
              else Some (V6 (groups_word (take e gs @ replicate (8 - length gs) 0 @ drop e gs)) zone))"

text \<open>\<open>netip.ParseAddr\<close> dispatches on the first of the three separators.\<close>

definition parse_addr :: "string \<Rightarrow> ipaddr option" where
  "parse_addr s =
     (case find (\<lambda>c. c = CHR ''.'' \<or> c = CHR '':'' \<or> c = CHR ''%'') s of
        None \<Rightarrow> None
      | Some c \<Rightarrow> if c = CHR ''.'' then map_option V4 (parse_ipv4 s)
                  else if c = CHR '':'' then parse_ipv6 s else None)"

definition check_address :: "string \<Rightarrow> egress_policy \<Rightarrow> egress_error option" where
  "check_address address policy =
     (case split_host_port address of
        None \<Rightarrow> Some (CannotParseAddress address)
      | Some (host, _) \<Rightarrow>
          (case parse_addr host of
             None \<Rightarrow> Some (NotResolved host)
           | Some ip \<Rightarrow> check_ip ip policy))"

definition control_func :: "egress_policy \<Rightarrow> string \<Rightarrow> string \<Rightarrow> egress_error option" where
  "control_func policy network address =
     (if network \<notin> set [''tcp'', ''tcp4'', ''tcp6''] then Some (NetworkNotPermitted network)
      else check_address address policy)"

section \<open>Prefixes as ranges\<close>

definition in_ranges :: "(nat \<times> nat) list \<Rightarrow> nat \<Rightarrow> bool" where
  "in_ranges rs n = list_ex (\<lambda>(lo, hi). lo \<le> n \<and> n \<le> hi) rs"

definition quad :: "nat \<Rightarrow> nat \<Rightarrow> nat \<Rightarrow> nat \<Rightarrow> nat" where
  "quad a b c d = ((a * 256 + b) * 256 + c) * 256 + d"

definition v4_always :: "(nat \<times> nat) list" where
  "v4_always =
     [(quad 0 0 0 0, quad 0 255 255 255), (quad 169 254 0 0, quad 169 254 255 255),
      (quad 224 0 0 0, quad 255 255 255 255), (quad 198 18 0 0, quad 198 19 255 255)]"

definition v4_private :: "(nat \<times> nat) list" where
  "v4_private =
     [(quad 127 0 0 0, quad 127 255 255 255), (quad 10 0 0 0, quad 10 255 255 255),
      (quad 172 16 0 0, quad 172 31 255 255), (quad 192 168 0 0, quad 192 168 255 255),
      (quad 100 64 0 0, quad 100 127 255 255), (quad 192 0 0 0, quad 192 0 0 255)]"

text \<open>The first and the last address of an IPv6 block given by its leading groups.\<close>

definition v6_always :: "(nat \<times> nat) list" where
  "v6_always =
     [(0, 0), (0xfe80 * 2 ^ 112, 0xfec0 * 2 ^ 112 - 1), (0xff00 * 2 ^ 112, 2 ^ 128 - 1),
      (0x20010db8 * 2 ^ 96, 0x20010db9 * 2 ^ 96 - 1),
      (0x0064ff9b0001 * 2 ^ 80, 0x0064ff9b0002 * 2 ^ 80 - 1),
      (0x0100 * 2 ^ 112, 0x0100 * 2 ^ 112 + 2 ^ 64 - 1)]"

definition v6_private :: "(nat \<times> nat) list" where
  "v6_private = [(1, 1), (0xfc00 * 2 ^ 112, 0xfe00 * 2 ^ 112 - 1)]"

lemma drop_bit_word_eq:
  "drop_bit k w = drop_bit k a \<longleftrightarrow> unat w div 2 ^ k = unat a div 2 ^ k" for w a :: "'a::len word"
  by (simp add: word_unat_eq_iff unat_drop_bit_eq) (simp add: drop_bit_eq_div)

lemma div_eq_range: "0 < m \<Longrightarrow> n div m = q \<longleftrightarrow> q * m \<le> n \<and> n \<le> q * m + (m - 1)" for m n q :: nat
proof -
  assume m: "0 < m"
  have "n div m = q \<longleftrightarrow> q \<le> n div m \<and> n div m < Suc q" by auto
  also have "\<dots> \<longleftrightarrow> q * m \<le> n \<and> n < Suc q * m"
    using m by (simp only: less_eq_div_iff_mult_less_eq div_less_iff_less_mult)
  also have "\<dots> \<longleftrightarrow> q * m \<le> n \<and> n \<le> q * m + (m - 1)"
    using m by (simp only: mult_Suc, arith)
  finally show ?thesis .
qed

lemma v4_prefix:
  assumes "a < 2 ^ 32"
  shows "prefix_contains (P4 (of_nat a) k) (V4 w) \<longleftrightarrow> unat w div 2 ^ (32 - k) = a div 2 ^ (32 - k)"
proof -
  have "unat (of_nat a :: 32 word) = a" using assms by (simp add: unsigned_of_nat take_bit_nat_eq_self_iff)
  thus ?thesis by (simp only: prefix_contains_def go_prefix_contains.simps drop_bit_word_eq
      prefix_is4.simps ip_is4.simps if_False simp_thms)
qed

lemma v6_prefix:
  assumes "a < 2 ^ 128"
  shows "prefix_contains (P6 (of_nat a) k) (V6 w []) \<longleftrightarrow> unat w div 2 ^ (128 - k) = a div 2 ^ (128 - k)"
proof -
  have "unat (of_nat a :: 128 word) = a" using assms by (simp add: unsigned_of_nat take_bit_nat_eq_self_iff)
  thus ?thesis by (simp only: prefix_contains_def go_prefix_contains.simps drop_bit_word_eq
      prefix_is4.simps ip_is4.simps if_False simp_thms)
qed

lemma prefix_contains_mixed [simp]:
  "\<not> prefix_contains (P6 a k) (V4 w)" "\<not> prefix_contains (P4 b k) (V6 v z)"
  by (simp_all add: prefix_contains_def)

lemma prefix_contains_zoned [simp]: "z \<noteq> [] \<Longrightarrow> \<not> prefix_contains p (V6 w z)"
  by (cases p) (simp_all add: prefix_contains_def)

lemma find_ex: "(\<exists>x. find P xs = Some x) \<longleftrightarrow> list_ex P xs"
  by (induction xs) auto

lemma find_none_ex: "find P xs = None \<longleftrightarrow> \<not> list_ex P xs"
  by (induction xs) auto

lemma v4_prefix_0: "prefix_contains (P4 0 k) (V4 w) \<longleftrightarrow> unat w div 2 ^ (32 - k) = 0"
  using v4_prefix[of 0 k w] by simp

lemma v6_prefix_01:
  "prefix_contains (P6 0 k) (V6 w []) \<longleftrightarrow> unat w div 2 ^ (128 - k) = 0"
  "prefix_contains (P6 1 k) (V6 w []) \<longleftrightarrow> unat w div 2 ^ (128 - k) = 1 div 2 ^ (128 - k)"
  using v6_prefix[of 0 k w] v6_prefix[of 1 k w] by simp_all

lemma v4_prefix_num:
  "numeral a < (2 ^ 32 :: nat) \<Longrightarrow>
   prefix_contains (P4 (numeral a) k) (V4 w) \<longleftrightarrow> unat w div 2 ^ (32 - k) = numeral a div 2 ^ (32 - k)"
  using v4_prefix[of "numeral a" k w] by simp

lemma v6_prefix_num:
  "numeral a < (2 ^ 128 :: nat) \<Longrightarrow>
   prefix_contains (P6 (numeral a) k) (V6 w []) \<longleftrightarrow> unat w div 2 ^ (128 - k) = numeral a div 2 ^ (128 - k)"
  using v6_prefix[of "numeral a" k w] by simp

lemmas prefix_ranges = v4_prefix_num v6_prefix_num v4_prefix_0 v6_prefix_01 div_eq_range in_ranges_def quad_def ip4_def ip6_def

lemma unat_v4_bound: "unat (w :: 32 word) < 2 ^ 32"
  using unsigned_less[of w] by simp

lemma unat_v6_bound: "unat (w :: 128 word) < 2 ^ 128"
  using unsigned_less[of w] by simp

lemma v4_always_ranges:
  "list_ex (\<lambda>p. prefix_contains p (V4 w)) blocked_always \<longleftrightarrow> in_ranges v4_always (unat w)"
  using unat_v4_bound[of w] by (simp add: blocked_always_def v4_always_def prefix_ranges) arith

lemma v4_private_ranges:
  "list_ex (\<lambda>p. prefix_contains p (V4 w)) blocked_unless_private \<longleftrightarrow> in_ranges v4_private (unat w)"
  using unat_v4_bound[of w] by (simp add: blocked_unless_private_def v4_private_def prefix_ranges)

lemma v6_always_ranges:
  "list_ex (\<lambda>p. prefix_contains p (V6 w [])) blocked_always \<longleftrightarrow> in_ranges v6_always (unat w)"
  using unat_v6_bound[of w] by (simp add: blocked_always_def v6_always_def prefix_ranges)

lemma v6_private_ranges:
  "list_ex (\<lambda>p. prefix_contains p (V6 w [])) blocked_unless_private \<longleftrightarrow> in_ranges v6_private (unat w)"
  using unat_v6_bound[of w] by (simp add: blocked_unless_private_def v6_private_def prefix_ranges) arith

lemma check_ip_none_iff:
  "check_ip ip pol = None \<longleftrightarrow>
     ip_valid ip \<and> \<not> list_ex (\<lambda>p. prefix_contains p (ip_unmap ip)) blocked_always \<and>
     (allow_private_networks pol \<or> \<not> list_ex (\<lambda>p. prefix_contains p (ip_unmap ip)) blocked_unless_private)"
  by (auto simp: check_ip_def Let_def find_none_ex[symmetric] split: option.splits)

section \<open>Properties\<close>

lemma in_ranges_append [simp]: "in_ranges (rs @ rs') n \<longleftrightarrow> in_ranges rs n \<or> in_ranges rs' n"
  by (simp add: in_ranges_def)

lemma in_ranges_Nil [simp]: "\<not> in_ranges [] n"
  by (simp add: in_ranges_def)

text \<open>C3: which addresses the egress policy lets through.  An IPv4 address is
  permitted exactly when it lies in none of the always-blocked ranges (this
  network, link-local with the cloud metadata service, multicast, reserved,
  benchmarking) and, unless the instance opted in to private networks, in none of
  the private ranges; the IPv6 case is the same with its own ranges for an address
  without a zone; and an IPv4-mapped IPv6 address is judged as the IPv4 address.\<close>

theorem check_ip_ranges:
  "(check_ip (V4 v) pol = None \<longleftrightarrow>
      \<not> in_ranges (v4_always @ (if allow_private_networks pol then [] else v4_private)) (unat v))
   \<and> (if drop_bit 32 w = 65535 then check_ip (V6 w z) pol = check_ip (V4 (ucast w)) pol
      else check_ip (V6 w []) pol = None \<longleftrightarrow>
        \<not> in_ranges (v6_always @ (if allow_private_networks pol then [] else v6_private)) (unat w))"
proof -
  have "check_ip (V6 w z) pol = check_ip (V4 (ucast w)) pol" if "drop_bit 32 w = 65535"
    using that by (simp add: check_ip_def)
  thus ?thesis
    by (simp add: check_ip_none_iff v4_always_ranges v4_private_ranges v6_always_ranges v6_private_ranges)
qed

text \<open>C4: the dialer's control hook opens no connection the policy forbids: when
  it accepts, the network is TCP, the address is a literal IP address with a
  port, and the policy accepts that address; the opt-in only ever widens what is
  accepted, and never to an IPv4 link-local (metadata) address.\<close>

theorem control_func_sound:
  assumes "control_func pol network address = None"
  shows "network \<in> {''tcp'', ''tcp4'', ''tcp6''} \<and>
         (\<exists>host port ip. split_host_port address = Some (host, port) \<and> parse_addr host = Some ip \<and>
           check_ip ip pol = None \<and> check_ip ip \<lparr>allow_private_networks = True\<rparr> = None \<and>
           (\<nexists>v. ip_unmap ip = V4 v \<and> quad 169 254 0 0 \<le> unat v \<and> unat v \<le> quad 169 254 255 255))"
proof -
  have tcp: "network \<in> {''tcp'', ''tcp4'', ''tcp6''}"
    using assms by (auto simp: control_func_def split: if_splits)
  obtain host port ip where ip: "split_host_port address = Some (host, port)" "parse_addr host = Some ip"
    "check_ip ip pol = None"
    using assms by (auto simp: control_func_def check_address_def split: if_splits option.splits)
  have "\<not> (quad 169 254 0 0 \<le> unat v \<and> unat v \<le> quad 169 254 255 255)" if "ip_unmap ip = V4 v" for v
  proof -
    have "\<not> in_ranges v4_always (unat v)"
      using ip(3) that by (simp add: check_ip_none_iff v4_always_ranges)
    thus ?thesis by (simp add: in_ranges_def v4_always_def)
  qed
  moreover have "check_ip ip \<lparr>allow_private_networks = True\<rparr> = None"
    using ip(3) by (simp add: check_ip_none_iff)
  ultimately show ?thesis using ip tcp by blast
qed

lemma control_func_sound_witness:
  "control_func \<lparr>allow_private_networks = False\<rparr> ''tcp'' ''93.184.216.34:443'' = None \<and>
   (\<exists>host port ip. split_host_port ''93.184.216.34:443'' = Some (host, port) \<and> parse_addr host = Some ip \<and>
      check_ip ip \<lparr>allow_private_networks = True\<rparr> = None)"
proof -
  have a: "control_func \<lparr>allow_private_networks = False\<rparr> ''tcp'' ''93.184.216.34:443'' = None" by code_simp
  from control_func_sound[OF a] a show ?thesis by blast
qed

text \<open>An IPv6 address that carries a zone is in no prefix, so no policy
  refuses it: link-local addresses, which are meant to be blocked always, and the
  loopback address, which needs the private-network opt-in, are accepted as soon as
  the dialled address names a zone.\<close>

theorem zoned_address_unchecked:
  "(check_ip (V6 w z) pol = None \<or> z = [] \<or> drop_bit 32 w = 65535)
   \<and> control_func \<lparr>allow_private_networks = False\<rparr> ''tcp6'' ''[fe80::1%eth0]:80'' = None
   \<and> control_func \<lparr>allow_private_networks = False\<rparr> ''tcp6'' ''[fe80::1]:80'' \<noteq> None
   \<and> control_func \<lparr>allow_private_networks = False\<rparr> ''tcp6'' ''[::1%lo]:80'' = None
   \<and> control_func \<lparr>allow_private_networks = False\<rparr> ''tcp6'' ''[::1]:80'' \<noteq> None"
proof (intro conjI)
  show "check_ip (V6 w z) pol = None \<or> z = [] \<or> drop_bit 32 w = 65535"
    by (auto simp: check_ip_none_iff list_ex_iff)
  show "control_func \<lparr>allow_private_networks = False\<rparr> ''tcp6'' ''[fe80::1%eth0]:80'' = None"
    by code_simp
  show "control_func \<lparr>allow_private_networks = False\<rparr> ''tcp6'' ''[fe80::1]:80'' \<noteq> None"
    by code_simp
  show "control_func \<lparr>allow_private_networks = False\<rparr> ''tcp6'' ''[::1%lo]:80'' = None"
    by code_simp
  show "control_func \<lparr>allow_private_networks = False\<rparr> ''tcp6'' ''[::1]:80'' \<noteq> None"
    by code_simp
qed

end
