(* ===== verification/Request.thy ===== *)
theory Request
  imports Compile JsonEnc Base64 Ssrf Domain
begin

text \<open>
  \<open>internal/engine/request.go\<close> with the error kinds of \<open>errors.go\<close> and the
  \<open>Target\<close> of \<open>executor.go\<close>: rendering a compiled tool against the caller's
  arguments and the instance configuration.  Error values keep the kind, the status
  and the details; the message texts are not modelled.  The lemmas show what a tool
  argument can and cannot do to the request that goes out.
\<close>

section \<open>Errors\<close>

datatype error_kind =
    KindInvalidArguments | KindNotConfigured | KindRateLimited | KindCircuitOpen | KindEgressBlocked
  | KindTimeout | KindUpstreamStatus | KindUpstreamFailure | KindResponseTooLarge | KindInternal

record engine_error =
  ee_kind :: error_kind
  ee_status :: int
  ee_details :: "string list"

definition new_error :: "error_kind \<Rightarrow> engine_error" where
  "new_error k = \<lparr>ee_kind = k, ee_status = 0, ee_details = []\<rparr>"

definition retryable :: "engine_error \<Rightarrow> bool" where
  "retryable e =
     (if ee_kind e \<in> {KindRateLimited, KindCircuitOpen, KindTimeout, KindUpstreamFailure} then True
      else if ee_kind e = KindUpstreamStatus then ee_status e = 429 \<or> 500 \<le> ee_status e
      else False)"

definition to_domain_error :: "engine_error \<Rightarrow> domain_error" where
  "to_domain_error e =
     (case ee_kind e of
        KindInvalidArguments \<Rightarrow> ErrInvalidInput
      | KindNotConfigured \<Rightarrow> ErrInvalidInput
      | KindRateLimited \<Rightarrow> ErrRateLimited
      | KindEgressBlocked \<Rightarrow> ErrEgressBlocked
      | _ \<Rightarrow> ErrUpstream)"

section \<open>Data\<close>

record target =
  tg_instanceID :: string
  tg_slug :: string
  tg_baseURL :: "url option"
  tg_vars :: "(string, string) gomap"
  tg_secrets :: "(string, string) gomap"
  tg_hostHeader :: string
  tg_policy :: egress_policy
  tg_timeout :: int
  tg_maxResponseBytes :: int
  tg_rateLimitPerMin :: int
  tg_maxConcurrent :: int

type_synonym header = "(string, string) gomap"

record http_request =
  hr_method :: string
  hr_url :: url
  hr_host :: string
  hr_header :: header
  hr_body :: "string option"

text \<open>\<open>Header.Set\<close> under the canonical form of a valid field name.\<close>

fun canonical_from :: "bool \<Rightarrow> string \<Rightarrow> string" where
  "canonical_from up [] = []"
| "canonical_from up (c # cs) =
     (if up \<and> in_rng 97 122 c then char_of (byte c - 32 :: nat)
      else if \<not> up \<and> in_rng 65 90 c then char_of (byte c + 32 :: nat) else c)
     # canonical_from (c = CHR ''-'') cs"

definition canonical_key :: "string \<Rightarrow> string" where
  "canonical_key k = (if header_name_ok k then canonical_from True k else k)"

definition header_set :: "string \<Rightarrow> string \<Rightarrow> header \<Rightarrow> header" where
  "header_set k v h = kv_put (canonical_key k) v h"

definition header_get :: "header \<Rightarrow> string \<Rightarrow> string" where
  "header_get h k = (case map_of h (canonical_key k) of None \<Rightarrow> [] | Some v \<Rightarrow> v)"

definition ctl_char :: "char \<Rightarrow> bool" where
  "ctl_char c = (byte c < (32::nat) \<or> byte c = (127::nat))"

definition validate_header_value :: "string \<Rightarrow> engine_error option" where
  "validate_header_value v = (if list_ex ctl_char v then Some (new_error KindInvalidArguments) else None)"

section \<open>The URL\<close>

definition contains_traversal :: "string \<Rightarrow> bool" where
  "contains_traversal p = (''..'' \<in> set (split_on CHR ''/'' p))"

text \<open>The query loop: parameters that resolve to non-empty text, in order.\<close>

fun render_query :: "(rat \<Rightarrow> int) \<Rightarrow> scope \<Rightarrow> pair list \<Rightarrow> url_values \<Rightarrow> (engine_error, url_values) result" where
  "render_query oor sc [] q = Inr q"
| "render_query oor sc (p # ps) q =
     (case tmpl_render oor (pr_value p) (Some sc) (Some id) of
        Inl e \<Rightarrow> Inl (new_error KindInvalidArguments)
      | Inr None \<Rightarrow> render_query oor sc ps q
      | Inr (Some v) \<Rightarrow>
          if v = [] then render_query oor sc ps q else render_query oor sc ps (values_set (pr_key p) v q))"

definition joined_path :: "url \<Rightarrow> string \<Rightarrow> string" where
  "joined_path base rendered = trim_suffix ''/'' (escaped_path (u_path base) (u_rawpath base)) @ rendered"

definition render_url :: "(rat \<Rightarrow> int) \<Rightarrow> url \<Rightarrow> 'sc compiled_tool \<Rightarrow> scope \<Rightarrow> (engine_error, url) result" where
  "render_url oor base tt sc =
     (case ct_path tt of
        None \<Rightarrow> Inl (new_error KindInternal)
      | Some t \<Rightarrow>
          (case tmpl_render oor t (Some sc) (Some path_escape) of
             Inl e \<Rightarrow> Inl (new_error KindInvalidArguments)
           | Inr None \<Rightarrow> Inl (new_error KindInvalidArguments)
           | Inr (Some rendered) \<Rightarrow>
               let joined = joined_path base rendered in
               if contains_traversal joined then Inl (new_error KindInternal)
               else case url_parse joined of
                  None \<Rightarrow> Inl (new_error KindInternal)
                | Some r \<Rightarrow>
                    let u = base\<lparr>u_path := u_path r, u_rawpath := u_rawpath r, u_user := False, u_fragment := []\<rparr> in
                    rmap (\<lambda>q. if q = [] then u else u\<lparr>u_rawquery := values_encode q\<rparr>)
                      (render_query oor sc (ct_query tt) [])))"

text \<open>\<open>URL.String\<close> of a URL without user information and fragment.\<close>

definition url_string :: "url \<Rightarrow> string" where
  "url_string u =
     (let sch = (if u_scheme u = [] then [] else u_scheme u @ '':'');
          path = escaped_path (u_path u) (u_rawpath u);
          auth = (if u_scheme u = [] \<and> u_host u = [] then []
                  else (if u_host u \<noteq> [] \<or> u_path u \<noteq> [] then ''//'' else []) @ url_escape EHost (u_host u));
          path' = (if path \<noteq> [] \<and> hd path \<noteq> CHR ''/'' \<and> u_host u \<noteq> [] then CHR ''/'' # path else path);
          body = (if u_opaque u \<noteq> [] then sch @ u_opaque u else sch @ auth @ path')
      in body @ (if u_rawquery u = [] then [] else CHR ''?'' # u_rawquery u))"

section \<open>The body\<close>

fun render_node :: "(rat \<Rightarrow> int) \<Rightarrow> scope \<Rightarrow> body_node \<Rightarrow> goval option" where
  "render_node oor sc (BLit v) = Some v"
| "render_node oor sc (BTmpl t) =
     (case tmpl_render_value oor t (Some sc) of Inr (Some v) \<Rightarrow> Some v | _ \<Rightarrow> None)"
| "render_node oor sc (BObj kns) =
     Some (VObj (List.map_filter (\<lambda>(k, r). map_option (Pair k) r)
            (map (\<lambda>(k, n). (k, render_node oor sc n)) kns)))"
| "render_node oor sc (BArr ns) =
     (let rs = map (render_node oor sc) ns in
      if None \<in> set rs then None else Some (VArr (map the rs)))"

definition marshal_body :: "goval \<Rightarrow> string \<Rightarrow> (engine_error, (string \<times> string) option) result" where
  "marshal_body v ct =
     (case json_marshal v of None \<Rightarrow> Inl (new_error KindInternal) | Some d \<Rightarrow> Inr (Some (d, ct)))"

definition render_body :: "(rat \<Rightarrow> int) \<Rightarrow> 'sc compiled_tool \<Rightarrow> scope
    \<Rightarrow> (engine_error, (string \<times> string) option) result" where
  "render_body oor tt sc =
     (case ct_body tt of
        None \<Rightarrow> Inr None
      | Some b \<Rightarrow>
          (case cb_json b of
             Some n \<Rightarrow>
               (case render_node oor sc n of
                  None \<Rightarrow> Inr None
                | Some v \<Rightarrow> marshal_body v (cb_contentType b))
           | None \<Rightarrow>
          (case cb_from b of
             Some t \<Rightarrow>
               (case tmpl_render_value oor t (Some sc) of
                  Inl e \<Rightarrow> Inl (new_error KindInvalidArguments)
                | Inr None \<Rightarrow> Inr None
                | Inr (Some v) \<Rightarrow> marshal_body v (cb_contentType b))
           | None \<Rightarrow>
          (case cb_text b of
             Some t \<Rightarrow>
               (case tmpl_render oor t (Some sc) (Some id) of
                  Inl e \<Rightarrow> Inl (new_error KindInvalidArguments)
                | Inr None \<Rightarrow> Inr None
                | Inr (Some s) \<Rightarrow> Inr (Some (s, cb_contentType b)))
           | None \<Rightarrow> Inr None))))"

section \<open>Headers and authentication\<close>

fun apply_headers :: "(rat \<Rightarrow> int) \<Rightarrow> scope \<Rightarrow> pair list \<Rightarrow> header \<Rightarrow> (engine_error, header) result" where
  "apply_headers oor sc [] h = Inr h"
| "apply_headers oor sc (p # ps) h =
     (case tmpl_render oor (pr_value p) (Some sc) (Some id) of
        Inl e \<Rightarrow> Inl (new_error KindInvalidArguments)
      | Inr None \<Rightarrow> apply_headers oor sc ps h
      | Inr (Some v) \<Rightarrow>
          if v = [] then apply_headers oor sc ps h
          else case validate_header_value v of
                 Some e \<Rightarrow> Inl e
               | None \<Rightarrow> apply_headers oor sc ps (header_set (pr_key p) v h))"

text \<open>The credential's text: \<open>None\<close> when there is none to send.\<close>

definition render_credential :: "(rat \<Rightarrow> int) \<Rightarrow> scope \<Rightarrow> template option \<Rightarrow> (engine_error, string option) result" where
  "render_credential oor sc t0 =
     (case t0 of None \<Rightarrow> Inr None
      | Some t \<Rightarrow>
          (case tmpl_render oor t (Some sc) (Some id) of
             Inl e \<Rightarrow> Inl (new_error KindInternal)
           | Inr None \<Rightarrow> Inr None
           | Inr (Some v) \<Rightarrow> Inr (if v = [] then None else Some v)))"

definition apply_auth :: "(rat \<Rightarrow> int) \<Rightarrow> 'sc compiled \<Rightarrow> 'sc compiled_tool \<Rightarrow> scope \<Rightarrow> http_request
    \<Rightarrow> (engine_error, http_request) result" where
  "apply_auth oor cn tt sc req =
     (if rq_auth (tl_request (ct_def tt)) = ''none'' \<or> ca_type (cc_auth cn) = ''none'' then Inr req
      else let auth = cc_auth cn; typ = ca_type auth in
        if typ = ''apiKey'' then
          (case render_credential oor sc (ca_value auth) of
             Inl e \<Rightarrow> Inl e
           | Inr None \<Rightarrow> Inr req
           | Inr (Some v) \<Rightarrow>
               (case validate_header_value v of
                  Some e \<Rightarrow> Inl e
                | None \<Rightarrow>
                    if ca_in auth = ''query'' then
                      Inr (req\<lparr>hr_url := (hr_url req)\<lparr>u_rawquery :=
                             values_encode (values_set (ca_name auth) v (parse_query (u_rawquery (hr_url req))))\<rparr>\<rparr>)
                    else Inr (req\<lparr>hr_header := header_set (ca_name auth) v (hr_header req)\<rparr>)))
        else if typ = ''bearer'' then
          (case render_credential oor sc (ca_value auth) of
             Inl e \<Rightarrow> Inl e
           | Inr None \<Rightarrow> Inr req
           | Inr (Some v) \<Rightarrow>
               (case validate_header_value v of
                  Some e \<Rightarrow> Inl e
                | None \<Rightarrow> Inr (req\<lparr>hr_header := header_set ''Authorization'' (''Bearer '' @ v) (hr_header req)\<rparr>)))
        else if typ = ''basic'' then
          (case (render_credential oor sc (ca_username auth), render_credential oor sc (ca_password auth)) of
             (Inl e, _) \<Rightarrow> Inl e
           | (_, Inl e) \<Rightarrow> Inl e
           | (Inr (Some u), Inr (Some p)) \<Rightarrow>
               Inr (req\<lparr>hr_header := header_set ''Authorization'' (''Basic '' @ b64_encode (u @ '':'' @ p)) (hr_header req)\<rparr>)
           | _ \<Rightarrow> Inr req)
        else Inr req)"

text \<open>\<open>http.NewRequest\<close> drops an empty port (\<open>host:\<close>) of the URL's host, which is also the
  request's \<open>Host\<close> until the code overrides it.\<close>

definition remove_empty_port :: "string \<Rightarrow> string" where
  "remove_empty_port h =
     (if CHR '':'' \<in> set (takeWhile (\<lambda>c. c \<noteq> CHR '']'') (rev h)) \<and> last h = CHR '':'' then butlast h else h)"

definition new_request_url :: "url \<Rightarrow> url" where
  "new_request_url u = u\<lparr>u_host := remove_empty_port (u_host u)\<rparr>"

definition build_request :: "(rat \<Rightarrow> int) \<Rightarrow> target \<Rightarrow> url \<Rightarrow> 'sc compiled \<Rightarrow> 'sc compiled_tool
    \<Rightarrow> (string, goval) gomap \<Rightarrow> (engine_error, http_request) result" where
  "build_request oor tg base cn tt args =
     (let sc = map_scope_lookup \<lparr>sc_input = args, sc_vars = tg_vars tg, sc_secrets = tg_secrets tg\<rparr> in
      rbind (render_url oor base tt sc) (\<lambda>u.
      rbind (render_body oor tt sc) (\<lambda>body.
      rbind (case url_parse (url_string u) of None \<Rightarrow> Inl (new_error KindInternal) | Some u' \<Rightarrow> Inr (new_request_url u')) (\<lambda>u'.
      rbind (if tg_hostHeader tg = [] then Inr (u_host u')
             else case validate_header_value (tg_hostHeader tg) of
                    Some e \<Rightarrow> Inl e | None \<Rightarrow> Inr (tg_hostHeader tg)) (\<lambda>host.
      let h0 = (case body of
                  Some (d, ct) \<Rightarrow> if ct \<noteq> [] then header_set ''Content-Type'' ct [] else []
                | None \<Rightarrow> []) in
      rbind (apply_headers oor sc (cc_headers cn) h0) (\<lambda>h1.
      rbind (apply_headers oor sc (ct_headers tt) h1) (\<lambda>h2.
      apply_auth oor cn tt sc
        \<lparr>hr_method = rq_method (tl_request (ct_def tt)), hr_url = u', hr_host = host,
         hr_header = h2, hr_body = map_option fst body\<rparr>)))))))"

section \<open>What an argument can do to the URL\<close>

lemma parse_loop_chars:
  "parse_loop src rest = Inr ps \<Longrightarrow> p \<in> set ps \<Longrightarrow> set (part_literal p) \<subseteq> set rest"
proof (induction src rest arbitrary: ps rule: parse_loop.induct)
  case (1 src rest)
  show ?case
  proof (cases "str_index ''{{'' rest")
    case None
    with "1.prems" show ?thesis by (subst (asm) parse_loop.simps) (auto split: if_splits)
  next
    case (Some op)
    with "1.prems"(1) obtain cl q qs where c:
      "str_index ''}}'' (drop (op + 2) rest) = Some cl"
      "parse_placeholder (take cl (drop (op + 2) rest)) = Inr q"
      "parse_loop src (drop (cl + 2) (drop (op + 2) rest)) = Inr qs"
      "ps = (if 0 < op then [lit_part (take op rest)] else []) @ q # qs"
      by (subst (asm) parse_loop.simps) (auto simp: Let_def split: option.splits sum.splits)
    have "part_literal q = []"
      using parse_placeholder_wf[OF c(2)] parse_placeholder_ref[OF c(2)] by (auto simp: wf_part_def)
    moreover have "set (part_literal p) \<subseteq> set rest" if "p \<in> set qs"
      using "1.IH"[OF Some refl refl c(1) c(2), of qs] c(3) that
      by simp (metis drop_drop order_trans set_drop_subset)
    ultimately show ?thesis using c(4) "1.prems"(2) by (auto split: if_splits dest: in_set_takeD)
  qed
qed

lemma parse_loop_slash:
  assumes "parse_loop src (CHR ''/'' # cs) = Inr ps"
  shows "\<exists>l qs. ps = lit_part (CHR ''/'' # l) # qs"
proof (cases "str_index ''{{'' (CHR ''/'' # cs)")
  case None
  with assms show ?thesis by (subst (asm) parse_loop.simps) auto
next
  case (Some op)
  then obtain k where "op = Suc k" by (auto split: if_splits)
  with assms Some show ?thesis
    by (subst (asm) parse_loop.simps) (auto simp: Let_def split: option.splits sum.splits)
qed

lemma path_escape_free: "c \<in> {CHR ''/'', CHR ''?'', CHR ''#''} \<Longrightarrow> c \<notin> set (path_escape s)"
  using path_escape_alphabet[of c s] by (auto simp: alnum_def in_rng_def is_digit_def)

lemma contains_char: "contains s [c] \<longleftrightarrow> c \<in> set s"
  by (metis contains_iff append_Cons append_Nil in_set_conv_decomp)

lemma rendered_path:
  assumes t: "tmpl_parse (tmpl_src t) = Inr t" "has_prefix ''/'' (tmpl_src t)"
    "\<not> contains (tmpl_src t) ''?''" "\<not> contains (tmpl_src t) ''#''"
    and r: "tmpl_render oor t (Some sc) (Some path_escape) = Inr (Some rendered)"
  shows "filter (\<lambda>c. c = CHR ''/'') rendered = filter (\<lambda>c. c = CHR ''/'') (concat (map part_literal (tmpl_parts t)))"
    "CHR ''?'' \<notin> set rendered" "CHR ''#'' \<notin> set rendered" "take 1 rendered = ''/''"
proof -
  obtain a where a: "parse_loop (tmpl_src t) (tmpl_src t) = Inr a" "t = \<lparr>tmpl_src = tmpl_src t, tmpl_parts = a\<rparr>"
    using t(1) by (auto simp: tmpl_parse_def)
  have "tmpl_parts t = a" by (subst a(2)) simp
  hence loop: "parse_loop (tmpl_src t) (tmpl_src t) = Inr (tmpl_parts t)" using a(1) by simp
  have conf: "filter (\<lambda>c. c \<in> {x}) rendered = filter (\<lambda>c. c \<in> {x}) (concat (map part_literal (tmpl_parts t)))"
    if "x \<in> {CHR ''/'', CHR ''?'', CHR ''#''}" for x
  proof -
    obtain ss where ss: "list_all2 (\<lambda>p s. part_out oor (Some sc) path_escape p = Inr (Some s)) (tmpl_parts t) ss"
      "rendered = concat ss"
      using r by (auto simp: tmpl_render_def render_parts_Some_iff)
    have "set (path_escape s) \<inter> {x} = {}" for s using path_escape_free[OF that] by auto
    from filter_confined[OF this ss(1) parse_loop_wf[OF loop]] show ?thesis by (simp add: ss(2))
  qed
  show "filter (\<lambda>c. c = CHR ''/'') rendered = filter (\<lambda>c. c = CHR ''/'') (concat (map part_literal (tmpl_parts t)))"
    using conf[of "CHR ''/''"] by simp
  have lits: "set (concat (map part_literal (tmpl_parts t))) \<subseteq> set (tmpl_src t)"
    using parse_loop_chars[OF loop] by auto
  have none: "x \<notin> set rendered" if "x \<in> {CHR ''?'', CHR ''#''}" for x
  proof -
    have "x \<notin> set (concat (map part_literal (tmpl_parts t)))"
      using that t(3,4) lits by (auto simp: contains_char)
    hence "filter (\<lambda>c. c \<in> {x}) rendered = []" using conf[of x] that by (auto simp: filter_empty_conv)
    thus ?thesis by (auto simp: filter_empty_conv)
  qed
  show "CHR ''?'' \<notin> set rendered" "CHR ''#'' \<notin> set rendered" using none by auto
  obtain cs where "tmpl_src t = CHR ''/'' # cs" using t(2) by (auto simp: has_prefix_iff)
  then obtain l qs where "tmpl_parts t = lit_part (CHR ''/'' # l) # qs" using parse_loop_slash loop by metis
  thus "take 1 rendered = ''/''"
    using r by (auto simp: tmpl_render_def render_parts_Some_iff list_all2_Cons1 part_out_def
        simp del: render_parts.simps)
qed

lemma escaped_path_free: "c \<in> {CHR ''?'', CHR ''#''} \<Longrightarrow> c \<notin> set (escaped_path path raw)"
proof -
  assume c: "c \<in> {CHR ''?'', CHR ''#''}"
  have "should_escape EPath (CHR ''?'')" "should_escape EPath (CHR ''#'')" "\<not> alnum (CHR ''?'')" "\<not> alnum (CHR ''#'')"
    by code_simp+
  hence esc: "should_escape EPath c" "\<not> alnum c" using c by auto
  have 1: "c \<notin> set (url_escape EPath path)"
  proof
    assume "c \<in> set (url_escape EPath path)"
    then obtain x where "c \<in> set (esc_char EPath x)" by (auto simp: url_escape_def)
    from esc_char_set[OF this] esc c show False by auto
  qed
  have 2: "c \<notin> set raw" if "valid_encoded raw"
  proof
    assume "c \<in> set raw"
    moreover have "\<forall>x\<in>set raw. x \<in> set ''!$&()*+,;=:@[]%'' \<or> x = CHR 0x27 \<or> \<not> should_escape EPath x"
      using that by (simp only: valid_encoded_def list_all_iff)
    ultimately have "c \<in> set ''!$&()*+,;=:@[]%'' \<or> c = CHR 0x27" using esc(1) by blast
    thus False using c by auto
  qed
  show ?thesis unfolding escaped_path_def using 1 2 c by (cases "valid_encoded raw") auto
qed

lemma url_parse_path:
  assumes "url_parse j = Some r" "take 1 j = ''/''" "CHR ''?'' \<notin> set j" "CHR ''#'' \<notin> set j" "\<not> has_prefix ''//'' j"
  shows "set_path j = Some (u_path r, u_rawpath r)"
proof -
  obtain cs where j: "j = CHR ''/'' # cs" using assms(2) by (cases j) auto
  have cut: "cut_or CHR ''#'' j = (j, [])" "cut_or CHR ''?'' j = (j, [])"
    using assms(3,4) by (simp_all add: cut_or_def str_cut_None[THEN iffD2])
  have sch: "get_scheme j = Some ([], j)"
    by (simp add: get_scheme_def j alnum_def in_rng_def is_digit_def Let_def)
  have "take 2 j \<noteq> ''//''" using assms(5) by (simp add: has_prefix_take numeral_2_eq_2)
  moreover have "parse_nofrag j = Some r" using assms(1) cut(1) by (auto simp: url_parse_def split: option.splits)
  moreover have "j \<noteq> ''*''" using assms(2) by auto
  ultimately show ?thesis
    using assms(2) by (auto simp: parse_nofrag_def sch cut set_url_path_def split: if_splits)
qed

lemma take_Suc_trim: "trim_suffix sfx e = x # xs \<Longrightarrow> take 1 e = [x]"
  by (cases e; cases "length e - length sfx") (auto simp: trim_suffix_def split: if_splits)

section \<open>Headers and query of a built request\<close>

definition clean :: "string \<Rightarrow> bool" where
  "clean v = (\<not> list_ex ctl_char v)"

lemma validate_None [simp]: "validate_header_value v = None \<longleftrightarrow> clean v"
  by (simp add: validate_header_value_def clean_def)

lemma clean_append [simp]: "clean (a @ b) \<longleftrightarrow> clean a \<and> clean b"
  by (simp add: clean_def)

lemma clean_Cons [simp]: "clean (c # s) \<longleftrightarrow> \<not> ctl_char c \<and> clean s"
  by (simp add: clean_def)

lemma clean_b64 [simp]: "clean (b64_encode s)"
  using b64_encode_printable[of _ s] by (fastforce simp: clean_def list_ex_iff ctl_char_def)

text \<open>Every field value is free of control characters, but for those of \<open>K\<close>.\<close>

definition clean_header :: "string set \<Rightarrow> header \<Rightarrow> bool" where
  "clean_header K h = (\<forall>k v. map_of h k = Some v \<longrightarrow> k \<in> K \<or> clean v)"

lemma clean_header_set [inv_intros]: "clean_header K h \<Longrightarrow> clean v \<Longrightarrow> clean_header K (header_set k v h)"
  by (simp add: clean_header_def header_set_def)

lemma apply_headers_clean [inv_intros]:
  "apply_headers oor sc ps h = Inr h' \<Longrightarrow> clean_header K h \<Longrightarrow> clean_header K h'"
  by (induction oor sc ps h rule: apply_headers.induct)
     (auto split: sum.splits option.splits if_splits intro!: clean_header_set)

lemma apply_auth_clean:
  assumes "apply_auth oor cn tt sc req = Inr r" "clean_header K (hr_header req)"
  shows "clean_header K (hr_header r)"
  using assms unfolding apply_auth_def Let_def
  by (auto split: if_splits sum.splits option.splits intro!: clean_header_set simp: ctl_char_def)

lemma apply_auth_host: "apply_auth oor cn tt sc req = Inr r \<Longrightarrow> hr_host r = hr_host req \<and> hr_body r = hr_body req
    \<and> hr_method r = hr_method req \<and> u_host (hr_url r) = u_host (hr_url req)"
  unfolding apply_auth_def Let_def by (auto split: if_splits sum.splits option.splits)

lemma render_url_query:
  assumes "render_url oor base tt sc = Inr u"
  shows "\<exists>q. render_query oor sc (ct_query tt) [] = Inr q \<and>
     u_rawquery u = (if q = [] then u_rawquery base else values_encode q)"
proof -
  obtain t rendered r where p: "ct_path tt = Some t" "tmpl_render oor t (Some sc) (Some path_escape) = Inr (Some rendered)"
    "url_parse (joined_path base rendered) = Some r" "\<not> contains_traversal (joined_path base rendered)"
    using assms by (auto simp: render_url_def Let_def split: sum.splits option.splits if_splits)
  define u0 where "u0 = base\<lparr>u_path := u_path r, u_rawpath := u_rawpath r, u_user := False, u_fragment := []\<rparr>"
  have "render_url oor base tt sc = rmap (\<lambda>q. if q = [] then u0 else u0\<lparr>u_rawquery := values_encode q\<rparr>)
      (render_query oor sc (ct_query tt) [])"
    unfolding render_url_def Let_def u0_def by (simp add: p)
  with assms obtain q where "render_query oor sc (ct_query tt) [] = Inr q"
    "u = (if q = [] then u0 else u0\<lparr>u_rawquery := values_encode q\<rparr>)"
    by auto
  moreover have "u_rawquery u0 = u_rawquery base" by (simp add: u0_def)
  ultimately show ?thesis by (intro exI[of _ q]) simp
qed

text \<open>The parameter pairs a query template list resolves to.\<close>

definition query_params :: "(rat \<Rightarrow> int) \<Rightarrow> scope \<Rightarrow> pair list \<Rightarrow> (string \<times> string) list" where
  "query_params oor sc ps = List.map_filter (\<lambda>p.
     case tmpl_render oor (pr_value p) (Some sc) (Some id) of
       Inr (Some v) \<Rightarrow> if v = [] then None else Some (pr_key p, v) | _ \<Rightarrow> None) ps"

lemma query_params_keys: "fst ` set (query_params oor sc ps) \<subseteq> pr_key ` set ps"
  by (induction ps) (auto simp: query_params_def map_filter_simps split: option.splits sum.splits if_splits)

lemma query_params_distinct: "distinct (map pr_key ps) \<Longrightarrow> distinct (map fst (query_params oor sc ps))"
proof (induction ps)
  case (Cons p ps)
  moreover have "pr_key p \<notin> fst ` set (query_params oor sc ps)" using Cons.prems query_params_keys[of oor sc ps] by auto
  ultimately show ?case
    by (auto simp: query_params_def map_filter_simps split: option.splits sum.splits if_splits)
qed (simp add: query_params_def map_filter_simps)

lemma render_query_params:
  "render_query oor sc ps q = Inr q' \<Longrightarrow> distinct (map fst q @ map pr_key ps) \<Longrightarrow> q' = q @ singles (query_params oor sc ps)"
proof (induction oor sc ps q rule: render_query.induct)
  case (2 oor sc p ps q)
  have new: "kv_put (pr_key p) [v] q = q @ [(pr_key p, [v])]" for v
    using "2.prems"(2) by (intro kv_put_new) (auto simp: map_of_eq_None_iff)
  show ?case
    using 2 by (auto simp: query_params_def singles_def map_filter_simps values_set_def new split: sum.splits option.splits if_splits)
qed (simp add: query_params_def singles_def map_filter_simps)

section \<open>Properties\<close>


text \<open>The small manifest's tool with path \<open>/{{input.id}}/items\<close>, on a base URL without a path.\<close>

definition demo_connector :: "unit compiled" where
  "demo_connector = projr (compile plain_libs demo_manifest)"

definition demo_compiled :: "unit compiled_tool" where
  "demo_compiled = hd (cc_tools demo_connector)"

definition demo_base :: url where
  "demo_base = the (url_parse ''https://api.example'')"

text \<open>Their values, so that evaluation does not compile the manifest again.\<close>

lemma demo_compiled_code [code]:
  "demo_compiled =
     \<lparr>ct_def = demo_tool\<lparr>tl_request := (tl_request demo_tool)\<lparr>rq_method := ''GET''\<rparr>\<rparr>, ct_inputSchema = Some (),
      ct_path = Some \<lparr>tmpl_src = ''/{{input.id}}/items'', tmpl_parts =
        [\<lparr>part_literal = ''/'', part_ref = None, part_default = [], part_hasDefault = False\<rparr>,
         \<lparr>part_literal = [], part_ref = Some \<lparr>ref_namespace = ''input'', ref_path = [''id'']\<rparr>, part_default = [], part_hasDefault = False\<rparr>,
         \<lparr>part_literal = ''/items'', part_ref = None, part_default = [], part_hasDefault = False\<rparr>]\<rparr>,
      ct_query = [], ct_headers = [], ct_body = None, ct_successCodes = [], ct_selectPath = [], ct_includeHeaders = [],
      ct_decodeBase64 = False, ct_paginate = False\<rparr>"
  by code_simp

lemma demo_connector_code [code]:
  "demo_connector =
     \<lparr>cc_manifest = demo_manifest\<lparr>mf_spec := (mf_spec demo_manifest)\<lparr>sp_tools := [ct_def demo_compiled]\<rparr>\<rparr>,
      cc_auth = \<lparr>ca_type = ''none'', ca_in = [], ca_name = [], ca_value = None, ca_username = None, ca_password = None\<rparr>,
      cc_headers = [\<lparr>pr_key = ''X-Key'', pr_value = \<lparr>tmpl_src = ''{{secrets.key}}'', tmpl_parts =
        [\<lparr>part_literal = [], part_ref = Some \<lparr>ref_namespace = ''secrets'', ref_path = [''key'']\<rparr>, part_default = [], part_hasDefault = False\<rparr>]\<rparr>\<rparr>],
      cc_tools = [demo_compiled], cc_byName = [(''get_item'', demo_compiled)], cc_variables = [], cc_secretDefs = []\<rparr>"
  by code_simp

lemma demo_base_code [code]:
  "demo_base = \<lparr>u_scheme = ''https'', u_opaque = [], u_user = False, u_host = ''api.example'', u_path = [], u_rawpath = [],
     u_rawquery = [], u_fragment = []\<rparr>"
  by code_simp

definition demo_args :: "string \<Rightarrow> (string, goval) gomap" where
  "demo_args v = [(''id'', VStr v)]"

definition demo_scope :: "string \<Rightarrow> scope" where
  "demo_scope v = map_scope_lookup \<lparr>sc_input = demo_args v, sc_vars = [], sc_secrets = [(''key'', ''k1'')]\<rparr>"


text \<open>C19: no header value of a request that is sent carries a control character, whatever
  the arguments, variables and secrets hold, so neither can split the request; the one
  value that is not checked is the content type, which the manifest fixes.  The Host
  override is checked the same way.\<close>

theorem request_headers_clean:
  assumes "build_request oor tg base cn tt args = Inr req"
  shows "(\<forall>k v. map_of (hr_header req) k = Some v \<longrightarrow>
            clean v \<or> k = ''Content-Type'' \<and> (\<exists>b. ct_body tt = Some b \<and> cb_contentType b \<noteq> []))
       \<and> (tg_hostHeader tg \<noteq> [] \<longrightarrow> hr_host req = tg_hostHeader tg \<and> clean (hr_host req))"
proof -
  define sc where "sc = map_scope_lookup \<lparr>sc_input = args, sc_vars = tg_vars tg, sc_secrets = tg_secrets tg\<rparr>"
  define K where "K = (if \<exists>b. ct_body tt = Some b \<and> cb_contentType b \<noteq> [] then {''Content-Type''} else {})"
  define h0 where "h0 = (\<lambda>body. case body of
      Some (d :: string, ct) \<Rightarrow> if ct \<noteq> [] then header_set ''Content-Type'' ct [] else [] | None \<Rightarrow> [])"
  obtain body host h1 h2 u' where
    b: "render_body oor tt sc = Inr body"
    and host: "(if tg_hostHeader tg = [] then Inr (u_host u')
         else case validate_header_value (tg_hostHeader tg) of
                Some e \<Rightarrow> Inl e | None \<Rightarrow> Inr (tg_hostHeader tg)) = Inr host"
    and h1: "apply_headers oor sc (cc_headers cn) (h0 body) = Inr h1"
    and h2: "apply_headers oor sc (ct_headers tt) h1 = Inr h2"
    and r: "apply_auth oor cn tt sc \<lparr>hr_method = rq_method (tl_request (ct_def tt)), hr_url = u', hr_host = host,
         hr_header = h2, hr_body = map_option fst body\<rparr> = Inr req"
    using assms unfolding build_request_def Let_def sc_def[symmetric] h0_def[symmetric] rbind_Inr_iff
    by (elim exE conjE) (simp only: h0_def)
  have hh: "tg_hostHeader tg \<noteq> [] \<longrightarrow> host = tg_hostHeader tg \<and> clean host"
    using host by (auto split: option.splits)
  have ct: "\<exists>bb. ct_body tt = Some bb \<and> ct = cb_contentType bb" if "body = Some (d, ct)" for d ct
    using b that by (auto simp: render_body_def marshal_body_def split: option.splits sum.splits)
  have canon: "canonical_key ''Content-Type'' = ''Content-Type''" by code_simp
  have "clean_header K (h0 body)"
    using ct by (auto simp: h0_def clean_header_def K_def header_set_def canon split: option.splits if_splits)
  hence "clean_header K (hr_header req)"
    using apply_headers_clean[OF h1] apply_headers_clean[OF h2] apply_auth_clean[OF r] by simp
  thus ?thesis using hh apply_auth_host[OF r] by (auto simp: clean_header_def K_def split: if_splits)
qed

lemma request_headers_clean_witness:
  "\<exists>req v. build_request (\<lambda>_. 0)
      \<lparr>tg_instanceID = ''i'', tg_slug = ''s'', tg_baseURL = Some demo_base, tg_vars = [], tg_secrets = [(''key'', ''k1'')],
       tg_hostHeader = ''localhost'', tg_policy = \<lparr>allow_private_networks = False\<rparr>, tg_timeout = 0,
       tg_maxResponseBytes = 0, tg_rateLimitPerMin = 0, tg_maxConcurrent = 0\<rparr>
      demo_base demo_connector demo_compiled (demo_args ''a'') = Inr req \<and>
    hr_host req = ''localhost'' \<and> map_of (hr_header req) ''X-Key'' = Some v \<and> clean v"
proof -
  define tg where "tg = \<lparr>tg_instanceID = ''i'', tg_slug = ''s'', tg_baseURL = Some demo_base, tg_vars = [],
       tg_secrets = [(''key'', ''k1'')], tg_hostHeader = ''localhost'', tg_policy = \<lparr>allow_private_networks = False\<rparr>, tg_timeout = 0,
       tg_maxResponseBytes = 0, tg_rateLimitPerMin = 0, tg_maxConcurrent = 0\<rparr>"
  have "(case build_request (\<lambda>_. 0) tg demo_base demo_connector demo_compiled (demo_args ''a'') of
      Inl e \<Rightarrow> False | Inr req \<Rightarrow> map_of (hr_header req) ''X-Key'' = Some ''k1'')"
    unfolding tg_def by code_simp
  then obtain req where r: "build_request (\<lambda>_. 0) tg demo_base demo_connector demo_compiled (demo_args ''a'') = Inr req"
    "map_of (hr_header req) ''X-Key'' = Some ''k1''"
    by (auto split: sum.splits)
  have "tg_hostHeader tg = ''localhost''" by (simp add: tg_def)
  with request_headers_clean[OF r(1)] r show ?thesis unfolding tg_def by fastforce
qed

text \<open>The query string of the URL built for a tool says exactly what the templates
  resolved to: parsing it gives back, sorted by name, each parameter whose value is present
  and not empty, once and unchanged, and when there is none the query of the base URL
  stays.\<close>

lemma request_query_exact:
  assumes "render_url oor base tt sc = Inr u" "distinct (map pr_key (ct_query tt))"
  shows "(if query_params oor sc (ct_query tt) = [] then u_rawquery u = u_rawquery base
          else parse_query (u_rawquery u) = singles (sort_key fst (query_params oor sc (ct_query tt))))"
proof -
  obtain q where q: "render_query oor sc (ct_query tt) [] = Inr q"
    and u: "u_rawquery u = (if q = [] then u_rawquery base else values_encode q)"
    using assms(1) render_url_query by blast
  have "q = singles (query_params oor sc (ct_query tt))"
    using render_query_params[OF q] assms(2) by simp
  moreover have "singles ps = [] \<longleftrightarrow> ps = []" for ps by (simp add: singles_def)
  ultimately show ?thesis
    using u parse_query_encode[OF query_params_distinct[OF assms(2)]] by simp
qed

definition query_tool :: "unit compiled_tool" where
  "query_tool = demo_compiled\<lparr>ct_query :=
     [\<lparr>pr_key = ''q'', pr_value = projr (tmpl_parse ''{{input.id}}'')\<rparr>,
      \<lparr>pr_key = ''limit'', pr_value = projr (tmpl_parse ''{{input.limit}}'')\<rparr>]\<rparr>"

lemma request_query_exact_witness:
  "\<exists>u. render_url (\<lambda>_. 0) demo_base query_tool (demo_scope ''a&b=c'') = Inr u \<and>
       parse_query (u_rawquery u) = [(''q'', [''a&b=c''])]"
proof -
  have "is_ok (render_url (\<lambda>_. 0) demo_base query_tool (demo_scope ''a&b=c''))" by code_simp
  then obtain u where u: "render_url (\<lambda>_. 0) demo_base query_tool (demo_scope ''a&b=c'') = Inr u"
    by (auto simp: is_ok_iff)
  have d: "distinct (map pr_key (ct_query query_tool))" by code_simp
  have q: "query_params (\<lambda>_. 0) (demo_scope ''a&b=c'') (ct_query query_tool) = [(''q'', ''a&b=c'')]" by code_simp
  from request_query_exact[OF u d] u show ?thesis by (simp add: q singles_def)
qed

text \<open>What path escaping does not prevent.  An argument that is exactly two dots is
  not escaped, and the call ends in an internal error; one dot stays a path segment; an
  empty argument makes the path begin with two slashes, which the URL parser reads as a
  host, so the segment after it is dropped from the request that goes out.\<close>

theorem request_segment_gaps:
  "render_url (\<lambda>_. 0) demo_base demo_compiled (demo_scope ''..'') = Inl (new_error KindInternal)
   \<and> rmap url_string (render_url (\<lambda>_. 0) demo_base demo_compiled (demo_scope ''.'')) = Inr ''https://api.example/./items''
   \<and> rmap url_string (render_url (\<lambda>_. 0) demo_base demo_compiled (demo_scope [])) = Inr ''https://api.example''
   \<and> rmap url_string (render_url (\<lambda>_. 0) demo_base demo_compiled (demo_scope ''a/b'')) = Inr ''https://api.example/a%2Fb/items''"
  by (intro conjI; code_simp)

end
