(* ===== verification/McpHttp.thy ===== *)
theory McpHttp
  imports McpServer McpSession Mime Request
begin

text \<open>
  \<open>internal/mcp/http.go\<close>: the Streamable HTTP transport over the dispatcher and the
  session store.  A request is one atomic step on the platform's state and the store; the
  randomness and the clock readings of each element of a batch are arguments.
\<close>

section \<open>Requests, responses and options\<close>

record handler_options =
  ho_maxBodyBytes :: int
  ho_sseKeepalive :: int
  ho_sseMaxLifetime :: int

definition handler_defaults :: "handler_options \<Rightarrow> handler_options" where
  "handler_defaults o1 =
     \<lparr>ho_maxBodyBytes = (if ho_maxBodyBytes o1 \<le> 0 then 1048576 else ho_maxBodyBytes o1),
      ho_sseKeepalive = (if ho_sseKeepalive o1 \<le> 0 then 15 * second else ho_sseKeepalive o1),
      ho_sseMaxLifetime = (if ho_sseMaxLifetime o1 \<le> 0 then 30 * 60 * second else ho_sseMaxLifetime o1)\<rparr>"

text \<open>The body is \<open>None\<close> when reading it failed; the instance is the one the authentication
  middleware put into the context.\<close>

record mcp_request =
  mq_method :: string
  mq_instance :: "string option"
  mq_headers :: header
  mq_body :: "string option"

record mcp_reply =
  hp_status :: int
  hp_headers :: header
  hp_body :: string

text \<open>The transport's surroundings: \<open>%q\<close>, the text of a decoding error, the writer of the
  structured content, whether the response writer can flush, and per element of a batch the
  random bytes and the clock.\<close>

record 'h transport =
  tp_options :: handler_options
  tp_quote :: "string \<Rightarrow> string"
  tp_decoder :: "jshape \<Rightarrow> string \<Rightarrow> string"
  tp_structured :: "'h \<Rightarrow> string option"
  tp_flusher :: bool
  tp_now :: int
  tp_random :: "nat \<Rightarrow> string option"
  tp_clock :: "nat \<Rightarrow> int"

definition header_session_id :: string where "header_session_id = ''Mcp-Session-Id''"
definition header_protocol_version :: string where "header_protocol_version = ''MCP-Protocol-Version''"

definition instance_id_from :: "string option \<Rightarrow> string option" where
  "instance_id_from v = (case v of Some i \<Rightarrow> if i \<noteq> [] then Some i else None | None \<Rightarrow> None)"

section \<open>Writing a reply\<close>

definition write_json :: "int \<Rightarrow> string option \<Rightarrow> header \<Rightarrow> mcp_reply" where
  "write_json status payload h =
     \<lparr>hp_status = status,
      hp_headers = header_set ''X-Content-Type-Options'' ''nosniff'' (header_set ''Content-Type'' ''application/json'' h),
      hp_body = (case payload of Some t \<Rightarrow> t @ newline | None \<Rightarrow> [])\<rparr>"

definition write_transport_error :: "'h transport \<Rightarrow> int \<Rightarrow> string \<Rightarrow> header \<Rightarrow> mcp_reply" where
  "write_transport_error tp status m h =
     write_json status (response_json (tp_decoder tp) (tp_structured tp) (rpc_failure [] code_invalid_request (Msg m))) h"

definition set_sse_headers :: "header \<Rightarrow> header" where
  "set_sse_headers h =
     header_set ''X-Accel-Buffering'' ''no'' (header_set ''Connection'' ''keep-alive''
       (header_set ''Cache-Control'' ''no-cache, no-store'' (header_set ''Content-Type'' ''text/event-stream'' h)))"

definition write_sse_response :: "'h transport \<Rightarrow> string option \<Rightarrow> header \<Rightarrow> mcp_reply" where
  "write_sse_response tp payload h =
     (if \<not> tp_flusher tp then write_json 200 payload h
      else case payload of
        None \<Rightarrow> write_transport_error tp 500 ''could not encode response'' h
      | Some t \<Rightarrow> \<lparr>hp_status = 200, hp_headers = set_sse_headers h,
                   hp_body = ''event: message'' @ newline @ ''data: '' @ t @ newline @ newline\<rparr>)"

definition prefers_sse :: "header \<Rightarrow> bool" where
  "prefers_sse h =
     (let accept = lower_str (header_get h ''Accept'') in
      accept \<noteq> [] \<and> contains accept ''text/event-stream'' \<and>
      \<not> (contains accept ''application/json'' \<or> contains accept ''*/*''))"

definition check_protocol_version_header :: "(string \<Rightarrow> string) \<Rightarrow> header \<Rightarrow> string option" where
  "check_protocol_version_header q h =
     (let v = header_get h header_protocol_version in
      if v = [] \<or> is_supported_version v then None
      else Some (''unsupported MCP protocol version '' @ q v @ ''; this server supports '' @
                 join_str '', '' supported_protocol_versions))"

section \<open>POST\<close>

definition null_request_error :: "'r rpc_response" where
  "null_request_error = rpc_failure [] code_invalid_request (Msg ''null request in batch'')"

text \<open>The session a successful \<open>initialize\<close> mints, when the request has none yet.\<close>

definition mint_session :: "string option \<Rightarrow> int \<Rightarrow> string \<Rightarrow> rpc_request \<Rightarrow> 'r rpc_response option
    \<Rightarrow> session option \<Rightarrow> session_store \<Rightarrow> session option \<times> session_store" where
  "mint_session rb now inst req resp sess st =
     (if rpc_method req = method_initialize \<and> sess = None \<and>
         (case resp of Some r \<Rightarrow> rsp_error r = None | None \<Rightarrow> False)
      then (let p = initialize_params_of (case unmarshal_shape initialize_shape (rpc_params req) of Some d \<Rightarrow> d | None \<Rightarrow> []) in
            case session_create rb now inst (ip_protocolVersion p) (im_name (ip_clientInfo p)) (im_version (ip_clientInfo p)) st of
              (Inl e, st1) \<Rightarrow> (None, st1)
            | (Inr x, st1) \<Rightarrow> (Some x, st1))
      else (sess, st))"

fun post_loop :: "('s, 'h) backend \<Rightarrow> 'h transport \<Rightarrow> string \<Rightarrow> nat \<Rightarrow> rpc_request option list \<Rightarrow> session option
    \<Rightarrow> header \<Rightarrow> 's \<Rightarrow> session_store \<Rightarrow> 'h rpc_result rpc_response list \<times> header \<times> 's \<times> session_store" where
  "post_loop b tp inst k [] sess h s st = ([], h, s, st)"
| "post_loop b tp inst k (None # reqs) sess h s st =
     (let (rs, h', s', st') = post_loop b tp inst (Suc k) reqs sess h s st in (null_request_error # rs, h', s', st'))"
| "post_loop b tp inst k (Some req # reqs) sess h s st =
     (let (resp, s1) = rpc_handle b inst req s;
          (sess1, st1) = mint_session (tp_random tp k) (tp_clock tp k) inst req resp sess st;
          h1 = (case (sess, sess1) of (None, Some x) \<Rightarrow> header_set header_session_id (ss_id x) h | _ \<Rightarrow> h);
          (rs, h', s', st') = post_loop b tp inst (Suc k) reqs sess1 h1 s1 st1
      in (case resp of None \<Rightarrow> rs | Some r \<Rightarrow> r # rs, h', s', st'))"

definition unknown_session :: string where "unknown_session = ''unknown or expired session; re-initialize''"

text \<open>The session a request names: none named, or a live one of the same instance.\<close>

definition post_session :: "int \<Rightarrow> string \<Rightarrow> header \<Rightarrow> session_store \<Rightarrow> (unit, session option) result \<times> session_store" where
  "post_session now inst h st =
     (let i = header_get h header_session_id in
      if i = [] then (Inr None, st)
      else case session_get now i st of
        (None, st1) \<Rightarrow> (Inl (), st1)
      | (Some x, st1) \<Rightarrow> if ss_instanceID x \<noteq> inst then (Inl (), st1) else (Inr (Some x), st1))"

definition payload_json :: "'h transport \<Rightarrow> bool \<Rightarrow> 'h rpc_result rpc_response list \<Rightarrow> string option" where
  "payload_json tp batch rs =
     (let enc = response_json (tp_decoder tp) (tp_structured tp); es = map enc rs in
      if \<not> batch then hd es
      else if None \<in> set es then None else Some (''['' @ join_str '','' (map the es) @ '']''))"

definition handle_post :: "('s, 'h) backend \<Rightarrow> 'h transport \<Rightarrow> mcp_request \<Rightarrow> 's \<Rightarrow> session_store
    \<Rightarrow> mcp_reply \<times> 's \<times> session_store" where
  "handle_post b tp r s st =
     (case instance_id_from (mq_instance r) of
        None \<Rightarrow> (write_transport_error tp 500 ''server misconfiguration'' [], s, st)
      | Some inst \<Rightarrow>
          (case check_protocol_version_header (tp_quote tp) (mq_headers r) of
             Some m \<Rightarrow> (write_transport_error tp 400 m [], s, st)
           | None \<Rightarrow>
             (let mx = ho_maxBodyBytes (handler_defaults (tp_options tp)) in
              case (case mq_body r of Some t \<Rightarrow> if int (length t) \<le> mx then Some t else None | None \<Rightarrow> None) of
                None \<Rightarrow> (write_transport_error tp 413 (''request body exceeds the '' @ itoa mx @ '' byte limit'') [], s, st)
              | Some body \<Rightarrow>
                  (case decode_requests body of
                     (Inl m, batch) \<Rightarrow>
                       (write_json 400 (response_json (tp_decoder tp) (tp_structured tp)
                          (rpc_failure [] code_parse_error
                             (case m of Msg t \<Rightarrow> Msg (''could not parse JSON-RPC request: '' @ t)
                              | MsgDecoder p sh raw \<Rightarrow> MsgDecoder ''could not parse JSON-RPC request: '' sh raw))) [], s, st)
                   | (Inr reqs, batch) \<Rightarrow>
                       (case post_session (tp_now tp) inst (mq_headers r) st of
                          (Inl u, st1) \<Rightarrow> (write_transport_error tp 404 unknown_session [], s, st1)
                        | (Inr sess, st1) \<Rightarrow>
                            (let (rs, h, s2, st2) = post_loop b tp inst 0 reqs sess [] s st1 in
                             (if rs = [] then \<lparr>hp_status = 202, hp_headers = h, hp_body = []\<rparr>
                              else if prefers_sse (mq_headers r) then write_sse_response tp (payload_json tp batch rs) h
                              else write_json 200 (payload_json tp batch rs) h, s2, st2)))))))"

section \<open>GET, DELETE and the routing\<close>

text \<open>What wakes the loop of an open stream; a tick says whether the write succeeded.\<close>

datatype stream_event = ContextDone | DeadlinePassed | Tick bool

fun keepalive_loop :: "stream_event list \<Rightarrow> string" where
  "keepalive_loop [] = []"
| "keepalive_loop (Tick True # es) = '': keepalive'' @ newline @ newline @ keepalive_loop es"
| "keepalive_loop (e # es) = []"

definition handle_get :: "'h transport \<Rightarrow> stream_event list \<Rightarrow> mcp_request \<Rightarrow> session_store \<Rightarrow> mcp_reply \<times> session_store" where
  "handle_get tp es r st =
     (case instance_id_from (mq_instance r) of
        None \<Rightarrow> (write_transport_error tp 500 ''server misconfiguration'' [], st)
      | Some inst \<Rightarrow>
          (let i = header_get (mq_headers r) header_session_id;
               (found, st1) = (if i = [] then (True, st) else let (x, st1) = session_get (tp_now tp) i st in (x \<noteq> None, st1)) in
           if \<not> found then (write_transport_error tp 404 unknown_session [], st1)
           else if \<not> tp_flusher tp then (write_transport_error tp 500 ''streaming is not supported by this server'' [], st1)
           else (\<lparr>hp_status = 200, hp_headers = set_sse_headers [], hp_body = keepalive_loop es\<rparr>, st1)))"

definition handle_delete :: "mcp_request \<Rightarrow> session_store \<Rightarrow> mcp_reply \<times> session_store" where
  "handle_delete r st =
     (let i = header_get (mq_headers r) header_session_id in
      (\<lparr>hp_status = 204, hp_headers = [], hp_body = []\<rparr>, if i \<noteq> [] then session_delete i st else st))"

definition serve_http :: "('s, 'h) backend \<Rightarrow> 'h transport \<Rightarrow> stream_event list \<Rightarrow> mcp_request \<Rightarrow> 's \<Rightarrow> session_store
    \<Rightarrow> mcp_reply \<times> 's \<times> session_store" where
  "serve_http b tp es r s st =
     (if mq_method r = ''POST'' then handle_post b tp r s st
      else if mq_method r = ''GET'' then (let (p, st1) = handle_get tp es r st in (p, s, st1))
      else if mq_method r = ''DELETE'' then (let (p, st1) = handle_delete r st in (p, s, st1))
      else (write_transport_error tp 405 ''method not allowed'' (header_set ''Allow'' ''GET, POST, DELETE'' []), s, st))"

section \<open>Lemmas\<close>

text \<open>A change of the store on behalf of an instance: sessions vanish, keep their instance, or
  are new and belong to the instance.\<close>

definition sessions_grow :: "string \<Rightarrow> session_store \<Rightarrow> session_store \<Rightarrow> bool" where
  "sessions_grow inst st st' =
     (session_inv st \<longrightarrow> session_inv st' \<and>
      (\<forall>k x'. map_of (st_sessions st') k = Some x' \<longrightarrow> ss_instanceID x' = inst \<or>
         (\<exists>x. map_of (st_sessions st) k = Some x \<and> ss_instanceID x = ss_instanceID x')))"

lemma sessions_grow_refl [simp]: "sessions_grow inst st st"
  by (auto simp: sessions_grow_def)

lemma sessions_grow_entries:
  assumes "sessions_grow inst st st'" "session_inv st"
  shows "\<forall>(k, x')\<in>set (st_sessions st'). ss_instanceID x' = inst \<or>
          (\<exists>x. (k, x) \<in> set (st_sessions st) \<and> ss_instanceID x = ss_instanceID x')"
proof (clarify)
  fix k x' assume x': "(k, x') \<in> set (st_sessions st')"
    and no: "\<not> (\<exists>x. (k, x) \<in> set (st_sessions st) \<and> ss_instanceID x = ss_instanceID x')"
  have wf: "kv_wf (st_sessions st)" "kv_wf (st_sessions st')"
    using assms unfolding sessions_grow_def session_inv_def by blast+
  hence "map_of (st_sessions st') k = Some x'" using x' by (simp add: kv_wf_in_set)
  thus "ss_instanceID x' = inst" using assms no wf(1) unfolding sessions_grow_def by (metis kv_wf_in_set)
qed

lemma sessions_grow_trans: "sessions_grow inst st st1 \<Longrightarrow> sessions_grow inst st1 st2 \<Longrightarrow> sessions_grow inst st st2"
  unfolding sessions_grow_def by metis

lemma sessions_grow_get: "session_get now i st = (r, st') \<Longrightarrow> sessions_grow inst st st'"
  unfolding sessions_grow_def
  by (auto intro: session_inv_step step_get)
     (auto simp: session_get_def Let_def session_inv_def split: option.splits if_splits)

lemma sessions_grow_create: "session_create rb now inst v cn cv st = (r, st') \<Longrightarrow> sessions_grow inst st st'"
  unfolding sessions_grow_def
  by (auto intro: session_inv_step step_create)
     (auto simp: session_create_def Let_def prune_locked_def session_inv_def map_of_filter_wf split: option.splits if_splits)

lemma mint_session_grow:
  assumes "mint_session rb now inst req resp sess st = (sess', st')" shows "sessions_grow inst st st'"
proof (cases "rpc_method req = method_initialize \<and> sess = None \<and> (case resp of Some r \<Rightarrow> rsp_error r = None | None \<Rightarrow> False)")
  case True
  then show ?thesis using assms sessions_grow_create unfolding mint_session_def Let_def
    by (auto split: prod.splits sum.splits if_splits)
next
  case False
  thus ?thesis using assms by (simp add: mint_session_def split: if_splits)
qed

lemma post_loop_grow: "post_loop b tp inst k reqs sess h s st = (rs, h', s', st') \<Longrightarrow> sessions_grow inst st st'"
proof (induction reqs arbitrary: k sess h s st rs h' s' st')
  case (Cons ro reqs)
  show ?case
  proof (cases ro)
    case None
    then show ?thesis using Cons by (auto simp: Let_def split: prod.splits)
  next
    case (Some req)
    obtain resp s1 where 1: "rpc_handle b inst req s = (resp, s1)" by (metis surj_pair)
    obtain sess1 st1 where 2: "mint_session (tp_random tp k) (tp_clock tp k) inst req resp sess st = (sess1, st1)" by (metis surj_pair)
    show ?thesis
      using Cons.prems Some 1 2 mint_session_grow[OF 2]
      by (auto simp: Let_def split: prod.splits dest!: Cons.IH elim: sessions_grow_trans)
  qed
qed simp

lemma post_session_grow: "post_session now inst h st = (r, st') \<Longrightarrow> sessions_grow inst st st'"
  by (auto simp: post_session_def Let_def split: prod.splits option.splits if_splits intro: sessions_grow_get)

text \<open>How a POST ends: refused before anything runs, or every message dispatched.\<close>

lemma handle_post_cases [consumes 1, case_names refused served]:
  assumes "handle_post b tp r s st = (p, s', st')"
  obtains "s' = s" "hp_status p \<in> {400, 404, 413, 500}"
      "st' = st \<or> (\<exists>inst. instance_id_from (mq_instance r) = Some inst \<and> post_session (tp_now tp) inst (mq_headers r) st = (Inl (), st'))"
  | inst reqs sess st1 rs h where "instance_id_from (mq_instance r) = Some inst"
      "post_session (tp_now tp) inst (mq_headers r) st = (Inr sess, st1)"
      "post_loop b tp inst 0 reqs sess [] s st1 = (rs, h, s', st')"
      "hp_status p = 202 \<longleftrightarrow> rs = []" "hp_status p \<in> {200, 202, 500}"
  using assms unfolding handle_post_def
  by (auto simp: Let_def write_transport_error_def write_json_def write_sse_response_def
      split: option.splits sum.splits prod.splits if_splits)

lemma handle_post_refused:
  assumes "handle_post b tp r s st = (p, s', st')" "instance_id_from (mq_instance r) = Some inst"
    and "post_session (tp_now tp) inst (mq_headers r) st = (Inl u, st1)"
  shows "s' = s \<and> hp_status p \<in> {400, 404, 413}"
  using assms(1) unfolding handle_post_def assms(2) option.case
  by (auto simp: assms(3) Let_def write_transport_error_def write_json_def split: option.splits sum.splits prod.splits if_splits)

section \<open>Properties\<close>

text \<open>C38: POST serves one instance.  Without an authenticated instance nothing happens and the
  answer is 500; a session identifier that is unknown, expired or of another instance runs
  nothing on the platform and is refused; every session a request adds belongs to its own
  instance, and all other sessions keep theirs.  Deleting is not confined in this way: a
  DELETE under any instance ends the session it names.\<close>
theorem post_confined:
  assumes "handle_post b tp r s st = (p, s', st')" "session_inv st"
  shows "(instance_id_from (mq_instance r) = None \<longrightarrow> hp_status p = 500 \<and> s' = s \<and> st' = st) \<and>
    (\<forall>inst i. instance_id_from (mq_instance r) = Some inst \<longrightarrow>
       header_get (mq_headers r) header_session_id = i \<longrightarrow>
       (i \<noteq> [] \<and> (\<forall>x. fst (session_get (tp_now tp) i st) = Some x \<longrightarrow> ss_instanceID x \<noteq> inst)
          \<longrightarrow> s' = s \<and> hp_status p \<in> {400, 404, 413}) \<and>
       (\<forall>(k, x')\<in>set (st_sessions st'). ss_instanceID x' = inst \<or>
          (\<exists>x. (k, x) \<in> set (st_sessions st) \<and> ss_instanceID x = ss_instanceID x')) \<and>
       fst (session_get (tp_now tp) i (snd (handle_delete r st))) = None)"
proof (intro conjI allI impI)
  show "hp_status p = 500" "s' = s" "st' = st" if "instance_id_from (mq_instance r) = None"
    using assms(1) that by (auto simp: handle_post_def write_transport_error_def write_json_def)
next
  fix inst i
  assume inst: "instance_id_from (mq_instance r) = Some inst" and i: "header_get (mq_headers r) header_session_id = i"
  show "fst (session_get (tp_now tp) i (snd (handle_delete r st))) = None"
    using i assms(2) by (simp add: handle_delete_def session_delete_def session_get_def session_inv_def)
  have grow: "sessions_grow inst st st'"
    using assms(1)
  proof (cases rule: handle_post_cases)
    case refused
    then show ?thesis using inst post_session_grow[of "tp_now tp" inst "mq_headers r" st "Inl ()" st'] by auto
  next
    case (served inst' reqs sess st1 rs h)
    thus ?thesis using inst sessions_grow_trans[OF post_session_grow[OF served(2)] post_loop_grow[OF served(3)]] by simp
  qed
  then show "\<forall>(k, x')\<in>set (st_sessions st'). ss_instanceID x' = inst \<or>
          (\<exists>x. (k, x) \<in> set (st_sessions st) \<and> ss_instanceID x = ss_instanceID x')"
    using assms(2) by (rule sessions_grow_entries)
  assume bad: "i \<noteq> [] \<and> (\<forall>x. fst (session_get (tp_now tp) i st) = Some x \<longrightarrow> ss_instanceID x \<noteq> inst)"
  obtain x st1 where "session_get (tp_now tp) i st = (x, st1)" by (metis surj_pair)
  hence "post_session (tp_now tp) inst (mq_headers r) st = (Inl (), st1)"
    using i bad by (auto simp: post_session_def split: option.splits)
  thus "s' = s" "hp_status p \<in> {400, 404, 413}" using handle_post_refused[OF assms(1) inst] by blast+
qed

definition demo_transport :: "unit transport" where
  "demo_transport = \<lparr>tp_options = \<lparr>ho_maxBodyBytes = 0, ho_sseKeepalive = 0, ho_sseMaxLifetime = 0\<rparr>, tp_quote = id,
     tp_decoder = (\<lambda>sh t. []), tp_structured = (\<lambda>u. None), tp_flusher = True, tp_now = 9,
     tp_random = (\<lambda>k. Some ''zzzzzz''), tp_clock = (\<lambda>k. 9)\<rparr>"

definition json_demo :: "(string \<times> string) list \<Rightarrow> string" where
  "json_demo ms = json_struct (map (\<lambda>(k, v). (k, Some v)) ms)"

definition demo_post :: "string \<Rightarrow> string \<Rightarrow> mcp_request" where
  "demo_post inst i = \<lparr>mq_method = ''POST'', mq_instance = Some inst, mq_headers = [(''Mcp-Session-Id'', i)],
     mq_body = Some (json_demo [(''jsonrpc'', json_quote ''2.0''), (''id'', ''1''), (''method'', json_quote ''ping'')])\<rparr>"

lemma post_confined_witness:
  "hp_status (fst (handle_post demo_backend demo_transport (demo_post ''i1'' ''YWJjZGVm'') 3 demo_store)) = 200 \<and>
   hp_status (fst (handle_post demo_backend demo_transport (demo_post ''i2'' ''YWJjZGVm'') 3 demo_store)) \<in> {400, 404, 413}"
proof -
  obtain p s' st' where h: "handle_post demo_backend demo_transport (demo_post ''i2'' ''YWJjZGVm'') 3 demo_store = (p, s', st')"
    by (metis surj_pair)
  have "session_inv demo_store" by (rule session_reach_inv[OF demo_store_reach])
  moreover have "instance_id_from (mq_instance (demo_post ''i2'' ''YWJjZGVm'')) = Some ''i2''"
    "header_get (mq_headers (demo_post ''i2'' ''YWJjZGVm'')) header_session_id = ''YWJjZGVm''"
    "map_option ss_instanceID (fst (session_get (tp_now demo_transport) ''YWJjZGVm'' demo_store)) = Some ''i1''"
    "hp_status (fst (handle_post demo_backend demo_transport (demo_post ''i1'' ''YWJjZGVm'') 3 demo_store)) = 200"
    by code_simp+
  ultimately show ?thesis using post_confined[OF h] h by auto
qed

end
