(* ===== verification/Registry.thy ===== *)
theory Registry
  imports Compile "HOL-Library.List_Lexorder"
begin

text \<open>
  What an instance asks of its compiled connector (the end of
  \<open>internal/connector/compile.go\<close>), and \<open>internal/connector/registry.go\<close>: the cache of
  compiled connectors.  The YAML decoder, with its strictness and the one-document
  rule, is a parameter of \<open>parse_manifest\<close>.
\<close>

section \<open>Variables and secrets of an instance\<close>

definition compiled_tool_named :: "'sc compiled \<Rightarrow> string \<Rightarrow> 'sc compiled_tool option" where
  "compiled_tool_named c name = map_of (cc_byName c) name"

datatype value_problem = VRequired string | VPattern string | VEnum string | VUnknown string | SUnknown string

definition variable_value_problems :: "'sc libs \<Rightarrow> (string, string) gomap \<Rightarrow> variable \<Rightarrow> value_problem list" where
  "variable_value_problems lib vals v =
     (case map_of vals (va_name v) of
        None \<Rightarrow> if va_required v \<and> va_default v = [] then [VRequired (va_name v)] else []
      | Some x \<Rightarrow>
          if x = [] then if va_required v \<and> va_default v = [] then [VRequired (va_name v)] else []
          else (if va_pattern v = [] then []
                else case lib_regex lib (va_pattern v) of
                       Some re \<Rightarrow> if re x then [] else [VPattern (va_name v)]
                     | None \<Rightarrow> [])
               @ (if va_enum v \<noteq> [] \<and> x \<notin> set (va_enum v) then [VEnum (va_name v)] else []))"

definition validate_variables :: "'sc libs \<Rightarrow> 'sc compiled \<Rightarrow> (string, string) gomap \<Rightarrow> value_problem list" where
  "validate_variables lib c vals =
     concat (map (variable_value_problems lib vals) (sp_variables (mf_spec (cc_manifest c))))
     @ map (VUnknown \<circ> fst) (filter (\<lambda>(n, v). map_of (cc_variables c) n = None) vals)"

definition validate_secret_names :: "'sc compiled \<Rightarrow> string list \<Rightarrow> value_problem list" where
  "validate_secret_names c names = map SUnknown (filter (\<lambda>n. map_of (cc_secretDefs c) n = None) names)"

definition missing_required_secrets :: "'sc compiled \<Rightarrow> (string, string) gomap \<Rightarrow> string list" where
  "missing_required_secrets c present =
     sort (map se_name (filter (\<lambda>s. se_required s \<and> map_of present (se_name s) = None)
       (sp_secrets (mf_spec (cc_manifest c)))))"

fun resolve_variables_loop :: "(string, string) gomap \<Rightarrow> variable list \<Rightarrow> (string, string) gomap \<Rightarrow> (string, string) gomap" where
  "resolve_variables_loop vals [] out = out"
| "resolve_variables_loop vals (v # vs) out =
     (let x = (case map_of vals (va_name v) of Some x \<Rightarrow> x | None \<Rightarrow> []) in
      resolve_variables_loop vals vs
        (if x \<noteq> [] then kv_put (va_name v) x out
         else if va_default v \<noteq> [] then kv_put (va_name v) (va_default v) out else out))"

definition resolve_variables :: "'sc compiled \<Rightarrow> (string, string) gomap \<Rightarrow> (string, string) gomap" where
  "resolve_variables c vals = resolve_variables_loop vals (sp_variables (mf_spec (cc_manifest c))) []"

section \<open>The registry\<close>

record connector_record =
  cr_id :: string
  cr_name :: string
  cr_version :: string
  cr_source :: string
  cr_manifest :: string
  cr_checksum :: string
  cr_createdAt :: int
  cr_updatedAt :: int

record 'sc reg_entry =
  rg_record :: connector_record
  rg_compiled :: "'sc compiled"

type_synonym 'sc registry = "(string, 'sc reg_entry) gomap"

definition max_manifest_bytes :: nat where "max_manifest_bytes = 1048576"

datatype registry_error = EmptyManifest | ManifestTooBig | ManifestSyntax | IdMismatch string string | Invalid "problem list"

text \<open>\<open>yaml\<close> decodes the one document of a file, strictly.\<close>

definition parse_manifest :: "(string \<Rightarrow> manifest option) \<Rightarrow> string \<Rightarrow> (registry_error, manifest) result" where
  "parse_manifest yaml data =
     (if data = [] then Inl EmptyManifest
      else if max_manifest_bytes < length data then Inl ManifestTooBig
      else case yaml data of None \<Rightarrow> Inl ManifestSyntax | Some m \<Rightarrow> Inr m)"

definition registry_put :: "'sc libs \<Rightarrow> (string \<Rightarrow> manifest option) \<Rightarrow> connector_record \<Rightarrow> 'sc registry
    \<Rightarrow> (registry_error, 'sc reg_entry) result \<times> 'sc registry" where
  "registry_put lib yaml rec reg =
     (case parse_manifest yaml (cr_manifest rec) of
        Inl e \<Rightarrow> (Inl e, reg)
      | Inr m \<Rightarrow>
          if md_id (mf_metadata m) \<noteq> cr_id rec then (Inl (IdMismatch (cr_id rec) (md_id (mf_metadata m))), reg)
          else (case compile lib m of
                  Inl ps \<Rightarrow> (Inl (Invalid ps), reg)
                | Inr c \<Rightarrow> (let e = \<lparr>rg_record = rec, rg_compiled = c\<rparr> in (Inr e, kv_put (cr_id rec) e reg))))"

definition registry_get :: "'sc registry \<Rightarrow> string \<Rightarrow> 'sc reg_entry option" where
  "registry_get reg i = map_of reg i"

text \<open>By display name, then by ID, which is unique: the order is total.\<close>

definition registry_list :: "'sc registry \<Rightarrow> 'sc reg_entry list" where
  "registry_list reg =
     sort_key (\<lambda>e. cr_name (rg_record e)) (sort_key (\<lambda>e. cr_id (rg_record e)) (map snd reg))"

definition registry_remove :: "string \<Rightarrow> 'sc registry \<Rightarrow> 'sc registry" where
  "registry_remove i reg = kv_del i reg"

definition registry_len :: "'sc registry \<Rightarrow> nat" where
  "registry_len reg = length reg"

section \<open>Lemmas\<close>

text \<open>What a cached entry is: filed under its own ID, with the compiled form of its own manifest.\<close>

definition entry_sound :: "'sc libs \<Rightarrow> (string \<Rightarrow> manifest option) \<Rightarrow> string \<Rightarrow> 'sc reg_entry \<Rightarrow> bool" where
  "entry_sound lib yaml i e =
     (cr_id (rg_record e) = i \<and>
      (\<exists>m. yaml (cr_manifest (rg_record e)) = Some m \<and> md_id (mf_metadata m) = i \<and>
           compile lib m = Inr (rg_compiled e) \<and> length (cr_manifest (rg_record e)) \<le> 1048576))"

definition registry_inv :: "'sc libs \<Rightarrow> (string \<Rightarrow> manifest option) \<Rightarrow> 'sc registry \<Rightarrow> bool" where
  "registry_inv lib yaml reg = (kv_wf reg \<and> (\<forall>i e. map_of reg i = Some e \<longrightarrow> entry_sound lib yaml i e))"

lemma registry_inv_Nil [inv_intros]: "registry_inv lib yaml []"
  by (simp add: registry_inv_def)

lemma registry_put_inv [inv_intros]:
  "registry_inv lib yaml reg \<Longrightarrow> registry_inv lib yaml (snd (registry_put lib yaml rec reg))"
  by (auto simp: registry_put_def registry_inv_def entry_sound_def parse_manifest_def max_manifest_bytes_def Let_def
      split: sum.splits if_splits option.splits)

lemma registry_remove_inv [inv_intros]: "registry_inv lib yaml reg \<Longrightarrow> registry_inv lib yaml (registry_remove i reg)"
  by (auto simp: registry_remove_def registry_inv_def)

lemma registry_put_get:
  "registry_put lib yaml rec reg = (Inr e, reg') \<Longrightarrow>
   rg_record e = rec \<and> map_of reg' = (map_of reg)(cr_id rec \<mapsto> e)"
  by (auto simp: registry_put_def Let_def split: sum.splits if_splits)

lemma registry_put_failed: "registry_put lib yaml rec reg = (Inl e, reg') \<Longrightarrow> reg' = reg"
  by (auto simp: registry_put_def Let_def split: sum.splits if_splits)

text \<open>The compiled maps are keyed by the manifest's declarations.\<close>

lemma resolve_variables_loop_lookup:
  "distinct (map va_name vs) \<Longrightarrow>
   map_of (resolve_variables_loop vals vs out) n =
     (case find (\<lambda>v. va_name v = n) vs of
        None \<Rightarrow> map_of out n
      | Some v \<Rightarrow> (case map_of vals n of
                     Some x \<Rightarrow> if x \<noteq> [] then Some x else if va_default v \<noteq> [] then Some (va_default v) else map_of out n
                   | None \<Rightarrow> if va_default v \<noteq> [] then Some (va_default v) else map_of out n))"
proof (induction vals vs out rule: resolve_variables_loop.induct)
  case (2 vals v vs out)
  have "find (\<lambda>w. va_name w = va_name v) vs = None"
    using 2(2) by (auto simp: find_None_iff image_iff)
  thus ?case using 2 by (auto simp: Let_def split: option.splits)
qed simp

lemma compile_variables_sound:
  "compile_variables lib vs m0 = (m, []) \<Longrightarrow>
   distinct (map va_name vs) \<and> (\<forall>v\<in>set vs. variable_problems lib v = [] \<and> name_ok (va_name v) \<and> map_of m0 (va_name v) = None) \<and>
   dom (map_of m) = dom (map_of m0) \<union> va_name ` set vs"
proof (induction lib vs m0 arbitrary: m rule: compile_variables.induct)
  case (2 lib v vs m0)
  have c: "name_ok (va_name v)" "map_of m0 (va_name v) = None" "variable_problems lib v = []"
    "compile_variables lib vs (kv_put (va_name v) v m0) = (m, [])"
    using 2(4) by (auto simp: apsnd_eq_iff split: if_splits)
  from 2(3)[OF _ _ c(4)] c(1-3) show ?case by (auto split: if_splits)
qed simp

lemma compile_Inr:
  assumes "compile lib m = Inr c"
  shows "cc_manifest c = m\<lparr>mf_spec := (mf_spec m)\<lparr>sp_tools := map (normalise_method lib) (sp_tools (mf_spec m))\<rparr>\<rparr>"
    "compile_variables lib (sp_variables (mf_spec m)) [] = (cc_variables c, [])"
    "compile_secrets (sp_secrets (mf_spec m)) [] = (cc_secretDefs c, [])"
  using assms unfolding compile_def Let_def by (auto split: prod.splits if_splits)

text \<open>A value fits a declaration.\<close>

definition value_fits :: "'sc libs \<Rightarrow> variable \<Rightarrow> string \<Rightarrow> bool" where
  "value_fits lib v x =
     (x \<noteq> [] \<and> (case lib_regex lib (va_pattern v) of Some re \<Rightarrow> va_pattern v = [] \<or> re x | None \<Rightarrow> va_pattern v = []) \<and>
      (va_enum v = [] \<or> x \<in> set (va_enum v)))"

lemma default_fits: "variable_problems lib v = [] \<Longrightarrow> va_default v \<noteq> [] \<Longrightarrow> value_fits lib v (va_default v)"
  by (auto simp: variable_problems_def value_fits_def split: if_splits option.splits)

lemma supplied_fits:
  "variable_problems lib v = [] \<Longrightarrow> variable_value_problems lib vals v = [] \<Longrightarrow> map_of vals (va_name v) = Some x \<Longrightarrow> x \<noteq> [] \<Longrightarrow>
   value_fits lib v x"
  by (auto simp: variable_problems_def variable_value_problems_def value_fits_def split: if_splits option.splits)

lemma required_supplied:
  "variable_value_problems lib vals v = [] \<Longrightarrow> va_required v \<Longrightarrow> va_default v = [] \<Longrightarrow>
   \<exists>x. map_of vals (va_name v) = Some x \<and> x \<noteq> []"
  by (auto simp: variable_value_problems_def split: if_splits option.splits)

lemma find_by_name:
  "distinct (map va_name vs) \<Longrightarrow> v \<in> set vs \<Longrightarrow> find (\<lambda>w. va_name w = va_name v) vs = Some v"
  by (induction vs) auto

section \<open>Properties\<close>

text \<open>Accepted values resolve to fitting ones.  When a manifest compiles and the values an
  operator supplies pass validation, the variables a call renders with are exactly declared
  ones, each with a value that matches its pattern and its enumeration, and every required
  variable has one; defaults never slip past the checks.\<close>

theorem resolved_variables_fit:
  assumes "compile lib m = Inr c" "validate_variables lib c vals = []"
  shows "(\<forall>n x. map_of (resolve_variables c vals) n = Some x \<longrightarrow>
            (\<exists>v\<in>set (sp_variables (mf_spec m)). va_name v = n \<and> value_fits lib v x)) \<and>
         (\<forall>v\<in>set (sp_variables (mf_spec m)). va_required v \<longrightarrow> map_of (resolve_variables c vals) (va_name v) \<noteq> None) \<and>
         fst ` set vals \<subseteq> va_name ` set (sp_variables (mf_spec m))"
proof -
  define vs where "vs = sp_variables (mf_spec m)"
  note comp = compile_Inr[OF assms(1), folded vs_def]
  note cv = compile_variables_sound[OF comp(2)]
  have dist: "distinct (map va_name vs)" and vp: "\<And>v. v \<in> set vs \<Longrightarrow> variable_problems lib v = []" using cv by auto
  have vv: "variable_value_problems lib vals v = []" if "v \<in> set vs" for v
    using assms(2) that by (auto simp: validate_variables_def comp(1) vs_def)
  have res: "map_of (resolve_variables c vals) n =
     (case find (\<lambda>v. va_name v = n) vs of
        None \<Rightarrow> None
      | Some v \<Rightarrow> (case map_of vals n of
                     Some x \<Rightarrow> if x \<noteq> [] then Some x else if va_default v \<noteq> [] then Some (va_default v) else None
                   | None \<Rightarrow> if va_default v \<noteq> [] then Some (va_default v) else None))" for n
    using resolve_variables_loop_lookup[OF dist, of vals "[]" n]
    by (simp add: resolve_variables_def comp(1) vs_def split: option.splits)
  have "\<exists>v\<in>set vs. va_name v = n \<and> value_fits lib v x" if r: "map_of (resolve_variables c vals) n = Some x" for n x
  proof -
    obtain v where f: "find (\<lambda>v. va_name v = n) vs = Some v" using r res[of n] by (auto split: option.splits)
    hence v: "v \<in> set vs" "va_name v = n" by (auto simp: find_Some_iff)
    have "value_fits lib v x"
      using r res[of n] f v vp[OF v(1)] vv[OF v(1)] default_fits[of lib v] supplied_fits[of lib v vals x]
      by (auto split: option.splits if_splits)
    with v show ?thesis by blast
  qed
  moreover have "map_of (resolve_variables c vals) (va_name v) \<noteq> None" if "v \<in> set vs" "va_required v" for v
    using res[of "va_name v"] find_by_name[OF dist that(1)] required_supplied[OF vv[OF that(1)] that(2)]
    by (auto split: option.splits)
  moreover have "n \<in> va_name ` set vs" if "(n, x) \<in> set vals" for n x
  proof -
    have "map_of (cc_variables c) n \<noteq> None"
      using assms(2) that by (auto simp: validate_variables_def filter_empty_conv)
    thus ?thesis using cv by (auto simp: dom_def)
  qed
  ultimately show ?thesis unfolding vs_def[symmetric] by force
qed

definition var_manifest :: manifest where
  "var_manifest = demo_manifest\<lparr>mf_spec := (mf_spec demo_manifest)\<lparr>sp_variables :=
     [\<lparr>va_name = ''lib'', va_description = [], va_default = [], va_required = True, va_pattern = [],
       va_enum = [''user'', ''group''], va_example = [], va_advanced = False\<rparr>,
      \<lparr>va_name = ''ver'', va_description = [], va_default = ''3'', va_required = False, va_pattern = [],
       va_enum = [], va_example = [], va_advanced = False\<rparr>]\<rparr>\<rparr>"

lemma resolved_variables_fit_witness:
  "\<exists>c. compile plain_libs var_manifest = Inr c \<and> resolve_variables c [(''lib'', ''group'')] = [(''lib'', ''group''), (''ver'', ''3'')] \<and>
     (\<exists>v\<in>set (sp_variables (mf_spec var_manifest)). va_name v = ''ver'' \<and> value_fits plain_libs v ''3'')"
proof -
  have "is_ok (compile plain_libs var_manifest)" by code_simp
  then obtain c where c: "compile plain_libs var_manifest = Inr c" by (auto simp: is_ok_iff)
  hence p: "projr (compile plain_libs var_manifest) = c" by simp
  have "validate_variables plain_libs (projr (compile plain_libs var_manifest)) [(''lib'', ''group'')] = []"
    "resolve_variables (projr (compile plain_libs var_manifest)) [(''lib'', ''group'')] = [(''lib'', ''group''), (''ver'', ''3'')]"
    by code_simp+
  note v = this[unfolded p]
  from resolved_variables_fit[OF c v(1)] have "\<exists>v\<in>set (sp_variables (mf_spec var_manifest)). va_name v = ''ver'' \<and> value_fits plain_libs v ''3''"
    by (simp add: v(2))
  with c v(2) show ?thesis by blast
qed

datatype registry_op = RPut connector_record | RRemove string

definition registry_run :: "'sc libs \<Rightarrow> (string \<Rightarrow> manifest option) \<Rightarrow> registry_op list \<Rightarrow> 'sc registry" where
  "registry_run lib yaml ops = List.fold (\<lambda>opn reg. case opn of
     RPut rec \<Rightarrow> snd (registry_put lib yaml rec reg) | RRemove i \<Rightarrow> registry_remove i reg) ops []"

lemma registry_run_inv: "registry_inv lib yaml (registry_run lib yaml ops)"
proof -
  have "registry_inv lib yaml (List.fold (\<lambda>opn reg. case opn of
     RPut rec \<Rightarrow> snd (registry_put lib yaml rec reg) | RRemove i \<Rightarrow> registry_remove i reg) ops reg)"
    if "registry_inv lib yaml reg" for reg
    using that by (induction ops arbitrary: reg) (auto intro: inv_intros split: registry_op.splits)
  thus ?thesis by (simp add: registry_run_def registry_inv_Nil)
qed

text \<open>The registry holds only what it can vouch for.  Any sequence of insertions (good or
  bad) and removals keeps every entry filed under its record's own identifier, which is the one
  inside its manifest, with the compiled form of exactly that manifest, of at most a mebibyte; a
  rejected record changes nothing, and an accepted one is what a lookup returns next.\<close>

theorem registry_sound:
  "(case registry_get (registry_run lib yaml ops) i of
      None \<Rightarrow> True
    | Some e \<Rightarrow> entry_sound lib yaml i e) \<and>
   (case registry_put lib yaml rec (registry_run lib yaml ops) of
      (Inl e, reg') \<Rightarrow> reg' = registry_run lib yaml ops
    | (Inr e, reg') \<Rightarrow> registry_get reg' (cr_id rec) = Some e \<and> rg_record e = rec \<and>
        registry_get (registry_remove (cr_id rec) reg') (cr_id rec) = None \<and>
        entry_sound lib yaml (cr_id rec) e)"
proof (intro conjI)
  note inv = registry_run_inv[of lib yaml ops]
  show "case registry_get (registry_run lib yaml ops) i of None \<Rightarrow> True | Some e \<Rightarrow> entry_sound lib yaml i e"
    using inv by (auto simp: registry_inv_def registry_get_def split: option.split)
  obtain r reg' where p: "registry_put lib yaml rec (registry_run lib yaml ops) = (r, reg')" by fastforce
  have inv': "registry_inv lib yaml reg'" using registry_put_inv[OF inv, of rec] by (simp add: p)
  show "case registry_put lib yaml rec (registry_run lib yaml ops) of
      (Inl e, reg') \<Rightarrow> reg' = registry_run lib yaml ops
    | (Inr e, reg') \<Rightarrow> registry_get reg' (cr_id rec) = Some e \<and> rg_record e = rec \<and>
        registry_get (registry_remove (cr_id rec) reg') (cr_id rec) = None \<and>
        entry_sound lib yaml (cr_id rec) e"
  proof (cases r)
    case (Inl e)
    thus ?thesis using registry_put_failed[of lib yaml rec _ e reg'] p by simp
  next
    case (Inr e)
    thus ?thesis using registry_put_get[of lib yaml rec _ e reg'] p inv'
      by (auto simp: registry_get_def registry_remove_def registry_inv_def)
  qed
qed

end
