(* ===== verification/Store.thy ===== *)
theory Store
  imports Domain Registry JsonEnc "HOL-Library.List_Lexorder"
begin

text \<open>
  \<open>internal/store/store.go\<close> (the repository ports) and \<open>internal/store/sqlitestore\<close>
  (their SQL): the database is a record of tables, a repository method is a statement
  over it.  Constraint violations become the sentinel errors \<open>translate\<close> makes of them;
  every statement may also fail as a whole, which the list \<open>db_faults\<close> decides, one
  element per statement.  Instants are stored exactly, and compared in SQL as their
  RFC 3339 texts.  Migrations and connection pools are not modelled: the schema is the one
  after all migrations.
\<close>

section \<open>Timestamps as text\<close>

fun pad_zeros :: "nat \<Rightarrow> string \<Rightarrow> string" where
  "pad_zeros n s = replicate (n - length s) CHR ''0'' @ s"

definition drop_trailing_zeros :: "string \<Rightarrow> string" where
  "drop_trailing_zeros s = rev (dropWhile (\<lambda>c. c = CHR ''0'') (rev s))"

text \<open>The civil date of a day number since the epoch, in the proleptic Gregorian calendar.\<close>

definition civil :: "int \<Rightarrow> int \<times> int \<times> int" where
  "civil z0 =
     (let z = z0 + 719468; era = z div 146097; doe = z mod 146097;
          yoe = (doe - doe div 1460 + doe div 36524 - doe div 146096) div 365;
          doy = doe - (365 * yoe + yoe div 4 - yoe div 100);
          mp = (5 * doy + 2) div 153; d = doy - (153 * mp + 2) div 5 + 1;
          m = (if mp < 10 then mp + 3 else mp - 9)
      in (yoe + era * 400 + (if m \<le> 2 then 1 else 0), m, d))"

definition format_time :: "int \<Rightarrow> string" where
  "format_time t =
     (let secs = t div second; ns = t mod second; days = secs div 86400; r = secs mod 86400; (y, m, d) = civil days;
          two = (\<lambda>n. pad_zeros 2 (nat_dec (nat n))); frac = drop_trailing_zeros (pad_zeros 9 (nat_dec (nat ns)))
      in (if y < 0 then ''-'' else []) @ pad_zeros 4 (nat_dec (nat \<bar>y\<bar>)) @ ''-'' @ two m @ ''-'' @ two d @ ''T''
         @ two (r div 3600) @ '':'' @ two (r div 60 mod 60) @ '':'' @ two (r mod 60)
         @ (if frac = [] then [] else ''.'' @ frac) @ ''Z'')"

section \<open>Tables\<close>

record audit_event =
  ae_id :: string
  ae_at :: int
  ae_actorType :: string
  ae_actorID :: string
  ae_action :: string
  ae_targetType :: string
  ae_targetID :: string
  ae_result :: string
  ae_ip :: string
  ae_detail :: "(string, goval) gomap"

text \<open>The detail column holds JSON.\<close>

record audit_row =
  aw_event :: audit_event
  aw_detail :: string

record instance_secret =
  is_instanceID :: string
  is_name :: string
  is_ciphertext :: string
  is_updatedAt :: int

record index_chunk =
  ic_id :: int
  ic_instanceID :: string
  ic_itemKey :: string
  ic_attachmentKey :: string
  ic_chunkIndex :: int
  ic_charStart :: int
  ic_charEnd :: int
  ic_text :: string
  ic_embedding :: "rat list"

record index_document =
  id_instanceID :: string
  id_itemKey :: string
  id_attachmentKey :: string
  id_contentHash :: string
  id_chunkCount :: int
  id_updatedAt :: int

record index_meta =
  ix_instanceID :: string
  ix_embedderModel :: string
  ix_embedderDimension :: int
  ix_updatedAt :: int

record fts_row =
  ft_chunkID :: int
  ft_instanceID :: string
  ft_text :: string

record embedder_settings =
  es_url :: string
  es_model :: string
  es_rateLimitPerMin :: int
  es_updatedAt :: int

record db =
  db_faults :: "bool list"
  db_users :: "user list"
  db_sessions :: "web_session list"
  db_connectors :: "connector_record list"
  db_instances :: "instance_rec list"
  db_secrets :: "instance_secret list"
  db_tools :: "tool_binding list"
  db_tokens :: "token list"
  db_audit :: "audit_row list"
  db_chunks :: "index_chunk list"
  db_nextChunk :: int
  db_fts :: "fts_row list"
  db_documents :: "index_document list"
  db_meta :: "index_meta list"
  db_embedder :: embedder_settings
  db_embedderKey :: "string option"

type_synonym 'a sql = "db \<Rightarrow> (domain_error, 'a) result \<times> db"

section \<open>Statements\<close>

text \<open>A statement either fails as a whole and changes nothing, or runs.\<close>

definition stmt :: "'a sql \<Rightarrow> 'a sql" where
  "stmt f d =
     (case db_faults d of
        [] \<Rightarrow> f d
      | b # bs \<Rightarrow> if b then (Inl ErrOther, d\<lparr>db_faults := bs\<rparr>) else f (d\<lparr>db_faults := bs\<rparr>))"

definition select :: "(db \<Rightarrow> 'a) \<Rightarrow> 'a sql" where
  "select f = stmt (\<lambda>d. (Inr (f d), d))"

text \<open>\<open>QueryRow\<close>: the first row, or \<open>sql.ErrNoRows\<close>.\<close>

definition select_row :: "(db \<Rightarrow> 'a list) \<Rightarrow> 'a sql" where
  "select_row f = stmt (\<lambda>d. (case f d of [] \<Rightarrow> Inl ErrNotFound | x # xs \<Rightarrow> Inr x, d))"

definition sql_bind :: "'a sql \<Rightarrow> ('a \<Rightarrow> 'b sql) \<Rightarrow> 'b sql" where
  "sql_bind m k d = (case m d of (Inl e, d1) \<Rightarrow> (Inl e, d1) | (Inr a, d1) \<Rightarrow> k a d1)"

definition sql_return :: "'a \<Rightarrow> 'a sql" where "sql_return a d = (Inr a, d)"

definition sql_fail :: "domain_error \<Rightarrow> 'a sql" where "sql_fail e d = (Inl e, d)"

definition updated :: "('a \<Rightarrow> bool) \<Rightarrow> ('a \<Rightarrow> 'a) \<Rightarrow> 'a list \<Rightarrow> 'a list" where
  "updated P f rows = map (\<lambda>r. if P r then f r else r) rows"

lemma map_key_updated: "(\<And>x. P x \<Longrightarrow> k (f x) = k x) \<Longrightarrow> map k (updated P f rows) = map k rows"
  by (induction rows) (auto simp: updated_def)

lemma set_updated: "x \<in> set (updated P f rows) \<longleftrightarrow> (\<exists>r\<in>set rows. x = (if P r then f r else r))"
  by (auto simp: updated_def)

text \<open>\<open>ORDER BY\<close> a text column.\<close>

definition order_asc :: "('a \<Rightarrow> string) \<Rightarrow> 'a list \<Rightarrow> 'a list" where
  "order_asc k rows = sort_key k rows"

definition order_desc :: "('a \<Rightarrow> string) \<Rightarrow> 'a list \<Rightarrow> 'a list" where
  "order_desc k rows = rev (sort_key k (rev rows))"

section \<open>Users\<close>

text \<open>\<open>strings.ToLower\<close>, with the lower-case mapping of runes as an argument; the
  column compares without regard to ASCII case.\<close>

definition go_lower :: "(nat \<Rightarrow> nat) \<Rightarrow> string \<Rightarrow> string" where
  "go_lower lower t = (if ascii t then to_lower t else encode_runes (map lower (runes t)))"

definition normalise_email :: "(nat \<Rightarrow> nat) \<Rightarrow> string \<Rightarrow> string" where
  "normalise_email lower e = go_lower lower (trim_space e)"

definition same_email :: "string \<Rightarrow> string \<Rightarrow> bool" where
  "same_email a b = (to_lower a = to_lower b)"

definition user_create :: "(nat \<Rightarrow> nat) \<Rightarrow> user \<Rightarrow> unit sql" where
  "user_create lower u0 = stmt (\<lambda>d.
     let u = u0\<lparr>us_email := normalise_email lower (us_email u0)\<rparr> in
     if \<not> role_valid (us_role u) then (Inl ErrInvalidInput, d)
     else if list_ex (\<lambda>r. us_id r = us_id u \<or> same_email (us_email r) (us_email u)) (db_users d) then (Inl ErrConflict, d)
     else (Inr (), d\<lparr>db_users := db_users d @ [u]\<rparr>))"

definition user_update :: "(nat \<Rightarrow> nat) \<Rightarrow> user \<Rightarrow> unit sql" where
  "user_update lower u = stmt (\<lambda>d.
     let e = normalise_email lower (us_email u) in
     if \<not> list_ex (\<lambda>r. us_id r = us_id u) (db_users d) then (Inl ErrNotFound, d)
     else if \<not> role_valid (us_role u) then (Inl ErrInvalidInput, d)
     else if list_ex (\<lambda>r. us_id r \<noteq> us_id u \<and> same_email (us_email r) e) (db_users d) then (Inl ErrConflict, d)
     else (Inr (), d\<lparr>db_users := updated (\<lambda>r. us_id r = us_id u)
       (\<lambda>r. u\<lparr>us_email := e, us_createdAt := us_createdAt r\<rparr>) (db_users d)\<rparr>))"

definition user_by_id :: "string \<Rightarrow> user sql" where
  "user_by_id i = select_row (\<lambda>d. filter (\<lambda>r. us_id r = i) (db_users d))"

definition user_by_email :: "(nat \<Rightarrow> nat) \<Rightarrow> string \<Rightarrow> user sql" where
  "user_by_email lower e = select_row (\<lambda>d. filter (\<lambda>r. same_email (us_email r) (normalise_email lower e)) (db_users d))"

definition user_list :: "user list sql" where
  "user_list = select (\<lambda>d. order_asc (\<lambda>u. format_time (us_createdAt u)) (db_users d))"

definition user_count :: "nat sql" where
  "user_count = select (\<lambda>d. length (db_users d))"

section \<open>Sessions\<close>

definition wsession_create :: "web_session \<Rightarrow> unit sql" where
  "wsession_create s = stmt (\<lambda>d.
     if list_ex (\<lambda>r. ws_id r = ws_id s) (db_sessions d) \<or> \<not> list_ex (\<lambda>u. us_id u = ws_userID s) (db_users d)
     then (Inl ErrConflict, d) else (Inr (), d\<lparr>db_sessions := db_sessions d @ [s]\<rparr>))"

definition wsession_get :: "string \<Rightarrow> web_session sql" where
  "wsession_get i = select_row (\<lambda>d. filter (\<lambda>r. ws_id r = i) (db_sessions d))"

definition wsession_touch :: "string \<Rightarrow> int \<Rightarrow> int \<Rightarrow> unit sql" where
  "wsession_touch i seen ex = stmt (\<lambda>d.
     if \<not> list_ex (\<lambda>r. ws_id r = i) (db_sessions d) then (Inl ErrNotFound, d)
     else (Inr (), d\<lparr>db_sessions := updated (\<lambda>r. ws_id r = i) (\<lambda>r. r\<lparr>ws_lastSeenAt := seen, ws_expiresAt := ex\<rparr>) (db_sessions d)\<rparr>))"

definition wsession_delete :: "string \<Rightarrow> unit sql" where
  "wsession_delete i = stmt (\<lambda>d. (Inr (), d\<lparr>db_sessions := filter (\<lambda>r. ws_id r \<noteq> i) (db_sessions d)\<rparr>))"

definition wsession_delete_by_user :: "string \<Rightarrow> unit sql" where
  "wsession_delete_by_user u = stmt (\<lambda>d. (Inr (), d\<lparr>db_sessions := filter (\<lambda>r. ws_userID r \<noteq> u) (db_sessions d)\<rparr>))"

definition wsession_delete_expired :: "int \<Rightarrow> nat sql" where
  "wsession_delete_expired now = stmt (\<lambda>d.
     let keep = filter (\<lambda>r. \<not> format_time (ws_expiresAt r) \<le> format_time now) (db_sessions d) in
     (Inr (length (db_sessions d) - length keep), d\<lparr>db_sessions := keep\<rparr>))"

section \<open>Tokens\<close>

definition token_create :: "token \<Rightarrow> unit sql" where
  "token_create t = stmt (\<lambda>d.
     if list_ex (\<lambda>r. tk_id r = tk_id t \<or> tk_hash r = tk_hash t) (db_tokens d) then (Inl ErrConflict, d)
     else (Inr (), d\<lparr>db_tokens := db_tokens d @ [t]\<rparr>))"

definition token_by_key :: "string \<Rightarrow> token sql" where
  "token_by_key k = select_row (\<lambda>d. filter (\<lambda>r. tk_hash r = k) (db_tokens d))"

definition token_list :: "token list sql" where
  "token_list = select (\<lambda>d. order_desc (\<lambda>t. format_time (tk_createdAt t)) (db_tokens d))"

definition token_revoke :: "string \<Rightarrow> int \<Rightarrow> unit sql" where
  "token_revoke i t0 = stmt (\<lambda>d.
     if \<not> list_ex (\<lambda>r. tk_id r = i) (db_tokens d) then (Inl ErrNotFound, d)
     else (Inr (), d\<lparr>db_tokens := updated (\<lambda>r. tk_id r = i)
       (\<lambda>r. r\<lparr>tk_revokedAt := (case tk_revokedAt r of None \<Rightarrow> Some t0 | Some x \<Rightarrow> Some x)\<rparr>) (db_tokens d)\<rparr>))"

definition token_touch :: "string \<Rightarrow> int \<Rightarrow> unit sql" where
  "token_touch i t0 = stmt (\<lambda>d.
     (Inr (), d\<lparr>db_tokens := updated (\<lambda>r. tk_id r = i) (\<lambda>r. r\<lparr>tk_lastUsedAt := Some t0\<rparr>) (db_tokens d)\<rparr>))"

definition token_delete_by_instance :: "string \<Rightarrow> unit sql" where
  "token_delete_by_instance i = stmt (\<lambda>d.
     (Inr (), d\<lparr>db_tokens := filter (\<lambda>r. tk_instanceID r \<noteq> i) (db_tokens d)\<rparr>))"

section \<open>Audit log\<close>

record audit_filter =
  af_action :: string
  af_actorID :: string
  af_targetID :: string
  af_limit :: int
  af_before :: "int option"

definition audit_append :: "audit_event \<Rightarrow> unit sql" where
  "audit_append e =
     (case (if ae_detail e = [] then Some ''{}'' else json_marshal (VObj (ae_detail e))) of
        None \<Rightarrow> sql_fail ErrOther
      | Some txt \<Rightarrow> stmt (\<lambda>d.
          if list_ex (\<lambda>r. ae_id (aw_event r) = ae_id e) (db_audit d) then (Inl ErrConflict, d)
          else (Inr (), d\<lparr>db_audit := db_audit d @ [\<lparr>aw_event = e, aw_detail = txt\<rparr>]\<rparr>)))"

definition audit_matches :: "audit_filter \<Rightarrow> audit_event \<Rightarrow> bool" where
  "audit_matches f e =
     ((af_action f = [] \<or> ae_action e = af_action f) \<and> (af_actorID f = [] \<or> ae_actorID e = af_actorID f) \<and>
      (af_targetID f = [] \<or> ae_targetID e = af_targetID f) \<and>
      (case af_before f of None \<Rightarrow> True | Some b \<Rightarrow> format_time (ae_at e) < format_time b))"

definition audit_list :: "audit_filter \<Rightarrow> audit_event list sql" where
  "audit_list f = select (\<lambda>d.
     let n = (if af_limit f \<le> 0 \<or> 500 < af_limit f then 100 else af_limit f);
         rows = filter (\<lambda>r. audit_matches f (aw_event r)) (db_audit d);
         read = (\<lambda>r. (aw_event r)\<lparr>ae_detail := (case json_unmarshal (aw_detail r) of Some (VObj m) \<Rightarrow> m | _ \<Rightarrow> [])\<rparr>)
     in map read (take (nat n) (order_desc (\<lambda>r. format_time (ae_at (aw_event r))) rows)))"

definition audit_prune :: "int \<Rightarrow> nat sql" where
  "audit_prune older = stmt (\<lambda>d.
     let keep = filter (\<lambda>r. \<not> format_time (ae_at (aw_event r)) < format_time older) (db_audit d) in
     (Inr (length (db_audit d) - length keep), d\<lparr>db_audit := keep\<rparr>))"

section \<open>Connectors\<close>

definition connector_upsert :: "connector_record \<Rightarrow> unit sql" where
  "connector_upsert c = stmt (\<lambda>d.
     if cr_source c \<notin> {''builtin'', ''manifest'', ''openapi''} then (Inl ErrInvalidInput, d)
     else if list_ex (\<lambda>r. cr_id r = cr_id c) (db_connectors d)
     then (Inr (), d\<lparr>db_connectors := updated (\<lambda>r. cr_id r = cr_id c) (\<lambda>r. c\<lparr>cr_createdAt := cr_createdAt r\<rparr>) (db_connectors d)\<rparr>)
     else (Inr (), d\<lparr>db_connectors := db_connectors d @ [c]\<rparr>))"

definition connector_get :: "string \<Rightarrow> connector_record sql" where
  "connector_get i = select_row (\<lambda>d. filter (\<lambda>r. cr_id r = i) (db_connectors d))"

definition connector_list :: "connector_record list sql" where
  "connector_list = select (\<lambda>d. order_asc cr_name (db_connectors d))"

text \<open>An instance that references the connector makes the database refuse.\<close>

definition connector_delete :: "string \<Rightarrow> unit sql" where
  "connector_delete i = stmt (\<lambda>d.
     if \<not> list_ex (\<lambda>r. cr_id r = i) (db_connectors d) then (Inl ErrNotFound, d)
     else if list_ex (\<lambda>r. in_connectorID r = i) (db_instances d) then (Inl ErrConflict, d)
     else (Inr (), d\<lparr>db_connectors := filter (\<lambda>r. cr_id r \<noteq> i) (db_connectors d)\<rparr>))"

section \<open>Instances\<close>

text \<open>The variables pass through JSON, which makes their text valid UTF-8.\<close>

definition marshal_variables :: "(string, string) gomap \<Rightarrow> (string, string) gomap" where
  "marshal_variables m =
     (let fix8 = (\<lambda>s. encode_runes (runes s)) in List.fold (\<lambda>(k, v) acc. kv_put (fix8 k) (fix8 v) acc) m [])"

definition instance_create :: "instance_rec \<Rightarrow> unit sql" where
  "instance_create i = stmt (\<lambda>d.
     if list_ex (\<lambda>r. in_id r = in_id i \<or> in_slug r = in_slug i) (db_instances d)
        \<or> \<not> list_ex (\<lambda>c. cr_id c = in_connectorID i) (db_connectors d)
     then (Inl ErrConflict, d)
     else (Inr (), d\<lparr>db_instances := db_instances d @ [i\<lparr>in_variables := marshal_variables (in_variables i)\<rparr>]\<rparr>))"

definition instance_update :: "instance_rec \<Rightarrow> instance_rec sql" where
  "instance_update i = stmt (\<lambda>d.
     if \<not> list_ex (\<lambda>r. in_id r = in_id i) (db_instances d) then (Inl ErrNotFound, d)
     else if list_ex (\<lambda>r. in_id r \<noteq> in_id i \<and> in_slug r = in_slug i) (db_instances d) then (Inl ErrConflict, d)
     else (Inr (i\<lparr>in_version := in_version i + 1\<rparr>),
           d\<lparr>db_instances := updated (\<lambda>r. in_id r = in_id i)
              (\<lambda>r. i\<lparr>in_variables := marshal_variables (in_variables i), in_connectorID := in_connectorID r,
                      in_createdAt := in_createdAt r, in_version := in_version r + 1\<rparr>) (db_instances d)\<rparr>))"

text \<open>Deleting an instance deletes the rows that reference it; tokens and full-text rows do not.\<close>

definition instance_delete :: "string \<Rightarrow> unit sql" where
  "instance_delete i = stmt (\<lambda>d.
     if \<not> list_ex (\<lambda>r. in_id r = i) (db_instances d) then (Inl ErrNotFound, d)
     else (Inr (), d\<lparr>db_instances := filter (\<lambda>r. in_id r \<noteq> i) (db_instances d),
            db_secrets := filter (\<lambda>r. is_instanceID r \<noteq> i) (db_secrets d),
            db_tools := filter (\<lambda>r. tb_instanceID r \<noteq> i) (db_tools d),
            db_chunks := filter (\<lambda>r. ic_instanceID r \<noteq> i) (db_chunks d),
            db_documents := filter (\<lambda>r. id_instanceID r \<noteq> i) (db_documents d),
            db_meta := filter (\<lambda>r. ix_instanceID r \<noteq> i) (db_meta d)\<rparr>))"

definition instance_get :: "string \<Rightarrow> instance_rec sql" where
  "instance_get i = select_row (\<lambda>d. filter (\<lambda>r. in_id r = i) (db_instances d))"

definition instance_by_slug :: "string \<Rightarrow> instance_rec sql" where
  "instance_by_slug s = select_row (\<lambda>d. filter (\<lambda>r. in_slug r = s) (db_instances d))"

definition instance_list :: "instance_rec list sql" where
  "instance_list = select (\<lambda>d. order_asc in_name (db_instances d))"

definition count_by_connector :: "string \<Rightarrow> nat sql" where
  "count_by_connector c = select (\<lambda>d. length (filter (\<lambda>r. in_connectorID r = c) (db_instances d)))"

definition secret_set :: "instance_secret \<Rightarrow> unit sql" where
  "secret_set s = stmt (\<lambda>d.
     let same = (\<lambda>r. is_instanceID r = is_instanceID s \<and> is_name r = is_name s) in
     if \<not> list_ex (\<lambda>i. in_id i = is_instanceID s) (db_instances d) then (Inl ErrConflict, d)
     else if list_ex same (db_secrets d) then (Inr (), d\<lparr>db_secrets := updated same (\<lambda>r. s) (db_secrets d)\<rparr>)
     else (Inr (), d\<lparr>db_secrets := db_secrets d @ [s]\<rparr>))"

definition secret_delete :: "string \<Rightarrow> string \<Rightarrow> unit sql" where
  "secret_delete i n = stmt (\<lambda>d.
     (Inr (), d\<lparr>db_secrets := filter (\<lambda>r. \<not> (is_instanceID r = i \<and> is_name r = n)) (db_secrets d)\<rparr>))"

definition secret_names :: "string \<Rightarrow> string list sql" where
  "secret_names i = select (\<lambda>d. map is_name (order_asc is_name (filter (\<lambda>r. is_instanceID r = i) (db_secrets d))))"

definition load_secrets :: "string \<Rightarrow> (string, string) gomap sql" where
  "load_secrets i = select (\<lambda>d. List.fold (\<lambda>r m. kv_put (is_name r) (is_ciphertext r) m)
     (filter (\<lambda>r. is_instanceID r = i) (db_secrets d)) [])"

definition tool_binding_set :: "tool_binding \<Rightarrow> unit sql" where
  "tool_binding_set b = stmt (\<lambda>d.
     let same = (\<lambda>r. tb_instanceID r = tb_instanceID b \<and> tb_toolName r = tb_toolName b) in
     if \<not> list_ex (\<lambda>i. in_id i = tb_instanceID b) (db_instances d) then (Inl ErrConflict, d)
     else if list_ex same (db_tools d) then (Inr (), d\<lparr>db_tools := updated same (\<lambda>r. b) (db_tools d)\<rparr>)
     else (Inr (), d\<lparr>db_tools := db_tools d @ [b]\<rparr>))"

definition tool_binding_list :: "string \<Rightarrow> tool_binding list sql" where
  "tool_binding_list i = select (\<lambda>d. filter (\<lambda>r. tb_instanceID r = i) (db_tools d))"

end
