(* ===== verification/Secrets.thy ===== *)
theory Secrets
  imports GoTime Base64
begin

text \<open>
  \<open>internal/secrets\<close>: keyring, sealer, bearer tokens and password hashing.  The
  primitives (HMAC, HKDF, AES-GCM, Argon2id, the randomness) are not code of the
  repository: they are the fields of \<open>crypto\<close>, with \<open>crypto_ok\<close> the documented
  behaviour the theorems rely on.  Byte slices are strings; random bytes are an argument,
  \<open>None\<close> when \<open>rand.Read\<close> fails.
\<close>

section \<open>Primitives\<close>

record argon_params =
  ar_memory :: nat
  ar_time :: nat
  ar_threads :: nat

record crypto =
  cy_hmac :: "string \<Rightarrow> string \<Rightarrow> string"
  cy_hkdf :: "string \<Rightarrow> string \<Rightarrow> string option"
  cy_seal :: "string \<Rightarrow> string \<Rightarrow> string \<Rightarrow> string \<Rightarrow> string"
  cy_open :: "string \<Rightarrow> string \<Rightarrow> string \<Rightarrow> string \<Rightarrow> string option"
  cy_argon :: "string \<Rightarrow> string \<Rightarrow> argon_params \<Rightarrow> nat \<Rightarrow> string"

text \<open>GCM's nonce and tag have 12 and 16 bytes; opening inverts sealing and accepts only what
  sealing makes; a digest has the length asked for.\<close>

definition nonce_size :: nat where "nonce_size = 12"
definition overhead :: nat where "overhead = 16"

definition crypto_ok :: "crypto \<Rightarrow> bool" where
  "crypto_ok c =
     ((\<forall>k n p a. length (cy_seal c k n p a) = length p + overhead) \<and>
      (\<forall>k n ct a p. cy_open c k n ct a = Some p \<longleftrightarrow> ct = cy_seal c k n p a) \<and>
      (\<forall>pw salt ps m. length (cy_argon c pw salt ps m) = m))"

section \<open>Keyring\<close>

record keyring =
  kr_secretBoxKey :: string
  kr_tokenMACKey :: string
  kr_sessionMAC :: string

definition master_key_len :: nat where "master_key_len = 32"
definition purpose_secret_box :: string where "purpose_secret_box = ''mcpaw/v1/instance-secret-encryption''"
definition purpose_token_mac :: string where "purpose_token_mac = ''mcpaw/v1/bearer-token-mac''"
definition purpose_session_id :: string where "purpose_session_id = ''mcpaw/v1/session-id-mac''"

definition new_keyring :: "crypto \<Rightarrow> string \<Rightarrow> keyring option" where
  "new_keyring c master =
     (if length master \<noteq> master_key_len then None
      else case (cy_hkdf c master purpose_secret_box, cy_hkdf c master purpose_token_mac, cy_hkdf c master purpose_session_id) of
        (Some a, Some b, Some d) \<Rightarrow> Some \<lparr>kr_secretBoxKey = a, kr_tokenMACKey = b, kr_sessionMAC = d\<rparr>
      | _ \<Rightarrow> None)"

definition hex_encode :: "string \<Rightarrow> string" where
  "hex_encode bs = concat (map (\<lambda>b. let d = (\<lambda>n. if n < 10 then char_of (48 + n) else char_of (87 + n :: nat))
     in [d (byte b div 16), d (byte b mod 16)]) bs)"

fun hex_decode :: "string \<Rightarrow> string option" where
  "hex_decode [] = Some []"
| "hex_decode (a # b # r) =
     (case (hex_val a, hex_val b, hex_decode r) of
        (Some x, Some y, Some t) \<Rightarrow> Some (char_of (x * 16 + y) # t) | _ \<Rightarrow> None)"
| "hex_decode [a] = None"

definition mac :: "crypto \<Rightarrow> string \<Rightarrow> string \<Rightarrow> string" where
  "mac c key v = hex_encode (cy_hmac c key v)"

text \<open>The four encodings of \<open>encoding/base64\<close>: the URL alphabet is a renaming of the standard
  one, a raw encoding refuses padding and needs none.\<close>

definition url_to_std :: "string \<Rightarrow> string option" where
  "url_to_std s = (if list_ex (\<lambda>c. c = CHR ''+'' \<or> c = CHR ''/'') s then None
     else Some (map (\<lambda>c. if c = CHR ''-'' then CHR ''+'' else if c = CHR ''_'' then CHR ''/'' else c) s))"

definition std_to_url :: "string \<Rightarrow> string" where
  "std_to_url = map (\<lambda>c. if c = CHR ''+'' then CHR ''-'' else if c = CHR ''/'' then CHR ''_'' else c)"

definition b64_raw_encode :: "string \<Rightarrow> string" where
  "b64_raw_encode bs = filter (\<lambda>c. c \<noteq> CHR ''='') (b64_encode bs)"

definition b64_raw_decode :: "string \<Rightarrow> string option" where
  "b64_raw_decode s0 =
     (let s = filter (\<lambda>c. c \<noteq> CHR 0x0A \<and> c \<noteq> CHR 0x0D) s0 in
      if list_ex (\<lambda>c. c = CHR ''='') s \<or> length s mod 4 = 1 then None
      else b64_quads (s @ replicate ((4 - length s mod 4) mod 4) (CHR ''='')))"

definition b64_raw_url :: "string \<Rightarrow> string" where
  "b64_raw_url bs = std_to_url (b64_raw_encode bs)"

definition decode_key :: "string \<Rightarrow> string option" where
  "decode_key s0 =
     (let s = trim_space s0; good = (\<lambda>r. case r of Some b \<Rightarrow> length b = master_key_len | None \<Rightarrow> False);
          url = (\<lambda>f. case url_to_std s of Some t \<Rightarrow> f t | None \<Rightarrow> None);
          tries = [b64_decode s, b64_raw_decode s, url b64_decode, url b64_raw_decode, hex_decode s]
      in case find good tries of Some (Some b) \<Rightarrow> Some b | _ \<Rightarrow> None)"

definition generate_master_key :: "string option \<Rightarrow> string option" where
  "generate_master_key rb = map_option b64_encode rb"

text \<open>The key file: absent, unreadable, or its text and whether group or others may access it.
  A generated key is written to a file that must not exist; when another process was first,
  the file is read again, which the list of states gives.  Creating the file can fail, and so
  can writing or syncing it, which leaves the first bytes of the text behind; the file is
  created with mode 0600.\<close>

datatype key_file = KeyAbsent | KeyUnreadable | KeyFile string bool

datatype key_write = KeyWritten | KeyNotCreated | KeyCutAt nat

record key_env =
  ke_random :: "string option"
  ke_mkdir :: bool
  ke_write :: key_write

datatype key_result = KeyError | KeyLoaded string | KeyGenerated string

definition load_key_file :: "key_file \<Rightarrow> key_result option" where
  "load_key_file f =
     (case f of
        KeyFile t loose \<Rightarrow> Some (case decode_key (trim_space t) of None \<Rightarrow> KeyError
                                | Some k \<Rightarrow> if loose then KeyError else KeyLoaded k)
      | KeyUnreadable \<Rightarrow> Some KeyError
      | KeyAbsent \<Rightarrow> None)"

text \<open>The result, and the file that is left.\<close>

fun key_from_file :: "key_env \<Rightarrow> key_file \<Rightarrow> key_file list \<Rightarrow> key_result \<times> key_file" where
  "key_from_file env f races =
     (case load_key_file f of
        Some r \<Rightarrow> (r, f)
      | None \<Rightarrow>
          (case ke_random env of
             None \<Rightarrow> (KeyError, f)
           | Some k \<Rightarrow>
               if \<not> ke_mkdir env then (KeyError, f)
               else (case races of
                       g # gs \<Rightarrow> key_from_file env g gs
                     | [] \<Rightarrow>
                         let t = b64_encode k @ [CHR 0x0A] in
                         (case ke_write env of
                            KeyNotCreated \<Rightarrow> (KeyError, f)
                          | KeyCutAt n \<Rightarrow> (KeyError, KeyFile (take n t) False)
                          | KeyWritten \<Rightarrow> (KeyGenerated k, KeyFile t False)))))"

definition load_or_create_master_key :: "string \<Rightarrow> key_env \<Rightarrow> key_file \<Rightarrow> key_file list \<Rightarrow> key_result \<times> key_file" where
  "load_or_create_master_key encoded env f races =
     (if encoded \<noteq> [] then ((case decode_key encoded of None \<Rightarrow> KeyError | Some k \<Rightarrow> KeyLoaded k), f)
      else key_from_file env f races)"

section \<open>Sealer\<close>

definition seal_version :: char where "seal_version = char_of (1 :: nat)"

definition seal :: "crypto \<Rightarrow> keyring \<Rightarrow> string option \<Rightarrow> string \<Rightarrow> string \<Rightarrow> string option" where
  "seal c k nonce aad p =
     (case nonce of None \<Rightarrow> None
      | Some n \<Rightarrow> Some (seal_version # n @ cy_seal c (kr_secretBoxKey k) n p aad))"

definition unseal :: "crypto \<Rightarrow> keyring \<Rightarrow> string \<Rightarrow> string \<Rightarrow> string option" where
  "unseal c k aad ct =
     (if length ct < 1 + nonce_size + overhead \<or> hd ct \<noteq> seal_version then None
      else cy_open c (kr_secretBoxKey k) (take nonce_size (drop 1 ct)) (drop (1 + nonce_size) ct) aad)"

definition secret_aad :: "string \<Rightarrow> string \<Rightarrow> string" where
  "secret_aad inst name = ''instance:'' @ inst @ ''|secret:'' @ name"

section \<open>Tokens\<close>

definition token_prefix :: string where "token_prefix = ''mcpaw_''"

definition new_token :: "string option \<Rightarrow> (string \<times> string) option" where
  "new_token rb = map_option (\<lambda>b. let body = b64_raw_url b in (token_prefix @ body, take 8 body)) rb"

definition token_lookup_key :: "crypto \<Rightarrow> keyring \<Rightarrow> string \<Rightarrow> string" where
  "token_lookup_key c k p = mac c (kr_tokenMACKey k) (trim_prefix token_prefix p)"

definition session_lookup_key :: "crypto \<Rightarrow> keyring \<Rightarrow> string \<Rightarrow> string" where
  "session_lookup_key c k v = mac c (kr_sessionMAC k) v"

definition new_session_id :: "crypto \<Rightarrow> keyring \<Rightarrow> string option \<Rightarrow> (string \<times> string) option" where
  "new_session_id c k rb = map_option (\<lambda>b. (b64_raw_url b, session_lookup_key c k (b64_raw_url b))) rb"

definition new_csrf_token :: "string option \<Rightarrow> string option" where
  "new_csrf_token rb = map_option b64_raw_url rb"

section \<open>Passwords\<close>

definition argon_defaults :: argon_params where
  "argon_defaults = \<lparr>ar_memory = 19 * 1024, ar_time = 2, ar_threads = 1\<rparr>"

definition argon_key_len :: nat where "argon_key_len = 32"
definition min_password_length :: nat where "min_password_length = 12"
definition max_password_length :: nat where "max_password_length = 1024"

definition validate_password :: "string \<Rightarrow> bool" where
  "validate_password pw =
     (min_password_length \<le> length (runes pw) \<and> length pw \<le> max_password_length \<and> trim_space pw \<noteq> [])"

definition phc :: "argon_params \<Rightarrow> string \<Rightarrow> string \<Rightarrow> string" where
  "phc ps salt key =
     ''$argon2id$v=19$m='' @ nat_dec (ar_memory ps) @ '',t='' @ nat_dec (ar_time ps) @ '',p='' @ nat_dec (ar_threads ps)
     @ ''$'' @ b64_raw_encode salt @ ''$'' @ b64_raw_encode key"

definition hash_password :: "crypto \<Rightarrow> string option \<Rightarrow> string \<Rightarrow> string option" where
  "hash_password c salt pw =
     (if \<not> validate_password pw then None
      else case salt of None \<Rightarrow> None
      | Some s \<Rightarrow> Some (phc argon_defaults s (cy_argon c pw s argon_defaults argon_key_len)))"

text \<open>\<open>fmt.Sscanf\<close> with \<open>v=%d\<close> skips space (not line breaks), reads an optionally signed number and ignores what follows;
  \<open>strconv.ParseUint(_, 10, 32)\<close> reads digits only.\<close>

definition newline_char :: char where "newline_char = CHR 0x0A"

definition scan_version :: "string \<Rightarrow> int option" where
  "scan_version s =
     (case cut_prefix ''v='' s of None \<Rightarrow> None
      | Some r0 \<Rightarrow>
          (let r = trim_left_space r0; neg = (take 1 r = ''-''); d = (if take 1 r = ''-'' \<or> take 1 r = ''+'' then drop 1 r else r);
               ds = takeWhile is_digit d in
           if ds = [] \<or> newline_char \<in> set (take (length r0 - length r) r0) then None else Some (if neg then - int (dec_value ds) else int (dec_value ds))))"

definition parse_uint32 :: "string \<Rightarrow> nat option" where
  "parse_uint32 s = (if s \<noteq> [] \<and> list_all is_digit s \<and> dec_value s < 2 ^ 32 then Some (dec_value s) else None)"

fun parse_argon :: "string list \<Rightarrow> argon_params \<Rightarrow> argon_params option" where
  "parse_argon [] p = Some p"
| "parse_argon (item # items) p =
     (case str_cut CHR ''='' item of None \<Rightarrow> None
      | Some (name, v) \<Rightarrow>
          (case parse_uint32 v of None \<Rightarrow> None
           | Some n \<Rightarrow>
               if name = ''m'' then parse_argon items (p\<lparr>ar_memory := n\<rparr>)
               else if name = ''t'' then parse_argon items (p\<lparr>ar_time := n\<rparr>)
               else if name = ''p'' then (if n = 0 \<or> 255 < n then None else parse_argon items (p\<lparr>ar_threads := n\<rparr>))
               else None))"

definition parse_phc :: "string \<Rightarrow> (argon_params \<times> string \<times> string) option" where
  "parse_phc encoded =
     (case split_on CHR ''$'' encoded of
        [e, alg, ver, ps, s, h] \<Rightarrow>
          if e \<noteq> [] \<or> alg \<noteq> ''argon2id'' \<or> scan_version ver \<noteq> Some 19 then None
          else (let kv = split_on CHR '','' ps in
                if length kv \<noteq> 3 then None
                else case parse_argon kv \<lparr>ar_memory = 0, ar_time = 0, ar_threads = 0\<rparr> of
                  None \<Rightarrow> None
                | Some p \<Rightarrow>
                    if ar_memory p = 0 \<or> ar_time p = 0 \<or> ar_threads p = 0 then None
                    else (case (b64_raw_decode s, b64_raw_decode h) of
                            (Some salt, Some key) \<Rightarrow> if key = [] then None else Some (p, salt, key)
                          | _ \<Rightarrow> None))
      | _ \<Rightarrow> None)"

definition verify_password :: "crypto \<Rightarrow> string \<Rightarrow> string \<Rightarrow> bool" where
  "verify_password c encoded pw =
     (case parse_phc encoded of None \<Rightarrow> False
      | Some (p, salt, want) \<Rightarrow> cy_argon c pw salt p (length want) = want)"

section \<open>Lemmas\<close>

lemma b64_char_props: "n < 64 \<Longrightarrow> b64_char n \<notin> {CHR ''='', CHR 0x0A, CHR 0x0D, CHR ''$''}"
  using b64_val_char[of n] by (auto simp: b64_val_def in_rng_def is_digit_def split: if_splits)

lemma byte_lt_256: "(byte c :: nat) < 256"
  by (rule nat_of_char_less_256)

lemma byte_parts [simp]: "(byte a :: nat) div 4 < 64" "(byte a :: nat) mod 4 * 16 < 64"
  "(byte a :: nat) mod 4 * 16 + byte b div 16 < 64" "(byte a :: nat) mod 16 * 4 < 64"
  "(byte a :: nat) mod 16 * 4 + byte b div 64 < 64"
  using byte_lt_256[of a] byte_lt_256[of b] by linarith+

lemma b64_char_neq [simp]: "n < 64 \<Longrightarrow> b64_char n \<noteq> CHR ''=''" "n < 64 \<Longrightarrow> b64_char n \<noteq> CHR ''$''"
  "n < 64 \<Longrightarrow> b64_char n \<noteq> CHR 0x0A" "n < 64 \<Longrightarrow> b64_char n \<noteq> CHR 0x0D"
  using b64_char_props by auto

lemma b64_raw_encode_simps [simp]:
  "b64_raw_encode [] = []"
  "b64_raw_encode [a] = [b64_char (byte a div 4), b64_char (byte a mod 4 * 16)]"
  "b64_raw_encode [a, b] = [b64_char (byte a div 4), b64_char (byte a mod 4 * 16 + byte b div 16), b64_char (byte b mod 16 * 4)]"
  "b64_raw_encode (a # b # c # r) = b64_char (byte a div 4) # b64_char (byte a mod 4 * 16 + byte b div 16) #
     b64_char (byte b mod 16 * 4 + byte c div 64) # b64_char (byte c mod 64) # b64_raw_encode r"
  by (simp_all add: b64_raw_encode_def)

lemma b64_raw_clean: "c \<in> set (b64_raw_encode bs) \<Longrightarrow> c \<notin> {CHR ''='', CHR 0x0A, CHR 0x0D, CHR ''$''}"
  by (induction bs rule: b64_encode.induct) (auto dest: b64_char_props)

lemma b64_raw_pad:
  "b64_raw_encode bs @ replicate ((4 - length (b64_raw_encode bs) mod 4) mod 4) (CHR ''='') = b64_encode bs
   \<and> length (b64_raw_encode bs) mod 4 \<noteq> 1"
proof (induction bs rule: b64_encode.induct)
  case (4 a b c r)
  have "length (b64_raw_encode (a # b # c # r)) mod 4 = length (b64_raw_encode r) mod 4" by simp
  with 4 show ?case by simp
qed (simp_all add: numeral_2_eq_2)

lemma b64_raw_roundtrip [simp]: "b64_raw_decode (b64_raw_encode bs) = Some bs"
proof -
  have f: "filter (\<lambda>c. c \<noteq> CHR 0x0A \<and> c \<noteq> CHR 0x0D) (b64_raw_encode bs) = b64_raw_encode bs"
    using b64_raw_clean by (auto intro!: filter_True)
  have "\<not> list_ex (\<lambda>c. c = CHR ''='') (b64_raw_encode bs)"
    using b64_raw_clean by (auto simp: list_ex_iff)
  thus ?thesis using b64_raw_pad[of bs] b64_quads_encode[of bs] by (simp add: b64_raw_decode_def f)
qed

lemma nat_dec_clean: "c \<in> set (nat_dec n) \<Longrightarrow> is_digit c"
  using nat_dec_digits[of n] by (simp add: list_all_iff)

lemma digit_not [simp]: "\<not> is_digit CHR ''$''" "\<not> is_digit CHR '',''" "\<not> is_digit CHR ''=''" "\<not> is_digit CHR ''-''"
  by code_simp+

lemma nat_dec_notin [simp]: "CHR ''$'' \<notin> set (nat_dec n)" "CHR '','' \<notin> set (nat_dec n)" "CHR ''='' \<notin> set (nat_dec n)"
  using nat_dec_clean digit_not by blast+

lemma parse_uint32_nat_dec: "n < 2 ^ 32 \<Longrightarrow> parse_uint32 (nat_dec n) = Some n"
  by (simp add: parse_uint32_def nat_dec_digits dec_value_nat_dec)

definition argon_ok :: "argon_params \<Rightarrow> bool" where
  "argon_ok ps = (0 < ar_memory ps \<and> ar_memory ps < 2 ^ 32 \<and> 0 < ar_time ps \<and> ar_time ps < 2 ^ 32 \<and>
     0 < ar_threads ps \<and> ar_threads ps \<le> 255)"

lemma split_on_Cons_lit: "c \<noteq> d \<Longrightarrow> split_on d (c # s) = (case split_on d s of [] \<Rightarrow> [[c]] | x # xs \<Rightarrow> (c # x) # xs)"
  by simp

definition phc_params :: "argon_params \<Rightarrow> string" where
  "phc_params ps = ''m='' @ nat_dec (ar_memory ps) @ '',t='' @ nat_dec (ar_time ps) @ '',p='' @ nat_dec (ar_threads ps)"

lemma split_phc:
  "split_on CHR ''$'' (phc ps salt key) =
     [[], ''argon2id'', ''v=19'', phc_params ps, b64_raw_encode salt, b64_raw_encode key]"
proof -
  have n: "CHR ''$'' \<notin> set (b64_raw_encode bs)" for bs using b64_raw_clean by auto
  have p: "CHR ''$'' \<notin> set (phc_params ps)" by (auto simp: phc_params_def)
  have "phc ps salt key = [] @ CHR ''$'' # (''argon2id'' @ CHR ''$'' # (''v=19'' @ CHR ''$'' # (phc_params ps @ CHR ''$'' #
          (b64_raw_encode salt @ CHR ''$'' # b64_raw_encode key))))"
    by (simp add: phc_def phc_params_def)
  thus ?thesis by (simp only:) (subst split_on_append, simp add: n p, subst split_on_append, simp, subst split_on_append, simp,
      subst split_on_append, simp add: p, subst split_on_append, simp add: n, simp add: split_on_no_sep n)
qed

lemma split_phc_params:
  "split_on CHR '','' (phc_params ps) =
     [''m='' @ nat_dec (ar_memory ps), ''t='' @ nat_dec (ar_time ps), ''p='' @ nat_dec (ar_threads ps)]"
proof -
  have "phc_params ps = (''m='' @ nat_dec (ar_memory ps)) @ CHR '','' # ((''t='' @ nat_dec (ar_time ps)) @ CHR '','' #
          (''p='' @ nat_dec (ar_threads ps)))"
    by (simp add: phc_params_def)
  thus ?thesis by (simp only:) (subst split_on_append, simp, subst split_on_append, simp, simp add: split_on_no_sep)
qed

lemma str_cut_eq: "d \<notin> set a \<Longrightarrow> str_cut d (a @ d # b) = Some (a, b)"
  by (simp add: str_cut_Some)

lemma parse_phc_phc:
  assumes "argon_ok ps" "key \<noteq> []" shows "parse_phc (phc ps salt key) = Some (ps, salt, key)"
proof -
  have cut: "str_cut CHR ''='' (x # CHR ''='' # v) = Some ([x], v)" if "x \<noteq> CHR ''=''" for x v
    using that by simp
  have "scan_version ''v=19'' = Some 19" by code_simp
  moreover have "parse_argon (split_on CHR '','' (phc_params ps)) \<lparr>ar_memory = 0, ar_time = 0, ar_threads = 0\<rparr> = Some ps"
    using assms(1) by (simp add: split_phc_params cut parse_uint32_nat_dec argon_ok_def)
  ultimately show ?thesis using assms by (simp add: parse_phc_def split_phc Let_def argon_ok_def split_phc_params)
qed

lemma verify_phc:
  assumes "argon_ok ps" "key \<noteq> []"
  shows "verify_password c (phc ps salt key) pw \<longleftrightarrow> cy_argon c pw salt ps (length key) = key"
  using parse_phc_phc[OF assms] by (simp add: verify_password_def)

lemma unseal_seal:
  assumes "crypto_ok c" "length n = nonce_size" "seal c k (Some n) aad p = Some ct"
  shows "unseal c k aad' ct = Some p' \<longleftrightarrow> cy_seal c (kr_secretBoxKey k) n p aad = cy_seal c (kr_secretBoxKey k) n p' aad'"
  using assms by (auto simp: seal_def unseal_def crypto_ok_def nonce_size_def overhead_def)

lemma decode_key_encode:
  assumes "length k = master_key_len" shows "decode_key (trim_space (b64_encode k @ [CHR 0x0A])) = Some k"
proof -
  have pr: "32 < (byte c :: nat) \<and> byte c < (127 :: nat)" if "c \<in> set (b64_encode k)" for c
    using that b64_encode_printable by blast
  have ne: "b64_encode k \<noteq> []" using assms by (cases k rule: b64_encode.cases) (auto simp: master_key_len_def)
  have ns: "\<not> space_char c" if "c \<in> set (b64_encode k)" for c
    using pr[OF that] by (auto simp: space_char_def is_space_rune_def)
  have "byte c < (128 :: nat)" if "c \<in> set (b64_encode k)" for c using pr[OF that] by linarith
  hence asc: "ascii (b64_encode k)" by (auto simp: ascii_def list_all_iff)
  have dw: "dropWhile space_char (b64_encode k) = b64_encode k" "dropWhile space_char (rev (b64_encode k)) = rev (b64_encode k)"
    "dropWhile space_char (b64_encode k @ [CHR 0x0A]) = b64_encode k @ [CHR 0x0A]"
    using ns ne by (auto simp: dropWhile_eq_self_iff hd_append hd_rev)
  have nl: "space_char (CHR 0x0A)" by code_simp
  have t: "trim_space (b64_encode k @ [CHR 0x0A]) = b64_encode k" "trim_space (b64_encode k) = b64_encode k"
    using asc by (simp_all add: trim_space_ascii dw nl)
  have "b64_decode (b64_encode k) = Some k"
    unfolding b64_decode_def using pr[of "CHR 0x0A"] pr[of "CHR 0x0D"] b64_quads_encode
    by (subst filter_True) auto
  thus ?thesis using assms by (simp add: decode_key_def t)
qed

section \<open>Properties\<close>

text \<open>A password that passes the policy hashes to a text that verifies exactly the
  passwords with the same digest; a stored text verifies under the parameters it was made
  with, whatever the current ones are; and a password outside the policy is never hashed.\<close>
theorem password_roundtrip:
  assumes "crypto_ok c"
  shows "(hash_password c (Some salt) pw = None \<longleftrightarrow>
      \<not> (12 \<le> length (runes pw) \<and> length pw \<le> 1024 \<and> trim_space pw \<noteq> [])) \<and>
    (\<forall>h pw'. hash_password c (Some salt) pw = Some h \<longrightarrow>
       verify_password c h pw \<and>
       (verify_password c h pw' \<longleftrightarrow> cy_argon c pw' salt argon_defaults 32 = cy_argon c pw salt argon_defaults 32)) \<and>
    (\<forall>ps n. argon_ok ps \<and> 0 < n \<longrightarrow> verify_password c (phc ps salt (cy_argon c pw salt ps n)) pw)"
proof (intro conjI allI impI)
  have len: "length (cy_argon c pw salt ps n) = n" for ps n pw using assms by (simp add: crypto_ok_def)
  have ok: "argon_ok argon_defaults" by (simp add: argon_ok_def argon_defaults_def)
  show "hash_password c (Some salt) pw = None \<longleftrightarrow>
      \<not> (12 \<le> length (runes pw) \<and> length pw \<le> 1024 \<and> trim_space pw \<noteq> [])"
    by (simp add: hash_password_def validate_password_def min_password_length_def max_password_length_def)
  show gen: "verify_password c (phc ps salt (cy_argon c pw salt ps n)) pw" if "argon_ok ps \<and> 0 < n" for ps n
    using that len[of pw ps n] by (subst verify_phc) auto
  fix h pw' assume "hash_password c (Some salt) pw = Some h"
  hence h: "h = phc argon_defaults salt (cy_argon c pw salt argon_defaults 32)"
    by (simp add: hash_password_def argon_key_len_def split: if_splits)
  have "cy_argon c pw salt argon_defaults 32 \<noteq> []" using len[of pw argon_defaults 32] by auto
  thus "verify_password c h pw" "verify_password c h pw' \<longleftrightarrow> cy_argon c pw' salt argon_defaults 32 = cy_argon c pw salt argon_defaults 32"
    using ok len[of pw argon_defaults 32] by (simp_all add: h verify_phc)
qed

text \<open>A toy instance of the primitives: encryption appends a tag, the digest is the padded password.\<close>

definition toy_crypto :: crypto where
  "toy_crypto = \<lparr>cy_hmac = (\<lambda>k v. k @ v), cy_hkdf = (\<lambda>m p. Some (m @ p)),
     cy_seal = (\<lambda>k n p a. p @ replicate 16 CHR ''t''),
     cy_open = (\<lambda>k n ct a. if 16 \<le> length ct \<and> drop (length ct - 16) ct = replicate 16 CHR ''t'' then Some (take (length ct - 16) ct) else None),
     cy_argon = (\<lambda>pw s ps n. take n (pw @ replicate n CHR ''x''))\<rparr>"

lemma toy_crypto_ok: "crypto_ok toy_crypto"
proof -
  have "(if 16 \<le> length ct \<and> drop (length ct - 16) ct = replicate 16 CHR ''t'' then Some (take (length ct - 16) ct) else None) = Some p
      \<longleftrightarrow> ct = p @ replicate 16 CHR ''t''" for ct p :: string
    by (auto, metis append_take_drop_id)
  thus ?thesis by (auto simp: crypto_ok_def toy_crypto_def overhead_def min_def)
qed

lemma password_roundtrip_witness:
  "\<exists>h. hash_password toy_crypto (Some ''saltsaltsaltsalt'') ''correct horse'' = Some h \<and> verify_password toy_crypto h ''correct horse''"
proof -
  have "12 \<le> length (runes ''correct horse'') \<and> length ''correct horse'' \<le> 1024 \<and> trim_space ''correct horse'' \<noteq> []"
    by code_simp
  then obtain h where "hash_password toy_crypto (Some ''saltsaltsaltsalt'') ''correct horse'' = Some h"
    using password_roundtrip[OF toy_crypto_ok, of "''saltsaltsaltsalt''" "''correct horse''"] by blast
  thus ?thesis using password_roundtrip[OF toy_crypto_ok, of "''saltsaltsaltsalt''" "''correct horse''"] by blast
qed

text \<open>C25: nothing sealed is lost by a restart: the key file left when no key existed and one
  was generated gives the same key when read again and stays as it is, and a keyring made from
  it opens every value sealed before under the same associated data.\<close>
theorem restart_keeps_secrets:
  assumes "crypto_ok c" "load_or_create_master_key [] env KeyAbsent [] = (KeyGenerated m, file)"
    and "length m = 32" "new_keyring c m = Some k" "length n = 12" "seal c k (Some n) aad p = Some ct"
  shows "load_or_create_master_key [] env' file races = (KeyLoaded m, file) \<and>
    unseal c k aad ct = Some p \<and>
    (\<forall>aad' p'. unseal c k aad' ct = Some p' \<longrightarrow>
       cy_seal c (kr_secretBoxKey k) n p' aad' = cy_seal c (kr_secretBoxKey k) n p aad)"
proof -
  have "file = KeyFile (b64_encode m @ [CHR 0x0A]) False"
    using assms(2) by (auto simp: load_or_create_master_key_def load_key_file_def Let_def split: option.splits if_splits key_write.splits)
  hence "load_or_create_master_key [] env' file races = (KeyLoaded m, file)"
    using decode_key_encode[of m] assms(3) by (simp add: load_or_create_master_key_def load_key_file_def master_key_len_def)
  thus ?thesis using unseal_seal[OF assms(1) _ assms(6)] assms(5) by (auto simp: nonce_size_def)
qed

lemma restart_keeps_secrets_witness:
  "\<exists>k ct. new_keyring toy_crypto (replicate 32 CHR ''k'') = Some k \<and>
     seal toy_crypto k (Some (replicate 12 CHR ''n'')) ''aad'' ''s3cret'' = Some ct \<and> unseal toy_crypto k ''aad'' ct = Some ''s3cret''"
proof -
  let ?env = "\<lparr>ke_random = Some (replicate 32 CHR ''k''), ke_mkdir = True, ke_write = KeyWritten\<rparr>"
  have g: "load_or_create_master_key [] ?env KeyAbsent [] =
      (KeyGenerated (replicate 32 CHR ''k''), KeyFile (b64_encode (replicate 32 CHR ''k'') @ [CHR 0x0A]) False)"
    by (simp add: load_or_create_master_key_def load_key_file_def)
  obtain k where k: "new_keyring toy_crypto (replicate 32 CHR ''k'') = Some k"
    by (auto simp: new_keyring_def toy_crypto_def master_key_len_def)
  obtain ct where ct: "seal toy_crypto k (Some (replicate 12 CHR ''n'')) ''aad'' ''s3cret'' = Some ct"
    by (simp add: seal_def)
  show ?thesis using restart_keeps_secrets[OF toy_crypto_ok g _ k _ ct] k ct by auto
qed

end
