(* ===== verification/Accounts.thy ===== *)
theory Accounts
  imports Store Secrets
begin

text \<open>
  \<open>internal/service\<close>, the accounts: \<open>audit.go\<close>, \<open>session.go\<close>, \<open>token.go\<close> and
  \<open>user.go\<close>, over the statements of \<open>Store\<close> and the primitives of \<open>Secrets\<close>, with
  \<open>internal/platform/id\<close>.  What other requests do to the database between two statements
  of a login is an argument of the model.
\<close>

section \<open>Identifiers and surroundings\<close>

fun be_value :: "string \<Rightarrow> nat" where
  "be_value [] = 0"
| "be_value (b # bs) = byte b * 256 ^ length bs + be_value bs"

definition b32_char :: "nat \<Rightarrow> char" where
  "b32_char n = (if n < 26 then char_of (97 + n) else char_of (24 + n))"

text \<open>\<open>base32.StdEncoding\<close> without padding, in lower case.\<close>

definition b32_lower :: "string \<Rightarrow> string" where
  "b32_lower bs =
     (let k = (8 * length bs + 4) div 5; v = be_value bs * 2 ^ (5 * k - 8 * length bs)
      in map (\<lambda>i. b32_char (v div 32 ^ (k - 1 - i) mod 32)) [0..<k])"

text \<open>The same encoding on the bits, which evaluation uses.\<close>

primrec byte_bits :: "char \<Rightarrow> bool list" where
  "byte_bits (Char b0 b1 b2 b3 b4 b5 b6 b7) = [b7, b6, b5, b4, b3, b2, b1, b0]"

fun bits_value :: "bool list \<Rightarrow> nat" where
  "bits_value [] = 0"
| "bits_value (b # bs) = (if b then 2 ^ length bs else 0) + bits_value bs"

fun b32_groups :: "bool list \<Rightarrow> string" where
  "b32_groups (a # b # c # d # e # bs) = b32_char (bits_value [a, b, c, d, e]) # b32_groups bs"
| "b32_groups bs = []"

lemma bits_value_append: "bits_value (xs @ ys) = bits_value xs * 2 ^ length ys + bits_value ys"
  by (induction xs) (simp_all add: power_add algebra_simps)

lemma bits_value_less: "bits_value xs < 2 ^ length xs"
  by (induction xs) auto

lemma bits_value_zeros [simp]: "bits_value (replicate n False) = 0"
  by (induction n) simp_all

lemma byte_bits_value: "bits_value (byte_bits c) = byte c" and byte_bits_length [simp]: "length (byte_bits c) = 8"
  by (cases c; simp add: of_char_def)+

lemma bytes_bits: "length (concat (map byte_bits bs)) = 8 * length bs \<and> bits_value (concat (map byte_bits bs)) = be_value bs"
  by (induction bs) (simp_all add: bits_value_append byte_bits_value power_mult)

lemma b32_groups_map: "length xs = 5 * k \<Longrightarrow> b32_groups xs = map (\<lambda>i. b32_char (bits_value xs div 32 ^ (k - 1 - i) mod 32)) [0..<k]"
proof (induction k arbitrary: xs)
  case (Suc k)
  define g r where "g = take 5 xs" and "r = drop 5 xs"
  have xs: "xs = g @ r" "length g = 5" "length r = 5 * k" using Suc.prems by (simp_all add: g_def r_def)
  from xs(2) obtain a b c d e where g: "g = [a, b, c, d, e]" by (auto simp: length_Suc_conv numeral_eq_Suc)
  have r32: "bits_value r < 32 ^ k" using bits_value_less[of r] xs(3) by (simp add: power_mult)
  have v: "bits_value xs = bits_value g * 32 ^ k + bits_value r" using xs(1,3) by (simp add: bits_value_append power_mult)
  have first: "bits_value xs div 32 ^ k mod 32 = bits_value g"
  proof -
    have "bits_value xs div 32 ^ k = bits_value g" unfolding v using r32 by (simp only: div_mult_self3 div_less)
    thus ?thesis using bits_value_less[of g] xs(2) by simp
  qed
  have rest: "bits_value xs div 32 ^ (k - 1 - i) mod 32 = bits_value r div 32 ^ (k - 1 - i) mod 32" if "i < k" for i
  proof -
    have "(32::nat) ^ (k - 1 - i + 1 + i) = 32 ^ (k - 1 - i) * (32 * 32 ^ i)"
      by (simp only: power_add power_one_right mult.assoc)
    moreover have "k - 1 - i + 1 + i = k" using that by simp
    ultimately have "bits_value xs = bits_value r + 32 ^ (k - 1 - i) * (32 * (32 ^ i * bits_value g))"
      unfolding v by (simp only: mult.assoc mult.commute mult.left_commute add.commute)
    hence "bits_value xs div 32 ^ (k - 1 - i) = 32 * (32 ^ i * bits_value g) + bits_value r div 32 ^ (k - 1 - i)"
      by (simp only:) (rule div_mult_self2, simp)
    thus ?thesis by (simp only: mod_mult_self4)
  qed
  have u: "[0..<Suc k] = 0 # map Suc [0..<k]" by (simp add: upt_conv_Cons map_Suc_upt del: upt_Suc)
  have "b32_groups xs = b32_char (bits_value g) # b32_groups r" by (simp only: xs(1) g append.simps b32_groups.simps)
  also have "\<dots> = b32_char (bits_value xs div 32 ^ k mod 32) # map (\<lambda>i. b32_char (bits_value xs div 32 ^ (k - 1 - i) mod 32)) [0..<k]"
    unfolding Suc.IH[OF xs(3)] first by (simp only: list.inject simp_thms) (intro map_cong refl, simp only: rest set_upt atLeastLessThan_iff)
  finally show ?case unfolding u by (simp only: list.map map_map comp_def diff_Suc_1 diff_zero diff_Suc_eq_diff_pred)
qed simp

lemma b32_lower_code [code]:
  "b32_lower bs = (let k = (8 * length bs + 4) div 5 in
     b32_groups (concat (map byte_bits bs) @ replicate (5 * k - 8 * length bs) False))"
proof -
  define k where "k = (8 * length bs + 4) div 5"
  have k: "8 * length bs \<le> 5 * k" by (simp add: k_def)
  have "length (concat (map byte_bits bs) @ replicate (5 * k - 8 * length bs) False) = 5 * k"
    unfolding length_append length_replicate using bytes_bits[of bs] k by simp
  from b32_groups_map[OF this] show ?thesis
    using bytes_bits[of bs] by (simp add: b32_lower_def Let_def k_def bits_value_append)
qed

definition new_id :: "string \<Rightarrow> string \<Rightarrow> string" where
  "new_id prefix bs = (if prefix = [] then b32_lower bs else prefix @ ''_'' @ b32_lower bs)"

record actor =
  ac_type :: string
  ac_id :: string
  ac_ip :: string

text \<open>The mapping to lower case of \<open>unicode\<close>, the address parser of \<open>net/mail\<close>, the primitives
  and keys, the clock, the random bytes of the operation, and the identifier bytes and instant
  of its audit record.\<close>

record svc_env =
  sv_lower :: "nat \<Rightarrow> nat"
  sv_mailOk :: "string \<Rightarrow> bool"
  sv_crypto :: crypto
  sv_keyring :: keyring
  sv_now :: int
  sv_random :: "nat \<Rightarrow> string option"
  sv_idBytes :: string
  sv_auditBytes :: string
  sv_auditNow :: int

section \<open>Audit\<close>

definition audit_record :: "svc_env \<Rightarrow> actor \<Rightarrow> string \<Rightarrow> string \<Rightarrow> string \<Rightarrow> string \<Rightarrow> (string, goval) gomap \<Rightarrow> db \<Rightarrow> db" where
  "audit_record env a action ttype tid res detail d =
     snd (audit_append
       \<lparr>ae_id = new_id ''aud'' (sv_auditBytes env), ae_at = sv_auditNow env, ae_actorType = ac_type a, ae_actorID = ac_id a,
        ae_action = action, ae_targetType = ttype, ae_targetID = tid, ae_result = res, ae_ip = ac_ip a, ae_detail = detail\<rparr> d)"

definition audit_success :: "svc_env \<Rightarrow> actor \<Rightarrow> string \<Rightarrow> string \<Rightarrow> string \<Rightarrow> (string, goval) gomap \<Rightarrow> db \<Rightarrow> db" where
  "audit_success env a action ttype tid detail = audit_record env a action ttype tid ''success'' detail"

definition audit_failure :: "svc_env \<Rightarrow> actor \<Rightarrow> string \<Rightarrow> string \<Rightarrow> string \<Rightarrow> string \<Rightarrow> db \<Rightarrow> db" where
  "audit_failure env a action ttype tid reason =
     audit_record env a action ttype tid ''failure'' [(''reason'', VStr reason)]"

definition audit_events :: "audit_filter \<Rightarrow> audit_event list sql" where
  "audit_events f = audit_list f"

definition audit_prune_old :: "svc_env \<Rightarrow> int \<Rightarrow> nat sql" where
  "audit_prune_old env retention = audit_prune (sv_now env - retention)"

text \<open>An operation that succeeded, followed by its audit record.\<close>

definition then_audit :: "'a sql \<Rightarrow> ('a \<Rightarrow> db \<Rightarrow> db) \<Rightarrow> 'a sql" where
  "then_audit m f d = (case m d of (Inl e, d1) \<Rightarrow> (Inl e, d1) | (Inr a, d1) \<Rightarrow> (Inr a, f a d1))"

section \<open>Sessions\<close>

record session_service =
  sx_idleTimeout :: int
  sx_absoluteTimeout :: int

definition new_sessions :: "int \<Rightarrow> int \<Rightarrow> session_service" where
  "new_sessions idle absolute =
     \<lparr>sx_idleTimeout = (if idle \<le> 0 then 2 * 3600 * second else idle),
      sx_absoluteTimeout = (if absolute \<le> 0 then 24 * 3600 * second else absolute)\<rparr>"

definition min_duration :: "int \<Rightarrow> int \<Rightarrow> int" where "min_duration a b = (if a < b then a else b)"

definition truncate_string :: "string \<Rightarrow> nat \<Rightarrow> string" where
  "truncate_string s n = (if length s \<le> n then s else take n s)"

definition session_issue :: "svc_env \<Rightarrow> session_service \<Rightarrow> user \<Rightarrow> string \<Rightarrow> string \<Rightarrow> (string \<times> web_session) sql" where
  "session_issue env sx u ip agent d =
     (case (new_session_id (sv_crypto env) (sv_keyring env) (sv_random env 0), new_csrf_token (sv_random env 1)) of
        (Some (cookie, stored), Some csrf) \<Rightarrow>
          (let s = \<lparr>ws_id = stored, ws_userID = us_id u, ws_csrfToken = csrf, ws_createdAt = sv_now env,
                    ws_lastSeenAt = sv_now env,
                    ws_expiresAt = sv_now env + min_duration (sx_idleTimeout sx) (sx_absoluteTimeout sx),
                    ws_ip = truncate_string ip 64, ws_userAgent = truncate_string agent 256\<rparr>
           in case wsession_create s d of (Inl e, d1) \<Rightarrow> (Inl e, d1) | (Inr u, d1) \<Rightarrow> (Inr (cookie, s), d1))
      | _ \<Rightarrow> (Inl ErrOther, d))"

text \<open>\<open>Validate\<close> deletes what it rejects, ignoring an error of the delete.\<close>

definition reject_session :: "string \<Rightarrow> 'a sql" where
  "reject_session i d = (Inl ErrUnauthorized, snd (wsession_delete i d))"

definition slide_window :: "svc_env \<Rightarrow> session_service \<Rightarrow> user \<Rightarrow> web_session \<Rightarrow> (user \<times> web_session) sql" where
  "slide_window env sx u s d =
     (let now = sv_now env; ceiling = ws_createdAt s + sx_absoluteTimeout sx;
          ex = (if ceiling < now + sx_idleTimeout sx then ceiling else now + sx_idleTimeout sx)
      in if ws_expiresAt s < ex
         then (case wsession_touch (ws_id s) now ex d of
                 (Inl e, d1) \<Rightarrow> (Inl e, d1)
               | (Inr x, d1) \<Rightarrow> (Inr (u, s\<lparr>ws_expiresAt := ex, ws_lastSeenAt := now\<rparr>), d1))
         else (Inr (u, s\<lparr>ws_lastSeenAt := now\<rparr>), d))"

definition session_validate :: "svc_env \<Rightarrow> session_service \<Rightarrow> string \<Rightarrow> (user \<times> web_session) sql" where
  "session_validate env sx cookie d =
     (if cookie = [] then (Inl ErrUnauthorized, d)
      else case wsession_get (session_lookup_key (sv_crypto env) (sv_keyring env) cookie) d of
        (Inl e, d1) \<Rightarrow> (Inl (if e = ErrNotFound then ErrUnauthorized else e), d1)
      | (Inr s, d1) \<Rightarrow>
          if session_expired s (sv_now env) \<or> sx_absoluteTimeout sx < time_sub (sv_now env) (ws_createdAt s)
          then reject_session (ws_id s) d1
          else (case user_by_id (ws_userID s) d1 of
                  (Inl e, d2) \<Rightarrow> if e = ErrNotFound then reject_session (ws_id s) d2 else (Inl e, d2)
                | (Inr u, d2) \<Rightarrow> if us_disabled u then reject_session (ws_id s) d2 else slide_window env sx u s d2))"

definition session_revoke :: "svc_env \<Rightarrow> string \<Rightarrow> unit sql" where
  "session_revoke env cookie d =
     (if cookie = [] then (Inr (), d)
      else wsession_delete (session_lookup_key (sv_crypto env) (sv_keyring env) cookie) d)"

definition prune_expired :: "svc_env \<Rightarrow> nat sql" where
  "prune_expired env = wsession_delete_expired (sv_now env)"

section \<open>Tokens\<close>

record create_token_input =
  ci_name :: string
  ci_instanceID :: string
  ci_ttl :: int

definition token_mint :: "svc_env \<Rightarrow> actor \<Rightarrow> create_token_input \<Rightarrow> (token \<times> string) sql" where
  "token_mint env a inp d =
     (let name = trim_space (ci_name inp) in
      if name = [] \<or> 128 < length name then (Inl ErrInvalidInput, d)
      else case (if ci_instanceID inp \<noteq> [] then (case instance_get (ci_instanceID inp) d of (Inl e, d1) \<Rightarrow> (Some e, d1) | (Inr i, d1) \<Rightarrow> (None, d1))
                 else (None, d)) of
        (Some e, d1) \<Rightarrow> (Inl e, d1)
      | (None, d1) \<Rightarrow>
          (case new_token (sv_random env 0) of
             None \<Rightarrow> (Inl ErrOther, d1)
           | Some (plain, prefix) \<Rightarrow>
               (let t = \<lparr>tk_id = new_id ''tok'' (sv_idBytes env), tk_name = name,
                         tk_hash = token_lookup_key (sv_crypto env) (sv_keyring env) plain, tk_prefix = prefix,
                         tk_instanceID = ci_instanceID inp, tk_createdBy = ac_id a, tk_createdAt = sv_now env,
                         tk_expiresAt = (if 0 < ci_ttl inp then Some (sv_now env + ci_ttl inp) else None),
                         tk_lastUsedAt = None, tk_revokedAt = None\<rparr>
                in case token_create t d1 of
                     (Inl e, d2) \<Rightarrow> (Inl e, d2)
                   | (Inr u, d2) \<Rightarrow>
                       (Inr (t, plain), audit_success env a ''token.create'' ''token'' (tk_id t)
                          [(''name'', VStr name),
                           (''scope'', VStr (if ci_instanceID inp \<noteq> [] then ci_instanceID inp else ''all instances'')),
                           (''expires'', VBool (tk_expiresAt t \<noteq> None))] d2))))"

definition token_authenticate :: "svc_env \<Rightarrow> string \<Rightarrow> token sql" where
  "token_authenticate env p0 d =
     (let p = trim_space p0 in
      if p = [] \<or> \<not> has_prefix token_prefix p then (Inl ErrUnauthorized, d)
      else case token_by_key (token_lookup_key (sv_crypto env) (sv_keyring env) p) d of
        (Inl e, d1) \<Rightarrow> (Inl (if e = ErrNotFound then ErrUnauthorized else e), d1)
      | (Inr t, d1) \<Rightarrow> if token_usable t (sv_now env) then (Inr t, d1) else (Inl ErrUnauthorized, d1))"

definition token_touch_last_used :: "svc_env \<Rightarrow> string \<Rightarrow> db \<Rightarrow> db" where
  "token_touch_last_used env i d = snd (token_touch i (sv_now env) d)"

definition token_revoke_by :: "svc_env \<Rightarrow> actor \<Rightarrow> string \<Rightarrow> unit sql" where
  "token_revoke_by env a i = then_audit (token_revoke i (sv_now env)) (\<lambda>u. audit_success env a ''token.revoke'' ''token'' i [])"

section \<open>Users\<close>

definition needs_setup :: "bool sql" where
  "needs_setup d = (case user_count d of (Inl e, d1) \<Rightarrow> (Inl e, d1) | (Inr n, d1) \<Rightarrow> (Inr (n = 0), d1))"

definition validate_email :: "svc_env \<Rightarrow> string \<Rightarrow> bool" where
  "validate_email env e = (e \<noteq> [] \<and> length e \<le> 254 \<and> sv_mailOk env e)"

definition role_name :: "role \<Rightarrow> string" where
  "role_name r = (case r of RoleAdmin \<Rightarrow> ''admin'' | RoleViewer \<Rightarrow> ''viewer'' | RoleUnknown s \<Rightarrow> s)"

definition make_user :: "svc_env \<Rightarrow> string \<Rightarrow> string \<Rightarrow> role \<Rightarrow> user sql" where
  "make_user env email0 pw r d =
     (let email = normalise_email (sv_lower env) email0 in
      if \<not> validate_email env email \<or> \<not> role_valid r then (Inl ErrInvalidInput, d)
      else case hash_password (sv_crypto env) (sv_random env 0) pw of
        None \<Rightarrow> (Inl ErrInvalidInput, d)
      | Some h \<Rightarrow>
          (let u = \<lparr>us_id = new_id ''usr'' (sv_idBytes env), us_email = email, us_passwordHash = h, us_role = r,
                    us_disabled = False, us_createdAt = sv_now env, us_updatedAt = sv_now env, us_lastLoginAt = None\<rparr>
           in case user_create (sv_lower env) u d of (Inl e, d1) \<Rightarrow> (Inl e, d1) | (Inr x, d1) \<Rightarrow> (Inr u, d1)))"

definition user_detail :: "user \<Rightarrow> (string, goval) gomap" where
  "user_detail u = [(''email'', VStr (us_email u)), (''role'', VStr (role_name (us_role u)))]"

text \<open>\<open>between\<close> is what other requests do after the count, before the insert.\<close>

definition users_setup :: "svc_env \<Rightarrow> actor \<Rightarrow> (db \<Rightarrow> db) \<Rightarrow> string \<Rightarrow> string \<Rightarrow> user sql" where
  "users_setup env a between email pw d =
     (case needs_setup d of
        (Inl e, d1) \<Rightarrow> (Inl e, d1)
      | (Inr needs, d1) \<Rightarrow>
          if \<not> needs then (Inl ErrForbidden, d1)
          else then_audit (make_user env email pw RoleAdmin)
                 (\<lambda>u. audit_success env a ''user.create'' ''user'' (us_id u) (user_detail u @ [(''first_admin'', VBool True)])) (between d1))"

definition add_user :: "svc_env \<Rightarrow> actor \<Rightarrow> string \<Rightarrow> string \<Rightarrow> role \<Rightarrow> user sql" where
  "add_user env a email pw r =
     then_audit (make_user env email pw r) (\<lambda>u. audit_success env a ''user.create'' ''user'' (us_id u) (user_detail u))"

text \<open>A login reads the account, checks the password, and writes the account back; other requests
  run meanwhile.\<close>

definition authenticate :: "svc_env \<Rightarrow> actor \<Rightarrow> (db \<Rightarrow> db) \<Rightarrow> string \<Rightarrow> string \<Rightarrow> user sql" where
  "authenticate env a between email pw d =
     (let failed = (\<lambda>i reason d. (Inl ErrUnauthorized, audit_failure env a ''auth.login_failed'' ''user'' i reason d)) in
      case user_by_email (sv_lower env) (normalise_email (sv_lower env) email) d of
        (Inl e, d1) \<Rightarrow> if e = ErrNotFound then failed [] ''unknown account'' d1 else (Inl e, d1)
      | (Inr u, d1) \<Rightarrow>
          if \<not> verify_password (sv_crypto env) (us_passwordHash u) pw then failed (us_id u) ''bad password'' d1
          else if us_disabled u then failed (us_id u) ''account disabled'' d1
          else (let u1 = u\<lparr>us_lastLoginAt := Some (sv_now env), us_updatedAt := sv_now env\<rparr> in
                case user_update (sv_lower env) u1 (between d1) of
                  (Inl e, d2) \<Rightarrow> (Inr u1, audit_record env a ''auth.login'' ''user'' (us_id u) ''success''
                                    [(''warning'', VStr ''last_login not persisted'')] d2)
                | (Inr x, d2) \<Rightarrow> (Inr u1, audit_success env a ''auth.login'' ''user'' (us_id u) [(''email'', VStr (us_email u))] d2)))"

definition change_password :: "svc_env \<Rightarrow> actor \<Rightarrow> string \<Rightarrow> string \<Rightarrow> string \<Rightarrow> unit sql" where
  "change_password env a i current next1 d =
     (case user_by_id i d of
        (Inl e, d1) \<Rightarrow> (Inl e, d1)
      | (Inr u, d1) \<Rightarrow>
          if \<not> verify_password (sv_crypto env) (us_passwordHash u) current
          then (Inl ErrUnauthorized, audit_failure env a ''user.update'' ''user'' i ''current password incorrect'' d1)
          else (case hash_password (sv_crypto env) (sv_random env 0) next1 of
                  None \<Rightarrow> (Inl ErrInvalidInput, d1)
                | Some h \<Rightarrow>
                    then_audit (sql_bind (user_update (sv_lower env) (u\<lparr>us_passwordHash := h, us_updatedAt := sv_now env\<rparr>))
                                         (\<lambda>x. wsession_delete_by_user i))
                      (\<lambda>x. audit_success env a ''user.update'' ''user'' i
                         [(''change'', VStr ''password''), (''sessions_revoked'', VBool True)]) d1))"

definition set_disabled :: "svc_env \<Rightarrow> actor \<Rightarrow> string \<Rightarrow> bool \<Rightarrow> unit sql" where
  "set_disabled env a i off d =
     (case user_by_id i d of
        (Inl e, d1) \<Rightarrow> (Inl e, d1)
      | (Inr u, d1) \<Rightarrow>
          if off \<and> us_id u = ac_id a then (Inl ErrInvalidInput, d1)
          else then_audit (sql_bind (user_update (sv_lower env) (u\<lparr>us_disabled := off, us_updatedAt := sv_now env\<rparr>))
                                    (\<lambda>x. if off then wsession_delete_by_user i else sql_return ()))
                 (\<lambda>x. audit_success env a ''user.update'' ''user'' i [(''disabled'', VBool off)]) d1)"

section \<open>Lemmas\<close>

lemma stmt_cases [consumes 1, case_names fault run]:
  assumes "stmt f d = (r, d')"
  obtains bs where "r = Inl ErrOther" "d' = d\<lparr>db_faults := bs\<rparr>"
  | bs where "f (d\<lparr>db_faults := bs\<rparr>) = (r, d')"
proof (cases "db_faults d")
  case Nil
  have same: "d\<lparr>db_faults := db_faults d\<rparr> = d" by (cases d) simp
  show ?thesis by (rule that(2)[of "db_faults d"], simp only: same, use assms Nil in \<open>simp add: stmt_def\<close>)
next
  case (Cons b bs)
  thus ?thesis using assms that by (cases b) (auto simp: stmt_def)
qed

text \<open>The tables the accounts live in, and what each statement does to them.\<close>

definition accounts :: "db \<Rightarrow> user list \<times> web_session list" where
  "accounts d = (db_users d, db_sessions d)"

lemma accounts_faults [simp]: "accounts (d\<lparr>db_faults := bs\<rparr>) = accounts d"
  by (simp add: accounts_def)

lemma select_row_Inr:
  "select_row f d = (r, d') \<Longrightarrow> accounts d' = accounts d \<and>
     (\<forall>x. r = Inr x \<longrightarrow> (\<exists>bs xs. f (d\<lparr>db_faults := bs\<rparr>) = x # xs))"
  unfolding select_row_def by (erule stmt_cases) (auto split: list.splits)

lemma user_by_id_frame: "user_by_id i d = (r, d') \<Longrightarrow> accounts d' = accounts d \<and>
    (\<forall>u. r = Inr u \<longrightarrow> u \<in> set (db_users d) \<and> us_id u = i)"
  unfolding user_by_id_def by (drule select_row_Inr) (auto dest!: arg_cong[where f = set] simp: filter_eq_Cons_iff)

lemma wsession_get_frame: "wsession_get i d = (r, d') \<Longrightarrow> accounts d' = accounts d \<and>
    (\<forall>s. r = Inr s \<longrightarrow> s \<in> set (db_sessions d) \<and> ws_id s = i)"
  unfolding wsession_get_def by (drule select_row_Inr) (auto simp: filter_eq_Cons_iff)

lemma user_by_email_frame: "user_by_email lower e d = (r, d') \<Longrightarrow> accounts d' = accounts d"
  unfolding user_by_email_def by (drule select_row_Inr) auto

lemma user_count_frame: "user_count d = (r, d') \<Longrightarrow> accounts d' = accounts d"
  unfolding user_count_def select_def by (erule stmt_cases) auto

lemma instance_get_frame: "instance_get i d = (r, d') \<Longrightarrow> accounts d' = accounts d"
  unfolding instance_get_def by (drule select_row_Inr) auto

lemma token_frames: "token_create t d = (r, d') \<Longrightarrow> accounts d' = accounts d"
  "token_revoke i x d = (r, d') \<Longrightarrow> accounts d' = accounts d"
  "token_touch i x d = (ru, d') \<Longrightarrow> accounts d' = accounts d"
  unfolding token_create_def token_revoke_def token_touch_def
  by (auto elim!: stmt_cases split: if_splits simp: accounts_def)

lemma audit_record_frame [simp]: "accounts (audit_record env a ac tt ti re de d) = accounts d"
proof -
  obtain r d' where "audit_append \<lparr>ae_id = new_id ''aud'' (sv_auditBytes env), ae_at = sv_auditNow env, ae_actorType = ac_type a,
      ae_actorID = ac_id a, ae_action = ac, ae_targetType = tt, ae_targetID = ti, ae_result = re, ae_ip = ac_ip a, ae_detail = de\<rparr> d = (r, d')"
    by (metis surj_pair)
  thus ?thesis unfolding audit_record_def audit_append_def
    by (auto simp: sql_fail_def accounts_def split: option.splits if_splits elim!: stmt_cases)
qed

lemma audit_frames [simp]: "accounts (audit_success env a ac tt ti de d) = accounts d"
  "accounts (audit_failure env a ac tt ti re d) = accounts d"
  by (simp_all add: audit_success_def audit_failure_def)

lemma user_writes:
  "user_create lower u d = (r, d') \<Longrightarrow> db_sessions d' = db_sessions d \<and> us_id ` set (db_users d) \<subseteq> us_id ` set (db_users d')"
  "user_update lower u d = (r, d') \<Longrightarrow> db_sessions d' = db_sessions d \<and> map us_id (db_users d') = map us_id (db_users d)"
  unfolding user_create_def user_update_def
  by (auto elim!: stmt_cases simp: Let_def updated_def split: if_splits)

lemma wsession_writes:
  "wsession_create s d = (r, d') \<Longrightarrow> db_users d' = db_users d \<and>
     (db_sessions d' = db_sessions d \<or> db_sessions d' = db_sessions d @ [s] \<and> ws_id s \<notin> ws_id ` set (db_sessions d))"
  "wsession_touch i t e d = (r, d') \<Longrightarrow> db_users d' = db_users d \<and>
     (db_sessions d' = db_sessions d \<or>
      db_sessions d' = updated (\<lambda>r. ws_id r = i) (\<lambda>r. r\<lparr>ws_lastSeenAt := t, ws_expiresAt := e\<rparr>) (db_sessions d))"
  "wsession_delete i d = (r, d') \<Longrightarrow> db_users d' = db_users d \<and> (\<exists>P. db_sessions d' = filter P (db_sessions d))"
  "wsession_delete_expired t d = (rn, d') \<Longrightarrow> db_users d' = db_users d \<and> (\<exists>P. db_sessions d' = filter P (db_sessions d))"
  unfolding wsession_create_def wsession_touch_def wsession_delete_def wsession_delete_expired_def
  by (auto elim!: stmt_cases simp: Let_def list_ex_iff split: if_splits intro: exI[of _ "\<lambda>x. True"])

lemma wsession_delete_by_user_writes:
  "wsession_delete_by_user u d = (r, d') \<Longrightarrow> db_users d' = db_users d \<and>
     (\<exists>P. db_sessions d' = filter P (db_sessions d)) \<and> (\<forall>x. r = Inr x \<longrightarrow> (\<forall>s\<in>set (db_sessions d'). ws_userID s \<noteq> u))"
  unfolding wsession_delete_by_user_def
  by (auto elim!: stmt_cases intro: exI[of _ "\<lambda>x. True"])

text \<open>The invariant of the session table: one row per identifier, none outliving its ceiling or
  the idle time since it was last seen.\<close>

definition sessions_ok :: "session_service \<Rightarrow> db \<Rightarrow> bool" where
  "sessions_ok sx d = (distinct (map ws_id (db_sessions d)) \<and>
     list_all (\<lambda>s. ws_expiresAt s \<le> ws_createdAt s + sx_absoluteTimeout sx \<and>
                   ws_expiresAt s \<le> ws_lastSeenAt s + sx_idleTimeout sx) (db_sessions d))"

lemma sessions_ok_filter: "sessions_ok sx d \<Longrightarrow> db_sessions d' = filter P (db_sessions d) \<Longrightarrow> sessions_ok sx d'"
  by (auto simp: sessions_ok_def list_all_iff distinct_map_filter)

lemma sessions_ok_same: "sessions_ok sx d \<Longrightarrow> db_sessions d' = db_sessions d \<Longrightarrow> sessions_ok sx d'"
  by (simp add: sessions_ok_def)

lemma sessions_ok_accounts: "sessions_ok sx d \<Longrightarrow> accounts d' = accounts d \<Longrightarrow> sessions_ok sx d'"
  by (simp add: sessions_ok_def accounts_def)

lemma sessions_ok_add:
  "sessions_ok sx d \<Longrightarrow> db_sessions d' = db_sessions d @ [s] \<Longrightarrow> ws_id s \<notin> ws_id ` set (db_sessions d)
   \<Longrightarrow> ws_expiresAt s \<le> ws_createdAt s + sx_absoluteTimeout sx
   \<Longrightarrow> ws_expiresAt s \<le> ws_lastSeenAt s + sx_idleTimeout sx \<Longrightarrow> sessions_ok sx d'"
  by (auto simp: sessions_ok_def)

lemma sessions_ok_touch:
  assumes "sessions_ok sx d" "s \<in> set (db_sessions d)" "e \<le> ws_createdAt s + sx_absoluteTimeout sx" "e \<le> t + sx_idleTimeout sx"
    and "db_sessions d' = updated (\<lambda>r. ws_id r = ws_id s) (\<lambda>r. r\<lparr>ws_lastSeenAt := t, ws_expiresAt := e\<rparr>) (db_sessions d)"
  shows "sessions_ok sx d'"
proof -
  have eq: "r = s" if "r \<in> set (db_sessions d)" "ws_id r = ws_id s" for r
    using that assms(1,2) by (auto simp: sessions_ok_def distinct_map inj_on_def)
  have "map ws_id (db_sessions d') = map ws_id (db_sessions d)" by (simp add: assms(5) updated_def)
  moreover have "ws_expiresAt x \<le> ws_createdAt x + sx_absoluteTimeout sx \<and> ws_expiresAt x \<le> ws_lastSeenAt x + sx_idleTimeout sx" if x: "x \<in> set (db_sessions d')" for x
  proof -
    obtain r where r: "r \<in> set (db_sessions d)"
        "x = (if ws_id r = ws_id s then r\<lparr>ws_lastSeenAt := t, ws_expiresAt := e\<rparr> else r)"
      using x assms(5) by (auto simp: updated_def)
    thus ?thesis using eq[OF r(1)] assms(1,3,4) r by (cases "ws_id r = ws_id s") (auto simp: sessions_ok_def list_all_iff)
  qed
  ultimately show ?thesis using assms(1) by (auto simp: sessions_ok_def list_all_iff)
qed

section \<open>Runs\<close>

text \<open>Every operation is a step, with any surroundings and faults.  A login is its read with its
  write at once, or a write of a row read earlier (\<open>step_late\<close>), other steps between them.\<close>

inductive account_step :: "session_service \<Rightarrow> db \<Rightarrow> db \<Rightarrow> bool" for sx where
  step_issue: "session_issue env sx u ip agent d = (r, d') \<Longrightarrow> account_step sx d d'"
| step_validate: "session_validate env sx c d = (rv, d') \<Longrightarrow> account_step sx d d'"
| step_revoke: "session_revoke env c d = (ru, d') \<Longrightarrow> account_step sx d d'"
| step_prune: "prune_expired env d = (rn, d') \<Longrightarrow> account_step sx d d'"
| step_mint: "token_mint env a inp d = (rt, d') \<Longrightarrow> account_step sx d d'"
| step_token: "token_authenticate env p d = (rk, d') \<Longrightarrow> account_step sx d d'"
| step_touched: "account_step sx d (token_touch_last_used env i d)"
| step_token_revoke: "token_revoke_by env a i d = (ru, d') \<Longrightarrow> account_step sx d d'"
| step_setup: "users_setup env a id e pw d = (rs, d') \<Longrightarrow> account_step sx d d'"
| step_add: "add_user env a e pw ro d = (rs, d') \<Longrightarrow> account_step sx d d'"
| step_login: "authenticate env a id e pw d = (rs, d') \<Longrightarrow> account_step sx d d'"
| step_late: "user_update lower u d = (ru, d') \<Longrightarrow> account_step sx d d'"
| step_password: "change_password env a i cur nxt d = (ru, d') \<Longrightarrow> account_step sx d d'"
| step_disable: "set_disabled env a i off d = (ru, d') \<Longrightarrow> account_step sx d d'"

inductive account_reach :: "session_service \<Rightarrow> db \<Rightarrow> bool" for sx where
  reach_empty: "db_users d = [] \<Longrightarrow> db_sessions d = [] \<Longrightarrow> account_reach sx d"
| reach_next: "account_reach sx d \<Longrightarrow> account_step sx d d' \<Longrightarrow> account_reach sx d'"

text \<open>The stored row expires when the session handed out does.\<close>

lemma wsession_touch_Inr:
  "wsession_touch i t e d = (Inr x, d') \<Longrightarrow>
   db_sessions d' = updated (\<lambda>r. ws_id r = i) (\<lambda>r. r\<lparr>ws_lastSeenAt := t, ws_expiresAt := e\<rparr>) (db_sessions d)"
  unfolding wsession_touch_def by (auto elim!: stmt_cases split: if_splits)

lemma slide_window_stores:
  assumes "slide_window env sx u s d = (Inr (u', s'), d')" "s \<in> set (db_sessions d)"
  shows "\<exists>r\<in>set (db_sessions d'). ws_id r = ws_id s \<and> ws_expiresAt r = ws_expiresAt s'"
proof (cases "db_sessions d' = db_sessions d \<and> ws_expiresAt s' = ws_expiresAt s")
  case False
  hence "db_sessions d' = updated (\<lambda>r. ws_id r = ws_id s) (\<lambda>r. r\<lparr>ws_lastSeenAt := sv_now env, ws_expiresAt := ws_expiresAt s'\<rparr>) (db_sessions d)"
    using assms by (auto simp: slide_window_def Let_def split: if_splits prod.splits sum.splits dest!: wsession_touch_Inr)
  thus ?thesis using assms(2) by (intro bexI[of _ "s\<lparr>ws_lastSeenAt := sv_now env, ws_expiresAt := ws_expiresAt s'\<rparr>"]) (auto simp: set_updated)
qed (use assms(2) in auto)

lemma session_validate_Inr:
  assumes "session_validate env sx c d = (Inr (u, s'), d')"
  obtains s where "s \<in> set (db_sessions d)" "ws_id s = session_lookup_key (sv_crypto env) (sv_keyring env) c"
    "sv_now env < ws_expiresAt s" "time_sub (sv_now env) (ws_createdAt s) \<le> sx_absoluteTimeout sx"
    "u \<in> set (db_users d)" "us_id u = ws_userID s" "\<not> us_disabled u"
    "s' = s\<lparr>ws_lastSeenAt := sv_now env, ws_expiresAt :=
       max (ws_expiresAt s) (min (ws_createdAt s + sx_absoluteTimeout sx) (sv_now env + sx_idleTimeout sx))\<rparr>"
    "\<exists>r\<in>set (db_sessions d'). ws_id r = ws_id s \<and> ws_expiresAt r = ws_expiresAt s'"
proof -
  obtain s d1 where 1: "wsession_get (session_lookup_key (sv_crypto env) (sv_keyring env) c) d = (Inr s, d1)"
    using assms by (auto simp: session_validate_def split: if_splits prod.splits sum.splits)
  obtain d2 where 2: "user_by_id (ws_userID s) d1 = (Inr u, d2)" and live: "\<not> us_disabled u"
      "\<not> session_expired s (sv_now env)" "\<not> sx_absoluteTimeout sx < time_sub (sv_now env) (ws_createdAt s)"
      and slide: "slide_window env sx u s d2 = (Inr (u, s'), d')"
    using assms 1 by (auto simp: session_validate_def reject_session_def slide_window_def Let_def
        split: if_splits prod.splits sum.splits)
  have s': "s' = s\<lparr>ws_lastSeenAt := sv_now env, ws_expiresAt :=
       max (ws_expiresAt s) (min (ws_createdAt s + sx_absoluteTimeout sx) (sv_now env + sx_idleTimeout sx))\<rparr>"
    using slide by (cases s) (auto simp: slide_window_def Let_def max_def min_def split: if_splits prod.splits sum.splits)
  have s: "s \<in> set (db_sessions d2)" "s \<in> set (db_sessions d)"
    using wsession_get_frame[OF 1] user_by_id_frame[OF 2] by (simp_all add: accounts_def)
  have "\<exists>r\<in>set (db_sessions d'). ws_id r = ws_id s \<and> ws_expiresAt r = ws_expiresAt s'"
    using slide_window_stores[OF slide s(1)] .
  thus ?thesis using that[of s] s' live wsession_get_frame[OF 1] user_by_id_frame[OF 2]
    by (simp add: accounts_def session_expired_def)
qed

lemma slide_window_writes:
  assumes "slide_window env sx u s d = (r, d')"
  shows "db_sessions d' = db_sessions d \<or> (\<exists>e t. e \<le> ws_createdAt s + sx_absoluteTimeout sx \<and> e \<le> t + sx_idleTimeout sx \<and>
     db_sessions d' = updated (\<lambda>r. ws_id r = ws_id s) (\<lambda>r. r\<lparr>ws_lastSeenAt := t, ws_expiresAt := e\<rparr>) (db_sessions d))"
proof -
  define e where "e = (if ws_createdAt s + sx_absoluteTimeout sx < sv_now env + sx_idleTimeout sx
    then ws_createdAt s + sx_absoluteTimeout sx else sv_now env + sx_idleTimeout sx)"
  obtain r1 d1 where 1: "wsession_touch (ws_id s) (sv_now env) e d = (r1, d1)" by (metis surj_pair)
  have "d' = d \<or> d' = d1"
    using assms 1 by (auto simp: slide_window_def e_def Let_def split: if_splits sum.splits)
  moreover have "e \<le> ws_createdAt s + sx_absoluteTimeout sx" "e \<le> sv_now env + sx_idleTimeout sx" by (simp_all add: e_def)
  ultimately show ?thesis using wsession_writes(2)[OF 1] by blast
qed

lemma session_validate_ok:
  assumes "session_validate env sx c d = (r, d')" "sessions_ok sx d" shows "sessions_ok sx d'"
proof -
  have rej: "sessions_ok sx d''" if "reject_session i e = (r', d'')" "accounts e = accounts d" for i e d'' and r' :: "(domain_error, user \<times> web_session) result"
    using that assms(2) wsession_writes(3)[of i e "fst (wsession_delete i e)" "snd (wsession_delete i e)"]
    by (auto simp: reject_session_def accounts_def intro: sessions_ok_filter)
  obtain g d1 where 1: "wsession_get (session_lookup_key (sv_crypto env) (sv_keyring env) c) d = (g, d1)" by (metis surj_pair)
  note f1 = wsession_get_frame[OF 1]
  show ?thesis
  proof (cases "c = [] \<or> (\<exists>e. g = Inl e)")
    case True
    thus ?thesis using assms 1 f1 sessions_ok_accounts by (auto simp: session_validate_def split: if_splits)
  next
    case False
    then obtain s where g: "g = Inr s" "c \<noteq> []" by (metis sum.exhaust)
    obtain v d2 where 2: "user_by_id (ws_userID s) d1 = (v, d2)" by (metis surj_pair)
    note f2 = user_by_id_frame[OF 2]
    consider (rejected) i e where "reject_session i e = (r, d')" "accounts e = accounts d"
      | (same) "accounts d' = accounts d" | (slid) u where "slide_window env sx u s d2 = (r, d')"
      using assms(1) 1 2 g f1 f2 unfolding session_validate_def by (auto split: if_splits sum.splits)
    thus ?thesis
    proof cases
      case rejected thus ?thesis by (rule rej)
    next
      case same thus ?thesis using assms(2) sessions_ok_accounts by blast
    next
      case slid
      have s: "s \<in> set (db_sessions d)" "ws_id s = session_lookup_key (sv_crypto env) (sv_keyring env) c"
        using f1 g by auto
      have d2: "sessions_ok sx d2" "db_sessions d2 = db_sessions d"
        using f1 f2 assms(2) by (auto simp: sessions_ok_def accounts_def)
      show ?thesis using slide_window_writes[OF slid] d2(2) s(1) sessions_ok_touch[OF d2(1)] sessions_ok_same[OF d2(1)]
        by metis
    qed
  qed
qed

lemma make_user_sessions: "make_user env e pw ro d = (r, d') \<Longrightarrow> db_sessions d' = db_sessions d"
  by (auto simp: make_user_def Let_def split: if_splits option.splits prod.splits sum.splits dest!: user_writes(1))

lemma sessions_audit [simp]: "db_sessions (audit_record env a ac tt ti re de d) = db_sessions d"
  "db_sessions (audit_success env a ac tt ti de d) = db_sessions d"
  "db_sessions (audit_failure env a ac tt ti rs d) = db_sessions d"
  using audit_record_frame[of env a ac tt ti re de d] audit_frames[of env a ac tt ti] by (simp_all add: accounts_def)

lemma account_step_ok: "account_step sx d d' \<Longrightarrow> sessions_ok sx d \<Longrightarrow> sessions_ok sx d'"
proof (induction rule: account_step.induct)
  case (step_issue env u ip agent d r d')
  then show ?case
    by (auto simp: session_issue_def min_duration_def Let_def split: option.splits prod.splits sum.splits
        dest!: wsession_writes(1) intro: sessions_ok_same sessions_ok_add)
next
  case (step_validate env c d rv d')
  then show ?case using session_validate_ok by blast
next
  case (step_revoke env c d ru d')
  then show ?case
    by (auto simp: session_revoke_def split: if_splits dest!: wsession_writes(3) intro: sessions_ok_filter)
next
  case (step_prune env d rn d')
  then show ?case by (auto simp: prune_expired_def dest!: wsession_writes(4) intro: sessions_ok_filter)
next
  case (step_password env a i cur nxt d ru d')
  then show ?case
    by (auto simp: change_password_def then_audit_def sql_bind_def split: if_splits option.splits prod.splits sum.splits
        dest!: user_by_id_frame wsession_delete_by_user_writes user_writes(2) intro: sessions_ok_same sessions_ok_filter sessions_ok_accounts)
next
  case (step_disable env a i off d ru d')
  then show ?case
    by (auto simp: set_disabled_def then_audit_def sql_bind_def sql_return_def split: if_splits prod.splits sum.splits
        dest!: user_by_id_frame wsession_delete_by_user_writes user_writes(2) intro: sessions_ok_same sessions_ok_filter sessions_ok_accounts)
next
  case (step_setup env a e pw d rs d')
  then show ?case
    by (auto simp: users_setup_def needs_setup_def then_audit_def accounts_def split: if_splits prod.splits sum.splits
        dest!: user_count_frame make_user_sessions intro: sessions_ok_same)
next
  case (step_add env a e pw ro d rs d')
  then show ?case
    by (auto simp: add_user_def then_audit_def split: prod.splits sum.splits dest!: make_user_sessions intro: sessions_ok_same)
next
  case (step_login env a e pw d rs d')
  then show ?case
    by (auto simp: authenticate_def Let_def accounts_def split: if_splits prod.splits sum.splits
        dest!: user_by_email_frame user_writes(2) intro: sessions_ok_same)
next
  case (step_late lower u d ru d')
  then show ?case by (auto dest!: user_writes(2) intro: sessions_ok_same)
next
  case (step_mint env a inp d rt d')
  then show ?case
    by (auto simp: token_mint_def Let_def accounts_def split: if_splits prod.splits sum.splits option.splits
        dest!: token_frames(1) instance_get_frame intro: sessions_ok_same)
next
  case (step_token env p d rk d')
  then show ?case
    by (auto simp: token_authenticate_def token_by_key_def Let_def accounts_def split: if_splits prod.splits sum.splits
        dest!: select_row_Inr intro: sessions_ok_same)
next
  case (step_touched d env i)
  then show ?case using token_frames(3)[of i "sv_now env" d "fst (token_touch i (sv_now env) d)" "snd (token_touch i (sv_now env) d)"]
    by (auto simp: token_touch_last_used_def accounts_def intro: sessions_ok_same)
next
  case (step_token_revoke env a i d ru d')
  then show ?case
    by (auto simp: token_revoke_by_def then_audit_def accounts_def split: prod.splits sum.splits
        dest!: token_frames(2) intro: sessions_ok_same)
qed

lemma account_reach_ok: "account_reach sx d \<Longrightarrow> sessions_ok sx d"
proof (induction rule: account_reach.induct)
  case (reach_empty d)
  then show ?case by (simp add: sessions_ok_def)
next
  case (reach_next d d')
  then show ?case by (blast intro: account_step_ok)
qed

section \<open>Properties\<close>

lemma no_session_no_user:
  assumes "\<forall>s\<in>set (db_sessions d). ws_userID s \<noteq> i" "session_validate env sx c d = (Inr (u, s), d')"
  shows "us_id u \<noteq> i"
  using session_validate_Inr[OF assms(2)] assms(1) by metis

lemma change_password_ends:
  "change_password env a i cur nxt d = (Inr x, d') \<Longrightarrow> \<forall>s\<in>set (db_sessions d'). ws_userID s \<noteq> i"
  by (auto simp: change_password_def then_audit_def sql_bind_def split: if_splits option.splits prod.splits sum.splits
      dest!: wsession_delete_by_user_writes)

lemma set_disabled_ends:
  "set_disabled env a i True d = (Inr x, d') \<Longrightarrow> \<forall>s\<in>set (db_sessions d'). ws_userID s \<noteq> i"
  by (auto simp: set_disabled_def then_audit_def sql_bind_def split: if_splits prod.splits sum.splits
      dest!: wsession_delete_by_user_writes)

lemma filter_key_unique:
  "distinct (map f xs) \<Longrightarrow> x \<in> set xs \<Longrightarrow> filter (\<lambda>y. f y = f x) xs = [x]"
  by (induction xs) (auto simp: filter_empty_conv image_iff)

text \<open>C18: in every database the account operations can reach, under any statement failures, a
  cookie is accepted only when a session is stored under the cookie's key that has not expired,
  which means strictly before its absolute time limit, however often it was used, and within the
  idle timeout of the last use that was stored, and only for the enabled user of that session.
  What is handed out is that session, seen now, its expiry slid to the idle timeout from now but
  never past the absolute limit, and the stored row expires then too.  Once a password change or
  a disabling has succeeded, no cookie of that user is accepted.\<close>
theorem web_sessions_safe:
  assumes "account_reach sx d"
  shows "(\<forall>env cookie u s d'. session_validate env sx cookie d = (Inr (u, s), d') \<longrightarrow>
       u \<in> set (db_users d) \<and> us_id u = ws_userID s \<and> \<not> us_disabled u \<and>
       sv_now env < ws_createdAt s + sx_absoluteTimeout sx \<and>
       ws_expiresAt s \<le> ws_createdAt s + sx_absoluteTimeout sx \<and>
       (\<exists>r. filter (\<lambda>r. ws_id r = session_lookup_key (sv_crypto env) (sv_keyring env) cookie) (db_sessions d) = [r] \<and>
            sv_now env < ws_expiresAt r \<and> sv_now env < ws_lastSeenAt r + sx_idleTimeout sx \<and>
            s = r\<lparr>ws_lastSeenAt := sv_now env, ws_expiresAt :=
                  max (ws_expiresAt r) (min (ws_createdAt r + sx_absoluteTimeout sx) (sv_now env + sx_idleTimeout sx))\<rparr> \<and>
            (\<exists>r'\<in>set (db_sessions d'). ws_id r' = ws_id r \<and> ws_expiresAt r' = ws_expiresAt s))) \<and>
    (\<forall>env a i cur nxt d1 env' cookie u s d2.
       (change_password env a i cur nxt d = (Inr (), d1) \<or> set_disabled env a i True d = (Inr (), d1)) \<and>
       session_validate env' sx cookie d1 = (Inr (u, s), d2) \<longrightarrow> us_id u \<noteq> i)"
proof (intro conjI allI impI)
  fix env cookie u s d'
  assume v: "session_validate env sx cookie d = (Inr (u, s), d')"
  let ?k = "session_lookup_key (sv_crypto env) (sv_keyring env) cookie"
  from v obtain r where r: "r \<in> set (db_sessions d)" "ws_id r = ?k" "sv_now env < ws_expiresAt r"
      "u \<in> set (db_users d)" "us_id u = ws_userID r" "\<not> us_disabled u"
      "s = r\<lparr>ws_lastSeenAt := sv_now env, ws_expiresAt :=
            max (ws_expiresAt r) (min (ws_createdAt r + sx_absoluteTimeout sx) (sv_now env + sx_idleTimeout sx))\<rparr>"
      "\<exists>r'\<in>set (db_sessions d'). ws_id r' = ws_id r \<and> ws_expiresAt r' = ws_expiresAt s"
    by (rule session_validate_Inr)
  have row: "ws_expiresAt r \<le> ws_createdAt r + sx_absoluteTimeout sx" "ws_expiresAt r \<le> ws_lastSeenAt r + sx_idleTimeout sx"
    and uniq: "distinct (map ws_id (db_sessions d))"
    using account_reach_ok[OF assms] r(1) by (auto simp: sessions_ok_def list_all_iff)
  show "u \<in> set (db_users d)" "us_id u = ws_userID s" "\<not> us_disabled u" "sv_now env < ws_createdAt s + sx_absoluteTimeout sx"
    "ws_expiresAt s \<le> ws_createdAt s + sx_absoluteTimeout sx" using r row by auto
  have "filter (\<lambda>x. ws_id x = ?k) (db_sessions d) = [r]" using filter_key_unique[OF uniq r(1)] r(2) by simp
  thus "\<exists>r. filter (\<lambda>r. ws_id r = ?k) (db_sessions d) = [r] \<and>
            sv_now env < ws_expiresAt r \<and> sv_now env < ws_lastSeenAt r + sx_idleTimeout sx \<and>
            s = r\<lparr>ws_lastSeenAt := sv_now env, ws_expiresAt :=
                  max (ws_expiresAt r) (min (ws_createdAt r + sx_absoluteTimeout sx) (sv_now env + sx_idleTimeout sx))\<rparr> \<and>
            (\<exists>r'\<in>set (db_sessions d'). ws_id r' = ws_id r \<and> ws_expiresAt r' = ws_expiresAt s)"
    using r row by (intro exI[of _ r]) auto
next
  fix env a i cur nxt d1 env' cookie u s d2
  assume "(change_password env a i cur nxt d = (Inr (), d1) \<or> set_disabled env a i True d = (Inr (), d1)) \<and>
       session_validate env' sx cookie d1 = (Inr (u, s), d2)"
  thus "us_id u \<noteq> i" using change_password_ends set_disabled_ends no_session_no_user by metis
qed

definition empty_db :: db where
  "empty_db = \<lparr>db_faults = [], db_users = [], db_sessions = [], db_connectors = [], db_instances = [], db_secrets = [],
     db_tools = [], db_tokens = [], db_audit = [], db_chunks = [], db_nextChunk = 1, db_fts = [], db_documents = [],
     db_meta = [], db_embedder = \<lparr>es_url = [], es_model = [], es_rateLimitPerMin = 60, es_updatedAt = 0\<rparr>, db_embedderKey = None\<rparr>"

definition demo_svc :: "string \<Rightarrow> int \<Rightarrow> svc_env" where
  "demo_svc tag now = \<lparr>sv_lower = id, sv_mailOk = (\<lambda>e. True), sv_crypto = toy_crypto,
     sv_keyring = \<lparr>kr_secretBoxKey = ''a'', kr_tokenMACKey = ''b'', kr_sessionMAC = ''c''\<rparr>, sv_now = now,
     sv_random = (\<lambda>n. Some (tag @ nat_dec n)), sv_idBytes = tag, sv_auditBytes = tag, sv_auditNow = now\<rparr>"

definition demo_actor :: actor where "demo_actor = \<lparr>ac_type = ''user'', ac_id = ''other'', ac_ip = []\<rparr>"

definition demo_sessions :: session_service where "demo_sessions = new_sessions 0 0"

definition demo_admin :: db where
  "demo_admin = snd (users_setup (demo_svc ''s1'' 5) demo_actor id ''a@b.c'' ''correct horse'' empty_db)"

definition demo_login :: db where
  "demo_login = (case fst (users_setup (demo_svc ''s1'' 5) demo_actor id ''a@b.c'' ''correct horse'' empty_db) of
     Inr u \<Rightarrow> snd (session_issue (demo_svc ''s2'' 6) demo_sessions u ''ip'' ''ua'' demo_admin) | Inl e \<Rightarrow> demo_admin)"

text \<open>Their values, so that evaluation does not set the account up again.\<close>

lemma demo_admin_code [code]:
  "demo_admin = empty_db\<lparr>
     db_users := [\<lparr>us_id = ''usr_omyq'', us_email = ''a@b.c'',
       us_passwordHash = ''$argon2id$v=19$m=19456,t=2,p=1$czEw$Y29ycmVjdCBob3JzZXh4eHh4eHh4eHh4eHh4eHh4eHg'',
       us_role = RoleAdmin, us_disabled = False, us_createdAt = 5, us_updatedAt = 5, us_lastLoginAt = None\<rparr>],
     db_audit := [\<lparr>aw_event = \<lparr>ae_id = ''aud_omyq'', ae_at = 5, ae_actorType = ''user'', ae_actorID = ''other'', ae_action = ''user.create'',
       ae_targetType = ''user'', ae_targetID = ''usr_omyq'', ae_result = ''success'', ae_ip = [],
       ae_detail = [(''email'', VStr ''a@b.c''), (''role'', VStr ''admin''), (''first_admin'', VBool True)]\<rparr>,
       aw_detail = ''{'' @ CHR 0x22 # ''email'' @ CHR 0x22 # '':'' @ CHR 0x22 # ''a@b.c'' @ CHR 0x22 # '','' @ CHR 0x22 # ''first_admin'' @ CHR 0x22 # '':true,'' @ CHR 0x22 # ''role'' @ CHR 0x22 # '':'' @ CHR 0x22 # ''admin'' @ CHR 0x22 # ''}'' @ []\<rparr>]\<rparr>"
  by code_simp

lemma demo_login_code [code]:
  "demo_login = demo_admin\<lparr>db_sessions := [\<lparr>ws_id = ''63637a4977'', ws_userID = ''usr_omyq'', ws_csrfToken = ''czIx'',
     ws_createdAt = 6, ws_lastSeenAt = 6, ws_expiresAt = 7200000000006, ws_ip = ''ip'', ws_userAgent = ''ua''\<rparr>]\<rparr>"
  by code_simp

lemma demo_login_reach: "account_reach demo_sessions demo_login"
proof -
  have "account_reach demo_sessions empty_db" by (rule reach_empty) (simp_all add: empty_db_def)
  moreover have "account_step demo_sessions empty_db demo_admin"
    unfolding demo_admin_def by (rule step_setup) (rule surjective_pairing)
  ultimately have a: "account_reach demo_sessions demo_admin" by (rule reach_next)
  show ?thesis
  proof (cases "fst (users_setup (demo_svc ''s1'' 5) demo_actor id ''a@b.c'' ''correct horse'' empty_db)")
    case (Inr u)
    have "account_step demo_sessions demo_admin (snd (session_issue (demo_svc ''s2'' 6) demo_sessions u ''ip'' ''ua'' demo_admin))"
      by (rule step_issue) (rule surjective_pairing)
    with a Inr show ?thesis by (auto simp: demo_login_def intro: reach_next)
  qed (simp add: demo_login_def a)
qed

definition demo_cookie :: string where "demo_cookie = b64_raw_url ''s20''"

lemma web_sessions_safe_witness:
  "\<exists>u s d'. session_validate (demo_svc ''v'' 100) demo_sessions demo_cookie demo_login = (Inr (u, s), d') \<and>
     \<not> us_disabled u \<and> 100 < ws_createdAt s + sx_absoluteTimeout demo_sessions"
proof -
  have "is_ok (fst (session_validate (demo_svc ''v'' 100) demo_sessions demo_cookie demo_login))" by code_simp
  then obtain u s d' where v: "session_validate (demo_svc ''v'' 100) demo_sessions demo_cookie demo_login = (Inr (u, s), d')"
    by (metis is_ok_iff prod.collapse)
  have "sv_now (demo_svc ''v'' 100) = 100" by (simp add: demo_svc_def)
  with v web_sessions_safe[OF demo_login_reach] show ?thesis by metis
qed

text \<open>Reading an account, and writing it back later, loses what happened between: a login that is
  under way when an administrator disables the account enables it again, although the disabling
  succeeded; and two first-run requests at once both create an administrator.\<close>

lemma login_undoes_disable:
  "let i = us_id (hd (db_users demo_admin));
       off = set_disabled (demo_svc ''d'' 50) demo_actor i True;
       (r, d') = authenticate (demo_svc ''l'' 51) demo_actor (\<lambda>d. snd (off d)) ''a@b.c'' ''correct horse'' demo_admin
   in is_ok (fst (off demo_admin)) \<and> us_disabled (hd (db_users (snd (off demo_admin)))) \<and>
      is_ok r \<and> \<not> us_disabled (hd (db_users d'))"
  by code_simp

lemma setup_race:
  "let other = users_setup (demo_svc ''e'' 50) demo_actor id ''evil@b.c'' ''correct horse2'';
       (r, d') = users_setup (demo_svc ''s1'' 51) demo_actor (\<lambda>d. snd (other d)) ''a@b.c'' ''correct horse'' empty_db
   in is_ok (fst (other empty_db)) \<and> is_ok r \<and> map us_role (db_users d') = [RoleAdmin, RoleAdmin]"
  by code_simp

end
