(* ===== verification/Client.thy ===== *)
theory Client
  imports Request GoTime
begin

text \<open>
  \<open>internal/upstream/client.go\<close>: the guarded HTTP client.  The network is a
  parameter: the address the dialer connects to for a URL, and what the server
  answers to a request.  The standard library calls the dialer's control hook with
  that address before it connects, and \<open>CheckRedirect\<close> before it follows a redirect.
\<close>

section \<open>Options\<close>

record options =
  op_dialTimeout :: int
  op_tlsHandshakeTimeout :: int
  op_responseHeaderTimeout :: int
  op_idleConnTimeout :: int
  op_maxIdleConnsPerHost :: int
  op_maxRedirects :: int
  op_userAgent :: string

definition options_with_defaults :: "options \<Rightarrow> options" where
  "options_with_defaults o0 =
     \<lparr>op_dialTimeout = (if op_dialTimeout o0 = 0 then 5 * second else op_dialTimeout o0),
      op_tlsHandshakeTimeout = (if op_tlsHandshakeTimeout o0 = 0 then 10 * second else op_tlsHandshakeTimeout o0),
      op_responseHeaderTimeout = (if op_responseHeaderTimeout o0 = 0 then 30 * second else op_responseHeaderTimeout o0),
      op_idleConnTimeout = (if op_idleConnTimeout o0 = 0 then 90 * second else op_idleConnTimeout o0),
      op_maxIdleConnsPerHost = (if op_maxIdleConnsPerHost o0 = 0 then 8 else op_maxIdleConnsPerHost o0),
      op_maxRedirects = (if op_maxRedirects o0 = 0 then 3 else op_maxRedirects o0),
      op_userAgent = (if op_userAgent o0 = [] then ''MCPaw/1.0 (+https://github.com/00101010xyz/mcpaw)''
                      else op_userAgent o0)\<rparr>"

record http_client =
  hc_policy :: egress_policy
  hc_maxRedirects :: int

definition new_http_client :: "egress_policy \<Rightarrow> options \<Rightarrow> http_client" where
  "new_http_client pol o0 = \<lparr>hc_policy = pol, hc_maxRedirects = op_maxRedirects o0\<rparr>"

record client =
  cl_strict :: http_client
  cl_permissive :: http_client
  cl_opts :: options

definition new_client :: "options \<Rightarrow> client" where
  "new_client o0 = (let o1 = options_with_defaults o0 in
     \<lparr>cl_strict = new_http_client \<lparr>allow_private_networks = False\<rparr> o1,
      cl_permissive = new_http_client \<lparr>allow_private_networks = True\<rparr> o1,
      cl_opts = o1\<rparr>)"

section \<open>Transport errors\<close>

text \<open>What \<open>errors.As\<close> and \<open>errors.Is\<close> find in an error's chain.\<close>

record transport_error =
  te_blocked :: "egress_error option"
  te_deadline :: bool
  te_canceled :: bool

definition plain_error :: transport_error where
  "plain_error = \<lparr>te_blocked = None, te_deadline = False, te_canceled = False\<rparr>"

definition classify :: "transport_error \<Rightarrow> transport_error" where
  "classify e =
     (case te_blocked e of
        Some b \<Rightarrow> plain_error\<lparr>te_blocked := Some b\<rparr>
      | None \<Rightarrow> e)"

definition hook_error :: "egress_error \<Rightarrow> transport_error" where
  "hook_error e = (case e of BlockedIP ip r \<Rightarrow> plain_error\<lparr>te_blocked := Some e\<rparr> | _ \<Rightarrow> plain_error)"

section \<open>Redirects\<close>

text \<open>\<open>strings.EqualFold\<close>; \<open>sf\<close> is the case folding of non-ASCII runes.\<close>

definition fold_rune :: "(nat \<Rightarrow> nat) \<Rightarrow> nat \<Rightarrow> nat" where
  "fold_rune sf r = (if 65 \<le> r \<and> r \<le> 90 then r + 32 else if r < 128 then r else sf r)"

definition equal_fold :: "(nat \<Rightarrow> nat) \<Rightarrow> string \<Rightarrow> string \<Rightarrow> bool" where
  "equal_fold sf s t = (map (fold_rune sf) (runes s) = map (fold_rune sf) (runes t))"

datatype redirect_error = TooManyRedirects | BadScheme | CrossOrigin

definition check_redirect :: "(nat \<Rightarrow> nat) \<Rightarrow> int \<Rightarrow> url \<Rightarrow> url list \<Rightarrow> redirect_error option" where
  "check_redirect sf mx u via =
     (if mx \<le> int (length via) then Some TooManyRedirects
      else if u_scheme u \<noteq> ''http'' \<and> u_scheme u \<noteq> ''https'' then Some BadScheme
      else if \<not> equal_fold sf (u_host u) (u_host (via ! 0)) then Some CrossOrigin
      else None)"

section \<open>Sending\<close>

text \<open>A server's answer: the body is the bytes until its end, or until a read error.\<close>

record raw_response =
  rw_status :: int
  rw_header :: header
  rw_body :: string
  rw_readError :: "transport_error option"
  rw_duration :: int

datatype hop = HopFail transport_error | HopRedirect url | HopFinal raw_response

record network =
  nw_dial :: "url \<Rightarrow> string \<times> string"
  nw_answer :: "url list \<Rightarrow> url \<Rightarrow> hop"
  nw_fold :: "nat \<Rightarrow> nat"

text \<open>One connection: the dialer's control hook sees the address first.\<close>

definition send_hop :: "network \<Rightarrow> http_client \<Rightarrow> url list \<Rightarrow> url \<Rightarrow> hop" where
  "send_hop nw hc via u =
     (case nw_dial nw u of (network, address) \<Rightarrow>
        (case control_func (hc_policy hc) network address of
           Some e \<Rightarrow> HopFail (hook_error e)
         | None \<Rightarrow> nw_answer nw via u))"

text \<open>\<open>http.Client.Do\<close>: the URLs requested, oldest first, and the outcome.\<close>

function follow :: "network \<Rightarrow> http_client \<Rightarrow> url list \<Rightarrow> url \<Rightarrow> url list \<times> (transport_error, raw_response) result" where
  "follow nw hc via u =
     (case send_hop nw hc via u of
        HopFail e \<Rightarrow> (via @ [u], Inl e)
      | HopFinal r \<Rightarrow> (via @ [u], Inr r)
      | HopRedirect u' \<Rightarrow>
          (case check_redirect (nw_fold nw) (hc_maxRedirects hc) u' (via @ [u]) of
             Some e \<Rightarrow> (via @ [u], Inl plain_error)
           | None \<Rightarrow> follow nw hc (via @ [u]) u'))"
  by pat_completeness auto
termination
  by (relation "measure (\<lambda>(nw, hc, via, u). nat (hc_maxRedirects hc - int (length via)))")
     (auto simp: check_redirect_def split: if_splits)

declare follow.simps [simp del]

record response =
  rp_status :: int
  rp_header :: header
  rp_body :: string
  rp_truncated :: bool
  rp_duration :: int

text \<open>\<open>io.ReadAll(io.LimitReader(body, n))\<close>: a read error past the limit is not reached.\<close>

definition read_limited :: "int \<Rightarrow> raw_response \<Rightarrow> (transport_error, string) result" where
  "read_limited n r =
     (if int (length (rw_body r)) < n then
        (case rw_readError r of Some e \<Rightarrow> Inl e | None \<Rightarrow> Inr (rw_body r))
      else Inr (take (nat n) (rw_body r)))"

definition client_do :: "network \<Rightarrow> client \<Rightarrow> http_request \<Rightarrow> egress_policy \<Rightarrow> int
    \<Rightarrow> (transport_error, response) result \<times> http_request" where
  "client_do nw c req policy maxBytes =
     (if maxBytes \<le> 0 then (Inl plain_error, req)
      else
        let req' = (if header_get (hr_header req) ''User-Agent'' = []
                    then req\<lparr>hr_header := header_set ''User-Agent'' (op_userAgent (cl_opts c)) (hr_header req)\<rparr>
                    else req);
            hc = (if allow_private_networks policy then cl_permissive c else cl_strict c)
        in (case snd (follow nw hc [] (hr_url req')) of
              Inl e \<Rightarrow> Inl (classify e)
            | Inr r \<Rightarrow>
                rmap (\<lambda>body. \<lparr>rp_status = rw_status r, rp_header = rw_header r,
                    rp_body = (if maxBytes < int (length body) then take (nat maxBytes) body else body),
                    rp_truncated = (maxBytes < int (length body)),
                    rp_duration = rw_duration r\<rparr>)
                  (read_limited (int64_wrap (maxBytes + 1)) r), req'))"

section \<open>Lemmas\<close>

lemma equal_fold_refl [simp]: "equal_fold f s s"
  by (simp add: equal_fold_def)

definition same_origin_chain :: "(nat \<Rightarrow> nat) \<Rightarrow> url list \<Rightarrow> bool" where
  "same_origin_chain sf us =
     (\<forall>u\<in>set (drop 1 us). u_scheme u \<in> {''http'', ''https''} \<and> equal_fold sf (u_host u) (u_host (us ! 0)))"

lemma chain_extend:
  assumes "same_origin_chain sf us" "us \<noteq> []" "check_redirect sf mx u us = None"
  shows "same_origin_chain sf (us @ [u])"
proof -
  have "(us @ [u]) ! 0 = us ! 0" using assms(2) by (cases us) auto
  moreover have "drop 1 (us @ [u]) = drop 1 us @ [u]" using assms(2) by (cases us) auto
  ultimately show ?thesis
    using assms by (auto simp: same_origin_chain_def check_redirect_def split: if_splits)
qed

lemma follow_prefix: "follow nw hc via u = (us, r) \<Longrightarrow> \<exists>rest. us = via @ u # rest"
proof (induction nw hc via u arbitrary: us r rule: follow.induct)
  case (1 nw hc via u)
  show ?case
  proof (cases "send_hop nw hc via u")
    case (HopRedirect u')
    show ?thesis
    proof (cases "check_redirect (nw_fold nw) (hc_maxRedirects hc) u' (via @ [u])")
      case None
      have "follow nw hc (via @ [u]) u' = (us, r)"
        using "1.prems" HopRedirect None by (subst (asm) follow.simps) simp
      from "1.IH"[OF HopRedirect None this] show ?thesis by auto
    qed (use "1.prems" HopRedirect in \<open>auto simp: follow.simps\<close>)
  qed (use "1.prems" in \<open>auto simp: follow.simps\<close>)
qed

lemma follow_chain:
  assumes "follow nw hc via u = (us, r)" "same_origin_chain (nw_fold nw) (via @ [u])"
    "via = [] \<or> int (length via) < hc_maxRedirects hc"
  shows "same_origin_chain (nw_fold nw) us \<and> int (length us) \<le> max 1 (hc_maxRedirects hc)"
  using assms
proof (induction nw hc via u arbitrary: us r rule: follow.induct)
  case (1 nw hc via u)
  have len: "int (length (via @ [u])) \<le> max 1 (hc_maxRedirects hc)" using "1.prems"(3) by auto
  show ?case
  proof (cases "send_hop nw hc via u")
    case (HopRedirect u')
    show ?thesis
    proof (cases "check_redirect (nw_fold nw) (hc_maxRedirects hc) u' (via @ [u])")
      case None
      have f: "follow nw hc (via @ [u]) u' = (us, r)"
        using "1.prems"(1) HopRedirect None by (subst (asm) follow.simps) simp
      have c: "same_origin_chain (nw_fold nw) ((via @ [u]) @ [u'])"
        by (rule chain_extend[OF "1.prems"(2) _ None]) simp
      have "int (length (via @ [u])) < hc_maxRedirects hc"
        using None by (simp add: check_redirect_def split: if_splits)
      from "1.IH"[OF HopRedirect None f c disjI2[OF this]] show ?thesis .
    qed (use "1.prems" HopRedirect len in \<open>auto simp: follow.simps\<close>)
  qed (use "1.prems" len in \<open>auto simp: follow.simps\<close>)
qed

text \<open>Every connection on the way to a response went to an address the policy permits.\<close>

definition permitted :: "network \<Rightarrow> egress_policy \<Rightarrow> url \<Rightarrow> bool" where
  "permitted nw pol u = (case nw_dial nw u of (n, a) \<Rightarrow> control_func pol n a = None)"

lemma follow_permitted:
  "follow nw hc via u = (us, Inr r) \<Longrightarrow> x \<in> set (drop (length via) us) \<Longrightarrow> permitted nw (hc_policy hc) x"
proof (induction nw hc via u arbitrary: us r rule: follow.induct)
  case (1 nw hc via u)
  have ok: "permitted nw (hc_policy hc) u" if "\<And>e. send_hop nw hc via u \<noteq> HopFail e"
  proof (cases "nw_dial nw u")
    case (Pair n a)
    with that show ?thesis by (cases "control_func (hc_policy hc) n a") (auto simp: send_hop_def permitted_def)
  qed
  obtain rest where us: "us = via @ u # rest" using follow_prefix[OF "1.prems"(1)] by blast
  show ?case
  proof (cases "send_hop nw hc via u")
    case (HopFail e)
    thus ?thesis using "1.prems"(1) by (simp add: follow.simps)
  next
    case (HopFinal q)
    hence "us = via @ [u]" using "1.prems"(1) by (simp add: follow.simps)
    thus ?thesis using "1.prems"(2) ok HopFinal by auto
  next
    case (HopRedirect u')
    hence c: "check_redirect (nw_fold nw) (hc_maxRedirects hc) u' (via @ [u]) = None"
      "follow nw hc (via @ [u]) u' = (us, Inr r)"
      using "1.prems"(1) by (auto simp: follow.simps[of nw hc via u] split: option.splits)
    thus ?thesis using "1.prems"(2) "1.IH"[OF HopRedirect c(1) c(2)] ok HopRedirect us by auto
  qed
qed

lemma client_do_Inr:
  assumes "client_do nw c req policy mx = (Inr rp, req')" "mx < 2 ^ 63 - 1"
  obtains us r hc where "0 < mx" "hc = (if allow_private_networks policy then cl_permissive c else cl_strict c)"
    "follow nw hc [] (hr_url req) = (us, Inr r)" "rp_status rp = rw_status r"
    "rp_body rp = take (nat mx) (rw_body r)" "rp_truncated rp = (mx < int (length (rw_body r)))"
proof -
  define hc where "hc = (if allow_private_networks policy then cl_permissive c else cl_strict c)"
  obtain us q where f: "follow nw hc [] (hr_url req) = (us, q)" by fastforce
  have pos: "0 < mx" using assms(1) by (auto simp: client_do_def split: if_splits)
  have w: "int64_wrap (mx + 1) = mx + 1" using pos assms(2) by (simp add: int64_wrap_def)
  have url: "hr_url (if b then req\<lparr>hr_header := h\<rparr> else req) = hr_url req" for b h by simp
  have *: "(case q of Inl e \<Rightarrow> Inl (classify e)
     | Inr r \<Rightarrow> rmap (\<lambda>body. \<lparr>rp_status = rw_status r, rp_header = rw_header r,
                    rp_body = (if mx < int (length body) then take (nat mx) body else body),
                    rp_truncated = (mx < int (length body)),
                    rp_duration = rw_duration r\<rparr>) (read_limited (mx + 1) r)) = Inr rp"
    using assms(1) pos unfolding client_do_def Let_def w hc_def[symmetric] url
    by (simp add: f split: sum.splits)
  then obtain r where r: "q = Inr r" by (cases q) auto
  have "rp_status rp = rw_status r" "rp_body rp = take (nat mx) (rw_body r)" "rp_truncated rp = (mx < int (length (rw_body r)))"
    using * pos unfolding r by (auto simp: read_limited_def min_def split: if_splits option.splits)
  thus ?thesis using that[of hc us r] pos f r by (simp add: hc_def)
qed

section \<open>Properties\<close>

text \<open>C20: redirects.  However the servers answer, the client asks at most the configured
  number of URLs, and every one after the first has an HTTP scheme and the first one's
  host, so a credential never goes to another host; a response that is returned came over
  connections to permitted addresses only.\<close>

theorem redirects_stay_on_host:
  "(case follow nw hc [] u of (us, r) \<Rightarrow>
      hd us = u \<and> int (length us) \<le> max 1 (hc_maxRedirects hc) \<and>
      list_all (\<lambda>x. (x = u \<or> u_scheme x = ''http'' \<or> u_scheme x = ''https'') \<and>
                    equal_fold (nw_fold nw) (u_host x) (u_host u)) us \<and>
      (case r of Inl e \<Rightarrow> True | Inr q \<Rightarrow> list_all (permitted nw (hc_policy hc)) us))"
proof -
  obtain us r where f: "follow nw hc [] u = (us, r)" by fastforce
  obtain rest where us: "us = u # rest" using follow_prefix[OF f] by auto
  have "same_origin_chain (nw_fold nw) us \<and> int (length us) \<le> max 1 (hc_maxRedirects hc)"
    by (rule follow_chain[OF f]) (auto simp: same_origin_chain_def)
  moreover have "list_all (permitted nw (hc_policy hc)) us" if "r = Inr q" for q
    using follow_permitted[of nw hc "[]" u us q] f that by (auto simp: list_all_iff)
  ultimately show ?thesis using us by (auto simp: f same_origin_chain_def list_all_iff split: sum.splits)
qed

text \<open>The response is capped.  The body that is returned is the upstream's body cut at
  the limit, and it is marked truncated exactly when something was cut off; the connections
  were opened under the policy of the call; and a request without a positive limit is
  refused before anything is sent.\<close>

theorem client_do_capped:
  assumes "client_do nw (new_client o0) req policy mx = (Inr rp, req')" "mx < 2 ^ 63 - 1"
  shows "0 < mx \<and> int (length (rp_body rp)) \<le> mx \<and>
    (\<exists>r us. follow nw (new_http_client policy (options_with_defaults o0)) [] (hr_url req) = (us, Inr r) \<and>
       rp_body rp = take (nat mx) (rw_body r) \<and> rp_status rp = rw_status r \<and>
       rp_truncated rp = (rp_body rp \<noteq> rw_body r) \<and>
       list_all (permitted nw policy) us)"
proof -
  obtain us r hc where c: "0 < mx"
    "hc = (if allow_private_networks policy then cl_permissive (new_client o0) else cl_strict (new_client o0))"
    "follow nw hc [] (hr_url req) = (us, Inr r)" "rp_status rp = rw_status r"
    "rp_body rp = take (nat mx) (rw_body r)" "rp_truncated rp = (mx < int (length (rw_body r)))"
    by (rule client_do_Inr[OF assms])
  have hc: "hc = new_http_client policy (options_with_defaults o0)"
    unfolding c(2) by (simp add: new_client_def new_http_client_def Let_def)
  hence pol: "hc_policy hc = policy" by (simp add: new_http_client_def)
  have "list_all (permitted nw policy) us"
    using follow_permitted[OF c(3)] by (simp add: list_all_iff pol)
  moreover have "rp_truncated rp = (rp_body rp \<noteq> rw_body r)" "int (length (rp_body rp)) \<le> mx"
    using c(1) by (auto simp: c(5,6) min_def take_all_iff)
  ultimately show ?thesis
    using c(1,3,4,5) unfolding hc by blast
qed

text \<open>A network that answers every address with one redirect to the cleartext URL.\<close>

definition demo_network :: network where
  "demo_network = \<lparr>nw_dial = (\<lambda>_. (''tcp'', ''93.184.216.34:443'')),
     nw_answer = (\<lambda>via u. if u_scheme u = ''https'' then HopRedirect (u\<lparr>u_scheme := ''http''\<rparr>)
       else HopFinal \<lparr>rw_status = 200, rw_header = [(''Content-Type'', ''application/json'')],
                      rw_body = ''{}'', rw_readError = None, rw_duration = 0\<rparr>),
     nw_fold = id\<rparr>"

definition zero_options :: options where
  "zero_options = \<lparr>op_dialTimeout = 0, op_tlsHandshakeTimeout = 0, op_responseHeaderTimeout = 0,
     op_idleConnTimeout = 0, op_maxIdleConnsPerHost = 0, op_maxRedirects = 0, op_userAgent = []\<rparr>"

definition demo_request :: http_request where
  "demo_request = \<lparr>hr_method = ''GET'', hr_url = demo_base, hr_host = ''api.example'',
     hr_header = [(''X-Key'', ''k1'')], hr_body = None\<rparr>"

lemma client_do_capped_witness:
  "\<exists>rp req'. client_do demo_network (new_client zero_options) demo_request \<lparr>allow_private_networks = False\<rparr> 1 = (Inr rp, req')
     \<and> int (length (rp_body rp)) \<le> 1"
proof -
  have "is_ok (fst (client_do demo_network (new_client zero_options) demo_request \<lparr>allow_private_networks = False\<rparr> 1))"
    by code_simp
  then obtain rp req' where
    d: "client_do demo_network (new_client zero_options) demo_request \<lparr>allow_private_networks = False\<rparr> 1 = (Inr rp, req')"
    by (metis is_ok_iff prod.collapse)
  have "(1 :: int) < 2 ^ 63 - 1" by simp
  from client_do_capped[OF d this] d show ?thesis by blast
qed

text \<open>The redirect rule compares hosts, not origins.  A redirect from HTTPS to
  cleartext HTTP on the same host is followed, with the request's credential headers, and
  the limit counts requests: with the default of three, the third redirect fails.\<close>

theorem redirect_downgrade_followed:
  "map url_string (fst (follow demo_network (cl_strict (new_client zero_options)) [] demo_base)) =
      [''https://api.example'', ''http://api.example'']
   \<and> is_ok (snd (follow demo_network (cl_strict (new_client zero_options)) [] demo_base))
   \<and> check_redirect sf 3 (u\<lparr>u_scheme := ''http''\<rparr>) [u\<lparr>u_scheme := ''https''\<rparr>] = None
   \<and> check_redirect sf 3 u [u1, u2, u3] = Some TooManyRedirects"
proof (intro conjI)
  have "case follow demo_network (cl_strict (new_client zero_options)) [] demo_base of (us, r) \<Rightarrow>
      map url_string us = [''https://api.example'', ''http://api.example''] \<and> is_ok r" by code_simp
  thus "map url_string (fst (follow demo_network (cl_strict (new_client zero_options)) [] demo_base)) =
      [''https://api.example'', ''http://api.example'']"
    "is_ok (snd (follow demo_network (cl_strict (new_client zero_options)) [] demo_base))" by (simp_all split: prod.splits)
qed (simp_all add: check_redirect_def)

end
