(* ===== verification/Response.thy ===== *)
theory Response
  imports Client Mime
begin

text \<open>
  \<open>internal/engine/response.go\<close>: from the upstream response to the result of a tool.
  The response header map holds the first value of each field under its canonical
  name.  The lemmas bound what reaches the caller and show that pages tile a text.
\<close>

section \<open>Small parts\<close>

record tool_result =
  re_statusCode :: int
  re_text :: string
  re_data :: "goval option"
  re_isJSON :: bool
  re_headers :: "(string, string) gomap option"
  re_duration :: int

definition max_text_bytes :: nat where "max_text_bytes = 512 * 1024"

definition ellipsis :: string where "ellipsis = [CHR 0xE2, CHR 0x80, CHR 0xA6]"

definition truncate_str :: "string \<Rightarrow> nat \<Rightarrow> string" where
  "truncate_str s mx = (if length s \<le> mx then s else take mx s @ newline @ ellipsis @ '' [truncated]'')"

definition excerpt :: "string \<Rightarrow> nat \<Rightarrow> string" where
  "excerpt body mx =
     (let s = trim_space body in
      if s = [] then ''(empty response body)''
      else let s' = encode_runes (filter (\<lambda>r. r = 10 \<or> r = 9 \<or> 32 \<le> r) (runes s)) in
        if mx < length s' then take mx s' @ ellipsis else s')"

definition is_success :: "'sc compiled_tool \<Rightarrow> int \<Rightarrow> bool" where
  "is_success tt status =
     (if ct_successCodes tt \<noteq> [] then status \<in> set (ct_successCodes tt) else 200 \<le> status \<and> status < 300)"

definition looks_like_json :: "header \<Rightarrow> bool" where
  "looks_like_json h =
     (let ct = header_get h ''Content-Type'' in
      if ct = [] then False
      else case parse_media_type ct of
        None \<Rightarrow> False
      | Some m \<Rightarrow> m = ''application/json'' \<or> has_suffix ''+json'' m \<or> m = ''text/json'')"

text \<open>\<open>None\<close> is the nil map.\<close>

definition select_headers :: "string list \<Rightarrow> header \<Rightarrow> (string, string) gomap option" where
  "select_headers allow h =
     (if allow = [] then None
      else let out = List.fold (\<lambda>name out. let v = header_get h name in if v \<noteq> [] then kv_put name v out else out) allow []
        in if out = [] then None else Some out)"

fun project :: "goval \<Rightarrow> string list \<Rightarrow> (engine_error, goval) result" where
  "project v [] = Inr v"
| "project (VObj kvs) (seg # path) =
     (case map_of kvs seg of
        None \<Rightarrow> Inl (new_error KindUpstreamFailure)
      | Some v \<Rightarrow> project v path)"
| "project (VArr vs) (seg # path) =
     (case atoi seg of
        None \<Rightarrow> Inl (new_error KindUpstreamFailure)
      | Some i \<Rightarrow> if i < 0 \<or> int (length vs) \<le> i then Inl (new_error KindUpstreamFailure)
                  else project (vs ! nat i) path)"
| "project v (seg # path) = Inl (new_error KindUpstreamFailure)"

section \<open>Pages\<close>

definition default_page_chars :: int where "default_page_chars = 4000"
definition max_page_chars :: int where "max_page_chars = 20000"

record page_result =
  pg_text :: string
  pg_offset :: int
  pg_length :: int
  pg_totalLength :: int
  pg_nextOffset :: int
  pg_hasMore :: bool

definition int_arg :: "(rat \<Rightarrow> int) \<Rightarrow> (string, goval) gomap \<Rightarrow> string \<Rightarrow> int \<Rightarrow> int" where
  "int_arg oor args key def =
     (case map_of args key of
        Some (VFloat v) \<Rightarrow> int64_of_f64 oor v
      | Some (VInt v) \<Rightarrow> v
      | Some (VInt64 v) \<Rightarrow> v
      | _ \<Rightarrow> def)"

definition page_of :: "nat list \<Rightarrow> int \<Rightarrow> int \<Rightarrow> page_result" where
  "page_of rs offset0 limit0 =
     (let total = int (length rs);
          offset1 = (if offset0 < 0 then 0 else offset0);
          offset = (if total < offset1 then total else offset1);
          limit1 = (if limit0 \<le> 0 then default_page_chars else limit0);
          limit = (if max_page_chars < limit1 then max_page_chars else limit1);
          end1 = offset + limit;
          end2 = (if total < end1 then total else end1)
      in \<lparr>pg_text = encode_runes (take (nat (end2 - offset)) (drop (nat offset) rs)),
          pg_offset = offset, pg_length = end2 - offset, pg_totalLength = total,
          pg_nextOffset = end2, pg_hasMore = (end2 < total)\<rparr>)"

definition paginate_text :: "(rat \<Rightarrow> int) \<Rightarrow> string \<Rightarrow> (string, goval) gomap \<Rightarrow> page_result" where
  "paginate_text oor s args =
     page_of (runes s) (int_arg oor args ''offset'' 0) (int_arg oor args ''limit'' default_page_chars)"

text \<open>The JSON form of the envelope, in the order of the struct's fields.\<close>

definition page_json :: "page_result \<Rightarrow> string" where
  "page_json p =
     indent_block 0 ''{''
       [json_quote ''text'' @ '': '' @ json_quote (pg_text p),
        json_quote ''offset'' @ '': '' @ itoa (pg_offset p),
        json_quote ''length'' @ '': '' @ itoa (pg_length p),
        json_quote ''total_length'' @ '': '' @ itoa (pg_totalLength p),
        json_quote ''next_offset'' @ '': '' @ itoa (pg_nextOffset p),
        json_quote ''has_more'' @ '': '' @ (if pg_hasMore p then ''true'' else ''false'')] ''}''"

definition page_data :: "page_result \<Rightarrow> goval" where
  "page_data p = VObj [(''text'', VStr (pg_text p)), (''offset'', VInt (pg_offset p)), (''length'', VInt (pg_length p)),
     (''total_length'', VInt (pg_totalLength p)), (''next_offset'', VInt (pg_nextOffset p)), (''has_more'', VBool (pg_hasMore p))]"

definition paginated_result :: "(rat \<Rightarrow> int) \<Rightarrow> tool_result \<Rightarrow> string \<Rightarrow> (string, goval) gomap \<Rightarrow> tool_result" where
  "paginated_result oor res text args =
     (let page = paginate_text oor text args in
      res\<lparr>re_data := Some (page_data page), re_isJSON := True, re_text := page_json page\<rparr>)"

section \<open>The mapping\<close>

definition truncated_note :: string where
  "truncated_note = newline @ newline @ ''[truncated: the response exceeded this instance's size limit]''"

definition status_error :: "'sc compiled_tool \<Rightarrow> response \<Rightarrow> engine_error" where
  "status_error tt rp = \<lparr>ee_kind = KindUpstreamStatus, ee_status = rp_status rp, ee_details = [excerpt (rp_body rp) 512]\<rparr>"

definition base_result :: "'sc compiled_tool \<Rightarrow> response \<Rightarrow> tool_result" where
  "base_result tt rp =
     \<lparr>re_statusCode = rp_status rp, re_text = [], re_data = None, re_isJSON = False,
      re_headers = select_headers (ct_includeHeaders tt) (rp_header rp),
      re_duration = rp_duration rp div 1000000\<rparr>"

definition treat_as_json :: "'sc compiled_tool \<Rightarrow> response \<Rightarrow> bool" where
  "treat_as_json tt rp =
     (let f0 = rs_format (tl_response (ct_def tt)); f = (if f0 = [] then ''auto'' else f0)
      in f = ''json'' \<or> f = ''auto'' \<and> looks_like_json (rp_header rp))"

text \<open>The decoding step: \<open>Inl None\<close> is a body that is not JSON after all.\<close>

definition decode_body :: "string \<Rightarrow> goval option" where
  "decode_body body = (if trim_space body = [] then Some VNil else json_unmarshal body)"

definition decode_base64 :: "'sc compiled_tool \<Rightarrow> response \<Rightarrow> goval \<Rightarrow> (engine_error, goval) result" where
  "decode_base64 tt rp v =
     (if \<not> ct_decodeBase64 tt then Inr v
      else case v of
        VStr s \<Rightarrow> (case b64_decode (concat (Utf8.fields s)) of
                    None \<Rightarrow> Inl ((new_error KindUpstreamFailure)\<lparr>ee_status := rp_status rp\<rparr>)
                  | Some d \<Rightarrow> Inr (VStr d))
      | _ \<Rightarrow> Inl (new_error KindInternal))"

definition finish_json :: "(rat \<Rightarrow> int) \<Rightarrow> 'sc compiled_tool \<Rightarrow> tool_result \<Rightarrow> (string, goval) gomap \<Rightarrow> goval
    \<Rightarrow> (engine_error, tool_result) result" where
  "finish_json oor tt res args v =
     (if ct_paginate tt then
        (case v of VStr s \<Rightarrow> Inr (paginated_result oor res s args) | _ \<Rightarrow> Inl (new_error KindInternal))
      else case marshal_indent v of
        None \<Rightarrow> Inl (new_error KindInternal)
      | Some pretty \<Rightarrow>
          Inr (res\<lparr>re_data := Some v, re_isJSON := True, re_text := truncate_str pretty max_text_bytes\<rparr>))"

definition map_response :: "(rat \<Rightarrow> int) \<Rightarrow> 'sc compiled_tool \<Rightarrow> response \<Rightarrow> (string, goval) gomap
    \<Rightarrow> (engine_error, tool_result) result" where
  "map_response oor tt rp args =
     (if \<not> is_success tt (rp_status rp) then Inl (status_error tt rp)
      else let res = base_result tt rp in
      if \<not> treat_as_json tt rp then
        (if rp_truncated rp then
           Inr (res\<lparr>re_text := truncate_str (rp_body rp) max_text_bytes @ truncated_note\<rparr>)
         else if ct_paginate tt then Inr (paginated_result oor res (rp_body rp) args)
         else Inr (res\<lparr>re_text := truncate_str (rp_body rp) max_text_bytes\<rparr>))
      else if rp_truncated rp then Inl ((new_error KindResponseTooLarge)\<lparr>ee_status := rp_status rp\<rparr>)
      else case decode_body (rp_body rp) of
        None \<Rightarrow> Inr (res\<lparr>re_text := truncate_str (rp_body rp) max_text_bytes\<rparr>)
      | Some parsed \<Rightarrow>
          rbind (project parsed (ct_selectPath tt)) (\<lambda>projected.
          rbind (decode_base64 tt rp projected) (\<lambda>v. finish_json oor tt res args v)))"

section \<open>Lemmas\<close>

lemma truncate_str_length: "length (truncate_str s mx) \<le> mx + 16"
  by (simp add: truncate_str_def newline_def ellipsis_def)

lemma excerpt_length: "21 \<le> mx \<Longrightarrow> length (excerpt body mx) \<le> mx + 3"
  by (simp add: excerpt_def Let_def ellipsis_def)

lemma select_headers_fold:
  "map_of (List.fold (\<lambda>name out. let v = header_get h name in if v \<noteq> [] then kv_put name v out else out) allow out0) k = Some v \<Longrightarrow>
   map_of out0 k = Some v \<or> k \<in> set allow \<and> v = header_get h k"
  by (induction allow arbitrary: out0) (fastforce simp: Let_def split: if_splits)+

lemma select_headers_allowed:
  "select_headers allow h = Some out \<Longrightarrow> map_of out k = Some v \<Longrightarrow> k \<in> set allow \<and> v = header_get h k"
  using select_headers_fold[of h allow "[]" k v] by (auto simp: select_headers_def Let_def split: if_splits)

lemma page_bounds:
  fixes rs off n
  defines "p \<equiv> page_of rs off n"
  shows "0 \<le> pg_offset p" "pg_offset p \<le> pg_nextOffset p" "pg_nextOffset p \<le> int (length rs)"
    "pg_length p = pg_nextOffset p - pg_offset p" "pg_length p \<le> max_page_chars"
    "pg_totalLength p = int (length rs)" "pg_hasMore p \<longleftrightarrow> pg_nextOffset p < int (length rs)"
    "pg_hasMore p \<longrightarrow> pg_offset p < pg_nextOffset p"
    "pg_text p = encode_runes (take (nat (pg_length p)) (drop (nat (pg_offset p)) rs))"
proof -
  let ?t = "int (length rs)"
  define m where "m = (if ?t < (if off < 0 then 0 else off) then ?t else (if off < 0 then 0 else off))"
  define l where "l = (if max_page_chars < (if n \<le> 0 then default_page_chars else n) then max_page_chars else (if n \<le> 0 then default_page_chars else n))"
  define e where "e = (if ?t < m + l then ?t else m + l)"
  have p: "p = \<lparr>pg_text = encode_runes (take (nat (e - m)) (drop (nat m) rs)), pg_offset = m, pg_length = e - m,
      pg_totalLength = ?t, pg_nextOffset = e, pg_hasMore = (e < ?t)\<rparr>"
    by (simp only: p_def page_of_def Let_def m_def l_def e_def)
  have m: "0 \<le> m" "m \<le> ?t" by (simp_all add: m_def)
  have l: "0 < l" "l \<le> max_page_chars" by (simp_all add: l_def default_page_chars_def max_page_chars_def)
  have e: "m \<le> e" "e \<le> ?t" "e - m \<le> l" "e < ?t \<Longrightarrow> m < e" using m l(1) by (auto simp: e_def)
  show "0 \<le> pg_offset p" "pg_offset p \<le> pg_nextOffset p" "pg_nextOffset p \<le> int (length rs)"
    "pg_length p = pg_nextOffset p - pg_offset p" "pg_length p \<le> max_page_chars"
    "pg_totalLength p = int (length rs)" "pg_hasMore p \<longleftrightarrow> pg_nextOffset p < int (length rs)"
    "pg_hasMore p \<longrightarrow> pg_offset p < pg_nextOffset p"
    "pg_text p = encode_runes (take (nat (pg_length p)) (drop (nat (pg_offset p)) rs))"
    using m l e by (simp_all add: p)
qed

text \<open>Reading a text page by page with one limit, from an offset.\<close>

function read_pages :: "nat list \<Rightarrow> int \<Rightarrow> int \<Rightarrow> string list" where
  "read_pages rs n off =
     (let p = page_of rs off n in
      pg_text p # (if pg_hasMore p then read_pages rs n (pg_nextOffset p) else []))"
  by pat_completeness auto
termination
proof (relation "measure (\<lambda>(rs, n, off). length rs - nat off)", goal_cases)
  case (2 rs n off p)
  note b = page_bounds[of rs off n, folded 2(1)]
  have "pg_offset p = (if off < 0 then 0 else min off (int (length rs)))"
    unfolding 2(1) page_of_def Let_def by (simp add: min_def)
  thus ?case using 2(2) b by (auto split: if_splits)
qed simp

declare read_pages.simps [simp del]

lemma read_pages_concat:
  "0 \<le> off \<Longrightarrow> off \<le> int (length rs) \<Longrightarrow> concat (read_pages rs n off) = encode_runes (drop (nat off) rs)"
proof (induction rs n off rule: read_pages.induct)
  case (1 rs n off)
  define p where "p = page_of rs off n"
  note b = page_bounds[of rs off n, folded p_def]
  have off: "pg_offset p = off" using "1.prems" unfolding p_def page_of_def Let_def by simp
  have cut: "take (nat (pg_length p)) (drop (nat off) rs) @ drop (nat (pg_nextOffset p)) rs = drop (nat off) rs"
  proof -
    have "nat (pg_nextOffset p) = nat (pg_length p) + nat off" using b off "1.prems" by simp
    thus ?thesis by (metis append_take_drop_id drop_drop)
  qed
  show ?case
  proof (cases "pg_hasMore p")
    case True
    have "concat (read_pages rs n (pg_nextOffset p)) = encode_runes (drop (nat (pg_nextOffset p)) rs)"
      using "1.IH"[OF p_def True] b "1.prems" off by simp
    thus ?thesis using b(9) cut True unfolding read_pages.simps[of rs n off] Let_def p_def[symmetric]
      by (simp add: off flip: encode_runes_append)
  next
    case False
    hence "drop (nat (pg_nextOffset p)) rs = []" using b by simp
    thus ?thesis using b(9) cut False unfolding read_pages.simps[of rs n off] Let_def p_def[symmetric]
      by (simp add: off)
  qed
qed

lemma paginated_text: "re_text (paginated_result oor res s args) = page_json (paginate_text oor s args)"
  by (simp add: paginated_result_def Let_def)

lemma paginated_fields [simp]:
  "re_statusCode (paginated_result oor res s args) = re_statusCode res"
  "re_headers (paginated_result oor res s args) = re_headers res"
  "re_isJSON (paginated_result oor res s args)"
  by (simp_all add: paginated_result_def Let_def)

lemma base_fields [simp]:
  "re_statusCode (base_result tt rp) = rp_status rp"
  "re_headers (base_result tt rp) = select_headers (ct_includeHeaders tt) (rp_header rp)"
  "\<not> re_isJSON (base_result tt rp)" "re_data (base_result tt rp) = None"
  by (simp_all add: base_result_def)

text \<open>What a result of the JSON branch is.\<close>

lemma finish_json_Inr:
  assumes "finish_json oor tt res args v = Inr r"
  shows "re_statusCode r = re_statusCode res \<and> re_headers r = re_headers res \<and> re_isJSON r \<and>
    (if ct_paginate tt then \<exists>s. re_text r = page_json (paginate_text oor s args)
     else re_data r = Some v \<and> length (re_text r) \<le> max_text_bytes + 16)"
  using assms by (auto simp: finish_json_def truncate_str_length paginated_text split: if_splits goval.splits option.splits)

lemma map_response_cases:
  assumes "map_response oor tt rp args = Inr r"
  shows "is_success tt (rp_status rp) \<and>
    ((\<not> re_isJSON r \<and> re_data r = None \<and> length (re_text r) \<le> max_text_bytes + 16 + length truncated_note \<and>
      re_statusCode r = rp_status rp \<and> re_headers r = select_headers (ct_includeHeaders tt) (rp_header rp)) \<or>
     (\<not> rp_truncated rp \<and> ct_paginate tt \<and> r = paginated_result oor (base_result tt rp) (rp_body rp) args) \<or>
     (\<not> rp_truncated rp \<and> treat_as_json tt rp \<and> (\<exists>j p v. decode_body (rp_body rp) = Some j \<and>
        project j (ct_selectPath tt) = Inr p \<and> decode_base64 tt rp p = Inr v \<and>
        finish_json oor tt (base_result tt rp) args v = Inr r)))"
proof -
  have len: "length (truncate_str (rp_body rp) max_text_bytes) \<le> max_text_bytes + 16 + n" for n
    using truncate_str_length[of "rp_body rp" max_text_bytes] by simp
  show ?thesis
    using assms len[of 0] len[of "length truncated_note"] unfolding map_response_def Let_def
    by (auto split: if_splits option.splits)
qed

lemma map_response_Inl:
  assumes "map_response oor tt rp args = Inl e"
  shows "(\<not> is_success tt (rp_status rp) \<and> e = status_error tt rp) \<or>
        (is_success tt (rp_status rp) \<and> ee_kind e \<in> {KindResponseTooLarge, KindUpstreamFailure, KindInternal} \<and> ee_details e = [])"
proof -
  have prj: "ee_kind x = KindUpstreamFailure \<and> ee_details x = []" if "project v path = Inl x" for v path x
    using that by (induction v path rule: project.induct)
      (auto simp: new_error_def split: option.splits if_splits)
  have b64: "ee_kind x \<in> {KindUpstreamFailure, KindInternal} \<and> ee_details x = []" if "decode_base64 tt rp v = Inl x" for v x
    using that by (auto simp: decode_base64_def new_error_def split: if_splits goval.splits option.splits)
  have fin: "ee_kind x = KindInternal \<and> ee_details x = []" if "finish_json oor tt res args v = Inl x" for res v x
    using that by (auto simp: finish_json_def new_error_def split: if_splits goval.splits option.splits)
  show ?thesis
    using assms unfolding map_response_def Let_def
    by (auto split: if_splits option.splits simp: rbind_Inl_iff new_error_def dest: prj b64 fin)
qed

section \<open>Properties\<close>

text \<open>C24: pages tile the text.  Reading a text page by page, with any limit, gives all its
  characters in order, once each; and a page asked for with any arguments lies within the
  text, holds at most twenty thousand characters, starts where it says, and either there is
  more and it made progress, or it reaches the end.\<close>

theorem pages_tile_text:
  "concat (read_pages (runes s) n 0) = encode_runes (runes s) \<and>
   (let p = paginate_text oor s args; total = int (length (runes s)) in
      0 \<le> pg_offset p \<and> pg_nextOffset p \<le> total \<and> pg_totalLength p = total \<and>
      pg_nextOffset p = pg_offset p + pg_length p \<and> 0 \<le> pg_length p \<and> pg_length p \<le> 20000 \<and>
      pg_text p = encode_runes (take (nat (pg_length p)) (drop (nat (pg_offset p)) (runes s))) \<and>
      (if pg_hasMore p then 0 < pg_length p \<and> pg_nextOffset p < total else pg_nextOffset p = total))"
proof -
  define p where "p = paginate_text oor s args"
  note b = page_bounds[of "runes s" "int_arg oor args ''offset'' 0" "int_arg oor args ''limit'' default_page_chars",
      folded paginate_text_def p_def]
  have "concat (read_pages (runes s) n 0) = encode_runes (runes s)" by (simp add: read_pages_concat)
  thus ?thesis using b unfolding Let_def p_def[symmetric] by (auto simp: max_page_chars_def)
qed

text \<open>What a successful result holds.  It is made only from a status the tool counts as
  success; its headers are those the manifest allows, with the upstream's values; without
  pagination its text is at most half a mebibyte and a note; and data is returned only when the
  body was complete.\<close>

lemma map_response_sound:
  assumes "map_response oor tt rp args = Inr r"
  shows "is_success tt (rp_status rp) \<and> re_statusCode r = rp_status rp \<and>
    (case re_headers r of None \<Rightarrow> True
     | Some out \<Rightarrow> list_all (\<lambda>(k, v). k \<in> set (ct_includeHeaders tt)) out) \<and>
    (if re_isJSON r then \<not> rp_truncated rp else re_data r = None) \<and>
    (if ct_paginate tt then True else length (re_text r) \<le> 524288 + 100)"
proof -
  have hd: "re_headers r = select_headers (ct_includeHeaders tt) (rp_header rp)"
    and st: "re_statusCode r = rp_status rp"
    and js: "if re_isJSON r then \<not> rp_truncated rp else re_data r = None"
    and tx: "if ct_paginate tt then True else length (re_text r) \<le> max_text_bytes + 16 + length truncated_note"
    using map_response_cases[OF assms] by (auto dest!: finish_json_Inr split: if_splits)
  have wf: "kv_wf (List.fold (\<lambda>name out. let v = header_get h name in if v \<noteq> [] then kv_put name v out else out) allow out0)"
    if "kv_wf out0" for h allow out0
    using that by (induction allow arbitrary: out0) (auto simp: Let_def)
  have "list_all (\<lambda>(k, v). k \<in> set (ct_includeHeaders tt)) out" if "re_headers r = Some out" for out
  proof -
    have "kv_wf out" using that wf[of "[]"] unfolding hd select_headers_def by (auto simp: Let_def split: if_splits)
    thus ?thesis using select_headers_allowed[of _ _ out] that unfolding hd
      by (force simp: list_all_iff kv_wf_in_set)
  qed
  moreover have "length truncated_note \<le> 84" by code_simp
  ultimately show ?thesis
    using map_response_cases[OF assms] st js tx by (auto simp: max_text_bytes_def split: option.splits)
qed

lemma map_response_sound_witness:
  "\<exists>r. map_response (\<lambda>_. 0) demo_compiled
      \<lparr>rp_status = 204, rp_header = [(''Content-Type'', ''application/json'')], rp_body = ''[1]'', rp_truncated = False,
       rp_duration = 0\<rparr> [] = Inr r \<and> re_statusCode r = 204 \<and> is_success demo_compiled 204"
proof -
  define rp where "rp = \<lparr>rp_status = 204, rp_header = [(''Content-Type'', ''application/json'')], rp_body = ''[1]'',
    rp_truncated = False, rp_duration = 0\<rparr>"
  have "is_ok (map_response (\<lambda>_. 0) demo_compiled rp [])" unfolding rp_def by code_simp
  then obtain r where r: "map_response (\<lambda>_. 0) demo_compiled rp [] = Inr r" by (auto simp: is_ok_iff)
  have "rp_status rp = 204" by (simp add: rp_def)
  with map_response_sound[OF r] r show ?thesis unfolding rp_def by auto
qed

text \<open>What an error discloses.  A status that is not a success becomes the upstream-status
  error with that status and one excerpt of the body of at most 515 bytes; every other failure of
  the mapping carries no part of the body.\<close>

theorem map_response_error:
  assumes "map_response oor tt rp args = Inl e"
  shows "(if is_success tt (rp_status rp)
          then ee_kind e \<in> {KindResponseTooLarge, KindUpstreamFailure, KindInternal} \<and> ee_details e = []
          else ee_kind e = KindUpstreamStatus \<and> ee_status e = rp_status rp \<and>
               list_all (\<lambda>d. length d \<le> 515) (ee_details e) \<and> length (ee_details e) = 1)
       \<and> (if retryable e then ee_kind e = KindUpstreamFailure \<or> ee_status e = 429 \<or> 500 \<le> ee_status e else True)"
proof -
  have ex: "length (excerpt (rp_body rp) 512) \<le> 515" using excerpt_length[of 512] by simp
  note map_response_Inl[OF assms]
  thus ?thesis using ex by (auto simp: status_error_def retryable_def)
qed

lemma map_response_error_witness:
  "\<exists>e. map_response (\<lambda>_. 0) demo_compiled
      \<lparr>rp_status = 404, rp_header = [], rp_body = ''no such item'', rp_truncated = False, rp_duration = 0\<rparr> [] = Inl e \<and>
     ee_kind e = KindUpstreamStatus \<and> ee_status e = 404 \<and> \<not> retryable e"
proof -
  define rp where "rp = \<lparr>rp_status = 404, rp_header = [], rp_body = ''no such item'', rp_truncated = False, rp_duration = 0\<rparr>"
  have "\<not> is_ok (map_response (\<lambda>_. 0) demo_compiled rp [])" unfolding rp_def by code_simp
  then obtain e where e: "map_response (\<lambda>_. 0) demo_compiled rp [] = Inl e"
    by (cases "map_response (\<lambda>_. 0) demo_compiled rp []") auto
  have n: "\<not> is_success demo_compiled (rp_status rp)" unfolding rp_def by code_simp
  have st: "rp_status rp = 404" by (simp add: rp_def)
  from map_response_error[OF e] n have "ee_kind e = KindUpstreamStatus \<and> ee_status e = 404 \<and> \<not> retryable e"
    unfolding st by (auto split: if_splits)
  with e show ?thesis unfolding rp_def by blast
qed

end
