(* ===== verification/Limiter.thy ===== *)
theory Limiter
  imports GoValue GoTime
begin

text \<open>
  \<open>internal/upstream/limiter.go\<close>: the token-bucket limiter.
  Times are nanoseconds, buckets hold \<open>float64\<close> numbers and every
  operation rounds as the hardware does.  \<open>limiter_allow\<close> is
  \<open>MemoryLimiter.Allow\<close> with the clock's reading as an argument; the interface
  \<open>Limiter\<close> is the locale \<open>rate_limiter\<close>, interpreted on it.
\<close>

section \<open>Time\<close>

text \<open>\<open>Duration.Seconds\<close>.\<close>

definition dur_seconds :: "int \<Rightarrow> rat" where
  "dur_seconds d =
     (let q = (if 0 \<le> d then d div second else - ((- d) div second)); r = d - q * second in
      rnd (rnd (of_int q) + rnd (rnd (of_int r) / of_int second)))"

section \<open>The token bucket\<close>

record bucket =
  bk_tokens :: rat
  bk_capacity :: rat
  bk_lastFill :: int

type_synonym limiter = "(string, bucket) gomap"

definition max_limiter_keys :: nat where "max_limiter_keys = 8192"

definition limiter_sweep :: "int \<Rightarrow> limiter \<Rightarrow> limiter" where
  "limiter_sweep now l =
     (if length l \<le> max_limiter_keys then l
      else filter (\<lambda>(k, b). \<not> bk_lastFill b < now - 600 * second) l)"

text \<open>The part of \<open>Allow\<close> that works on the bucket: rescale, refill, take one token.\<close>

definition bucket_rescale :: "rat \<Rightarrow> bucket \<Rightarrow> bucket" where
  "bucket_rescale cap b =
     (if bk_capacity b \<noteq> cap
      then b\<lparr>bk_tokens := (if cap < bk_tokens b then cap else bk_tokens b), bk_capacity := cap\<rparr>
      else b)"

definition bucket_refill :: "int \<Rightarrow> rat \<Rightarrow> bucket \<Rightarrow> bucket" where
  "bucket_refill now cap b =
     (let elapsed = dur_seconds (time_sub now (bk_lastFill b)) in
      if 0 < elapsed then
        let t = rnd (bk_tokens b + rnd (rnd (elapsed * cap) / 60)) in
        b\<lparr>bk_tokens := (if cap < t then cap else t), bk_lastFill := now\<rparr>
      else b)"

definition bucket_take :: "bucket \<Rightarrow> bool \<times> bucket" where
  "bucket_take b = (if bk_tokens b < 1 then (False, b) else (True, b\<lparr>bk_tokens := rnd (bk_tokens b - 1)\<rparr>))"

definition limiter_allow :: "int \<Rightarrow> limiter \<Rightarrow> string \<Rightarrow> int \<Rightarrow> bool \<times> limiter" where
  "limiter_allow now l key ratePerMin =
     (if ratePerMin \<le> 0 then (True, l)
      else
        let cap = rnd (of_int ratePerMin);
            (b0, l0) = (case map_of l key of
                          Some b \<Rightarrow> (b, l)
                        | None \<Rightarrow> let b = \<lparr>bk_tokens = cap, bk_capacity = cap, bk_lastFill = now\<rparr>
                                  in (b, limiter_sweep now (kv_put key b l)));
            (ok, b') = bucket_take (bucket_refill now cap (bucket_rescale cap b0))
        in (ok, kv_put key b' l0))"

section \<open>Invariant\<close>

definition bucket_ok :: "bucket \<Rightarrow> bool" where
  "bucket_ok b = (0 \<le> bk_tokens b \<and> bk_tokens b \<le> bk_capacity b)"

definition limiter_inv :: "limiter \<Rightarrow> bool" where
  "limiter_inv l = (kv_wf l \<and> (\<forall>k b. map_of l k = Some b \<longrightarrow> bucket_ok b))"

lemma rnd_1 [simp]: "rnd 1 = 1"
  using rnd_of_nat[of 1] by simp

lemma rnd_of_int: "0 \<le> i \<Longrightarrow> i < 2 ^ 53 \<Longrightarrow> rnd (of_int i) = of_int i"
  using rnd_of_nat[of "nat i"] by (simp add: nat_less_iff)

lemma rnd_cap_ge1: "0 < r \<Longrightarrow> 1 \<le> rnd (of_int r)"
  using rnd_mono[of 1 "of_int r"] by simp

lemma bucket_rescale_ok: "bucket_ok b \<Longrightarrow> 0 \<le> cap \<Longrightarrow> bucket_ok (bucket_rescale cap b)"
  by (auto simp: bucket_ok_def bucket_rescale_def)

lemma bucket_rescale_capacity [simp]: "bk_capacity (bucket_rescale cap b) = cap"
  by (auto simp: bucket_rescale_def)

lemma bucket_refill_capacity [simp]: "bk_capacity (bucket_refill now cap b) = bk_capacity b"
  by (simp add: bucket_refill_def Let_def)

lemma bucket_refill_ok:
  assumes "bucket_ok b" "bk_capacity b = cap" "0 \<le> cap"
  shows "bucket_ok (bucket_refill now cap b)"
proof -
  have "0 \<le> rnd (bk_tokens b + rnd (rnd (dur_seconds (time_sub now (bk_lastFill b)) * cap) / 60))"
    if "0 < dur_seconds (time_sub now (bk_lastFill b))"
    using that assms by (intro rnd_nonneg add_nonneg_nonneg divide_nonneg_nonneg mult_nonneg_nonneg)
      (auto simp: bucket_ok_def)
  thus ?thesis using assms by (auto simp: bucket_refill_def bucket_ok_def Let_def)
qed

lemma rnd_minus1_le: "1 \<le> t \<Longrightarrow> t \<le> cap \<Longrightarrow> rnd cap = cap \<Longrightarrow> rnd (t - 1) \<le> cap"
  by (metis diff_le_eq le_add_same_cancel1 order_trans rnd_mono zero_le_one)

lemma bucket_take_ok:
  assumes "bucket_ok b" "rnd (bk_capacity b) = bk_capacity b"
  shows "bucket_ok (snd (bucket_take b))"
  using assms rnd_minus1_le[of "bk_tokens b" "bk_capacity b"]
  by (auto simp: bucket_take_def bucket_ok_def intro: rnd_nonneg)

lemma limiter_sweep_wf [simp]: "kv_wf l \<Longrightarrow> kv_wf (limiter_sweep now l)"
  by (simp add: limiter_sweep_def)

lemma limiter_sweep_map_of:
  assumes "kv_wf l"
  shows "map_of (limiter_sweep now l) k = map_of l k \<or>
         (map_of (limiter_sweep now l) k = None \<and>
          (\<exists>b. map_of l k = Some b \<and> bk_lastFill b < now - 600 * second))"
  using assms by (auto simp: limiter_sweep_def map_of_filter_wf split: option.split)

lemma limiter_sweep_fresh:
  assumes "kv_wf l" "map_of l k = Some b" "now \<le> bk_lastFill b"
  shows "map_of (limiter_sweep now l) k = Some b"
  using limiter_sweep_map_of[OF assms(1), of now k] assms(2,3) by (auto simp: second_def)

text \<open>The bucket a call works on, and what the call does to the map, in one equation each.\<close>

definition bucket_for :: "int \<Rightarrow> limiter \<Rightarrow> string \<Rightarrow> rat \<Rightarrow> bucket" where
  "bucket_for now l key cap =
     (case map_of l key of Some b \<Rightarrow> b
      | None \<Rightarrow> \<lparr>bk_tokens = cap, bk_capacity = cap, bk_lastFill = now\<rparr>)"

definition bucket_step :: "int \<Rightarrow> rat \<Rightarrow> bucket \<Rightarrow> bool \<times> bucket" where
  "bucket_step now cap b = bucket_take (bucket_refill now cap (bucket_rescale cap b))"

lemma limiter_allow_verdict:
  "0 < r \<Longrightarrow> fst (limiter_allow now l key r) =
     fst (bucket_step now (rnd (of_int r)) (bucket_for now l key (rnd (of_int r))))"
  by (auto simp: limiter_allow_def bucket_for_def bucket_step_def Let_def split: option.split prod.splits)

lemma limiter_allow_own:
  "0 < r \<Longrightarrow> map_of (snd (limiter_allow now l key r)) key =
     Some (snd (bucket_step now (rnd (of_int r)) (bucket_for now l key (rnd (of_int r)))))"
  by (auto simp: limiter_allow_def bucket_for_def bucket_step_def Let_def split: option.split prod.splits)

lemma limiter_allow_other:
  assumes "kv_wf l" "k \<noteq> key"
  shows "map_of (snd (limiter_allow now l key r)) k = map_of l k \<or>
         (map_of (snd (limiter_allow now l key r)) k = None \<and>
          (\<exists>b. map_of l k = Some b \<and> bk_lastFill b < now - 600 * second))"
  using assms limiter_sweep_map_of[of "kv_put key b l" now k for b]
  by (auto simp: limiter_allow_def Let_def split: option.split prod.splits)

lemma limiter_allow_wf: "kv_wf l \<Longrightarrow> kv_wf (snd (limiter_allow now l key r))"
  by (auto simp: limiter_allow_def Let_def split: option.split prod.splits)

lemma bucket_step_ok:
  assumes "bucket_ok b" "0 < r" "r < 2 ^ 53"
  shows "bucket_ok (snd (bucket_step now (rnd (of_int r)) b))"
proof -
  have "rnd (of_int r) = of_int r" using assms by (simp add: rnd_of_int)
  thus ?thesis using assms
    by (auto simp: bucket_step_def intro!: bucket_take_ok bucket_refill_ok bucket_rescale_ok)
qed

lemma bucket_for_ok: "limiter_inv l \<Longrightarrow> 0 \<le> cap \<Longrightarrow> bucket_ok (bucket_for now l key cap)"
  by (auto simp: bucket_for_def limiter_inv_def bucket_ok_def split: option.split)

lemma limiter_allow_inv:
  assumes "limiter_inv l" "r < 2 ^ 53"
  shows "limiter_inv (snd (limiter_allow now l key r))"
proof (cases "0 < r")
  case True
  let ?l' = "snd (limiter_allow now l key r)"
  have wf: "kv_wf l" using assms by (simp add: limiter_inv_def)
  have "bucket_ok b" if "map_of ?l' k = Some b" for k b
  proof (cases "k = key")
    case True
    thus ?thesis using that limiter_allow_own[OF \<open>0 < r\<close>, of now l key] assms \<open>0 < r\<close>
      by (auto intro!: bucket_step_ok bucket_for_ok rnd_nonneg)
  next
    case False
    thus ?thesis using that limiter_allow_other[OF wf False, of now r] assms
      by (auto simp: limiter_inv_def)
  qed
  thus ?thesis using limiter_allow_wf[OF wf] by (simp add: limiter_inv_def)
qed (use assms in \<open>simp add: limiter_allow_def\<close>)

section \<open>Bursts\<close>

text \<open>A run of calls at one instant, and how many of those for \<open>key\<close> pass.\<close>

fun passes :: "(int \<Rightarrow> 'st \<Rightarrow> string \<Rightarrow> int \<Rightarrow> bool \<times> 'st) \<Rightarrow> int \<Rightarrow> string \<Rightarrow> 'st \<Rightarrow> (string \<times> int) list \<Rightarrow> nat" where
  "passes allow now key l [] = 0"
| "passes allow now key l ((k, r) # cs) =
     (let (ok, l') = allow now l k r in
      (if k = key \<and> ok then 1 else 0) + passes allow now key l' cs)"

abbreviation allowed_at :: "int \<Rightarrow> string \<Rightarrow> limiter \<Rightarrow> (string \<times> int) list \<Rightarrow> nat" where
  "allowed_at \<equiv> passes limiter_allow"

text \<open>A bucket filled at or after \<open>now\<close> has nothing to refill at \<open>now\<close>.\<close>

lemma rnd_nonpos: "x \<le> 0 \<Longrightarrow> rnd x \<le> 0"
  using rnd_mono[of x 0] by simp

lemma dur_seconds_nonpos:
  assumes "d \<le> 0"
  shows "dur_seconds d \<le> 0"
proof (cases "d = 0")
  case False
  have q: "0 \<le> (- d) div second" using assms by (simp add: second_def pos_imp_zdiv_nonneg_iff)
  have "(- d) div second * second \<le> - d" by (simp add: second_def)
  hence r: "d + (- d) div second * second \<le> 0" by linarith
  hence "rat_of_int (d + (- d) div second * second) \<le> 0" by (simp only: of_int_le_0_iff)
  hence "rnd (rnd (of_int (d + (- d) div second * second)) / of_int second) \<le> 0"
    by (intro rnd_nonpos divide_nonpos_pos) (simp_all add: second_def)
  moreover have "rnd (of_int (- ((- d) div second))) \<le> 0" using q by (intro rnd_nonpos) simp
  ultimately show ?thesis
    using False assms unfolding dur_seconds_def Let_def by (auto intro!: rnd_nonpos add_nonpos_nonpos)
qed (simp add: dur_seconds_def second_def)

lemma refill_fresh: "now \<le> bk_lastFill b \<Longrightarrow> bucket_refill now cap b = b"
  using dur_seconds_nonpos[of "time_sub now (bk_lastFill b)"]
  by (simp add: bucket_refill_def Let_def time_sub_def)

lemma dur_seconds_pos:
  assumes "0 < d"
  shows "0 < dur_seconds d"
proof -
  define q r where qr: "q = d div second" "r = d mod second"
  have r: "0 \<le> r" "r < 10 ^ 9" and q: "0 \<le> q" and d: "d = q * second + r"
    using assms by (simp_all add: qr second_def pos_imp_zdiv_nonneg_iff)
  have ds: "dur_seconds d = rnd (rnd (of_int q) + rnd (rnd (of_int r) / of_int second))"
  proof -
    have "d - d div second * second = r" by (simp add: qr minus_div_mult_eq_mod)
    thus ?thesis using assms unfolding dur_seconds_def Let_def qr(1) by (simp only: if_True less_imp_le)
  qed
  have ri: "rnd (of_int r) = of_int r" using r by (simp add: rnd_of_int)
  have f0: "0 \<le> rnd (of_int r / of_int second)"
    using r by (intro rnd_nonneg divide_nonneg_nonneg) (simp_all add: second_def)
  show ?thesis
  proof (cases "q = 0")
    case True
    hence "1 \<le> r" using assms d r by simp
    hence "pow2 (- 30) \<le> of_int r / of_int second" by (simp add: second_def field_simps pow2_def)
    hence "rnd (pow2 (- 30)) \<le> rnd (of_int r / of_int second)" by (rule rnd_mono)
    hence "rnd (pow2 (- 30)) \<le> dur_seconds d"
      using rnd_mono[of "pow2 (- 30)"] by (simp add: ds ri True rnd_pow2)
    hence "pow2 (- 30) \<le> dur_seconds d" by (simp add: rnd_pow2)
    thus ?thesis using pow2_pos[of "- 30"] by linarith
  next
    case False
    hence "1 \<le> rnd (of_int q)" using q by (intro rnd_cap_ge1) simp
    hence "1 \<le> rnd (of_int q) + rnd (of_int r / of_int second)" using f0 by linarith
    hence "rnd 1 \<le> dur_seconds d" unfolding ds ri by (rule rnd_mono)
    thus ?thesis by simp
  qed
qed

lemma refill_lastFill: "now \<le> bk_lastFill (bucket_refill now cap b)"
proof (cases "now \<le> bk_lastFill b")
  case False
  hence "0 < dur_seconds (time_sub now (bk_lastFill b))"
    by (intro dur_seconds_pos) (simp add: time_sub_def)
  thus ?thesis by (simp add: bucket_refill_def Let_def)
qed (simp add: refill_fresh)

lemma bucket_step_lastFill: "now \<le> bk_lastFill (snd (bucket_step now cap b))"
  using refill_lastFill[of now cap "bucket_rescale cap b"]
  by (simp add: bucket_step_def bucket_take_def)

lemma bucket_step_capacity: "bk_capacity (snd (bucket_step now cap b)) = cap"
  by (simp add: bucket_step_def bucket_take_def)

text \<open>A bucket with at most \<open>n\<close> tokens lets at most \<open>n\<close> calls through at one instant.\<close>

lemma bucket_step_tokens:
  assumes "now \<le> bk_lastFill b" "bk_capacity b = cap" "bk_tokens b \<le> of_nat n" "n < 2 ^ 53"
  shows "fst (bucket_step now cap b) \<Longrightarrow> 1 \<le> n \<and> bk_tokens (snd (bucket_step now cap b)) \<le> of_nat (n - 1)"
    and "\<not> fst (bucket_step now cap b) \<Longrightarrow> bk_tokens (snd (bucket_step now cap b)) \<le> of_nat n"
proof -
  have st: "bucket_step now cap b = bucket_take b"
    using assms by (simp add: bucket_step_def bucket_rescale_def refill_fresh)
  show "\<not> fst (bucket_step now cap b) \<Longrightarrow> bk_tokens (snd (bucket_step now cap b)) \<le> of_nat n"
    using assms by (simp add: st bucket_take_def split: if_splits)
  assume ok: "fst (bucket_step now cap b)"
  hence t: "1 \<le> bk_tokens b" "bk_tokens (snd (bucket_step now cap b)) = rnd (bk_tokens b - 1)"
    by (auto simp: st bucket_take_def split: if_splits)
  have n: "1 \<le> n"
  proof (rule ccontr)
    assume "\<not> 1 \<le> n"
    hence "n = 0" by simp
    thus False using t(1) assms(3) by simp
  qed
  have "bk_tokens b - 1 \<le> of_nat (n - 1)" using assms(3) n by (simp add: of_nat_diff)
  hence "rnd (bk_tokens b - 1) \<le> rnd (of_nat (n - 1))" by (rule rnd_mono)
  also have "\<dots> = of_nat (n - 1)" using assms(4) by (intro rnd_of_nat) simp
  finally show "1 \<le> n \<and> bk_tokens (snd (bucket_step now cap b)) \<le> of_nat (n - 1)"
    using n t(2) by simp
qed


lemma allowed_at_fresh:
  assumes "kv_wf l" "map_of l key = Some b" "now \<le> bk_lastFill b" "bk_capacity b = of_int r"
    "bk_tokens b \<le> of_nat n" "n < 2 ^ 53" "0 < r" "r < 2 ^ 53"
    "\<forall>(k, r')\<in>set cs. k = key \<longrightarrow> r' = r"
  shows "allowed_at now key l cs \<le> n"
  using assms
proof (induction cs arbitrary: l b n)
  case (Cons c cs)
  obtain k r' where c: "c = (k, r')" by fastforce
  obtain ok l' where l': "limiter_allow now l k r' = (ok, l')" by fastforce
  have wf: "kv_wf l'" using limiter_allow_wf[OF Cons.prems(1), of now k r'] l' by simp
  have cap: "rnd (of_int r) = of_int r" using Cons.prems(7,8) by (simp add: rnd_of_int)
  show ?case
  proof (cases "k = key")
    case False
    hence "map_of l' key = Some b"
      using limiter_allow_other[OF Cons.prems(1), of key k now r'] l' Cons.prems(2,3)
      by (auto simp: second_def)
    hence "allowed_at now key l' cs \<le> n"
      by (intro Cons.IH[OF wf _ Cons.prems(3-8)]) (use Cons.prems(9) in auto)
    thus ?thesis using False c l' by simp
  next
    case True
    hence r': "r' = r" using Cons.prems(9) c by auto
    define b' where "b' = snd (bucket_step now (of_int r) b)"
    have bf: "bucket_for now l key (of_int r) = b" using Cons.prems(2) by (simp add: bucket_for_def)
    have m: "map_of l' key = Some b'"
      using limiter_allow_own[OF Cons.prems(7), of now l key] l' True r' cap bf by (simp add: b'_def)
    have ok: "ok = fst (bucket_step now (of_int r) b)"
      using limiter_allow_verdict[OF Cons.prems(7), of now l key] l' True r' cap bf by simp
    note st = bucket_step_tokens[OF Cons.prems(3,4,5,6)]
    have lf: "now \<le> bk_lastFill b'" "bk_capacity b' = of_int r"
      by (simp_all add: b'_def bucket_step_lastFill bucket_step_capacity)
    have cs: "\<forall>(k, r')\<in>set cs. k = key \<longrightarrow> r' = r" using Cons.prems(9) by auto
    show ?thesis
    proof (cases ok)
      case True
      hence "1 \<le> n" "bk_tokens b' \<le> of_nat (n - 1)" using st(1) ok b'_def by auto
      hence "allowed_at now key l' cs \<le> n - 1"
        using Cons.prems(6) by (intro Cons.IH[OF wf m lf _ _ Cons.prems(7,8) cs]) auto
      thus ?thesis using c l' \<open>1 \<le> n\<close> by auto
    next
      case False
      hence "bk_tokens b' \<le> of_nat n" using st(2) ok b'_def by auto
      hence "allowed_at now key l' cs \<le> n"
        using Cons.prems(6) by (intro Cons.IH[OF wf m lf _ _ Cons.prems(7,8) cs]) auto
      thus ?thesis using c l' False by simp
    qed
  qed
qed simp

lemma allowed_at_le:
  assumes "limiter_inv l" "0 < r" "r < 2 ^ 53" "\<forall>(k, r')\<in>set cs. r' < 2 ^ 53 \<and> (k = key \<longrightarrow> r' = r)"
  shows "allowed_at now key l cs \<le> nat r"
  using assms
proof (induction cs arbitrary: l)
  case (Cons c cs)
  obtain k r' where c: "c = (k, r')" by fastforce
  obtain ok l' where l': "limiter_allow now l k r' = (ok, l')" by fastforce
  have inv: "limiter_inv l'"
    using limiter_allow_inv[OF Cons.prems(1), of r' now k] l' c Cons.prems(4) by auto
  have cs: "\<forall>(k, r')\<in>set cs. r' < 2 ^ 53 \<and> (k = key \<longrightarrow> r' = r)" using Cons.prems(4) by auto
  show ?case
  proof (cases "k = key")
    case False
    thus ?thesis using Cons.IH[OF inv Cons.prems(2,3) cs] c l' by simp
  next
    case True
    hence r': "r' = r" using Cons.prems(4) c by auto
    have cap: "rnd (of_int r) = of_int r" using Cons.prems(2,3) by (simp add: rnd_of_int)
    define b where "b = bucket_refill now (of_int r) (bucket_rescale (of_int r) (bucket_for now l key (of_int r)))"
    have b: "bucket_ok b" "bk_capacity b = of_int r" "now \<le> bk_lastFill b"
      using bucket_for_ok[OF Cons.prems(1), of "of_int r" now key] Cons.prems(2)
      by (auto simp: b_def refill_lastFill intro!: bucket_refill_ok bucket_rescale_ok)
    have tk: "bk_tokens b \<le> of_nat (nat r)" using b Cons.prems(2) by (simp add: bucket_ok_def)
    define b' where "b' = snd (bucket_take b)"
    have take: "bucket_step now (of_int r) b = bucket_take b"
      using b by (simp add: bucket_step_def bucket_rescale_def refill_fresh)
    have m: "map_of l' key = Some b'" and ok: "ok = fst (bucket_take b)"
      using limiter_allow_own[OF Cons.prems(2), of now l key]
        limiter_allow_verdict[OF Cons.prems(2), of now l key] l' True r' cap
      by (simp_all add: b'_def b_def bucket_step_def)
    have lf: "now \<le> bk_lastFill b'" "bk_capacity b' = of_int r"
      using b by (simp_all add: b'_def bucket_take_def)
    have n: "nat r < 2 ^ 53" using Cons.prems(3) by simp
    note st = bucket_step_tokens[OF b(3,2) tk n, unfolded take, folded b'_def ok]
    have cs': "\<forall>(k, r')\<in>set cs. k = key \<longrightarrow> r' = r" using cs by auto
    have wf: "kv_wf l'" using inv by (simp add: limiter_inv_def)
    show ?thesis
    proof (cases ok)
      case True
      hence "1 \<le> nat r" "bk_tokens b' \<le> of_nat (nat r - 1)" using st(1) by auto
      hence "allowed_at now key l' cs \<le> nat r - 1"
        using n by (intro allowed_at_fresh[OF wf m lf _ _ Cons.prems(2,3) cs']) auto
      thus ?thesis using c l' \<open>1 \<le> nat r\<close> by auto
    next
      case False
      hence "bk_tokens b' \<le> of_nat (nat r)" using st(2) by auto
      hence "allowed_at now key l' cs \<le> nat r"
        using n by (intro allowed_at_fresh[OF wf m lf _ _ Cons.prems(2,3) cs']) auto
      thus ?thesis using c l' False by simp
    qed
  qed
qed simp

section \<open>The interface\<close>

text \<open>
  The interface \<open>Limiter\<close> the executor calls: a non-positive budget is unlimited
  and free, the limiter keeps its invariant, and at one instant a key never gets
  more than its budget.
\<close>

locale rate_limiter =
  fixes allow :: "int \<Rightarrow> 'st \<Rightarrow> string \<Rightarrow> int \<Rightarrow> bool \<times> 'st"
    and inv :: "'st \<Rightarrow> bool"
  assumes unlimited: "r \<le> 0 \<Longrightarrow> allow now s k r = (True, s)"
    and inv_allow: "inv s \<Longrightarrow> r < 2 ^ 53 \<Longrightarrow> inv (snd (allow now s k r))"
    and burst: "inv s \<Longrightarrow> 0 < r \<Longrightarrow> r < 2 ^ 53 \<Longrightarrow>
      \<forall>(k, r')\<in>set cs. r' < 2 ^ 53 \<and> (k = key \<longrightarrow> r' = r) \<Longrightarrow> passes allow now key s cs \<le> nat r"
begin

lemma unlimited_all:
  assumes "\<forall>(k, r)\<in>set cs. r \<le> 0"
  shows "passes allow now key s cs = length (filter (\<lambda>(k, r). k = key) cs)"
  using assms by (induction cs arbitrary: s) (auto simp: unlimited)

lemma total_burst:
  assumes "inv s" "finite K" "\<forall>k\<in>K. 0 < rate k \<and> rate k < 2 ^ 53"
    "\<forall>(k, r)\<in>set cs. k \<in> K \<and> r = rate k"
  shows "(\<Sum>k\<in>K. passes allow now k s cs) \<le> (\<Sum>k\<in>K. nat (rate k))"
  using assms by (intro sum_mono burst) auto

end

interpretation memory_limiter: rate_limiter limiter_allow limiter_inv
proof
  fix s :: limiter and r now k key cs
  show "r \<le> 0 \<Longrightarrow> limiter_allow now s k r = (True, s)" by (simp add: limiter_allow_def)
  show "limiter_inv s \<Longrightarrow> r < 2 ^ 53 \<Longrightarrow> limiter_inv (snd (limiter_allow now s k r))"
    by (rule limiter_allow_inv)
  show "limiter_inv s \<Longrightarrow> 0 < r \<Longrightarrow> r < 2 ^ 53 \<Longrightarrow>
      \<forall>(k, r')\<in>set cs. r' < 2 ^ 53 \<and> (k = key \<longrightarrow> r' = r) \<Longrightarrow> allowed_at now key s cs \<le> nat r"
    by (rule allowed_at_le)
qed

section \<open>Properties\<close>

text \<open>C29: the limiter bounds bursts: in any run of calls at one instant, with calls
  for other keys (and their sweeps) in between, the calls let through for all the
  limited keys together never exceed the sum of their budgets, and the limiter keeps
  its invariant, every bucket holding between no token and its capacity.\<close>

theorem limiter_burst_bound:
  assumes "limiter_inv l" "finite K" "\<forall>k\<in>K. 0 < rate k \<and> rate k < 2 ^ 53"
    "\<forall>(k, r)\<in>set cs. k \<in> K \<and> r = rate k" "r < 2 ^ 53"
  shows "(\<Sum>k\<in>K. allowed_at now k l cs) \<le> (\<Sum>k\<in>K. nat (rate k)) \<and>
         limiter_inv (snd (limiter_allow t l key r))"
  using memory_limiter.total_burst[OF assms(1-4)] memory_limiter.inv_allow[OF assms(1,5)] by simp

lemma limiter_burst_bound_witness:
  "(\<Sum>k\<in>{''a''}. allowed_at 0 k [] [(''a'', 2), (''a'', 2), (''a'', 2)]) \<le> 2"
  using limiter_burst_bound[of "[]" "{''a''}" "\<lambda>_. 2" "[(''a'', 2), (''a'', 2), (''a'', 2)]" 2 0 0 "''a''"]
  by (simp add: limiter_inv_def)

lemma dur_seconds_ge:
  assumes "0 \<le> n" "n < 2 ^ 53" "n * second \<le> d"
  shows "of_int n \<le> dur_seconds d"
proof -
  have s: "0 < second" by (simp add: second_def)
  have d: "0 \<le> d" using assms s by (meson mult_nonneg_nonneg less_imp_le order_trans)
  have q: "n \<le> d div second" using assms s by (simp add: second_def)
  have "0 \<le> d - d div second * second" using s by (simp add: minus_div_mult_eq_mod)
  hence "rat_of_int 0 \<le> of_int (d - d div second * second)" by (simp only: of_int_le_iff)
  hence "0 \<le> rnd (rnd (of_int (d - d div second * second)) / of_int second)"
    using s by (intro rnd_nonneg divide_nonneg_nonneg) (auto simp: second_def)
  moreover have "rnd (of_int n) \<le> rnd (of_int (d div second))"
    using q by (intro rnd_mono) simp
  ultimately have "rnd (of_int n) \<le> rnd (of_int (d div second)) +
      rnd (rnd (of_int (d - d div second * second)) / of_int second)" by linarith
  hence "rnd (rnd (of_int n)) \<le> dur_seconds d"
    using d unfolding dur_seconds_def Let_def by (simp only: if_True) (rule rnd_mono)
  thus ?thesis using assms by (simp add: rnd_of_int)
qed

lemma refill_idle:
  assumes "bucket_ok b" "bk_capacity b = of_int r" "0 < r" "r < 2 ^ 40" "bk_lastFill b + 600 * second \<le> now"
  shows "bucket_refill now (of_int r) b = \<lparr>bk_tokens = of_int r, bk_capacity = of_int r, bk_lastFill = now\<rparr>"
proof -
  define e where "e = dur_seconds (time_sub now (bk_lastFill b))"
  have "600 * second \<le> time_sub now (bk_lastFill b)" using assms(5) by (simp add: time_sub_def second_def)
  hence e: "600 \<le> e" using dur_seconds_ge[of 600] by (simp add: e_def)
  have "of_int (600 * r) \<le> e * of_int r" using e assms(3) by simp
  hence "rnd (of_int (600 * r)) \<le> rnd (e * of_int r)" by (rule rnd_mono)
  hence "of_int (600 * r) \<le> rnd (e * of_int r)" using assms by (subst (asm) rnd_of_int) auto
  hence "of_int r \<le> rnd (e * of_int r) / 60" using assms(3) by simp
  hence "rnd (of_int r) \<le> rnd (rnd (e * of_int r) / 60)" by (rule rnd_mono)
  hence "of_int r \<le> bk_tokens b + rnd (rnd (e * of_int r) / 60)"
    using assms by (subst (asm) rnd_of_int) (auto simp: bucket_ok_def)
  hence "rnd (of_int r) \<le> rnd (bk_tokens b + rnd (rnd (e * of_int r) / 60))" by (rule rnd_mono)
  hence "of_int r \<le> rnd (bk_tokens b + rnd (rnd (e * of_int r) / 60))"
    using assms by (subst (asm) rnd_of_int) auto
  hence "bucket_refill now (of_int r) b = b\<lparr>bk_tokens := of_int r, bk_lastFill := now\<rparr>"
    using e by (simp add: bucket_refill_def Let_def flip: e_def)
  thus ?thesis using assms(2) by (cases b) simp
qed

text \<open>Sweeping is invisible: for a bucket idle for more than ten minutes (the
  only ones a sweep deletes) a later call has the same verdict and leaves the same
  bucket whether or not the bucket was deleted in the meantime, because ten idle
  minutes refill any bucket completely.\<close>

theorem limiter_sweep_invisible:
  assumes "limiter_inv l" "map_of l key = Some b" "bk_lastFill b < swept - 600 * second" "swept \<le> now"
    "0 < r" "r < 2 ^ 40"
  shows "fst (limiter_allow now l key r) = fst (limiter_allow now (kv_del key l) key r) \<and>
         map_of (snd (limiter_allow now l key r)) key = map_of (snd (limiter_allow now (kv_del key l) key r)) key"
proof -
  have cap: "rnd (of_int r) = of_int r" using assms by (simp add: rnd_of_int)
  have wf: "kv_wf l" "bucket_ok b" using assms by (auto simp: limiter_inv_def)
  have "bk_lastFill (bucket_rescale (of_int r) b) = bk_lastFill b" by (simp add: bucket_rescale_def)
  hence "bucket_refill now (of_int r) (bucket_rescale (of_int r) b) =
      \<lparr>bk_tokens = of_int r, bk_capacity = of_int r, bk_lastFill = now\<rparr>"
    using assms wf by (intro refill_idle bucket_rescale_ok) auto
  moreover have "bucket_refill now (of_int r) (bucket_rescale (of_int r)
      \<lparr>bk_tokens = of_int r, bk_capacity = of_int r, bk_lastFill = now\<rparr>) =
      \<lparr>bk_tokens = of_int r, bk_capacity = of_int r, bk_lastFill = now\<rparr>"
    by (simp add: bucket_rescale_def refill_fresh)
  ultimately show ?thesis
    using assms wf
    by (simp add: limiter_allow_verdict limiter_allow_own cap bucket_for_def bucket_step_def)
qed

lemma limiter_sweep_invisible_witness:
  "fst (limiter_allow (700 * second) [(''a'', \<lparr>bk_tokens = 0, bk_capacity = 5, bk_lastFill = 0\<rparr>)] ''a'' 5) =
   fst (limiter_allow (700 * second) [] ''a'' 5)"
  using limiter_sweep_invisible[of "[(''a'', \<lparr>bk_tokens = 0, bk_capacity = 5, bk_lastFill = 0\<rparr>)]" "''a''"
      "\<lparr>bk_tokens = 0, bk_capacity = 5, bk_lastFill = 0\<rparr>" "700 * second" "700 * second" 5]
  by (simp add: limiter_inv_def bucket_ok_def second_def kv_wf_def kv_del_def)

end
