(* ===== verification/Gate.thy ===== *)
theory Gate
  imports Prelude
begin

text \<open>
  \<open>internal/upstream/limiter.go\<close>, the concurrency gate.  A semaphore is a buffered
  channel: its capacity and how many slots are taken.  \<open>Gate.sems\<close> maps a key to
  the channel in use; a changed limit makes a new channel and leaves the holders of
  the old one to drain it, so channels live in a store of their own.  \<open>Acquire\<close> is
  two steps (fetch the channel, then wait for a slot or for the context), which
  other callers interleave with; a ticket is a release function with its
  \<open>sync.Once\<close>.
\<close>

section \<open>State\<close>

record chan =
  ch_cap :: nat
  ch_held :: nat

record gate =
  gt_sems :: "(string, nat) gomap"
  gt_chans :: "chan list"
  gt_waiting :: "nat list"
  gt_tickets :: "(nat \<times> bool) list"

definition new_gate :: gate where
  "new_gate = \<lparr>gt_sems = [], gt_chans = [], gt_waiting = [], gt_tickets = []\<rparr>"

section \<open>Operations\<close>

text \<open>\<open>Gate.sem\<close>: the channel for the key, replaced when the limit changed.\<close>

definition gate_sem :: "string \<Rightarrow> nat \<Rightarrow> gate \<Rightarrow> nat \<times> gate" where
  "gate_sem key mx g =
     (case map_of (gt_sems g) key of
        Some i \<Rightarrow>
          if i < length (gt_chans g) \<and> ch_cap (gt_chans g ! i) = mx then (i, g)
          else (length (gt_chans g),
                g\<lparr>gt_sems := kv_put key (length (gt_chans g)) (gt_sems g),
                  gt_chans := gt_chans g @ [\<lparr>ch_cap = mx, ch_held = 0\<rparr>]\<rparr>)
      | None \<Rightarrow>
          (length (gt_chans g),
           g\<lparr>gt_sems := kv_put key (length (gt_chans g)) (gt_sems g),
             gt_chans := gt_chans g @ [\<lparr>ch_cap = mx, ch_held = 0\<rparr>]\<rparr>))"

text \<open>\<open>Acquire\<close> up to its \<open>select\<close>; \<open>None\<close> is the unlimited case, which takes no slot.\<close>

definition gate_enter :: "string \<Rightarrow> int \<Rightarrow> gate \<Rightarrow> nat option \<times> gate" where
  "gate_enter key mx g =
     (if mx \<le> 0 then (None, g)
      else let (i, g') = gate_sem key (nat mx) g in (Some i, g'\<lparr>gt_waiting := i # gt_waiting g'\<rparr>))"

definition upd_held :: "(nat \<Rightarrow> nat) \<Rightarrow> nat \<Rightarrow> chan list \<Rightarrow> chan list" where
  "upd_held f i cs = cs[i := (cs ! i)\<lparr>ch_held := f (ch_held (cs ! i))\<rparr>]"

text \<open>The send case of the \<open>select\<close>, enabled while the channel has room.\<close>

definition gate_send :: "nat \<Rightarrow> gate \<Rightarrow> gate option" where
  "gate_send i g =
     (if i \<in> set (gt_waiting g) \<and> i < length (gt_chans g) \<and> ch_held (gt_chans g ! i) < ch_cap (gt_chans g ! i)
      then Some (g\<lparr>gt_waiting := remove1 i (gt_waiting g),
                   gt_chans := upd_held Suc i (gt_chans g),
                   gt_tickets := gt_tickets g @ [(i, False)]\<rparr>)
      else None)"

text \<open>The \<open>ctx.Done()\<close> case: the caller leaves with a release that does nothing.\<close>

definition gate_cancel :: "nat \<Rightarrow> gate \<Rightarrow> gate option" where
  "gate_cancel i g =
     (if i \<in> set (gt_waiting g) then Some (g\<lparr>gt_waiting := remove1 i (gt_waiting g)\<rparr>) else None)"

text \<open>Calling a release function; \<open>None\<close> would be a receive that blocks.\<close>

definition gate_release :: "nat \<Rightarrow> gate \<Rightarrow> gate option" where
  "gate_release t g =
     (let (i, fin) = gt_tickets g ! t in
      if fin then Some g
      else if i < length (gt_chans g) \<and> 0 < ch_held (gt_chans g ! i)
      then Some (g\<lparr>gt_chans := upd_held (\<lambda>h. h - 1) i (gt_chans g),
                   gt_tickets := (gt_tickets g)[t := (i, True)]\<rparr>)
      else None)"

definition gate_forget :: "string \<Rightarrow> gate \<Rightarrow> gate" where
  "gate_forget key g = g\<lparr>gt_sems := kv_del key (gt_sems g)\<rparr>"

inductive gate_step :: "gate \<Rightarrow> gate \<Rightarrow> bool" where
  enter: "gate_step g (snd (gate_enter key mx g))"
| send: "gate_send i g = Some g' \<Longrightarrow> gate_step g g'"
| cancel: "gate_cancel i g = Some g' \<Longrightarrow> gate_step g g'"
| release: "t < length (gt_tickets g) \<Longrightarrow> gate_release t g = Some g' \<Longrightarrow> gate_step g g'"
| forget: "gate_step g (gate_forget key g)"

inductive_cases gate_stepE: "gate_step g g'"

inductive gate_reach :: "gate \<Rightarrow> bool" where
  init: "gate_reach new_gate"
| step: "gate_reach g \<Longrightarrow> gate_step g g' \<Longrightarrow> gate_reach g'"

section \<open>Invariant\<close>

text \<open>The calls in flight through a channel are its tickets not yet released.\<close>

definition in_flight :: "(nat \<times> bool) list \<Rightarrow> nat \<Rightarrow> nat" where
  "in_flight ts i = length (filter (\<lambda>(j, fin). j = i \<and> \<not> fin) ts)"

definition gate_inv :: "gate \<Rightarrow> bool" where
  "gate_inv g =
     ((\<forall>i<length (gt_chans g). ch_held (gt_chans g ! i) = in_flight (gt_tickets g) i) \<and>
      (\<forall>i<length (gt_chans g). ch_held (gt_chans g ! i) \<le> ch_cap (gt_chans g ! i)) \<and>
      (\<forall>t\<in>set (gt_tickets g). fst t < length (gt_chans g)))"

lemma gate_invI:
  assumes "\<And>i. i < length (gt_chans g) \<Longrightarrow> ch_held (gt_chans g ! i) = in_flight (gt_tickets g) i"
    "\<And>i. i < length (gt_chans g) \<Longrightarrow> ch_held (gt_chans g ! i) \<le> ch_cap (gt_chans g ! i)"
    "\<And>t. t \<in> set (gt_tickets g) \<Longrightarrow> fst t < length (gt_chans g)"
  shows "gate_inv g"
  using assms by (simp add: gate_inv_def)

lemma gate_invD:
  assumes "gate_inv g"
  shows "i < length (gt_chans g) \<Longrightarrow> ch_held (gt_chans g ! i) = in_flight (gt_tickets g) i"
    "i < length (gt_chans g) \<Longrightarrow> in_flight (gt_tickets g) i \<le> ch_cap (gt_chans g ! i)"
    "t \<in> set (gt_tickets g) \<Longrightarrow> fst t < length (gt_chans g)"
  using assms by (auto simp: gate_inv_def)

lemma in_flight_append [simp]:
  "in_flight (ts @ [(j, False)]) i = in_flight ts i + (if j = i then 1 else 0)"
  by (simp add: in_flight_def)

lemma in_flight_pos: "t < length ts \<Longrightarrow> ts ! t = (i, False) \<Longrightarrow> 0 < in_flight ts i"
proof -
  assume "t < length ts" "ts ! t = (i, False)"
  hence "(i, False) \<in> set (filter (\<lambda>(j, fin). j = i \<and> \<not> fin) ts)" by (auto simp: in_set_conv_nth)
  thus ?thesis by (metis in_flight_def length_pos_if_in_set)
qed

lemma in_flight_finish:
  "t < length ts \<Longrightarrow> ts ! t = (i, False) \<Longrightarrow>
   in_flight (ts[t := (i, True)]) k = in_flight ts k - (if k = i then 1 else 0)"
proof (induction ts arbitrary: t)
  case (Cons x xs)
  show ?case
  proof (cases t)
    case (Suc t')
    have "0 < in_flight xs i" using Cons.prems Suc by (auto intro: in_flight_pos)
    thus ?thesis using Cons Suc by (auto simp: in_flight_def)
  qed (use Cons.prems in \<open>auto simp: in_flight_def\<close>)
qed simp

lemma gate_inv_new: "gate_inv new_gate"
  by (simp add: gate_inv_def new_gate_def)

lemma in_flight_fresh: "gate_inv g \<Longrightarrow> in_flight (gt_tickets g) (length (gt_chans g)) = 0"
  using gate_invD(3)[of g] by (force simp: in_flight_def filter_empty_conv)

text \<open>A channel appended to the store is idle.\<close>

lemma gate_inv_new_chan:
  assumes "gate_inv g"
  shows "gate_inv (g\<lparr>gt_sems := ss, gt_chans := gt_chans g @ [\<lparr>ch_cap = mx, ch_held = 0\<rparr>]\<rparr>)"
  using assms in_flight_fresh[OF assms]
  by (intro gate_invI) (auto simp: nth_append less_Suc_eq gate_invD dest: gate_invD(3))

lemma gate_sem_inv: "gate_inv g \<Longrightarrow> gate_inv (snd (gate_sem key mx g))"
  by (simp add: gate_sem_def gate_inv_new_chan split: option.split)

lemma gate_inv_frame [simp]:
  "gate_inv (g\<lparr>gt_waiting := w\<rparr>) = gate_inv g" "gate_inv (g\<lparr>gt_sems := ss\<rparr>) = gate_inv g"
  by (simp_all add: gate_inv_def)

lemma gate_enter_inv: "gate_inv g \<Longrightarrow> gate_inv (snd (gate_enter key mx g))"
  using gate_sem_inv[of g key "nat mx"] by (cases "gate_sem key (nat mx) g") (simp add: gate_enter_def)

lemma upd_held_nth [simp]:
  "i < length cs \<Longrightarrow> upd_held f i cs ! j = (if j = i then (cs ! i)\<lparr>ch_held := f (ch_held (cs ! i))\<rparr> else cs ! j)"
  "length (upd_held f i cs) = length cs"
  by (auto simp: upd_held_def nth_list_update)

lemma gate_send_inv: "gate_inv g \<Longrightarrow> gate_send i g = Some g' \<Longrightarrow> gate_inv g'"
  by (intro gate_invI) (auto simp: gate_send_def gate_invD split: if_splits dest: gate_invD(3))

lemma gate_release_inv:
  assumes "gate_inv g" "t < length (gt_tickets g)" "gate_release t g = Some g'"
  shows "gate_inv g'"
proof (cases "snd (gt_tickets g ! t)")
  case True
  thus ?thesis using assms by (auto simp: gate_release_def split: prod.splits)
next
  case False
  then obtain i where i: "gt_tickets g ! t = (i, False)" by (cases "gt_tickets g ! t") auto
  hence g': "g' = g\<lparr>gt_chans := upd_held (\<lambda>h. h - 1) i (gt_chans g), gt_tickets := (gt_tickets g)[t := (i, True)]\<rparr>"
    and len: "i < length (gt_chans g)"
    using assms(3) by (auto simp: gate_release_def split: if_splits)
  show ?thesis
  proof (rule gate_invI)
    fix k assume "k < length (gt_chans g')"
    thus "ch_held (gt_chans g' ! k) = in_flight (gt_tickets g') k"
      "ch_held (gt_chans g' ! k) \<le> ch_cap (gt_chans g' ! k)"
      using gate_invD(1,2)[OF assms(1), of k] len
      by (auto simp: g' in_flight_finish[OF assms(2) i] intro: le_trans[OF diff_le_self])
  next
    fix u assume "u \<in> set (gt_tickets g')"
    thus "fst u < length (gt_chans g')"
      using set_update_subset_insert[of "gt_tickets g" t "(i, True)"] gate_invD(3)[OF assms(1), of u] len
      by (auto simp: g')
  qed
qed

lemma gate_step_inv: "gate_step g g' \<Longrightarrow> gate_inv g \<Longrightarrow> gate_inv g'"
proof (induction rule: gate_step.induct)
  case (cancel i g g')
  thus ?case by (auto simp: gate_cancel_def split: if_splits)
qed (auto simp: gate_forget_def intro: gate_enter_inv gate_send_inv gate_release_inv)

lemma gate_reach_inv: "gate_reach g \<Longrightarrow> gate_inv g"
  by (induction rule: gate_reach.induct) (auto intro: gate_inv_new gate_step_inv)

section \<open>Properties\<close>

text \<open>C35: in every state any interleaving of callers, cancellations, releases,
  limit changes and forgotten keys can reach, each channel has at most its capacity
  of calls in flight, exactly as many slots taken as there are calls in flight, and
  calling a release function never blocks and changes nothing the second time.\<close>

theorem gate_bounded:
  assumes "gate_reach g" "i < length (gt_chans g)" "t < length (gt_tickets g)"
  shows "in_flight (gt_tickets g) i = ch_held (gt_chans g ! i) \<and>
         in_flight (gt_tickets g) i \<le> ch_cap (gt_chans g ! i) \<and>
         (\<exists>g'. gate_release t g = Some g' \<and> gate_release t g' = Some g')"
proof (intro conjI)
  note inv = gate_invD[OF gate_reach_inv[OF assms(1)]]
  show "in_flight (gt_tickets g) i = ch_held (gt_chans g ! i)"
    "in_flight (gt_tickets g) i \<le> ch_cap (gt_chans g ! i)"
    using inv(1,2)[OF assms(2)] by simp_all
  obtain j d where j: "gt_tickets g ! t = (j, d)" by fastforce
  have "j < length (gt_chans g)" using inv(3)[OF nth_mem[OF assms(3)]] j by simp
  moreover have "0 < in_flight (gt_tickets g) j" if "\<not> d"
    using that in_flight_pos assms(3) j by simp
  ultimately show "\<exists>g'. gate_release t g = Some g' \<and> gate_release t g' = Some g'"
    using assms(3) j inv(1)[of j] by (cases d) (auto simp: gate_release_def)
qed

text \<open>One caller takes the only slot of a key with limit 1, another waits for it.\<close>

lemma gate_bounded_witness:
  "\<exists>g. gate_reach g \<and> in_flight (gt_tickets g) 0 = 1 \<and> gate_send 0 g = None \<and> gt_waiting g = [0] \<and>
       in_flight (gt_tickets g) 0 \<le> ch_cap (gt_chans g ! 0)"
proof -
  define g1 where "g1 = snd (gate_enter ''i'' 1 new_gate)"
  define g2 where "g2 = the (gate_send 0 g1)"
  define g3 where "g3 = snd (gate_enter ''i'' 1 g2)"
  have "gate_send 0 g1 = Some g2" by (simp add: g2_def g1_def, code_simp)
  hence r: "gate_reach g3"
    unfolding g3_def g1_def by (meson gate_reach.intros gate_step.enter gate_step.send)
  have f: "0 < length (gt_chans g3)" "0 < length (gt_tickets g3)" "in_flight (gt_tickets g3) 0 = 1"
    "gate_send 0 g3 = None" "gt_waiting g3 = [0]"
    unfolding g3_def g2_def g1_def by code_simp+
  from gate_bounded[OF r f(1,2)] r f show ?thesis by blast
qed

end
