(* ===== verification/Breaker.thy ===== *)
theory Breaker
  imports GoTime
begin

text \<open>
  \<open>internal/upstream/breaker.go\<close>: the per-key circuit breaker.  The concrete
  operations work on the map of entries, with its sweep; the abstract machine
  \<open>cb_allow\<close>/\<open>cb_record\<close> is what a single key is promised, and the simulation
  lemmas show the map implements it for every key while the number of keys stays
  within \<open>maxBreakerKeys\<close>.
\<close>

section \<open>State\<close>

datatype breaker_status = StateClosed | StateOpen | StateHalfOpen

record breaker_config =
  failure_threshold :: int
  open_duration :: int
  half_open_successes :: int

definition with_defaults :: "breaker_config \<Rightarrow> breaker_config" where
  "with_defaults c =
     \<lparr>failure_threshold = (if failure_threshold c \<le> 0 then 5 else failure_threshold c),
      open_duration = (if open_duration c \<le> 0 then 30 * second else open_duration c),
      half_open_successes = (if half_open_successes c \<le> 0 then 2 else half_open_successes c)\<rparr>"

record breaker_entry =
  be_state :: breaker_status
  be_failures :: int
  be_successes :: int
  be_openedAt :: int
  be_lastActivity :: int

type_synonym breaker = "(string, breaker_entry) gomap"

definition new_entry :: breaker_entry where
  "new_entry = \<lparr>be_state = StateClosed, be_failures = 0, be_successes = 0,
                be_openedAt = zero_time, be_lastActivity = zero_time\<rparr>"

definition max_breaker_keys :: nat where "max_breaker_keys = 4096"

section \<open>Operations\<close>

definition breaker_sweep :: "int \<Rightarrow> breaker \<Rightarrow> breaker" where
  "breaker_sweep now b =
     (if length b \<le> max_breaker_keys then b
      else filter (\<lambda>(k, e). \<not> (be_state e = StateClosed \<and> be_lastActivity e < now - 3600 * second)) b)"

definition breaker_get :: "int \<Rightarrow> string \<Rightarrow> breaker \<Rightarrow> breaker_entry \<times> breaker" where
  "breaker_get now key b =
     (case map_of b key of Some e \<Rightarrow> (e, b)
      | None \<Rightarrow> (new_entry, breaker_sweep now (kv_put key new_entry b)))"

text \<open>
  Writing through the entry pointer: the map sees the change only while it still
  holds the entry.
\<close>

definition breaker_write :: "string \<Rightarrow> breaker_entry \<Rightarrow> breaker \<Rightarrow> breaker" where
  "breaker_write key e b = (if map_of b key = None then b else kv_put key e b)"

definition entry_allow :: "breaker_config \<Rightarrow> int \<Rightarrow> breaker_entry \<Rightarrow> bool \<times> breaker_entry" where
  "entry_allow cfg now e0 =
     (let e = e0\<lparr>be_lastActivity := now\<rparr> in
      case be_state e of
        StateOpen \<Rightarrow>
          if time_sub now (be_openedAt e) < open_duration cfg then (False, e)
          else (True, e\<lparr>be_state := StateHalfOpen, be_successes := 0\<rparr>)
      | _ \<Rightarrow> (True, e))"

definition entry_record :: "breaker_config \<Rightarrow> int \<Rightarrow> bool \<Rightarrow> breaker_entry \<Rightarrow> breaker_entry" where
  "entry_record cfg now success e0 =
     (let e = e0\<lparr>be_lastActivity := now\<rparr> in
      if success then
        (case be_state e of
           StateHalfOpen \<Rightarrow>
             let e' = e\<lparr>be_successes := be_successes e + 1\<rparr> in
             if half_open_successes cfg \<le> be_successes e'
             then e'\<lparr>be_state := StateClosed, be_failures := 0, be_successes := 0\<rparr> else e'
         | _ \<Rightarrow> e\<lparr>be_state := StateClosed, be_failures := 0\<rparr>)
      else
        let e' = e\<lparr>be_failures := be_failures e + 1, be_successes := 0\<rparr> in
        if be_state e' = StateHalfOpen \<or> failure_threshold cfg \<le> be_failures e'
        then e'\<lparr>be_state := StateOpen, be_openedAt := now\<rparr> else e')"

definition breaker_allow :: "breaker_config \<Rightarrow> int \<Rightarrow> string \<Rightarrow> breaker \<Rightarrow> bool \<times> breaker" where
  "breaker_allow cfg now key b =
     (let (e, b') = breaker_get now key b; (ok, e') = entry_allow cfg now e
      in (ok, breaker_write key e' b'))"

definition breaker_record :: "breaker_config \<Rightarrow> int \<Rightarrow> string \<Rightarrow> bool \<Rightarrow> breaker \<Rightarrow> breaker" where
  "breaker_record cfg now key success b =
     (let (e, b') = breaker_get now key b in breaker_write key (entry_record cfg now success e) b')"

definition breaker_state :: "breaker_config \<Rightarrow> int \<Rightarrow> string \<Rightarrow> breaker \<Rightarrow> breaker_status" where
  "breaker_state cfg now key b =
     (case map_of b key of None \<Rightarrow> StateClosed
      | Some e \<Rightarrow>
          if be_state e = StateOpen \<and> open_duration cfg \<le> time_sub now (be_openedAt e)
          then StateHalfOpen else be_state e)"

definition breaker_reset :: "string \<Rightarrow> breaker \<Rightarrow> breaker" where
  "breaker_reset key b = kv_del key b"

section \<open>The abstract machine of one key\<close>

text \<open>Consecutive failures while closed, the instant it opened, successful probes.\<close>

datatype cb = CbClosed nat | CbOpen int | CbHalf nat

fun cb_allow :: "breaker_config \<Rightarrow> int \<Rightarrow> cb \<Rightarrow> bool \<times> cb" where
  "cb_allow cfg now (CbOpen t) =
     (if time_sub now t < open_duration cfg then (False, CbOpen t) else (True, CbHalf 0))"
| "cb_allow cfg now s = (True, s)"

fun cb_record :: "breaker_config \<Rightarrow> int \<Rightarrow> bool \<Rightarrow> cb \<Rightarrow> cb" where
  "cb_record cfg now True (CbHalf n) =
     (if nat (half_open_successes cfg) \<le> Suc n then CbClosed 0 else CbHalf (Suc n))"
| "cb_record cfg now True s = CbClosed 0"
| "cb_record cfg now False (CbClosed n) =
     (if nat (failure_threshold cfg) \<le> Suc n then CbOpen now else CbClosed (Suc n))"
| "cb_record cfg now False s = CbOpen now"

definition cb_abs :: "breaker_entry \<Rightarrow> cb" where
  "cb_abs e = (case be_state e of
     StateClosed \<Rightarrow> CbClosed (nat (be_failures e))
   | StateOpen \<Rightarrow> CbOpen (be_openedAt e)
   | StateHalfOpen \<Rightarrow> CbHalf (nat (be_successes e)))"

definition cb_of :: "breaker \<Rightarrow> string \<Rightarrow> cb" where
  "cb_of b key = (case map_of b key of None \<Rightarrow> CbClosed 0 | Some e \<Rightarrow> cb_abs e)"

text \<open>The entry invariant: counts are in range for the state they are counted in.\<close>

definition cfg_ok :: "breaker_config \<Rightarrow> bool" where
  "cfg_ok cfg = (1 \<le> failure_threshold cfg \<and> 1 \<le> open_duration cfg \<and> 1 \<le> half_open_successes cfg)"

definition entry_ok :: "breaker_config \<Rightarrow> breaker_entry \<Rightarrow> bool" where
  "entry_ok cfg e = (0 \<le> be_failures e \<and> 0 \<le> be_successes e \<and>
     (case be_state e of
        StateClosed \<Rightarrow> be_failures e < failure_threshold cfg
      | StateOpen \<Rightarrow> failure_threshold cfg \<le> be_failures e
      | StateHalfOpen \<Rightarrow> failure_threshold cfg \<le> be_failures e \<and> be_successes e < half_open_successes cfg))"

definition breaker_inv :: "breaker_config \<Rightarrow> breaker \<Rightarrow> bool" where
  "breaker_inv cfg b = (kv_wf b \<and> (\<forall>k e. map_of b k = Some e \<longrightarrow> entry_ok cfg e))"

lemma with_defaults_ok: "cfg_ok (with_defaults c)"
  by (auto simp: cfg_ok_def with_defaults_def second_def)

lemma new_entry_ok: "cfg_ok cfg \<Longrightarrow> entry_ok cfg new_entry"
  by (simp add: entry_ok_def new_entry_def cfg_ok_def)

lemma entry_allow_ok: "cfg_ok cfg \<Longrightarrow> entry_ok cfg e \<Longrightarrow> entry_ok cfg (snd (entry_allow cfg now e))"
  by (auto simp: entry_allow_def entry_ok_def cfg_ok_def Let_def split: breaker_status.splits)

lemma entry_record_ok: "cfg_ok cfg \<Longrightarrow> entry_ok cfg e \<Longrightarrow> entry_ok cfg (entry_record cfg now s e)"
  by (auto simp: entry_record_def entry_ok_def cfg_ok_def Let_def split: breaker_status.splits)

lemma entry_allow_abs:
  "fst (entry_allow cfg now e) = fst (cb_allow cfg now (cb_abs e))"
  "cb_abs (snd (entry_allow cfg now e)) = snd (cb_allow cfg now (cb_abs e))"
  by (auto simp: entry_allow_def cb_abs_def Let_def split: breaker_status.splits)

lemma entry_record_abs:
  "cfg_ok cfg \<Longrightarrow> entry_ok cfg e \<Longrightarrow> cb_abs (entry_record cfg now s e) = cb_record cfg now s (cb_abs e)"
  by (cases s) (auto simp: entry_record_def cb_abs_def entry_ok_def cfg_ok_def Let_def Suc_nat_eq_nat_zadd1
      nat_le_eq_zle add.commute split: breaker_status.splits)

section \<open>The map implements the machine\<close>

lemma breaker_sweep_map_of:
  assumes "kv_wf b"
  shows "map_of (breaker_sweep now b) k =
    (case map_of b k of None \<Rightarrow> None
     | Some e \<Rightarrow> if max_breaker_keys < length b \<and> be_state e = StateClosed \<and> be_lastActivity e < now - 3600 * second
                 then None else Some e)"
  using assms by (auto simp: breaker_sweep_def map_of_filter_wf split: option.split)

lemma breaker_sweep_wf [simp]: "kv_wf b \<Longrightarrow> kv_wf (breaker_sweep now b)"
  by (simp add: breaker_sweep_def)

definition has_room :: "string \<Rightarrow> breaker \<Rightarrow> bool" where
  "has_room key b = (map_of b key \<noteq> None \<or> length b < max_breaker_keys)"

lemma breaker_get_spec:
  assumes "kv_wf b"
  shows "kv_wf (snd (breaker_get now key b))"
    "cb_abs (fst (breaker_get now key b)) = cb_of b key"
    "has_room key b \<Longrightarrow> map_of (snd (breaker_get now key b)) = (map_of b)(key \<mapsto> fst (breaker_get now key b))"
    "fst (breaker_get now key b) = (case map_of b key of None \<Rightarrow> new_entry | Some e \<Rightarrow> e)"
    "k \<noteq> key \<Longrightarrow> map_of (snd (breaker_get now key b)) k = map_of b k \<or>
        (map_of (snd (breaker_get now key b)) k = None \<and>
         (\<exists>e. map_of b k = Some e \<and> be_state e = StateClosed \<and> be_lastActivity e < now - 3600 * second))"
proof -
  have wf: "kv_wf (kv_put key new_entry b)" using assms by simp
  show "kv_wf (snd (breaker_get now key b))" using assms wf by (simp add: breaker_get_def split: option.split)
  show "cb_abs (fst (breaker_get now key b)) = cb_of b key"
    by (cases "map_of b key") (simp_all add: breaker_get_def cb_of_def, simp add: cb_abs_def new_entry_def)
  show "has_room key b \<Longrightarrow> map_of (snd (breaker_get now key b)) = (map_of b)(key \<mapsto> fst (breaker_get now key b))"
    by (auto simp: breaker_get_def has_room_def breaker_sweep_def kv_put_length split: option.split)
  show "fst (breaker_get now key b) = (case map_of b key of None \<Rightarrow> new_entry | Some e \<Rightarrow> e)"
    by (simp add: breaker_get_def split: option.split)
  show "k \<noteq> key \<Longrightarrow> map_of (snd (breaker_get now key b)) k = map_of b k \<or>
        (map_of (snd (breaker_get now key b)) k = None \<and>
         (\<exists>e. map_of b k = Some e \<and> be_state e = StateClosed \<and> be_lastActivity e < now - 3600 * second))"
    using breaker_sweep_map_of[OF wf, of now k]
    by (auto simp: breaker_get_def split: option.split)
qed

lemma breaker_write_spec:
  "map_of b key = Some e0 \<Longrightarrow> map_of (breaker_write key e b) = (map_of b)(key \<mapsto> e)"
  "kv_wf b \<Longrightarrow> kv_wf (breaker_write key e b)"
  "k \<noteq> key \<Longrightarrow> map_of (breaker_write key e b) k = map_of b k"
  by (auto simp: breaker_write_def)

text \<open>Both operations fetch the entry, change it by some \<open>f\<close>, and write it back.\<close>

definition breaker_update :: "int \<Rightarrow> string \<Rightarrow> (breaker_entry \<Rightarrow> breaker_entry) \<Rightarrow> breaker \<Rightarrow> breaker" where
  "breaker_update now key f b =
     (let (e, b') = breaker_get now key b in breaker_write key (f e) b')"

lemma breaker_record_update: "breaker_record cfg now key s b = breaker_update now key (entry_record cfg now s) b"
  by (simp add: breaker_record_def breaker_update_def)

lemma breaker_allow_update:
  "snd (breaker_allow cfg now key b) = breaker_update now key (snd \<circ> entry_allow cfg now) b"
  "fst (breaker_allow cfg now key b) = fst (entry_allow cfg now (fst (breaker_get now key b)))"
  by (auto simp: breaker_allow_def breaker_update_def Let_def split: prod.splits)

definition forgets :: "cb \<Rightarrow> cb \<Rightarrow> bool" where
  "forgets s s' = (s' = s \<or> (\<exists>n. s = CbClosed n) \<and> s' = CbClosed 0)"

lemma breaker_update_spec:
  assumes inv: "breaker_inv cfg b" and cfg: "cfg_ok cfg"
    and f: "\<And>e. entry_ok cfg e \<Longrightarrow> entry_ok cfg (f e)"
  shows "breaker_inv cfg (breaker_update now key f b)"
    "has_room key b \<Longrightarrow> map_of (breaker_update now key f b) key = Some (f (fst (breaker_get now key b)))"
    "entry_ok cfg (fst (breaker_get now key b))"
    "k \<noteq> key \<Longrightarrow> forgets (cb_of b k) (cb_of (breaker_update now key f b) k)"
proof -
  obtain e b' where g: "breaker_get now key b = (e, b')" by fastforce
  have wf: "kv_wf b" using inv by (simp add: breaker_inv_def)
  note spec = breaker_get_spec[OF wf, where now = now and key = key, unfolded g, simplified]
  have u: "breaker_update now key f b = breaker_write key (f e) b'" by (simp add: breaker_update_def g)
  have eok: "entry_ok cfg e"
    using spec(4) inv new_entry_ok[OF cfg] by (auto simp: breaker_inv_def split: option.splits)
  thus "entry_ok cfg (fst (breaker_get now key b))" by (simp add: g)
  have "entry_ok cfg e'" if m: "map_of (breaker_write key (f e) b') k' = Some e'" for k' e'
  proof (cases "k' = key")
    case True
    thus ?thesis using m f[OF eok] by (auto simp: breaker_write_def split: if_splits)
  next
    case False
    hence "map_of b' k' = Some e'" using m by (simp add: breaker_write_spec(3))
    thus ?thesis using spec(5)[OF False] inv by (auto simp: breaker_inv_def)
  qed
  thus "breaker_inv cfg (breaker_update now key f b)"
    using spec(1) by (simp add: u breaker_inv_def breaker_write_spec)
  show "has_room key b \<Longrightarrow> map_of (breaker_update now key f b) key = Some (f (fst (breaker_get now key b)))"
    using spec(3) by (simp add: u g breaker_write_def)
  assume k: "k \<noteq> key"
  show "forgets (cb_of b k) (cb_of (breaker_update now key f b) k)"
    using spec(5)[OF k] k by (auto simp: u cb_of_def forgets_def breaker_write_spec(3) cb_abs_def)
qed

lemma breaker_refines_machine_lemma:
  assumes cfg: "cfg_ok cfg" and inv: "breaker_inv cfg b" and room: "has_room key b"
  shows "fst (breaker_allow cfg now key b) = fst (cb_allow cfg now (cb_of b key)) \<and>
    cb_of (snd (breaker_allow cfg now key b)) key = snd (cb_allow cfg now (cb_of b key)) \<and>
    cb_of (breaker_record cfg now key s b) key = cb_record cfg now s (cb_of b key) \<and>
    cb_of (breaker_reset key b) key = CbClosed 0 \<and>
    breaker_inv cfg (snd (breaker_allow cfg now key b)) \<and> breaker_inv cfg (breaker_record cfg now key s b) \<and>
    (k = key \<or> forgets (cb_of b k) (cb_of (snd (breaker_allow cfg now key b)) k) \<and>
               forgets (cb_of b k) (cb_of (breaker_record cfg now key s b) k))"
proof -
  have wf: "kv_wf b" using inv by (simp add: breaker_inv_def)
  define e where "e = fst (breaker_get now key b)"
  have e: "cb_abs e = cb_of b key" by (simp add: e_def breaker_get_spec(2)[OF wf])
  note ua = breaker_update_spec[OF inv cfg, where f = "snd \<circ> entry_allow cfg now" and now = now and key = key]
  note ur = breaker_update_spec[OF inv cfg, where f = "entry_record cfg now s" and now = now and key = key]
  have eok: "entry_ok cfg e" using ua(3) entry_allow_ok[OF cfg] by (simp add: e_def)
  have 1: "fst (breaker_allow cfg now key b) = fst (cb_allow cfg now (cb_of b key))"
    by (simp add: breaker_allow_update entry_allow_abs e flip: e_def)
  have 2: "cb_of (snd (breaker_allow cfg now key b)) key = snd (cb_allow cfg now (cb_of b key))"
    using ua(2)[OF _ room] entry_allow_ok[OF cfg]
    by (simp add: breaker_allow_update cb_of_def[of "breaker_update _ _ _ _"] entry_allow_abs e flip: e_def)
  have 3: "cb_of (breaker_record cfg now key s b) key = cb_record cfg now s (cb_of b key)"
    using ur(2)[OF _ room] entry_record_ok[OF cfg]
    by (simp add: breaker_record_update cb_of_def[of "breaker_update _ _ _ _"] entry_record_abs[OF cfg eok] e flip: e_def)
  show ?thesis
    using 1 2 3 ua(1,4) ur(1,4) entry_allow_ok[OF cfg] entry_record_ok[OF cfg] wf
    by (auto simp: breaker_allow_update breaker_record_update breaker_reset_def cb_of_def[of "kv_del _ _"])
qed

text \<open>With room for the key nothing is swept, so the entries of the other keys stay.\<close>

lemma breaker_frame:
  assumes inv: "breaker_inv cfg b" and room: "has_room key b"
  shows "k = key \<or> map_of (breaker_update now key f b) k = map_of b k"
    "k = key \<or> map_of (breaker_reset key b) k = map_of b k"
proof -
  have wf: "kv_wf b" using inv by (simp add: breaker_inv_def)
  show "k = key \<or> map_of (breaker_update now key f b) k = map_of b k"
    using breaker_get_spec(3)[OF wf room, of now]
    by (cases "k = key") (auto simp: breaker_update_def breaker_write_spec(3) split: prod.splits)
  show "k = key \<or> map_of (breaker_reset key b) k = map_of b k" using wf by (auto simp: breaker_reset_def)
qed

lemma breaker_reset_inv: "breaker_inv cfg b \<Longrightarrow> breaker_inv cfg (breaker_reset key b)"
  by (auto simp: breaker_inv_def breaker_reset_def split: if_splits)

lemma breaker_state_abs:
  "breaker_state cfg now key b =
    (case cb_of b key of CbClosed n \<Rightarrow> StateClosed | CbHalf n \<Rightarrow> StateHalfOpen
     | CbOpen t \<Rightarrow> if open_duration cfg \<le> time_sub now t then StateHalfOpen else StateOpen)"
  by (auto simp: breaker_state_def cb_of_def cb_abs_def split: option.split breaker_status.split)

section \<open>Properties\<close>

text \<open>C36: the breaker implements the abstract machine for every key the map has room for,
  that is, a key it holds already or any key while it holds fewer than \<open>maxBreakerKeys\<close>:
  \<open>Allow\<close> gives the machine's verdict, \<open>Allow\<close> and \<open>Record\<close> move the key's state as the
  machine does, \<open>Reset\<close> returns it to closed, and \<open>State\<close> reads it; all three keep the
  invariant and leave the entry of every other key as it is.\<close>

theorem breaker_refines_machine:
  assumes cfg: "cfg_ok cfg" and inv: "breaker_inv cfg b" and room: "has_room key b"
  shows "fst (breaker_allow cfg now key b) = fst (cb_allow cfg now (cb_of b key)) \<and>
    cb_of (snd (breaker_allow cfg now key b)) key = snd (cb_allow cfg now (cb_of b key)) \<and>
    cb_of (breaker_record cfg now key s b) key = cb_record cfg now s (cb_of b key) \<and>
    cb_of (breaker_reset key b) key = CbClosed 0 \<and>
    breaker_state cfg now key b =
      (case cb_of b key of CbClosed n \<Rightarrow> StateClosed | CbHalf n \<Rightarrow> StateHalfOpen
       | CbOpen t \<Rightarrow> if open_duration cfg \<le> time_sub now t then StateHalfOpen else StateOpen) \<and>
    breaker_inv cfg (snd (breaker_allow cfg now key b)) \<and> breaker_inv cfg (breaker_record cfg now key s b) \<and>
    breaker_inv cfg (breaker_reset key b) \<and>
    (\<forall>k. k = key \<or> map_of (snd (breaker_allow cfg now key b)) k = map_of b k \<and>
              map_of (breaker_record cfg now key s b) k = map_of b k \<and>
              map_of (breaker_reset key b) k = map_of b k)"
  using breaker_refines_machine_lemma[OF assms, of now s key] breaker_frame[OF inv room]
    breaker_reset_inv[OF inv] breaker_state_abs[of cfg now key b]
  by (simp add: breaker_allow_update breaker_record_update) blast

lemma breaker_refines_machine_witness:
  "fst (breaker_allow \<lparr>failure_threshold = 5, open_duration = 30, half_open_successes = 2\<rparr> 35 ''a''
     [(''a'', new_entry\<lparr>be_state := StateOpen, be_failures := 5, be_openedAt := 4\<rparr>)]) =
   fst (cb_allow \<lparr>failure_threshold = 5, open_duration = 30, half_open_successes = 2\<rparr> 35 (CbOpen 4))"
proof -
  define cfg where "cfg = \<lparr>failure_threshold = 5, open_duration = 30, half_open_successes = 2\<rparr>"
  define b where "b = [(''a'', new_entry\<lparr>be_state := StateOpen, be_failures := 5, be_openedAt := 4\<rparr>)]"
  have "cfg_ok cfg" "breaker_inv cfg b" "has_room ''a'' b"
    by (simp_all add: cfg_ok_def cfg_def b_def breaker_inv_def kv_wf_def entry_ok_def new_entry_def has_room_def)
  moreover have "cb_of b ''a'' = CbOpen 4" by (simp add: b_def cb_of_def cb_abs_def new_entry_def)
  ultimately show ?thesis
    using breaker_refines_machine[of cfg b "''a''" 35 True] unfolding cfg_def b_def by simp
qed

text \<open>Runs of recorded failures and of admission requests for one key.\<close>

definition record_failures :: "breaker_config \<Rightarrow> string \<Rightarrow> int list \<Rightarrow> breaker \<Rightarrow> breaker" where
  "record_failures cfg key ts b = fold (\<lambda>t b. breaker_record cfg t key False b) ts b"

fun allow_all :: "breaker_config \<Rightarrow> string \<Rightarrow> int list \<Rightarrow> breaker \<Rightarrow> bool list \<times> breaker" where
  "allow_all cfg key [] b = ([], b)"
| "allow_all cfg key (t # ts) b =
     (let (ok, b1) = breaker_allow cfg t key b; (oks, b2) = allow_all cfg key ts b1 in (ok # oks, b2))"

lemma update_has_room:
  assumes "breaker_inv cfg b" "cfg_ok cfg" "has_room key b" "\<And>e. entry_ok cfg e \<Longrightarrow> entry_ok cfg (f e)"
  shows "has_room key (breaker_update now key f b)"
  using breaker_update_spec(2)[OF assms(1,2,4,3)] by (simp add: has_room_def)

lemma record_failures_spec:
  assumes cfg: "cfg_ok cfg"
  shows "breaker_inv cfg b \<Longrightarrow> has_room key b \<Longrightarrow>
    breaker_inv cfg (record_failures cfg key ts b) \<and> has_room key (record_failures cfg key ts b) \<and>
    cb_of (record_failures cfg key ts b) key = fold (\<lambda>t. cb_record cfg t False) ts (cb_of b key)"
proof (induction ts arbitrary: b)
  case (Cons t ts)
  let ?b = "breaker_record cfg t key False b"
  note ref = breaker_refines_machine_lemma[OF cfg Cons.prems, where now = t and s = False]
  have "has_room key ?b"
    unfolding breaker_record_update using Cons.prems cfg entry_record_ok[OF cfg] by (intro update_has_room) auto
  thus ?case using Cons.IH[of ?b] ref by (simp add: record_failures_def)
qed (simp add: record_failures_def)

lemma cb_failures:
  assumes "cfg_ok cfg"
  shows "int n < failure_threshold cfg \<Longrightarrow> fold (\<lambda>t. cb_record cfg t False) ts (CbClosed n) =
    (if int (n + length ts) < failure_threshold cfg then CbClosed (n + length ts) else CbOpen (last ts))"
proof (induction ts arbitrary: n)
  case (Cons t ts)
  have opened: "fold (\<lambda>t. cb_record cfg t False) ts (CbOpen t) = CbOpen (last (t # ts))" for t ts
    by (induction ts arbitrary: t) auto
  show ?case
  proof (cases "int (Suc n) < failure_threshold cfg")
    case True
    thus ?thesis using Cons by (auto simp: nat_le_iff)
  next
    case False
    thus ?thesis using opened[where t = t and ts = ts] by (simp add: nat_le_iff)
  qed
qed simp

text \<open>Failing fast: after \<open>n\<close> consecutive failures of a key that was closed with
  no failures, the circuit is closed with \<open>n\<close> failures counted while \<open>n\<close> is below the
  threshold and open since the last failure otherwise, and a call is admitted exactly
  in the first case or once the open duration has passed since the last failure.\<close>

theorem breaker_fails_fast:
  assumes "cfg_ok cfg" "breaker_inv cfg b" "has_room key b" "cb_of b key = CbClosed 0"
  shows "cb_of (record_failures cfg key ts b) key =
           (if int (length ts) < failure_threshold cfg then CbClosed (length ts) else CbOpen (last ts)) \<and>
         (fst (breaker_allow cfg now key (record_failures cfg key ts b)) \<longleftrightarrow>
           int (length ts) < failure_threshold cfg \<or> open_duration cfg \<le> time_sub now (last ts))"
proof -
  have T: "int 0 < failure_threshold cfg" using assms(1) by (simp add: cfg_ok_def)
  note run = record_failures_spec[OF assms(1-3), of ts]
  have cb: "cb_of (record_failures cfg key ts b) key =
      (if int (length ts) < failure_threshold cfg then CbClosed (length ts) else CbOpen (last ts))"
    using run cb_failures[OF assms(1) T, of ts] assms(4) by simp
  have "fst (breaker_allow cfg now key (record_failures cfg key ts b)) =
      fst (cb_allow cfg now (cb_of (record_failures cfg key ts b) key))"
    using breaker_refines_machine_lemma[OF assms(1)] run by blast
  thus ?thesis using cb by (simp add: not_less)
qed

lemma breaker_fails_fast_witness:
  "\<not> fst (breaker_allow \<lparr>failure_threshold = 2, open_duration = 30, half_open_successes = 2\<rparr> 31 ''a''
       (record_failures \<lparr>failure_threshold = 2, open_duration = 30, half_open_successes = 2\<rparr> ''a'' [1, 2] []))"
  using breaker_fails_fast[of "\<lparr>failure_threshold = 2, open_duration = 30, half_open_successes = 2\<rparr>" "[]" "''a''" "[1, 2]" 31]
  by (simp add: cfg_ok_def breaker_inv_def has_room_def cb_of_def max_breaker_keys_def time_sub_def)

text \<open>The half-open state does not limit probing to one request: once the open
  duration has passed, every call that asks before an outcome is recorded is admitted,
  however many there are.\<close>

theorem half_open_admits_all:
  assumes "cfg_ok cfg" "breaker_inv cfg b" "has_room key b" "cb_of b key = CbOpen t0"
    "open_duration cfg \<le> time_sub t t0"
  shows "fst (allow_all cfg key (t # ts) b) = replicate (Suc (length ts)) True"
proof -
  have allow: "\<exists>b1. breaker_allow cfg t key b = (True, b1) \<and> breaker_inv cfg b1 \<and> has_room key b1 \<and>
        (\<exists>n. cb_of b1 key = CbHalf n)"
    if "breaker_inv cfg b" "has_room key b" "fst (cb_allow cfg t (cb_of b key))"
      "\<exists>n. snd (cb_allow cfg t (cb_of b key)) = CbHalf n" for b t
  proof -
    have "has_room key (snd (breaker_allow cfg t key b))"
      unfolding breaker_allow_update using that assms(1) entry_allow_ok[OF assms(1)]
      by (intro update_has_room) auto
    moreover note breaker_refines_machine_lemma[OF assms(1) that(1,2), where now = t and s = True and k = key]
    ultimately show ?thesis using that by (metis prod.collapse)
  qed
  have half: "breaker_inv cfg b \<Longrightarrow> has_room key b \<Longrightarrow> cb_of b key = CbHalf n \<Longrightarrow>
      fst (allow_all cfg key ts b) = replicate (length ts) True" for b n ts
  proof (induction ts arbitrary: b n)
    case (Cons t ts)
    obtain b1 m where b1: "breaker_allow cfg t key b = (True, b1)" "breaker_inv cfg b1" "has_room key b1"
      "cb_of b1 key = CbHalf m"
      using allow[OF Cons.prems(1,2), of t] Cons.prems(3) by auto
    show ?case using Cons.IH[OF b1(2-4)] b1(1) by (cases "allow_all cfg key ts b1") simp
  qed simp
  obtain b1 m where b1: "breaker_allow cfg t key b = (True, b1)" "breaker_inv cfg b1" "has_room key b1"
    "cb_of b1 key = CbHalf m"
    using allow[OF assms(2,3), of t] assms(4,5) by auto
  show ?thesis using half[OF b1(2-4), of ts] b1(1) by (cases "allow_all cfg key ts b1") simp
qed

lemma half_open_admits_all_witness:
  "fst (allow_all \<lparr>failure_threshold = 2, open_duration = 30, half_open_successes = 2\<rparr> ''a'' [50, 50, 50]
     [(''a'', new_entry\<lparr>be_state := StateOpen, be_failures := 2, be_openedAt := 4\<rparr>)]) = [True, True, True]"
  using half_open_admits_all[of "\<lparr>failure_threshold = 2, open_duration = 30, half_open_successes = 2\<rparr>"
      "[(''a'', new_entry\<lparr>be_state := StateOpen, be_failures := 2, be_openedAt := 4\<rparr>)]" "''a''" 4 50 "[50, 50]"]
  by (simp add: cfg_ok_def breaker_inv_def kv_wf_def entry_ok_def new_entry_def has_room_def cb_of_def cb_abs_def time_sub_def)

text \<open>A full map never trips: when the map holds \<open>maxBreakerKeys\<close> entries that are
  all in use, the entry made for a new key is swept before its outcome is recorded (its
  last activity is still the zero time), so no number of failures changes anything and
  every call for that key is admitted.\<close>

theorem full_breaker_never_opens:
  assumes "max_breaker_keys \<le> length b" "map_of b key = None"
    "\<forall>t\<in>set (now # ts). zero_time < t - 3600 * second \<and>
        (\<forall>(k, e)\<in>set b. be_state e = StateClosed \<longrightarrow> t - 3600 * second \<le> be_lastActivity e)"
  shows "record_failures cfg key ts b = b \<and> breaker_allow cfg now key b = (True, b)"
proof -
  have put: "kv_put key new_entry b = b @ [(key, new_entry)]"
    using assms(2) by (induction b) (auto split: if_splits)
  have get: "breaker_get t key b = (new_entry, b)" if "t \<in> set (now # ts)" for t
  proof -
    have "filter (\<lambda>(k, e). \<not> (be_state e = StateClosed \<and> be_lastActivity e < t - 3600 * second)) b = b"
      using assms(3) that by (intro filter_True) fastforce
    moreover have "zero_time < t - 3600 * second" using assms(3) that by blast
    ultimately show ?thesis
      using assms(1,2) by (simp add: breaker_get_def breaker_sweep_def put, simp add: new_entry_def)
  qed
  have rec: "breaker_record cfg t key False b = b" if "t \<in> set ts" for t
    using get[of t] that assms(2) by (simp add: breaker_record_def breaker_write_def)
  have "breaker_allow cfg now key b = (True, b)"
    using get[of now] assms(2) by (simp add: breaker_allow_def breaker_write_def entry_allow_def new_entry_def)
  moreover have "(\<And>t. t \<in> set us \<Longrightarrow> breaker_record cfg t key False b = b) \<Longrightarrow> record_failures cfg key us b = b" for us
    by (induction us) (auto simp: record_failures_def)
  ultimately show ?thesis using rec by blast
qed

lemma full_breaker_never_opens_witness:
  "\<exists>b. length b = 4096 \<and> record_failures \<lparr>failure_threshold = 5, open_duration = 30, half_open_successes = 2\<rparr> ''a'' [0, 0, 0] b = b \<and> breaker_allow \<lparr>failure_threshold = 5, open_duration = 30, half_open_successes = 2\<rparr> 0 ''a'' b = (True, b)"
proof -
  define b where "b = map (\<lambda>n. (replicate n CHR ''x'', new_entry\<lparr>be_lastActivity := 0\<rparr>)) [0..<4096]"
  have ne: "(''a'' = replicate n CHR ''x'') = False" for n
    by (cases n) simp_all
  have "map_of b ''a'' = None" by (simp add: b_def map_of_eq_None_iff image_iff ne)
  moreover have "length b = 4096" by (simp add: b_def)
  moreover have "\<forall>t\<in>set [0, 0, 0, 0]. zero_time < t - 3600 * second \<and>
      (\<forall>(k, e)\<in>set b. be_state e = StateClosed \<longrightarrow> t - 3600 * second \<le> be_lastActivity e)"
    by (auto simp: b_def zero_time_def second_def)
  ultimately show ?thesis
    using full_breaker_never_opens[of b "''a''" 0 "[0, 0, 0]"]
    by (intro exI[of _ b]) (simp add: max_breaker_keys_def)
qed

end
