(* ===== verification/Executor.thy ===== *)
theory Executor
  imports Response Limiter Gate Breaker
begin

text \<open>
  \<open>internal/engine/executor.go\<close>: one tool call from the arguments to the result,
  through the limiter, the breaker, the gate and the client, which keep their own
  state.  Other calls run meanwhile: what they do to the shared state while this one
  waits for a slot, and while its request is out, is a parameter of the model.
\<close>

section \<open>State and environment\<close>

record executor =
  ex_limiter :: limiter
  ex_breaker :: breaker
  ex_gate :: gate

record 'sc environment =
  ev_libs :: "'sc libs"
  ev_blockedText :: "egress_error \<Rightarrow> string"
  ev_oor :: "rat \<Rightarrow> int"
  ev_breakerCfg :: breaker_config
  ev_client :: client
  ev_net :: "int \<Rightarrow> network"
  ev_limiterNow :: int
  ev_allowNow :: int
  ev_recordNow :: int
  ev_wait :: "executor \<Rightarrow> executor \<times> bool"
  ev_call :: "executor \<Rightarrow> executor"

text \<open>\<open>ev_wait\<close> also says whether the caller's context ended before a slot was free.\<close>

section \<open>Arguments\<close>

definition max_schema_problems :: nat where "max_schema_problems = 10"

definition slash_to_dot :: "string \<Rightarrow> string" where
  "slash_to_dot s = map (\<lambda>c. if c = CHR ''/'' then CHR ''.'' else c) s"

fun collect_problems :: "output_unit \<Rightarrow> string list \<Rightarrow> string list" where
  "collect_problems (OutputUnit loc err es) acc =
     List.fold collect_problems es
       (case err of
          None \<Rightarrow> acc
        | Some e \<Rightarrow> acc @ [(let l = trim_prefix ''/'' loc in if l = [] then ''(root)'' else slash_to_dot l) @ '': '' @ e])"

definition schema_problems :: "output_unit \<Rightarrow> string list" where
  "schema_problems ve =
     (let out = collect_problems ve [] in
      if max_schema_problems < length out
      then take max_schema_problems out @ [''(and '' @ nat_dec (length out - max_schema_problems) @ '' more)'']
      else out)"

definition validate_arguments :: "'sc libs \<Rightarrow> 'sc compiled_tool \<Rightarrow> (string, goval) gomap \<Rightarrow> engine_error option" where
  "validate_arguments lib tt args =
     (case ct_inputSchema tt of
        None \<Rightarrow> Some (new_error KindInternal)
      | Some sch \<Rightarrow>
          (case lib_validate lib sch args of
             None \<Rightarrow> None
           | Some (ValidationError ve) \<Rightarrow> Some ((new_error KindInvalidArguments)\<lparr>ee_details := schema_problems ve\<rparr>)
           | Some OtherValidateError \<Rightarrow> Some (new_error KindInvalidArguments)))"

text \<open>\<open>txt\<close> is the text of a blocked-address error, which formats the address.\<close>

definition classify_transport_error :: "(egress_error \<Rightarrow> string) \<Rightarrow> transport_error \<Rightarrow> engine_error" where
  "classify_transport_error txt e =
     (case te_blocked e of
        Some b \<Rightarrow> (new_error KindEgressBlocked)\<lparr>ee_details := [txt b]\<rparr>
      | None \<Rightarrow> if te_deadline e \<or> te_canceled e then new_error KindTimeout else new_error KindUpstreamFailure)"

section \<open>The call\<close>

definition effective_max_bytes :: "target \<Rightarrow> 'sc compiled_tool \<Rightarrow> int" where
  "effective_max_bytes tg tt =
     (let m0 = tg_maxResponseBytes tg; tm = rs_maxBytes (tl_response (ct_def tt));
          m1 = (if 0 < tm \<and> tm < m0 then tm else m0)
      in if m1 \<le> 0 then default_max_response_bytes else m1)"

text \<open>The deadline of the call, in nanoseconds; the network answers under it.\<close>

definition effective_timeout :: "target \<Rightarrow> int" where
  "effective_timeout tg = (if tg_timeout tg \<le> 0 then default_timeout_ms * 1000000 else tg_timeout tg)"

text \<open>\<open>Gate.Acquire\<close>: the ticket to release, or none for an unlimited gate; the wait ends
  with a slot or with the context.\<close>

definition acquire :: "'sc environment \<Rightarrow> target \<Rightarrow> executor \<Rightarrow> (engine_error, nat option) result \<times> executor" where
  "acquire env tg s =
     (let (ch, g) = gate_enter (tg_instanceID tg) (tg_maxConcurrent tg) (ex_gate s); s1 = s\<lparr>ex_gate := g\<rparr> in
      case ch of
        None \<Rightarrow> (Inr None, s1)
      | Some i \<Rightarrow>
          (let (s2, ended) = ev_wait env s1 in
           case (if ended then None else gate_send i (ex_gate s2)) of
             Some g3 \<Rightarrow> (Inr (Some (length (gt_tickets (ex_gate s2)))), s2\<lparr>ex_gate := g3\<rparr>)
           | None \<Rightarrow>
               (Inl (new_error KindTimeout),
                (case gate_cancel i (ex_gate s2) of Some g3 \<Rightarrow> s2\<lparr>ex_gate := g3\<rparr> | None \<Rightarrow> s2))))"

definition release_slot :: "nat option \<Rightarrow> executor \<Rightarrow> executor" where
  "release_slot tk s =
     (case tk of
        None \<Rightarrow> s
      | Some t \<Rightarrow> (case gate_release t (ex_gate s) of Some g \<Rightarrow> s\<lparr>ex_gate := g\<rparr> | None \<Rightarrow> s))"

text \<open>From the request to the mapped response, while the slot is held.\<close>

definition call_upstream :: "'sc environment \<Rightarrow> target \<Rightarrow> url \<Rightarrow> 'sc compiled \<Rightarrow> 'sc compiled_tool
    \<Rightarrow> (string, goval) gomap \<Rightarrow> executor \<Rightarrow> (engine_error, tool_result) result \<times> executor" where
  "call_upstream env tg base cn tt args s =
     (case build_request (ev_oor env) tg base cn tt args of
        Inl e \<Rightarrow> (Inl e, s)
      | Inr req \<Rightarrow>
          (let r = fst (client_do (ev_net env (effective_timeout tg)) (ev_client env) req (tg_policy tg) (effective_max_bytes tg tt));
               s1 = ev_call env s;
               rec = (\<lambda>ok. s1\<lparr>ex_breaker := breaker_record (ev_breakerCfg env) (ev_recordNow env) (tg_instanceID tg) ok (ex_breaker s1)\<rparr>)
           in case r of
                Inl e \<Rightarrow> (Inl (classify_transport_error (ev_blockedText env) e), rec False)
              | Inr rp \<Rightarrow> (map_response (ev_oor env) tt rp args, rec (rp_status rp < 500))))"

definition execute :: "'sc environment \<Rightarrow> target option \<Rightarrow> 'sc compiled option \<Rightarrow> 'sc compiled_tool option
    \<Rightarrow> (string, goval) gomap option \<Rightarrow> executor \<Rightarrow> (engine_error, tool_result) result \<times> executor" where
  "execute env target conn tl0 args0 s =
     (case (target, conn, tl0) of
        (Some tg, Some cn, Some tt) \<Rightarrow>
          (case tg_baseURL tg of
             None \<Rightarrow> (Inl (new_error KindNotConfigured), s)
           | Some base \<Rightarrow>
             (let args = (case args0 of None \<Rightarrow> [] | Some a \<Rightarrow> a) in
              case validate_arguments (ev_libs env) tt args of
                Some e \<Rightarrow> (Inl e, s)
              | None \<Rightarrow>
              (let (ok, l) = limiter_allow (ev_limiterNow env) (ex_limiter s) (tg_instanceID tg) (tg_rateLimitPerMin tg);
                   s1 = s\<lparr>ex_limiter := l\<rparr> in
               if \<not> ok then (Inl (new_error KindRateLimited), s1)
               else
               (let (admitted, b) = breaker_allow (ev_breakerCfg env) (ev_allowNow env) (tg_instanceID tg) (ex_breaker s1);
                    s2 = s1\<lparr>ex_breaker := b\<rparr> in
                if \<not> admitted then (Inl (new_error KindCircuitOpen), s2)
                else
                (case acquire env tg s2 of
                   (Inl e, s3) \<Rightarrow> (Inl e, s3)
                 | (Inr tk, s3) \<Rightarrow>
                     (let (r, s4) = call_upstream env tg base cn tt args s3 in (r, release_slot tk s4)))))))
      | _ \<Rightarrow> (Inl (new_error KindInternal), s))"

section \<open>Lemmas\<close>

text \<open>The kinds of error each stage makes.\<close>

lemma kind_new_error [simp]: "ee_kind (new_error k) = k" "ee_details (new_error k) = []"
  by (simp_all add: new_error_def)

lemma validate_header_kind: "validate_header_value v = Some e \<Longrightarrow> ee_kind e = KindInvalidArguments"
  by (auto simp: validate_header_value_def split: if_splits)

definition build_kinds :: "error_kind set" where "build_kinds = {KindInvalidArguments, KindInternal}"

lemma render_query_kind: "render_query oor sc ps q = Inl e \<Longrightarrow> ee_kind e \<in> build_kinds"
  by (induction oor sc ps q rule: render_query.induct)
     (auto simp: build_kinds_def split: sum.splits option.splits if_splits)

lemma render_url_kind: "render_url oor base tt sc = Inl e \<Longrightarrow> ee_kind e \<in> build_kinds"
  by (auto simp: render_url_def Let_def build_kinds_def render_query_kind[unfolded build_kinds_def, simplified]
      split: option.splits sum.splits if_splits dest: render_query_kind[unfolded build_kinds_def, simplified])

lemma marshal_body_kind: "marshal_body v ct = Inl e \<Longrightarrow> ee_kind e \<in> build_kinds"
  by (auto simp: marshal_body_def build_kinds_def split: option.splits)

lemma render_body_kind: "render_body oor tt sc = Inl e \<Longrightarrow> ee_kind e \<in> build_kinds"
  by (auto simp: render_body_def build_kinds_def split: option.splits sum.splits
      dest: marshal_body_kind[unfolded build_kinds_def, simplified])

lemma apply_headers_kind: "apply_headers oor sc ps h = Inl e \<Longrightarrow> ee_kind e \<in> build_kinds"
  by (induction oor sc ps h rule: apply_headers.induct)
     (auto simp: build_kinds_def split: sum.splits option.splits if_splits dest: validate_header_kind)

lemma render_credential_kind: "render_credential oor sc t = Inl e \<Longrightarrow> ee_kind e \<in> build_kinds"
  by (auto simp: render_credential_def build_kinds_def split: option.splits sum.splits)

lemma apply_auth_kind: "apply_auth oor cn tt sc req = Inl e \<Longrightarrow> ee_kind e \<in> build_kinds"
  using render_credential_kind validate_header_kind unfolding apply_auth_def Let_def
  by (auto simp: build_kinds_def split: if_splits sum.splits option.splits)

lemma build_request_kind:
  assumes "build_request oor tg base cn tt args = Inl e"
  shows "ee_kind e \<in> build_kinds"
proof -
  have host: "ee_kind e \<in> build_kinds"
    if "(if tg_hostHeader tg = [] then Inr h
         else case validate_header_value (tg_hostHeader tg) of Some e \<Rightarrow> Inl e | None \<Rightarrow> Inr (tg_hostHeader tg)) = Inl e" for h e
    using that validate_header_kind by (auto simp: build_kinds_def split: if_splits option.splits)
  have parse: "ee_kind e \<in> build_kinds"
    if "(case url_parse x of None \<Rightarrow> Inl (new_error KindInternal) | Some u' \<Rightarrow> Inr (new_request_url u')) = Inl e" for x e
    using that by (auto simp: build_kinds_def split: option.splits)
  show ?thesis using assms unfolding build_request_def Let_def rbind_Inl_iff
    by (elim disjE exE conjE) (rule render_url_kind render_body_kind parse host apply_headers_kind apply_auth_kind, assumption)+
qed

lemma classify_transport_kind:
  "ee_kind (classify_transport_error txt e) \<in> {KindEgressBlocked, KindTimeout, KindUpstreamFailure}"
  by (simp add: classify_transport_error_def split: option.split)

text \<open>The stages of a call, each with its outcome and what it did to the shared state.\<close>

lemma execute_stages [consumes 2, case_names invalid limited shed waited called]:
  assumes "execute env (Some tg) (Some cn) (Some tt) args0 s = (r, s')" "tg_baseURL tg = Some base"
  defines "args \<equiv> (case args0 of None \<Rightarrow> [] | Some a \<Rightarrow> a)"
  obtains e where "validate_arguments (ev_libs env) tt args = Some e" "r = Inl e" "s' = s"
  | l where "validate_arguments (ev_libs env) tt args = None"
      "limiter_allow (ev_limiterNow env) (ex_limiter s) (tg_instanceID tg) (tg_rateLimitPerMin tg) = (False, l)"
      "r = Inl (new_error KindRateLimited)" "s' = s\<lparr>ex_limiter := l\<rparr>"
  | l b where "validate_arguments (ev_libs env) tt args = None"
      "limiter_allow (ev_limiterNow env) (ex_limiter s) (tg_instanceID tg) (tg_rateLimitPerMin tg) = (True, l)"
      "breaker_allow (ev_breakerCfg env) (ev_allowNow env) (tg_instanceID tg) (ex_breaker s) = (False, b)"
      "r = Inl (new_error KindCircuitOpen)" "s' = s\<lparr>ex_limiter := l, ex_breaker := b\<rparr>"
  | l b e where "validate_arguments (ev_libs env) tt args = None"
      "limiter_allow (ev_limiterNow env) (ex_limiter s) (tg_instanceID tg) (tg_rateLimitPerMin tg) = (True, l)"
      "breaker_allow (ev_breakerCfg env) (ev_allowNow env) (tg_instanceID tg) (ex_breaker s) = (True, b)"
      "acquire env tg (s\<lparr>ex_limiter := l, ex_breaker := b\<rparr>) = (Inl e, s')" "r = Inl e"
  | l b tk s3 s4 where "validate_arguments (ev_libs env) tt args = None"
      "limiter_allow (ev_limiterNow env) (ex_limiter s) (tg_instanceID tg) (tg_rateLimitPerMin tg) = (True, l)"
      "breaker_allow (ev_breakerCfg env) (ev_allowNow env) (tg_instanceID tg) (ex_breaker s) = (True, b)"
      "acquire env tg (s\<lparr>ex_limiter := l, ex_breaker := b\<rparr>) = (Inr tk, s3)"
      "call_upstream env tg base cn tt args s3 = (r, s4)" "s' = release_slot tk s4"
  using assms(1,2) unfolding execute_def args_def[symmetric]
  by (auto simp: Let_def split: option.splits prod.splits if_splits sum.splits)

lemma acquire_kind: "acquire env tg s = (Inl e, s') \<Longrightarrow> e = new_error KindTimeout \<and> 0 < tg_maxConcurrent tg"
  by (auto simp: acquire_def gate_enter_def Let_def split: prod.splits option.splits if_splits)

lemma call_upstream_cases [consumes 1, case_names build failed answered]:
  assumes "call_upstream env tg base cn tt args s = (r, s')"
  obtains e where "build_request (ev_oor env) tg base cn tt args = Inl e" "r = Inl e" "s' = s"
  | req e where "build_request (ev_oor env) tg base cn tt args = Inr req"
      "fst (client_do (ev_net env (effective_timeout tg)) (ev_client env) req (tg_policy tg) (effective_max_bytes tg tt)) = Inl e"
      "r = Inl (classify_transport_error (ev_blockedText env) e)"
      "ex_breaker s' = breaker_record (ev_breakerCfg env) (ev_recordNow env) (tg_instanceID tg) False (ex_breaker (ev_call env s))"
      "ex_gate s' = ex_gate (ev_call env s)"
  | req rp where "build_request (ev_oor env) tg base cn tt args = Inr req"
      "fst (client_do (ev_net env (effective_timeout tg)) (ev_client env) req (tg_policy tg) (effective_max_bytes tg tt)) = Inr rp"
      "r = map_response (ev_oor env) tt rp args"
      "ex_breaker s' = breaker_record (ev_breakerCfg env) (ev_recordNow env) (tg_instanceID tg) (rp_status rp < 500) (ex_breaker (ev_call env s))"
      "ex_gate s' = ex_gate (ev_call env s)"
  using assms unfolding call_upstream_def by (auto simp: Let_def split: sum.splits)

lemma release_frame [simp]: "ex_breaker (release_slot tk s) = ex_breaker s" "ex_limiter (release_slot tk s) = ex_limiter s"
  by (simp_all add: release_slot_def split: option.split)

lemma map_response_kind:
  "map_response oor tt rp args = Inl e \<Longrightarrow>
   ee_kind e \<in> {KindUpstreamStatus, KindResponseTooLarge, KindUpstreamFailure, KindInternal}"
  using map_response_Inl[of oor tt rp args e] by (auto simp: status_error_def)

lemma call_upstream_kind:
  assumes "call_upstream env tg base cn tt args s = (Inl e, s')"
  shows "ee_kind e \<notin> {KindNotConfigured, KindRateLimited, KindCircuitOpen}"
  using assms
proof (cases rule: call_upstream_cases)
  case (build e)
  thus ?thesis using build_request_kind by (fastforce simp: build_kinds_def)
next
  case (failed req e')
  thus ?thesis using classify_transport_kind[of "ev_blockedText env" e'] by auto
next
  case (answered req rp)
  thus ?thesis using map_response_kind[of "ev_oor env" tt rp args e] by auto
qed

lemma effective_max_pos:
  "0 < effective_max_bytes tg tt"
  "0 < tg_maxResponseBytes tg \<Longrightarrow> effective_max_bytes tg tt \<le> tg_maxResponseBytes tg"
  "0 < tg_maxResponseBytes tg \<Longrightarrow> 0 < rs_maxBytes (tl_response (ct_def tt)) \<Longrightarrow>
     effective_max_bytes tg tt = min (tg_maxResponseBytes tg) (rs_maxBytes (tl_response (ct_def tt)))"
  by (auto simp: effective_max_bytes_def Let_def default_max_response_bytes_def)

lemma effective_timeout_pos: "0 < effective_timeout tg"
  by (simp add: effective_timeout_def default_timeout_ms_def)

lemma validate_problems:
  "validate_arguments lib tt args = Some e \<Longrightarrow> ee_kind e \<in> {KindInvalidArguments, KindInternal} \<and> length (ee_details e) \<le> 11"
  by (auto simp: validate_arguments_def schema_problems_def Let_def max_schema_problems_def
      split: option.splits validate_error.splits)

text \<open>A slot taken is given back: the calls in flight per channel are as before.\<close>

definition flights :: "executor \<Rightarrow> nat \<Rightarrow> nat" where
  "flights s i = in_flight (gt_tickets (ex_gate s)) i"

lemma gate_enter_tickets: "gt_tickets (snd (gate_enter key mx g)) = gt_tickets g"
  by (auto simp: gate_enter_def gate_sem_def Let_def split: option.splits)

lemma acquire_Inr:
  assumes "acquire env tg s = (Inr tk, s')" "gate_inv (ex_gate s)"
    "\<And>s. ex_gate (fst (ev_wait env s)) = ex_gate s"
  shows "gate_inv (ex_gate s') \<and> (case tk of None \<Rightarrow> flights s' = flights s
     | Some t \<Rightarrow> \<exists>i. i < length (gt_chans (ex_gate s')) \<and> gt_tickets (ex_gate s') = gt_tickets (ex_gate s) @ [(i, False)]
                     \<and> t = length (gt_tickets (ex_gate s)))"
proof -
  obtain ch g where e: "gate_enter (tg_instanceID tg) (tg_maxConcurrent tg) (ex_gate s) = (ch, g)" by fastforce
  obtain s2 ended where w: "ev_wait env (s\<lparr>ex_gate := g\<rparr>) = (s2, ended)" by fastforce
  have inv: "gate_inv g" using gate_enter_inv[OF assms(2)] e by (metis snd_conv)
  have tk: "gt_tickets g = gt_tickets (ex_gate s)" using gate_enter_tickets e by (metis snd_conv)
  have g2: "ex_gate s2 = g" using assms(3)[of "s\<lparr>ex_gate := g\<rparr>"] w by simp
  show ?thesis
  proof (cases ch)
    case None
    thus ?thesis using assms(1) inv tk e by (auto simp: acquire_def flights_def)
  next
    case (Some i)
    then obtain g3 where g3: "gate_send i g = Some g3" "tk = Some (length (gt_tickets g))" "s' = s2\<lparr>ex_gate := g3\<rparr>"
      using assms(1) e w g2 by (auto simp: acquire_def Let_def split: option.splits if_splits)
    have "gate_inv g3" by (rule gate_send_inv[OF inv g3(1)])
    moreover have "i < length (gt_chans g3)" "gt_tickets g3 = gt_tickets g @ [(i, False)]"
      using g3(1) by (auto simp: gate_send_def split: if_splits)
    ultimately show ?thesis using g3 tk by auto
  qed
qed

lemma acquire_Inl_flights:
  assumes "acquire env tg s = (Inl e, s')" "gate_inv (ex_gate s)" "\<And>s. ex_gate (fst (ev_wait env s)) = ex_gate s"
  shows "gate_inv (ex_gate s') \<and> flights s' = flights s"
proof -
  obtain ch g where e: "gate_enter (tg_instanceID tg) (tg_maxConcurrent tg) (ex_gate s) = (ch, g)" by fastforce
  obtain s2 ended where w: "ev_wait env (s\<lparr>ex_gate := g\<rparr>) = (s2, ended)" by fastforce
  have inv: "gate_inv g" using gate_enter_inv[OF assms(2)] e by (metis snd_conv)
  have tk: "gt_tickets g = gt_tickets (ex_gate s)" using gate_enter_tickets e by (metis snd_conv)
  have g2: "ex_gate s2 = g" using assms(3)[of "s\<lparr>ex_gate := g\<rparr>"] w by simp
  obtain i where "ch = Some i" using assms(1) e by (cases ch) (auto simp: acquire_def)
  thus ?thesis using assms(1) e w g2 inv tk
    by (auto simp: acquire_def Let_def flights_def gate_cancel_def split: option.splits if_splits)
qed

lemma release_flights:
  assumes "gate_inv g" "gt_tickets g = ts @ [(i, False)]" "i < length (gt_chans g)"
  shows "\<exists>g'. gate_release (length ts) g = Some g' \<and> gate_inv g' \<and> in_flight (gt_tickets g') k = in_flight ts k"
proof -
  have "0 < in_flight (gt_tickets g) i" by (simp add: assms(2))
  hence h: "0 < ch_held (gt_chans g ! i)" using gate_invD(1)[OF assms(1,3)] by simp
  define g' where "g' = g\<lparr>gt_chans := upd_held (\<lambda>h. h - 1) i (gt_chans g), gt_tickets := ts @ [(i, True)]\<rparr>"
  have r: "gate_release (length ts) g = Some g'"
    using h assms(3) by (simp add: gate_release_def assms(2) g'_def)
  moreover have "gate_inv g'" using gate_release_inv[OF assms(1) _ r] by (simp add: assms(2))
  moreover have "in_flight (gt_tickets g') k = in_flight ts k" by (simp add: g'_def in_flight_def)
  ultimately show ?thesis by blast
qed

section \<open>Properties\<close>

text \<open>A call of the small manifest's tool on a server that answers at once.\<close>

definition demo_target :: target where
  "demo_target = \<lparr>tg_instanceID = ''i'', tg_slug = ''s'', tg_baseURL = Some demo_base, tg_vars = [],
     tg_secrets = [(''key'', ''k1'')], tg_hostHeader = [], tg_policy = \<lparr>allow_private_networks = False\<rparr>,
     tg_timeout = 0, tg_maxResponseBytes = 1024, tg_rateLimitPerMin = 1, tg_maxConcurrent = 1\<rparr>"

definition demo_env :: "unit environment" where
  "demo_env = \<lparr>ev_libs = plain_libs, ev_blockedText = (\<lambda>_. []), ev_oor = (\<lambda>_. 0),
     ev_breakerCfg = with_defaults \<lparr>failure_threshold = 0, open_duration = 0, half_open_successes = 0\<rparr>,
     ev_client = new_client zero_options, ev_net = (\<lambda>_. demo_network),
     ev_limiterNow = 0, ev_allowNow = 0, ev_recordNow = 0,
     ev_wait = (\<lambda>s. (s, False)), ev_call = (\<lambda>s. s)\<rparr>"

definition idle_executor :: executor where
  "idle_executor = \<lparr>ex_limiter = [], ex_breaker = [], ex_gate = new_gate\<rparr>"

definition demo_call :: "executor \<Rightarrow> (engine_error, tool_result) result \<times> executor" where
  "demo_call = execute demo_env (Some demo_target) (Some demo_connector) (Some demo_compiled) (Some (demo_args ''a''))"

lemma demo_calls:
  "is_ok (fst (demo_call idle_executor))" "length (gt_tickets (ex_gate (snd (demo_call idle_executor)))) = 1"
  "case fst (demo_call (snd (demo_call idle_executor))) of Inl e \<Rightarrow> ee_kind e = KindRateLimited | Inr x \<Rightarrow> False"
proof -
  have "case demo_call idle_executor of (r, s) \<Rightarrow> is_ok r \<and> length (gt_tickets (ex_gate s)) = 1 \<and>
      (case demo_call s of (Inl e, t) \<Rightarrow> ee_kind e = KindRateLimited | (Inr x, t) \<Rightarrow> False)" by code_simp
  thus "is_ok (fst (demo_call idle_executor))" "length (gt_tickets (ex_gate (snd (demo_call idle_executor)))) = 1"
    "case fst (demo_call (snd (demo_call idle_executor))) of Inl e \<Rightarrow> ee_kind e = KindRateLimited | Inr x \<Rightarrow> False"
    by (auto split: prod.splits sum.splits)
qed

text \<open>C5: an error says how far the call went.  Arguments the schema rejects, and an instance
  without a base URL, leave the limiter, the breaker and the gate untouched, so a malformed
  call spends no token; a rate-limited call has touched neither breaker nor gate, and happens
  only under a positive limit; a shed call has not touched the gate; and the details of a
  rejection are at most eleven lines.\<close>

theorem execute_error_stage:
  assumes "execute env (Some tg) (Some cn) (Some tt) args0 s = (Inl e, s')"
  shows "(if tg_baseURL tg = None then s' = s else True) \<and>
    (case validate_arguments (ev_libs env) tt (case args0 of None \<Rightarrow> [] | Some a \<Rightarrow> a) of
       Some e' \<Rightarrow> s' = s \<and> (if tg_baseURL tg = None then True else e = e' \<and> length (ee_details e) \<le> 11)
     | None \<Rightarrow> True) \<and>
    (if ee_kind e = KindNotConfigured then s' = s
     else if ee_kind e = KindRateLimited then ex_breaker s' = ex_breaker s \<and> ex_gate s' = ex_gate s \<and> 0 < tg_rateLimitPerMin tg
     else if ee_kind e = KindCircuitOpen then ex_gate s' = ex_gate s else True)"
proof (cases "tg_baseURL tg")
  case None
  thus ?thesis using assms by (auto simp: execute_def split: option.splits)
next
  case (Some base)
  from assms Some show ?thesis
  proof (cases rule: execute_stages)
    case (invalid e)
    thus ?thesis using Some validate_problems[OF invalid(1)] by auto
  next
    case (limited l)
    have "0 < tg_rateLimitPerMin tg"
      using limited(2) memory_limiter.unlimited[of "tg_rateLimitPerMin tg" "ev_limiterNow env" "ex_limiter s" "tg_instanceID tg"]
      by fastforce
    thus ?thesis using limited Some by simp
  next
    case (shed l b)
    thus ?thesis using Some by simp
  next
    case (waited l b e)
    thus ?thesis using Some acquire_kind[OF waited(4)] by simp
  next
    case (called l b tk s3 s4)
    thus ?thesis using Some call_upstream_kind[OF called(5)] by auto
  qed
qed

text \<open>The second call within the minute is refused by the limiter.\<close>

lemma execute_error_stage_witness:
  "\<exists>s e s'. demo_call s = (Inl e, s') \<and> ee_kind e = KindRateLimited \<and> ex_breaker s' = ex_breaker s"
proof -
  define s where "s = snd (demo_call idle_executor)"
  have "(case fst (demo_call s) of Inl e \<Rightarrow> ee_kind e = KindRateLimited | Inr _ \<Rightarrow> False)"
    using demo_calls(3) by (simp add: s_def)
  then obtain e s' where c: "demo_call s = (Inl e, s')" and k: "ee_kind e = KindRateLimited"
    by (cases "demo_call s"; cases "fst (demo_call s)") auto
  from execute_error_stage[OF c[unfolded demo_call_def]] k have "ex_breaker s' = ex_breaker s" by simp
  with c k show ?thesis by blast
qed

text \<open>What taking a slot means: an unlimited instance takes none; otherwise the caller entered the
  gate on a channel whose capacity is the instance's limit, waited until its turn without its
  context ending, and found the channel below its capacity.\<close>

lemma acquire_slot:
  assumes "acquire env tg s = (Inr tk, s3)"
  shows "if tg_maxConcurrent tg \<le> 0 then tk = None \<and> s3 = s
    else \<exists>i g w g3. gate_enter (tg_instanceID tg) (tg_maxConcurrent tg) (ex_gate s) = (Some i, g) \<and>
           ch_cap (gt_chans g ! i) = nat (tg_maxConcurrent tg) \<and>
           ev_wait env (s\<lparr>ex_gate := g\<rparr>) = (w, False) \<and>
           ch_held (gt_chans (ex_gate w) ! i) < ch_cap (gt_chans (ex_gate w) ! i) \<and>
           gate_send i (ex_gate w) = Some g3 \<and> tk = Some (length (gt_tickets (ex_gate w))) \<and> s3 = w\<lparr>ex_gate := g3\<rparr>"
proof -
  obtain ch g where e: "gate_enter (tg_instanceID tg) (tg_maxConcurrent tg) (ex_gate s) = (ch, g)" by (rule prod.exhaust)
  show ?thesis
  proof (cases ch)
    case None
    hence "tg_maxConcurrent tg \<le> 0" "g = ex_gate s" using e by (auto simp: gate_enter_def split: if_splits prod.splits)
    thus ?thesis using assms None e by (auto simp: acquire_def)
  next
    case (Some i)
    have pos: "\<not> tg_maxConcurrent tg \<le> 0" using e Some by (auto simp: gate_enter_def split: if_splits)
    have cap: "ch_cap (gt_chans g ! i) = nat (tg_maxConcurrent tg)"
      using e Some pos by (auto simp: gate_enter_def gate_sem_def Let_def split: option.splits if_splits)
    obtain w ended where w: "ev_wait env (s\<lparr>ex_gate := g\<rparr>) = (w, ended)" by (rule prod.exhaust)
    obtain g3 where g3: "\<not> ended" "gate_send i (ex_gate w) = Some g3"
        "tk = Some (length (gt_tickets (ex_gate w)))" "s3 = w\<lparr>ex_gate := g3\<rparr>"
      using assms Some e w by (auto simp: acquire_def split: option.splits if_splits)
    hence "ch_held (gt_chans (ex_gate w) ! i) < ch_cap (gt_chans (ex_gate w) ! i)"
      by (auto simp: gate_send_def split: if_splits)
    thus ?thesis using pos e Some cap w g3 by auto
  qed
qed

lemma call_upstream_Inr:
  assumes "call_upstream env tg base cn tt args s = (Inr res, s')"
  obtains req rp where "build_request (ev_oor env) tg base cn tt args = Inr req"
    "fst (client_do (ev_net env (effective_timeout tg)) (ev_client env) req (tg_policy tg) (effective_max_bytes tg tt)) = Inr rp"
    "map_response (ev_oor env) tt rp args = Inr res"
    "s' = (ev_call env s)\<lparr>ex_breaker := breaker_record (ev_breakerCfg env) (ev_recordNow env) (tg_instanceID tg) (rp_status rp < 500)
                                      (ex_breaker (ev_call env s))\<rparr>"
  using assms unfolding call_upstream_def by (auto simp: Let_def split: sum.splits)

text \<open>C6: a result is returned only by a call that passed every control, in this order: its
  arguments fit the schema; the limiter let it through; the breaker let it through; it took a
  slot of the gate (none for an instance without a limit), on a channel as wide as the
  instance's limit that was below its capacity; the request was built and sent while the slot
  was held.  The upstream's status is one the tool counts as success, the result is what the
  response maps to, at most the effective limit of body bytes was read (never more than the
  instance allows) under a positive deadline.  What the call leaves is what the other callers
  left during it, with a success recorded exactly when the status is below 500 and the slot
  given back.\<close>

theorem execute_success:
  assumes "execute env (Some tg) (Some cn) (Some tt) args0 s = (Inr res, s')" "0 < tg_maxResponseBytes tg"
  shows "validate_arguments (ev_libs env) tt (case args0 of None \<Rightarrow> [] | Some a \<Rightarrow> a) = None \<and>
    is_success tt (re_statusCode res) \<and>
    (\<exists>l b tk s2 s3 base req rp.
       limiter_allow (ev_limiterNow env) (ex_limiter s) (tg_instanceID tg) (tg_rateLimitPerMin tg) = (True, l) \<and>
       breaker_allow (ev_breakerCfg env) (ev_allowNow env) (tg_instanceID tg) (ex_breaker s) = (True, b) \<and>
       s2 = s\<lparr>ex_limiter := l, ex_breaker := b\<rparr> \<and>
       (if tg_maxConcurrent tg \<le> 0 then tk = None \<and> s3 = s2
        else \<exists>i g w g3. gate_enter (tg_instanceID tg) (tg_maxConcurrent tg) (ex_gate s2) = (Some i, g) \<and>
               ch_cap (gt_chans g ! i) = nat (tg_maxConcurrent tg) \<and>
               ev_wait env (s2\<lparr>ex_gate := g\<rparr>) = (w, False) \<and>
               ch_held (gt_chans (ex_gate w) ! i) < ch_cap (gt_chans (ex_gate w) ! i) \<and>
               gate_send i (ex_gate w) = Some g3 \<and> tk = Some (length (gt_tickets (ex_gate w))) \<and> s3 = w\<lparr>ex_gate := g3\<rparr>) \<and>
       tg_baseURL tg = Some base \<and>
       build_request (ev_oor env) tg base cn tt (case args0 of None \<Rightarrow> [] | Some a \<Rightarrow> a) = Inr req \<and>
       fst (client_do (ev_net env (effective_timeout tg)) (ev_client env) req (tg_policy tg) (effective_max_bytes tg tt)) = Inr rp \<and>
       map_response (ev_oor env) tt rp (case args0 of None \<Rightarrow> [] | Some a \<Rightarrow> a) = Inr res \<and>
       effective_max_bytes tg tt \<le> tg_maxResponseBytes tg \<and> 0 < effective_timeout tg \<and> re_statusCode res = rp_status rp \<and>
       s' = release_slot tk ((ev_call env s3)\<lparr>ex_breaker :=
              breaker_record (ev_breakerCfg env) (ev_recordNow env) (tg_instanceID tg) (rp_status rp < 500) (ex_breaker (ev_call env s3))\<rparr>))"
proof -
  let ?args = "case args0 of None \<Rightarrow> [] | Some a \<Rightarrow> a"
  obtain base where b: "tg_baseURL tg = Some base" using assms(1) by (auto simp: execute_def split: option.splits)
  from assms(1) b show ?thesis
  proof (cases rule: execute_stages)
    case (called l bb tk s3 s4)
    from called(5) obtain req rp where rq: "build_request (ev_oor env) tg base cn tt ?args = Inr req"
      "fst (client_do (ev_net env (effective_timeout tg)) (ev_client env) req (tg_policy tg) (effective_max_bytes tg tt)) = Inr rp"
      "map_response (ev_oor env) tt rp ?args = Inr res"
      "s4 = (ev_call env s3)\<lparr>ex_breaker := breaker_record (ev_breakerCfg env) (ev_recordNow env) (tg_instanceID tg) (rp_status rp < 500)
                                       (ex_breaker (ev_call env s3))\<rparr>"
      by (rule call_upstream_Inr)
    have ok: "is_success tt (rp_status rp)" "re_statusCode res = rp_status rp"
      using map_response_cases[OF rq(3)] by (auto dest!: finish_json_Inr)
    note bounds = effective_max_pos(2)[OF assms(2), of tt] effective_timeout_pos[of tg]
    show ?thesis
      by (intro conjI exI[of _ l] exI[of _ bb] exI[of _ tk] exI[of _ "s\<lparr>ex_limiter := l, ex_breaker := bb\<rparr>"] exI[of _ s3]
            exI[of _ base] exI[of _ req] exI[of _ rp] acquire_slot called(1-4) b rq(1-3) ok bounds refl)
         (simp_all add: ok called(6) rq(4))
  qed auto
qed

lemma execute_success_witness:
  "\<exists>res s'. demo_call idle_executor = (Inr res, s') \<and> is_success demo_compiled (re_statusCode res)"
proof -
  from demo_calls(1) obtain res s' where c: "demo_call idle_executor = (Inr res, s')" by (metis is_ok_iff prod.collapse)
  have "0 < tg_maxResponseBytes demo_target" by (simp add: demo_target_def)
  from execute_success[OF c[unfolded demo_call_def] this] c show ?thesis by blast
qed

text \<open>C7: a slot is never leaked.  If the other callers leave the gate alone meanwhile, then after
  a call, however it ended, every channel has as many calls in flight as before, and the gate's
  invariant is kept.\<close>

theorem execute_releases_slot:
  assumes "execute env target conn tl0 args0 s = (r, s')" "gate_inv (ex_gate s)"
    "\<And>s. ex_gate (fst (ev_wait env s)) = ex_gate s" "\<And>s. ex_gate (ev_call env s) = ex_gate s"
  shows "gate_inv (ex_gate s') \<and> in_flight (gt_tickets (ex_gate s')) i = in_flight (gt_tickets (ex_gate s)) i"
proof (cases "\<exists>tg cn tt base. target = Some tg \<and> conn = Some cn \<and> tl0 = Some tt \<and> tg_baseURL tg = Some base")
  case False
  hence "s' = s" using assms(1) by (auto simp: execute_def split: option.splits)
  thus ?thesis using assms(2) by simp
next
  case True
  then obtain tg cn tt base where t: "target = Some tg" "conn = Some cn" "tl0 = Some tt" "tg_baseURL tg = Some base" by blast
  from assms(1)[unfolded t] t(4) show ?thesis
  proof (cases rule: execute_stages)
    case (waited l b e)
    from acquire_Inl_flights[OF waited(4) _ assms(3)] assms(2) show ?thesis by (simp add: flights_def fun_eq_iff)
  next
    case (called l b tk s3 s4)
    have "gate_inv (ex_gate (s\<lparr>ex_limiter := l, ex_breaker := b\<rparr>))" using assms(2) by simp
    note acq = acquire_Inr[OF called(4) this assms(3)]
    have g4: "ex_gate s4 = ex_gate s3"
      using called(5) by (cases rule: call_upstream_cases) (simp_all add: assms(4))
    show ?thesis
    proof (cases tk)
      case None
      thus ?thesis using acq called(6) g4 by (simp add: release_slot_def flights_def fun_eq_iff)
    next
      case (Some t)
      then obtain j where "j < length (gt_chans (ex_gate s3))" "gt_tickets (ex_gate s3) = gt_tickets (ex_gate s) @ [(j, False)]"
        "t = length (gt_tickets (ex_gate s))" "gate_inv (ex_gate s3)" using acq by auto
      with release_flights[of "ex_gate s3" "gt_tickets (ex_gate s)" j i] called(6) g4 Some
      show ?thesis by (auto simp: release_slot_def)
    qed
  qed (use assms(2) in auto)
qed

lemma execute_releases_slot_witness:
  "in_flight (gt_tickets (ex_gate (snd (demo_call idle_executor)))) 0 = 0 \<and>
   length (gt_tickets (ex_gate (snd (demo_call idle_executor)))) = 1"
proof -
  obtain r s' where c: "demo_call idle_executor = (r, s')" by fastforce
  have inv: "gate_inv (ex_gate idle_executor)" by (simp add: idle_executor_def gate_inv_new)
  have q: "ex_gate (fst (ev_wait demo_env s)) = ex_gate s" "ex_gate (ev_call demo_env s) = ex_gate s" for s
    by (simp_all add: demo_env_def)
  have "length (gt_tickets (ex_gate (snd (demo_call idle_executor)))) = 1" by (rule demo_calls(2))
  moreover have "in_flight (gt_tickets (ex_gate idle_executor)) 0 = 0"
    by (simp add: idle_executor_def new_gate_def in_flight_def)
  ultimately show ?thesis
    using execute_releases_slot[OF c[unfolded demo_call_def] inv q, of 0] c by simp
qed

text \<open>C8: what trips the breaker.  Once the request is built, the circuit of the instance moves by
  one recorded outcome: a success when the upstream answered with a status below 500, so no
  client error of a single call opens it; a failure when it answered 5xx, and also when the
  transport failed for any reason, among them that the caller cancelled the request.\<close>

theorem execute_breaker_outcome:
  assumes "call_upstream env tg base cn tt args s = (r, s')"
    "build_request (ev_oor env) tg base cn tt args = Inr req"
    and b: "cfg_ok (ev_breakerCfg env)" "breaker_inv (ev_breakerCfg env) (ex_breaker (ev_call env s))"
      "has_room (tg_instanceID tg) (ex_breaker (ev_call env s))"
  shows "cb_of (ex_breaker s') (tg_instanceID tg) =
    cb_record (ev_breakerCfg env) (ev_recordNow env)
      (case fst (client_do (ev_net env (effective_timeout tg)) (ev_client env) req (tg_policy tg) (effective_max_bytes tg tt)) of
         Inl e \<Rightarrow> False | Inr rp \<Rightarrow> rp_status rp < 500)
      (cb_of (ex_breaker (ev_call env s)) (tg_instanceID tg))
   \<and> breaker_inv (ev_breakerCfg env) (ex_breaker s')"
  using assms(1)
proof (cases rule: call_upstream_cases)
  case (failed req' e)
  thus ?thesis using assms(2) breaker_refines_machine_lemma[OF b] by auto
next
  case (answered req' rp)
  thus ?thesis using assms(2) breaker_refines_machine_lemma[OF b] by auto
qed (use assms(2) in auto)

text \<open>A caller that cancels: the network reports the cancelled context.\<close>

definition cancelled_env :: "unit environment" where
  "cancelled_env = demo_env\<lparr>ev_net := (\<lambda>_. demo_network\<lparr>nw_answer := (\<lambda>via u. HopFail (plain_error\<lparr>te_canceled := True\<rparr>))\<rparr>)\<rparr>"

lemma execute_breaker_outcome_witness:
  "\<exists>r s'. call_upstream cancelled_env demo_target demo_base demo_connector demo_compiled (demo_args ''a'') idle_executor = (r, s')
     \<and> cb_of (ex_breaker s') ''i'' = CbClosed 1"
proof -
  obtain r s' where c: "call_upstream cancelled_env demo_target demo_base demo_connector demo_compiled (demo_args ''a'') idle_executor = (r, s')"
    by fastforce
  have "is_ok (build_request (ev_oor cancelled_env) demo_target demo_base demo_connector demo_compiled (demo_args ''a''))" by code_simp
  then obtain req where b: "build_request (ev_oor cancelled_env) demo_target demo_base demo_connector demo_compiled (demo_args ''a'') = Inr req"
    by (auto simp: is_ok_iff)
  have ok: "cfg_ok (ev_breakerCfg cancelled_env)" by (simp add: cancelled_env_def demo_env_def with_defaults_ok)
  have st: "ex_breaker (ev_call cancelled_env idle_executor) = []" by (simp add: cancelled_env_def demo_env_def idle_executor_def)
  have inv: "breaker_inv (ev_breakerCfg cancelled_env) (ex_breaker (ev_call cancelled_env idle_executor))"
    by (simp add: st breaker_inv_def)
  have room: "has_room (tg_instanceID demo_target) (ex_breaker (ev_call cancelled_env idle_executor))"
    by (simp add: st has_room_def max_breaker_keys_def)
  have id: "tg_instanceID demo_target = ''i''" by (simp add: demo_target_def)
  have "\<not> is_ok (fst (client_do (ev_net cancelled_env (effective_timeout demo_target)) (ev_client cancelled_env) req (tg_policy demo_target)
      (effective_max_bytes demo_target demo_compiled)))"
  proof -
    have "projr (build_request (ev_oor cancelled_env) demo_target demo_base demo_connector demo_compiled (demo_args ''a'')) = req"
      by (simp add: b)
    moreover have "\<not> is_ok (fst (client_do (ev_net cancelled_env (effective_timeout demo_target)) (ev_client cancelled_env)
      (projr (build_request (ev_oor cancelled_env) demo_target demo_base demo_connector demo_compiled (demo_args ''a'')))
      (tg_policy demo_target) (effective_max_bytes demo_target demo_compiled)))" by code_simp
    ultimately show ?thesis by simp
  qed
  then obtain e where e: "fst (client_do (ev_net cancelled_env (effective_timeout demo_target)) (ev_client cancelled_env) req (tg_policy demo_target)
      (effective_max_bytes demo_target demo_compiled)) = Inl e" by (metis is_ok.simps(2) sumE)
  have "failure_threshold (ev_breakerCfg cancelled_env) = 5" by (simp add: cancelled_env_def demo_env_def with_defaults_def)
  with execute_breaker_outcome[OF c b ok inv room] c show ?thesis
    by (simp add: e st id cb_of_def[of "[]"])
qed

end
