(* ===== verification/Platform.thy ===== *)
theory Platform
  imports Accounts Executor
begin

text \<open>
  The state the services of \<open>internal/service\<close> share (the database, the compiled
  connectors, the cache of resolved instances and the execution engine), and
  \<open>connector.go\<close>: the connector service, which keeps the registry in step with the
  database.
\<close>

section \<open>State\<close>

record 'sc resolved =
  rv_instance :: instance_rec
  rv_connector :: "'sc compiled"
  rv_connectorRec :: connector_record
  rv_enabledTools :: "string set"
  rv_secrets :: "(string, string) gomap"

record 'sc cached_target =
  ca_resolved :: "'sc resolved"
  ca_expires :: int

record 'sc platform =
  pf_db :: db
  pf_registry :: "'sc registry"
  pf_cache :: "(string, 'sc cached_target) gomap"
  pf_executor :: executor

text \<open>The surroundings: those of the account services, the libraries of the connectors, the YAML
  decoder, SHA-256, the time a cached instance lives and the instant one is cached, and the
  identifier bytes and instant of an operation's second audit record.\<close>

record 'sc penv =
  pv_svc :: svc_env
  pv_libs :: "'sc libs"
  pv_yaml :: "string \<Rightarrow> manifest option"
  pv_sha256 :: "string \<Rightarrow> string"
  pv_cacheTTL :: int
  pv_cacheNow :: int
  pv_secondAudit :: "string \<times> int"

type_synonym ('sc, 'a) op = "'sc platform \<Rightarrow> (domain_error, 'a) result \<times> 'sc platform"

definition run_sql :: "'a sql \<Rightarrow> ('sc, 'a) op" where
  "run_sql m p = (let (r, d) = m (pf_db p) in (r, p\<lparr>pf_db := d\<rparr>))"

definition op_bind :: "('sc, 'a) op \<Rightarrow> ('a \<Rightarrow> ('sc, 'b) op) \<Rightarrow> ('sc, 'b) op" where
  "op_bind m k p = (case m p of (Inl e, p1) \<Rightarrow> (Inl e, p1) | (Inr a, p1) \<Rightarrow> k a p1)"

definition op_return :: "'a \<Rightarrow> ('sc, 'a) op" where "op_return a p = (Inr a, p)"

definition op_fail :: "domain_error \<Rightarrow> ('sc, 'a) op" where "op_fail e p = (Inl e, p)"

definition op_require :: "bool \<Rightarrow> domain_error \<Rightarrow> ('sc, unit) op" where
  "op_require c e = (if c then op_return () else op_fail e)"

definition op_audit :: "'sc penv \<Rightarrow> actor \<Rightarrow> string \<Rightarrow> string \<Rightarrow> string \<Rightarrow> (string, goval) gomap \<Rightarrow> ('sc, unit) op" where
  "op_audit env a action ttype tid detail p =
     (Inr (), p\<lparr>pf_db := audit_success (pv_svc env) a action ttype tid detail (pf_db p)\<rparr>)"

section \<open>The connector service\<close>

definition editable :: "connector_record \<Rightarrow> bool" where
  "editable c = (cr_source c \<noteq> ''builtin'')"

definition connector_entry :: "string \<Rightarrow> ('sc, 'sc reg_entry) op" where
  "connector_entry i p = (case registry_get (pf_registry p) i of None \<Rightarrow> (Inl ErrNotFound, p) | Some e \<Rightarrow> (Inr e, p))"

definition checksum :: "'sc penv \<Rightarrow> string \<Rightarrow> string" where
  "checksum env data = hex_encode (pv_sha256 env data)"

text \<open>\<open>Builtins\<close>: the embedded files, all valid or an error; \<open>SyncBuiltins\<close> stores those whose
  checksum changed.\<close>

definition builtin_row :: "'sc penv \<Rightarrow> int \<Rightarrow> string \<Rightarrow> connector_record option" where
  "builtin_row env now data =
     (case parse_manifest (pv_yaml env) data of Inl e \<Rightarrow> None
      | Inr m \<Rightarrow> (case compile (pv_libs env) m of Inl ps \<Rightarrow> None
          | Inr c \<Rightarrow> Some \<lparr>cr_id = md_id (mf_metadata m), cr_name = md_name (mf_metadata m), cr_version = md_version (mf_metadata m),
              cr_source = ''builtin'', cr_manifest = data, cr_checksum = checksum env data, cr_createdAt = now, cr_updatedAt = now\<rparr>))"

definition builtins :: "'sc penv \<Rightarrow> int \<Rightarrow> string list \<Rightarrow> connector_record list option" where
  "builtins env now files =
     (let rs = map (builtin_row env now) files in if None \<in> set rs then None else Some (sort_key cr_id (map the rs)))"

fun sync_records :: "'sc penv \<Rightarrow> connector_record list \<Rightarrow> ('sc, unit) op" where
  "sync_records env [] p = (Inr (), p)"
| "sync_records env (rec # recs) p =
     (case run_sql (connector_get (cr_id rec)) p of
        (Inl e, p1) \<Rightarrow>
          if e \<noteq> ErrNotFound then (Inl e, p1)
          else op_bind (run_sql (connector_upsert (rec\<lparr>cr_updatedAt := sv_now (pv_svc env)\<rparr>))) (\<lambda>u. sync_records env recs) p1
      | (Inr old, p1) \<Rightarrow>
          if cr_checksum old = cr_checksum rec then sync_records env recs p1
          else op_bind (run_sql (connector_upsert (rec\<lparr>cr_createdAt := cr_createdAt old, cr_updatedAt := sv_now (pv_svc env)\<rparr>)))
                 (\<lambda>u. sync_records env recs) p1)"

definition sync_builtins :: "'sc penv \<Rightarrow> string list \<Rightarrow> ('sc, unit) op" where
  "sync_builtins env files =
     (case builtins env (sv_now (pv_svc env)) files of None \<Rightarrow> op_fail ErrOther | Some recs \<Rightarrow> sync_records env recs)"

text \<open>A stored manifest that does not compile is skipped.\<close>

definition put_quietly :: "'sc penv \<Rightarrow> connector_record \<Rightarrow> 'sc registry \<Rightarrow> 'sc registry" where
  "put_quietly env rec reg = snd (registry_put (pv_libs env) (pv_yaml env) rec reg)"

definition load_all_connectors :: "'sc penv \<Rightarrow> ('sc, unit) op" where
  "load_all_connectors env = op_bind (run_sql connector_list)
     (\<lambda>recs p. (Inr (), p\<lparr>pf_registry := List.fold (put_quietly env) recs (pf_registry p)\<rparr>))"

definition import_manifest :: "'sc penv \<Rightarrow> actor \<Rightarrow> string \<Rightarrow> string \<Rightarrow> ('sc, 'sc reg_entry) op" where
  "import_manifest env a data source0 p =
     (case parse_manifest (pv_yaml env) data of
        Inl e \<Rightarrow> (Inl ErrInvalidInput, p)
      | Inr m \<Rightarrow>
          (case compile (pv_libs env) m of
             Inl ps \<Rightarrow> (Inl ErrInvalidInput, p)
           | Inr c \<Rightarrow>
               (let source = (if source0 = [] then ''manifest'' else source0); i = md_id (mf_metadata m) in
                case run_sql (connector_get i) p of
                  (r, p1) \<Rightarrow>
                    if (case r of Inl e \<Rightarrow> e \<noteq> ErrNotFound | Inr x \<Rightarrow> False) then (Inl (projl r), p1)
                    else if (case r of Inl e \<Rightarrow> False | Inr old \<Rightarrow> \<not> editable old) then (Inl ErrForbidden, p1)
                    else
                      (let now = sv_now (pv_svc env);
                           rec = \<lparr>cr_id = i, cr_name = md_name (mf_metadata m), cr_version = md_version (mf_metadata m), cr_source = source,
                             cr_manifest = data, cr_checksum = checksum env data,
                             cr_createdAt = (case r of Inl e \<Rightarrow> now | Inr old \<Rightarrow> cr_createdAt old), cr_updatedAt = now\<rparr>
                       in op_bind (run_sql (connector_upsert rec))
                            (\<lambda>u p2. case registry_put (pv_libs env) (pv_yaml env) rec (pf_registry p2) of
                               (Inl e, reg) \<Rightarrow> (Inl ErrOther, p2\<lparr>pf_registry := reg\<rparr>)
                             | (Inr en, reg) \<Rightarrow>
                                 op_bind (op_audit env a ''connector.import'' ''connector'' i
                                   [(''name'', VStr (cr_name rec)), (''version'', VStr (cr_version rec)), (''source'', VStr source),
                                    (''tools'', VInt (int (length (cc_tools (rg_compiled en))))), (''replaced'', VBool (is_ok r))])
                                   (\<lambda>u. op_return en) (p2\<lparr>pf_registry := reg\<rparr>)) p1))))"

definition delete_connector :: "'sc penv \<Rightarrow> actor \<Rightarrow> string \<Rightarrow> ('sc, unit) op" where
  "delete_connector env a i =
     op_bind (run_sql (connector_get i)) (\<lambda>rec.
     op_bind (op_require (editable rec) ErrForbidden) (\<lambda>u.
     op_bind (run_sql (count_by_connector i)) (\<lambda>n.
     op_bind (op_require (n = 0) ErrConflict) (\<lambda>u.
     op_bind (run_sql (connector_delete i)) (\<lambda>u.
     op_bind (\<lambda>p. (Inr (), p\<lparr>pf_registry := registry_remove i (pf_registry p)\<rparr>)) (\<lambda>u.
     op_audit env a ''connector.delete'' ''connector'' i []))))))"

section \<open>Lemmas\<close>

lemma run_sql_eq: "run_sql m p = (r, p') \<longleftrightarrow> (\<exists>d. m (pf_db p) = (r, d) \<and> p' = p\<lparr>pf_db := d\<rparr>)"
  by (auto simp: run_sql_def split: prod.splits)

text \<open>What a statement leaves of the connector table.\<close>

lemma connectors_faults [simp]: "db_connectors (d\<lparr>db_faults := bs\<rparr>) = db_connectors d"
  by simp

lemma connector_get_frame:
  assumes "connector_get i d = (r, d')"
  shows "db_connectors d' = db_connectors d" "r = Inr c \<Longrightarrow> c \<in> set (db_connectors d) \<and> cr_id c = i"
    "r = Inl ErrNotFound \<Longrightarrow> i \<notin> cr_id ` set (db_connectors d)"
  using assms unfolding connector_get_def select_row_def
  by (auto elim!: stmt_cases split: list.splits simp: filter_eq_Cons_iff filter_empty_conv)

lemma count_by_connector_frame: "count_by_connector i d = (r, d') \<Longrightarrow> db_connectors d' = db_connectors d"
  unfolding count_by_connector_def select_def by (erule stmt_cases) auto

lemma connector_list_frame: "connector_list d = (r, d') \<Longrightarrow> db_connectors d' = db_connectors d"
  unfolding connector_list_def select_def by (erule stmt_cases) auto

lemma connector_audit_frame [simp]: "db_connectors (audit_success env a ac tt ti de d) = db_connectors d"
proof -
  obtain r d' where "audit_append \<lparr>ae_id = new_id ''aud'' (sv_auditBytes env), ae_at = sv_auditNow env, ae_actorType = ac_type a,
      ae_actorID = ac_id a, ae_action = ac, ae_targetType = tt, ae_targetID = ti, ae_result = ''success'', ae_ip = ac_ip a, ae_detail = de\<rparr> d = (r, d')"
    by (metis surj_pair)
  thus ?thesis unfolding audit_success_def audit_record_def audit_append_def
    by (auto simp: sql_fail_def split: option.splits if_splits elim!: stmt_cases)
qed

lemma connector_delete_frame:
  "connector_delete i d = (r, d') \<Longrightarrow> db_connectors d' = db_connectors d \<or> db_connectors d' = filter (\<lambda>c. cr_id c \<noteq> i) (db_connectors d)"
  unfolding connector_delete_def by (erule stmt_cases) (auto split: if_splits)

lemma connector_upsert_frame:
  "connector_upsert c d = (r, d') \<Longrightarrow> db_connectors d' = db_connectors d \<or>
     (if list_ex (\<lambda>r. cr_id r = cr_id c) (db_connectors d)
      then db_connectors d' = updated (\<lambda>x. cr_id x = cr_id c) (\<lambda>x. c\<lparr>cr_createdAt := cr_createdAt x\<rparr>) (db_connectors d)
      else db_connectors d' = db_connectors d @ [c])"
  unfolding connector_upsert_def by (erule stmt_cases) (auto split: if_splits)

text \<open>The invariant of the connector table: one row per identifier, and every manifest compiles
  under its identifier.\<close>

definition row_compiles :: "'sc penv \<Rightarrow> connector_record \<Rightarrow> bool" where
  "row_compiles env c = (case parse_manifest (pv_yaml env) (cr_manifest c) of Inl e \<Rightarrow> False
     | Inr m \<Rightarrow> md_id (mf_metadata m) = cr_id c \<and> is_ok (compile (pv_libs env) m))"

definition connectors_ok :: "'sc penv \<Rightarrow> db \<Rightarrow> bool" where
  "connectors_ok env d = (distinct (map cr_id (db_connectors d)) \<and> list_all (row_compiles env) (db_connectors d))"

lemma connectors_ok_same: "connectors_ok env d \<Longrightarrow> db_connectors d' = db_connectors d \<Longrightarrow> connectors_ok env d'"
  by (simp add: connectors_ok_def)

lemma connectors_ok_delete: "connectors_ok env d \<Longrightarrow> connector_delete i d = (r, d') \<Longrightarrow> connectors_ok env d'"
  by (drule connector_delete_frame) (auto simp: connectors_ok_def list_all_iff distinct_map_filter)

lemma connectors_ok_upsert:
  assumes "connectors_ok env d" "row_compiles env c" "connector_upsert c d = (r, d')" shows "connectors_ok env d'"
proof -
  have "map cr_id (updated (\<lambda>x. cr_id x = cr_id c) (\<lambda>x. c\<lparr>cr_createdAt := cr_createdAt x\<rparr>) (db_connectors d))
      = map cr_id (db_connectors d)"
    by (rule map_key_updated) simp
  moreover have "row_compiles env (c\<lparr>cr_createdAt := x\<rparr>)" for x
    using assms(2) by (auto simp: row_compiles_def split: sum.splits)
  moreover have "cr_id c \<notin> cr_id ` set (db_connectors d)" if "\<not> list_ex (\<lambda>r. cr_id r = cr_id c) (db_connectors d)"
    using that by (auto simp: list_ex_iff)
  ultimately show ?thesis using assms(1,2) connector_upsert_frame[OF assms(3)]
    by (auto simp: connectors_ok_def list_all_iff set_updated split: if_splits)
qed

text \<open>A built-in row is kept by a statement that does not concern its identifier.\<close>

lemma builtin_kept:
  assumes "c \<in> set (db_connectors d)" "cr_id c \<noteq> i"
  shows "connector_delete i d = (r, d') \<Longrightarrow> c \<in> set (db_connectors d')"
    "cr_id x = i \<Longrightarrow> connector_upsert x d = (ru, d') \<Longrightarrow> c \<in> set (db_connectors d')"
  using assms by (auto dest!: connector_delete_frame connector_upsert_frame simp: updated_def split: if_splits)

lemma unique_row:
  "connectors_ok env d \<Longrightarrow> c \<in> set (db_connectors d) \<Longrightarrow> c' \<in> set (db_connectors d) \<Longrightarrow> cr_id c = cr_id c' \<Longrightarrow> c = c'"
  by (auto simp: connectors_ok_def distinct_map inj_on_def)

lemma delete_connector_effect:
  assumes "delete_connector env a i p = (r, p')" "connectors_ok env (pf_db p)"
  shows "connectors_ok env (pf_db p')"
    "c \<in> set (db_connectors (pf_db p)) \<Longrightarrow> \<not> editable c \<Longrightarrow> c \<in> set (db_connectors (pf_db p'))"
proof -
  obtain r1 d1 where 1: "connector_get i (pf_db p) = (r1, d1)" by (metis surj_pair)
  obtain r2 d2 where 2: "count_by_connector i d1 = (r2, d2)" by (metis surj_pair)
  obtain r3 d3 where 3: "connector_delete i d2 = (r3, d3)" by (metis surj_pair)
  have f: "db_connectors d1 = db_connectors (pf_db p)" "db_connectors d2 = db_connectors (pf_db p)"
    using connector_get_frame(1)[OF 1] count_by_connector_frame[OF 2] by simp_all
  have cases: "db_connectors (pf_db p') = db_connectors (pf_db p) \<or>
      db_connectors (pf_db p') = db_connectors d3 \<and> (\<exists>rec. r1 = Inr rec \<and> editable rec)"
    using assms(1) 1 2 3 f unfolding delete_connector_def
    by (auto simp: op_bind_def run_sql_def op_require_def op_return_def op_fail_def op_audit_def split: sum.splits if_splits)
  have ok3: "connectors_ok env d3"
    using connectors_ok_delete[OF connectors_ok_same[OF assms(2)] 3] f by simp
  show "connectors_ok env (pf_db p')" using cases connectors_ok_same[OF assms(2)] connectors_ok_same[OF ok3] by blast
  show "c \<in> set (db_connectors (pf_db p'))" if c: "c \<in> set (db_connectors (pf_db p))" "\<not> editable c"
  proof (cases "db_connectors (pf_db p') = db_connectors (pf_db p)")
    case False
    then obtain rec where rec: "r1 = Inr rec" "editable rec" "db_connectors (pf_db p') = db_connectors d3" using cases by blast
    have "cr_id c \<noteq> i" using connector_get_frame(2)[OF 1 rec(1)] unique_row[OF assms(2) c(1)] rec(2) c(2) by metis
    thus ?thesis using builtin_kept(1)[of c d2 i, OF _ _ 3] c(1) f rec(3) by simp
  qed (use c in simp)
qed

text \<open>An import stores nothing, or one row that compiles, over a row that may be edited.\<close>

lemma import_manifest_effect:
  assumes "import_manifest env a data src p = (r, p')"
  obtains "db_connectors (pf_db p') = db_connectors (pf_db p)"
  | rec d1 ru d2 where "db_connectors d1 = db_connectors (pf_db p)" "connector_upsert rec d1 = (ru, d2)"
      "db_connectors (pf_db p') = db_connectors d2" "row_compiles env rec"
      "\<And>old. old \<in> set (db_connectors (pf_db p)) \<Longrightarrow> connectors_ok env (pf_db p) \<Longrightarrow> cr_id old = cr_id rec \<Longrightarrow> editable old"
proof (cases "\<exists>m c. parse_manifest (pv_yaml env) data = Inr m \<and> compile (pv_libs env) m = Inr c")
  case False
  hence "p' = p" using assms by (auto simp: import_manifest_def split: sum.splits)
  thus ?thesis using that(1) by simp
next
  case True
  then obtain m c where m: "parse_manifest (pv_yaml env) data = Inr m" "compile (pv_libs env) m = Inr c" by blast
  let ?i = "md_id (mf_metadata m)"
  obtain r1 d1 where 1: "connector_get ?i (pf_db p) = (r1, d1)" by (metis surj_pair)
  have f1: "db_connectors d1 = db_connectors (pf_db p)" using connector_get_frame(1)[OF 1] .
  define rec where "rec = \<lparr>cr_id = ?i, cr_name = md_name (mf_metadata m), cr_version = md_version (mf_metadata m),
     cr_source = (if src = [] then ''manifest'' else src), cr_manifest = data, cr_checksum = checksum env data,
     cr_createdAt = (case r1 of Inl e \<Rightarrow> sv_now (pv_svc env) | Inr old \<Rightarrow> cr_createdAt old), cr_updatedAt = sv_now (pv_svc env)\<rparr>"
  obtain ru d2 where 2: "connector_upsert rec d1 = (ru, d2)" by (metis surj_pair)
  have rc: "row_compiles env rec" using m by (simp add: row_compiles_def rec_def)
  show ?thesis
  proof (cases "(case r1 of Inl e \<Rightarrow> e \<noteq> ErrNotFound | Inr old \<Rightarrow> \<not> editable old)")
    case True
    hence "db_connectors (pf_db p') = db_connectors (pf_db p)"
      using assms m 1 f1 by (auto simp: import_manifest_def run_sql_def Let_def split: sum.splits if_splits)
    thus ?thesis by (rule that(1))
  next
    case False
    have "db_connectors (pf_db p') = db_connectors d2"
      using assms m 1 2 False
      by (auto simp: import_manifest_def run_sql_def op_bind_def op_audit_def op_return_def Let_def rec_def
          split: sum.splits prod.splits if_splits)
    moreover have "editable old" if "old \<in> set (db_connectors (pf_db p))" "connectors_ok env (pf_db p)" "cr_id old = cr_id rec" for old
    proof (cases r1)
      case (Inl e)
      hence "?i \<notin> cr_id ` set (db_connectors (pf_db p))" using False connector_get_frame(3)[OF 1] by auto
      moreover have "cr_id old = ?i" using that(3) by (simp add: rec_def)
      ultimately show ?thesis using that(1) by (metis image_eqI)
    next
      case (Inr x)
      have "cr_id x = cr_id old \<and> x \<in> set (db_connectors (pf_db p))"
        using connector_get_frame(2)[OF 1 Inr] that(3) by (simp add: rec_def)
      thus ?thesis using False Inr unique_row[OF that(2) that(1)] by simp metis
    qed
    ultimately show ?thesis using that(2) f1 2 rc by blast
  qed
qed

lemma builtins_compile: "builtins env now files = Some recs \<Longrightarrow> rec \<in> set recs \<Longrightarrow> row_compiles env rec"
proof -
  assume "builtins env now files = Some recs" "rec \<in> set recs"
  then obtain data where "builtin_row env now data = Some rec"
    by (auto simp: builtins_def Let_def split: if_splits) (metis image_eqI option.collapse)
  thus ?thesis by (auto simp: builtin_row_def row_compiles_def is_ok_iff split: sum.splits)
qed

lemma sync_records_ok:
  "sync_records env recs p = (r, p') \<Longrightarrow> connectors_ok env (pf_db p) \<Longrightarrow> \<forall>rec\<in>set recs. row_compiles env rec
   \<Longrightarrow> connectors_ok env (pf_db p')"
proof (induction recs arbitrary: p)
  case (Cons rec recs)
  obtain r1 d1 where 1: "connector_get (cr_id rec) (pf_db p) = (r1, d1)" by (metis surj_pair)
  have ok1: "connectors_ok env d1" using connectors_ok_same[OF Cons.prems(2)] connector_get_frame(1)[OF 1] by simp
  have up: "connectors_ok env (pf_db p')"
    if "op_bind (run_sql (connector_upsert rec')) (\<lambda>u. sync_records env recs) (p\<lparr>pf_db := d1\<rparr>) = (r, p')" "row_compiles env rec'" for rec'
  proof -
    obtain r2 d2 where 2: "connector_upsert rec' d1 = (r2, d2)" by (metis surj_pair)
    note ok2 = connectors_ok_upsert[OF ok1 that(2) 2]
    show ?thesis using that(1) 2 ok2 Cons.IH Cons.prems(3) by (auto simp: op_bind_def run_sql_def split: sum.splits)
  qed
  have rc: "row_compiles env (rec\<lparr>cr_updatedAt := x\<rparr>)" "row_compiles env (rec\<lparr>cr_createdAt := y, cr_updatedAt := x\<rparr>)" for x y
    using Cons.prems(3) by (auto simp: row_compiles_def split: sum.splits)
  show ?case
    using Cons.prems 1 up rc ok1 Cons.IH[of "p\<lparr>pf_db := d1\<rparr>"]
    by (auto simp: run_sql_def split: sum.splits if_splits)
qed simp

section \<open>Properties\<close>

text \<open>C26: whatever the connector service is asked to do, and whichever statements fail, the
  database holds one row per connector and only manifests that compile under their own
  identifier; and neither an import nor a deletion touches a built-in connector.\<close>
theorem connectors_guarded:
  assumes "connectors_ok env (pf_db p)"
  shows "connectors_ok env (pf_db (snd (sync_builtins env files p))) \<and>
    connectors_ok env (pf_db (snd (import_manifest env a data src p))) \<and>
    connectors_ok env (pf_db (snd (delete_connector env a i p))) \<and>
    (\<forall>c\<in>set (db_connectors (pf_db p)). cr_source c = ''builtin'' \<longrightarrow>
       c \<in> set (db_connectors (pf_db (snd (import_manifest env a data src p)))) \<and>
       c \<in> set (db_connectors (pf_db (snd (delete_connector env a i p)))))"
proof (intro conjI ballI impI)
  show "connectors_ok env (pf_db (snd (sync_builtins env files p)))"
  proof (cases "builtins env (sv_now (pv_svc env)) files")
    case None
    thus ?thesis using assms by (simp add: sync_builtins_def op_fail_def)
  next
    case (Some recs)
    thus ?thesis using sync_records_ok[of env recs p] assms builtins_compile[OF Some]
      by (metis prod.collapse sync_builtins_def option.simps(5))
  qed
  obtain r p' where imp: "import_manifest env a data src p = (r, p')" by (metis surj_pair)
  obtain r2 p2 where del: "delete_connector env a i p = (r2, p2)" by (metis surj_pair)
  show "connectors_ok env (pf_db (snd (delete_connector env a i p)))"
    using delete_connector_effect(1)[OF del assms] del by simp
  show "connectors_ok env (pf_db (snd (import_manifest env a data src p)))"
    using import_manifest_effect[OF imp] connectors_ok_same[OF assms] connectors_ok_upsert connectors_ok_same imp
    by (metis snd_conv)
  fix c assume c: "c \<in> set (db_connectors (pf_db p))" "cr_source c = ''builtin''"
  hence ne: "\<not> editable c" by (simp add: editable_def)
  show "c \<in> set (db_connectors (pf_db (snd (delete_connector env a i p))))"
    using delete_connector_effect(2)[OF del assms c(1) ne] del by simp
  show "c \<in> set (db_connectors (pf_db (snd (import_manifest env a data src p))))"
    using imp
  proof (cases rule: import_manifest_effect)
    case 1 thus ?thesis using c imp by simp
  next
    case (2 rec d1 ru d2)
    have "cr_id c \<noteq> cr_id rec" using 2(5)[OF c(1) assms] ne by metis
    thus ?thesis using builtin_kept(2)[of c d1 "cr_id rec" rec, OF _ _ refl 2(2)] c(1) 2(1,3) imp by simp
  qed
qed

definition demo_connector_row :: connector_record where
  "demo_connector_row = \<lparr>cr_id = ''zot'', cr_name = ''Z'', cr_version = ''1'', cr_source = ''builtin'', cr_manifest = ''m'',
     cr_checksum = [], cr_createdAt = 1, cr_updatedAt = 1\<rparr>"

definition demo_penv :: "unit penv" where
  "demo_penv = \<lparr>pv_svc = demo_svc ''p'' 10, pv_libs = plain_libs, pv_yaml = (\<lambda>t. Some demo_manifest), pv_sha256 = id, pv_cacheTTL = 5, pv_cacheNow = 10, pv_secondAudit = (''b2'', 11)\<rparr>"

definition demo_platform :: "unit platform" where
  "demo_platform = \<lparr>pf_db = empty_db\<lparr>db_connectors := [demo_connector_row\<lparr>cr_id := md_id (mf_metadata demo_manifest)\<rparr>]\<rparr>,
     pf_registry = [], pf_cache = [], pf_executor = idle_executor\<rparr>"

lemma demo_platform_ok: "connectors_ok demo_penv (pf_db demo_platform)"
  by code_simp

lemma connectors_guarded_witness:
  "fst (import_manifest demo_penv demo_actor ''new'' [] demo_platform) = Inl ErrForbidden \<and>
   db_connectors (pf_db (snd (import_manifest demo_penv demo_actor ''new'' [] demo_platform))) \<noteq> []"
proof -
  have "(case fst (import_manifest demo_penv demo_actor ''new'' [] demo_platform) of Inl e \<Rightarrow> e = ErrForbidden | Inr x \<Rightarrow> False)"
    by code_simp
  moreover have "list_ex (\<lambda>c. cr_source c = ''builtin'') (db_connectors (pf_db demo_platform))" by code_simp
  ultimately show ?thesis using connectors_guarded[OF demo_platform_ok, of "[]" demo_actor "''new''" "[]"]
    by (auto simp: list_ex_iff split: sum.splits)
qed

end
