(* ===== verification/Instances.thy ===== *)
theory Instances
  imports Platform
begin

text \<open>
  \<open>internal/service/instance.go\<close> and \<open>test_connection.go\<close>: configuration and secrets of
  the instances, their read models, the resolution of a slug into an execution target with
  its cache, and the connection test.
\<close>

section \<open>Limits and names\<close>

definition slug_ok :: "string \<Rightarrow> bool" where
  "slug_ok s = (2 \<le> length s \<and> length s \<le> 63 \<and> lower_digit (hd s) \<and>
     list_all (\<lambda>c. lower_digit c \<or> c = CHR ''-'') (tl s))"

definition pick_int :: "int \<Rightarrow> int \<Rightarrow> int \<Rightarrow> int" where
  "pick_int supplied conn plat = (if 0 < supplied then supplied else if 0 < conn then conn else plat)"

definition host_override_ok :: "string \<Rightarrow> bool" where
  "host_override_ok v = (v = [] \<or> length v \<le> 255 \<and> \<not> list_ex (\<lambda>r. r \<le> 32 \<or> r = 127) (runes v))"

definition clamp_timeout :: "int \<Rightarrow> int" where
  "clamp_timeout ms = (if ms < 500 then 500 else if max_timeout_ms < ms then max_timeout_ms else ms)"

definition clamp_non_negative :: "int \<Rightarrow> int" where
  "clamp_non_negative v = (if v < 0 then 0 else v)"

definition clamp_concurrency :: "int \<Rightarrow> int" where
  "clamp_concurrency v = (if v < 1 then 1 else if 64 < v then 64 else v)"

definition clamp_response_bytes :: "int \<Rightarrow> int" where
  "clamp_response_bytes v = (if v < 1024 then 1024 else if max_response_bytes_cap < v then max_response_bytes_cap else v)"

fun slugify_loop :: "nat list \<Rightarrow> bool \<Rightarrow> string" where
  "slugify_loop [] hyphen = []"
| "slugify_loop (r # rs) hyphen =
     (if (97 \<le> r \<and> r \<le> 122) \<or> (48 \<le> r \<and> r \<le> 57) then char_of r # slugify_loop rs False
      else if hyphen then slugify_loop rs True else CHR ''-'' # slugify_loop rs True)"

definition trim_hyphens :: "string \<Rightarrow> string" where
  "trim_hyphens s = rev (dropWhile (\<lambda>c. c = CHR ''-'') (rev (dropWhile (\<lambda>c. c = CHR ''-'') s)))"

definition slugify :: "(nat \<Rightarrow> nat) \<Rightarrow> string \<Rightarrow> string" where
  "slugify lower name =
     (let slug = trim_hyphens (slugify_loop (runes (go_lower lower name)) True)
      in if 63 < length slug then trim_hyphens (take 63 slug) else slug)"

section \<open>Commands\<close>

definition invalidate_all :: "'sc platform \<Rightarrow> 'sc platform" where
  "invalidate_all p = p\<lparr>pf_cache := []\<rparr>"

definition op_invalidate :: "('sc, unit) op" where
  "op_invalidate p = (Inr (), invalidate_all p)"

definition reset_breaker :: "string \<Rightarrow> ('sc, unit) op" where
  "reset_breaker i p = (Inr (), p\<lparr>pf_executor := (pf_executor p)\<lparr>ex_breaker := breaker_reset i (ex_breaker (pf_executor p))\<rparr>\<rparr>)"

text \<open>The second audit record of an operation.\<close>

definition later_audit :: "'sc penv \<Rightarrow> 'sc penv" where
  "later_audit env = env\<lparr>pv_svc := (pv_svc env)\<lparr>sv_auditBytes := fst (pv_secondAudit env), sv_auditNow := snd (pv_secondAudit env)\<rparr>\<rparr>"

record create_input =
  cn_name :: string
  cn_slug :: string
  cn_description :: string
  cn_connectorID :: string
  cn_baseURL :: string
  cn_variables :: "(string, string) gomap"
  cn_enabled :: bool
  cn_allowPrivateNetwork :: bool
  cn_hostHeaderOverride :: string
  cn_timeoutMS :: int
  cn_rateLimitPerMin :: int
  cn_maxConcurrent :: int
  cn_maxResponseBytes :: int

text \<open>The instance \<open>Create\<close> stores, or the first check that fails.\<close>

definition new_instance :: "'sc penv \<Rightarrow> 'sc reg_entry \<Rightarrow> create_input \<Rightarrow> (domain_error, instance_rec) result" where
  "new_instance env e inp =
     (let name = trim_space (cn_name inp);
          slug0 = go_lower (sv_lower (pv_svc env)) (trim_space (cn_slug inp));
          slug = (if slug0 = [] then slugify (sv_lower (pv_svc env)) name else slug0);
          sp = mf_spec (cc_manifest (rg_compiled e)); bu = sp_baseURL sp; df = sp_defaults sp;
          base0 = (if trim_space (cn_baseURL inp) = [] then bu_default bu else trim_space (cn_baseURL inp));
          base = (if bu_locked bu then bu_default bu else base0);
          host = trim_space (cn_hostHeaderOverride inp); now = sv_now (pv_svc env)
      in if name = [] then Inl ErrInvalidInput
         else if \<not> slug_ok slug then Inl ErrInvalidInput
         else if validate_base_url base \<noteq> None then Inl ErrInvalidInput
         else if validate_variables (pv_libs env) (rg_compiled e) (cn_variables inp) \<noteq> [] then Inl ErrInvalidInput
         else if \<not> host_override_ok host then Inl ErrInvalidInput
         else Inr \<lparr>in_id = new_id ''inst'' (sv_idBytes (pv_svc env)), in_slug = slug, in_name = name,
                in_description = trim_space (cn_description inp), in_connectorID = cn_connectorID inp, in_baseURL = base,
                in_variables = cn_variables inp, in_enabled = cn_enabled inp,
                in_allowPrivateNetwork = cn_allowPrivateNetwork inp, in_hostHeaderOverride = host,
                in_timeoutMS = clamp_timeout (pick_int (cn_timeoutMS inp) (df_timeoutMS df) default_timeout_ms),
                in_rateLimitPerMin = clamp_non_negative (pick_int (cn_rateLimitPerMin inp) (df_rateLimitPerMin df) default_rate_limit_per_min),
                in_maxConcurrent = clamp_concurrency (pick_int (cn_maxConcurrent inp) (df_maxConcurrent df) default_max_concurrent),
                in_maxResponseBytes = clamp_response_bytes (pick_int (cn_maxResponseBytes inp) (df_maxResponseBytes df) default_max_response_bytes),
                in_createdAt = now, in_updatedAt = now, in_version = 1\<rparr>)"

definition create_instance :: "'sc penv \<Rightarrow> actor \<Rightarrow> create_input \<Rightarrow> ('sc, instance_rec) op" where
  "create_instance env a inp p =
     (case registry_get (pf_registry p) (cn_connectorID inp) of
        None \<Rightarrow> (Inl ErrInvalidInput, p)
      | Some e \<Rightarrow>
          (case new_instance env e inp of
             Inl err \<Rightarrow> (Inl err, p)
           | Inr i \<Rightarrow>
               (let detail = [(''slug'', VStr (in_slug i)), (''connector'', VStr (in_connectorID i)), (''base_url'', VStr (in_baseURL i)),
                              (''allow_private_network'', VBool (in_allowPrivateNetwork i))]
                in op_bind (run_sql (instance_create i)) (\<lambda>u.
                   op_bind op_invalidate (\<lambda>u.
                   op_bind (op_audit env a ''instance.create'' ''instance'' (in_id i) detail) (\<lambda>u.
                   op_bind (if in_allowPrivateNetwork i
                            then op_audit (later_audit env) a ''instance.egress_private_enabled'' ''instance'' (in_id i) detail
                            else op_return ()) (\<lambda>u.
                   op_return i)))) p)))"

record update_input =
  up_name :: "string option"
  up_description :: "string option"
  up_baseURL :: "string option"
  up_variables :: "(string, string) gomap option"
  up_enabled :: "bool option"
  up_allowPrivateNetwork :: "bool option"
  up_hostHeaderOverride :: "string option"
  up_timeoutMS :: "int option"
  up_rateLimitPerMin :: "int option"
  up_maxConcurrent :: "int option"
  up_maxResponseBytes :: "int option"

text \<open>The fields of a change, one after the other, on the instance and the audit detail.\<close>

type_synonym changed = "instance_rec \<times> (string, goval) gomap"

definition change_name :: "string option \<Rightarrow> changed \<Rightarrow> (domain_error, changed) result" where
  "change_name v = (\<lambda>(i, ch). case v of None \<Rightarrow> Inr (i, ch)
     | Some n0 \<Rightarrow> (let n = trim_space n0 in if n = [] then Inl ErrInvalidInput
         else Inr (i\<lparr>in_name := n\<rparr>, kv_put ''name'' (VStr n) ch)))"

definition change_base_url :: "base_url_spec \<Rightarrow> string option \<Rightarrow> changed \<Rightarrow> (domain_error, changed) result" where
  "change_base_url bu v = (\<lambda>(i, ch). case v of None \<Rightarrow> Inr (i, ch)
     | Some b0 \<Rightarrow> if bu_locked bu then Inr (i, ch)
         else (let b = trim_space b0 in if validate_base_url b \<noteq> None then Inl ErrInvalidInput
               else Inr (i\<lparr>in_baseURL := b\<rparr>, kv_put ''base_url'' (VStr b) ch)))"

definition change_variables :: "'sc libs \<Rightarrow> 'sc compiled \<Rightarrow> (string, string) gomap option \<Rightarrow> changed \<Rightarrow> (domain_error, changed) result" where
  "change_variables lib c v = (\<lambda>(i, ch). case v of None \<Rightarrow> Inr (i, ch)
     | Some vs \<Rightarrow> if validate_variables lib c vs \<noteq> [] then Inl ErrInvalidInput
         else Inr (i\<lparr>in_variables := vs\<rparr>, kv_put ''variables'' (VBool True) ch))"

definition change_host :: "string option \<Rightarrow> changed \<Rightarrow> (domain_error, changed) result" where
  "change_host v = (\<lambda>(i, ch). case v of None \<Rightarrow> Inr (i, ch)
     | Some h0 \<Rightarrow> (let h = trim_space h0 in if \<not> host_override_ok h then Inl ErrInvalidInput
         else Inr (i\<lparr>in_hostHeaderOverride := h\<rparr>, kv_put ''host_header_override'' (VStr h) ch)))"

definition change_flags :: "update_input \<Rightarrow> changed \<Rightarrow> changed" where
  "change_flags inp = (\<lambda>(i0, ch0).
     let (i1, ch1) = (case up_enabled inp of None \<Rightarrow> (i0, ch0) | Some b \<Rightarrow> (i0\<lparr>in_enabled := b\<rparr>, kv_put ''enabled'' (VBool b) ch0))
     in case up_allowPrivateNetwork inp of None \<Rightarrow> (i1, ch1)
        | Some b \<Rightarrow> (i1\<lparr>in_allowPrivateNetwork := b\<rparr>, kv_put ''allow_private_network'' (VBool b) ch1))"

definition change_limit :: "string \<Rightarrow> (int \<Rightarrow> goval) \<Rightarrow> (int \<Rightarrow> int) \<Rightarrow> ((int \<Rightarrow> int) \<Rightarrow> instance_rec \<Rightarrow> instance_rec) \<Rightarrow> int option \<Rightarrow> changed \<Rightarrow> changed" where
  "change_limit key mk clamp upd v = (\<lambda>(i, ch). case v of None \<Rightarrow> (i, ch)
     | Some n \<Rightarrow> (upd (\<lambda>x. clamp n) i, kv_put key (mk (clamp n)) ch))"

definition change_limits :: "update_input \<Rightarrow> changed \<Rightarrow> changed" where
  "change_limits inp =
     change_limit ''max_response_bytes'' VInt64 clamp_response_bytes in_maxResponseBytes_update (up_maxResponseBytes inp) \<circ>
     change_limit ''max_concurrent'' VInt clamp_concurrency in_maxConcurrent_update (up_maxConcurrent inp) \<circ>
     change_limit ''rate_limit_per_min'' VInt clamp_non_negative in_rateLimitPerMin_update (up_rateLimitPerMin inp) \<circ>
     change_limit ''timeout_ms'' VInt clamp_timeout in_timeoutMS_update (up_timeoutMS inp)"

definition apply_changes :: "'sc penv \<Rightarrow> 'sc reg_entry \<Rightarrow> update_input \<Rightarrow> instance_rec \<Rightarrow> (domain_error, changed) result" where
  "apply_changes env e inp i =
     rbind (change_name (up_name inp) (i, [])) (\<lambda>(i1, ch1).
     let i2 = (case up_description inp of None \<Rightarrow> i1 | Some x \<Rightarrow> i1\<lparr>in_description := trim_space x\<rparr>) in
     rbind (change_base_url (sp_baseURL (mf_spec (cc_manifest (rg_compiled e)))) (up_baseURL inp) (i2, ch1)) (\<lambda>s3.
     rbind (change_variables (pv_libs env) (rg_compiled e) (up_variables inp) s3) (\<lambda>s4.
     rbind (change_host (up_hostHeaderOverride inp) (change_flags inp s4)) (\<lambda>s5.
     Inr (change_limits inp s5)))))"

definition update_instance :: "'sc penv \<Rightarrow> actor \<Rightarrow> string \<Rightarrow> update_input \<Rightarrow> ('sc, instance_rec) op" where
  "update_instance env a iid inp =
     op_bind (run_sql (instance_get iid)) (\<lambda>i0.
     op_bind (connector_entry (in_connectorID i0)) (\<lambda>e.
     op_bind (\<lambda>p. (apply_changes env e inp i0, p)) (\<lambda>(i1, ch).
     op_bind (run_sql (instance_update (i1\<lparr>in_updatedAt := sv_now (pv_svc env)\<rparr>))) (\<lambda>i.
     op_bind op_invalidate (\<lambda>u.
     op_bind (reset_breaker (in_id i)) (\<lambda>u.
     op_bind (op_audit env a ''instance.update'' ''instance'' (in_id i) ch) (\<lambda>u.
     op_bind (if up_allowPrivateNetwork inp = Some True \<and> \<not> in_allowPrivateNetwork i0
              then op_audit (later_audit env) a ''instance.egress_private_enabled'' ''instance'' (in_id i) [(''base_url'', VStr (in_baseURL i))]
              else op_return ()) (\<lambda>u.
     op_return i))))))))"

definition delete_instance :: "'sc penv \<Rightarrow> actor \<Rightarrow> string \<Rightarrow> ('sc, unit) op" where
  "delete_instance env a iid =
     op_bind (run_sql (instance_delete iid)) (\<lambda>u.
     op_bind op_invalidate (\<lambda>u.
     op_bind (reset_breaker iid) (\<lambda>u.
     op_audit env a ''instance.delete'' ''instance'' iid [])))"

definition set_secret :: "'sc penv \<Rightarrow> actor \<Rightarrow> string \<Rightarrow> string \<Rightarrow> string \<Rightarrow> ('sc, unit) op" where
  "set_secret env a iid name plaintext =
     op_bind (run_sql (instance_get iid)) (\<lambda>i.
     op_bind (connector_entry (in_connectorID i)) (\<lambda>e.
     op_bind (op_require (validate_secret_names (rg_compiled e) [name] = [] \<and> plaintext \<noteq> [] \<and> length plaintext \<le> 8192) ErrInvalidInput) (\<lambda>u.
     op_bind (case seal (sv_crypto (pv_svc env)) (sv_keyring (pv_svc env)) (sv_random (pv_svc env) 0) (secret_aad iid name) plaintext of
                None \<Rightarrow> op_fail ErrOther | Some ct \<Rightarrow> op_return ct) (\<lambda>ct.
     op_bind (run_sql (secret_set \<lparr>is_instanceID = iid, is_name = name, is_ciphertext = ct, is_updatedAt = sv_now (pv_svc env)\<rparr>)) (\<lambda>u.
     op_bind op_invalidate (\<lambda>u.
     op_audit env a ''instance.secret_set'' ''instance'' iid [(''secret'', VStr name), (''action'', VStr ''set'')]))))))"

definition delete_secret :: "'sc penv \<Rightarrow> actor \<Rightarrow> string \<Rightarrow> string \<Rightarrow> ('sc, unit) op" where
  "delete_secret env a iid name =
     op_bind (run_sql (secret_delete iid name)) (\<lambda>u.
     op_bind op_invalidate (\<lambda>u.
     op_audit env a ''instance.secret_set'' ''instance'' iid [(''secret'', VStr name), (''action'', VStr ''deleted'')]))"

definition set_tool_enabled :: "'sc penv \<Rightarrow> actor \<Rightarrow> string \<Rightarrow> string \<Rightarrow> bool \<Rightarrow> ('sc, unit) op" where
  "set_tool_enabled env a iid tname enabled =
     op_bind (run_sql (instance_get iid)) (\<lambda>i.
     op_bind (connector_entry (in_connectorID i)) (\<lambda>e.
     op_bind (op_require (compiled_tool_named (rg_compiled e) tname \<noteq> None) ErrNotFound) (\<lambda>u.
     op_bind (run_sql (tool_binding_set \<lparr>tb_instanceID = iid, tb_toolName = tname, tb_enabled = enabled\<rparr>)) (\<lambda>u.
     op_bind op_invalidate (\<lambda>u.
     op_audit env a ''instance.update'' ''instance'' iid [(''tool'', VStr tname), (''enabled'', VBool enabled)])))))"

section \<open>Read models\<close>

fun op_all :: "('a \<Rightarrow> ('sc, 'b) op) \<Rightarrow> 'a list \<Rightarrow> ('sc, 'b list) op" where
  "op_all f [] = op_return []"
| "op_all f (x # xs) = op_bind (f x) (\<lambda>y. op_bind (op_all f xs) (\<lambda>ys. op_return (y # ys)))"

definition tool_overrides :: "tool_binding list \<Rightarrow> (string, bool) gomap" where
  "tool_overrides bs = List.fold (\<lambda>b m. kv_put (tb_toolName b) (tb_enabled b) m) bs []"

definition tool_enabled :: "tool_binding list \<Rightarrow> 'sc compiled_tool \<Rightarrow> bool" where
  "tool_enabled bs tt =
     (case map_of (tool_overrides bs) (tl_name (ct_def tt)) of Some b \<Rightarrow> b | None \<Rightarrow> \<not> tl_disabled (ct_def tt))"

definition enabled_tool_set :: "'sc compiled \<Rightarrow> tool_binding list \<Rightarrow> string set" where
  "enabled_tool_set c bs = set (map (\<lambda>tt. tl_name (ct_def tt)) (filter (tool_enabled bs) (cc_tools c)))"

record summary =
  sm_instance :: instance_rec
  sm_connectorID :: string
  sm_connectorName :: string
  sm_toolCount :: nat
  sm_enabledTools :: nat
  sm_missingSecrets :: "string list"
  sm_problem :: string

definition ready :: "summary \<Rightarrow> bool" where
  "ready s = (in_enabled (sm_instance s) \<and> sm_problem s = [])"

definition summarise :: "instance_rec \<Rightarrow> ('sc, summary) op" where
  "summarise i p =
     (case registry_get (pf_registry p) (in_connectorID i) of
        None \<Rightarrow> (Inr \<lparr>sm_instance = i, sm_connectorID = in_connectorID i, sm_connectorName = in_connectorID i, sm_toolCount = 0,
                  sm_enabledTools = 0, sm_missingSecrets = [],
                  sm_problem = ''the connector for this instance is unavailable or failed to compile''\<rparr>, p)
      | Some e \<Rightarrow>
          op_bind (run_sql (tool_binding_list (in_id i))) (\<lambda>bs.
          op_bind (run_sql (load_secrets (in_id i))) (\<lambda>stored.
          let n = card (enabled_tool_set (rg_compiled e) bs); missing = missing_required_secrets (rg_compiled e) stored
          in op_return \<lparr>sm_instance = i, sm_connectorID = in_connectorID i, sm_connectorName = cr_name (rg_record e),
               sm_toolCount = length (cc_tools (rg_compiled e)), sm_enabledTools = n, sm_missingSecrets = missing,
               sm_problem = (if missing \<noteq> [] then ''required credentials are not configured: '' @ join_str '', '' missing
                             else if n = 0 then ''no tools are enabled'' else [])\<rparr>)) p)"

definition list_instances :: "('sc, summary list) op" where
  "list_instances = op_bind (run_sql instance_list) (op_all summarise)"

record 'sc instance_detail =
  dt_summary :: summary
  dt_connector :: "'sc reg_entry option"
  dt_tools :: "('sc compiled_tool \<times> bool) list"
  dt_variables :: "(variable \<times> string \<times> string) list"
  dt_secrets :: "(secret_def \<times> bool) list"

definition map_value :: "(string, string) gomap \<Rightarrow> string \<Rightarrow> string" where
  "map_value m k = (case map_of m k of None \<Rightarrow> [] | Some v \<Rightarrow> v)"

definition detail_instance :: "string \<Rightarrow> ('sc, 'sc instance_detail) op" where
  "detail_instance iid =
     op_bind (run_sql (instance_get iid)) (\<lambda>i.
     op_bind (summarise i) (\<lambda>s p.
     case registry_get (pf_registry p) (in_connectorID i) of
       None \<Rightarrow> (Inr \<lparr>dt_summary = s, dt_connector = None, dt_tools = [], dt_variables = [], dt_secrets = []\<rparr>, p)
     | Some e \<Rightarrow>
         op_bind (run_sql (tool_binding_list (in_id i))) (\<lambda>bs.
         op_bind (run_sql (secret_names (in_id i))) (\<lambda>names.
         let c = rg_compiled e; sp = mf_spec (cc_manifest c); eff = resolve_variables c (in_variables i)
         in op_return \<lparr>dt_summary = s, dt_connector = Some e,
              dt_tools = map (\<lambda>tt. (tt, tl_name (ct_def tt) \<in> enabled_tool_set c bs)) (cc_tools c),
              dt_variables = map (\<lambda>v. (v, map_value (in_variables i) (va_name v), map_value eff (va_name v))) (sp_variables sp),
              dt_secrets = map (\<lambda>x. (x, se_name x \<in> set names)) (sp_secrets sp)\<rparr>)) p))"

section \<open>Resolution\<close>

definition resolve_instance :: "instance_rec \<Rightarrow> ('sc, 'sc resolved) op" where
  "resolve_instance i =
     op_bind (connector_entry (in_connectorID i)) (\<lambda>e.
     op_bind (run_sql (tool_binding_list (in_id i))) (\<lambda>bs.
     op_bind (run_sql (load_secrets (in_id i))) (\<lambda>ct.
     op_return \<lparr>rv_instance = i, rv_connector = rg_compiled e, rv_connectorRec = rg_record e,
       rv_enabledTools = enabled_tool_set (rg_compiled e) bs, rv_secrets = ct\<rparr>)))"

definition instances_ttl :: "int \<Rightarrow> int" where
  "instances_ttl ttl = (if ttl \<le> 0 then 5 * second else ttl)"

definition cache_get :: "int \<Rightarrow> string \<Rightarrow> (string, 'sc cached_target) gomap \<Rightarrow> 'sc resolved option" where
  "cache_get now slug c =
     (case map_of c slug of None \<Rightarrow> None | Some x \<Rightarrow> if ca_expires x < now then None else Some (ca_resolved x))"

definition cache_put :: "int \<Rightarrow> int \<Rightarrow> string \<Rightarrow> 'sc resolved \<Rightarrow> (string, 'sc cached_target) gomap \<Rightarrow> (string, 'sc cached_target) gomap" where
  "cache_put ttl now slug r c = kv_put slug \<lparr>ca_resolved = r, ca_expires = now + ttl\<rparr> c"

text \<open>\<open>others\<close> is what other requests do between the reads and the entry into the cache.\<close>

definition resolve_by_slug :: "'sc penv \<Rightarrow> ('sc platform \<Rightarrow> 'sc platform) \<Rightarrow> string \<Rightarrow> ('sc, 'sc resolved) op" where
  "resolve_by_slug env others slug p =
     (case cache_get (sv_now (pv_svc env)) slug (pf_cache p) of
        Some r \<Rightarrow> (Inr r, p)
      | None \<Rightarrow>
          op_bind (run_sql (instance_by_slug slug)) (\<lambda>i.
          op_bind (resolve_instance i) (\<lambda>r p1.
            let p2 = others p1
            in (Inr r, p2\<lparr>pf_cache := cache_put (instances_ttl (pv_cacheTTL env)) (pv_cacheNow env) slug r (pf_cache p2)\<rparr>))) p)"

definition resolve_by_id :: "string \<Rightarrow> ('sc, 'sc resolved) op" where
  "resolve_by_id iid = op_bind (run_sql (instance_get iid)) resolve_instance"

definition open_secret :: "'sc penv \<Rightarrow> string \<Rightarrow> string \<times> string \<Rightarrow> (domain_error, string \<times> string) result" where
  "open_secret env iid = (\<lambda>(name, ct).
     case unseal (sv_crypto (pv_svc env)) (sv_keyring (pv_svc env)) (secret_aad iid name) ct of
       None \<Rightarrow> Inl ErrOther | Some v \<Rightarrow> Inr (name, v))"

definition target_of :: "'sc penv \<Rightarrow> 'sc resolved \<Rightarrow> (domain_error, target) result" where
  "target_of env r =
     (let i = rv_instance r in
      case url_parse (in_baseURL i) of
        None \<Rightarrow> Inl ErrInvalidInput
      | Some base \<Rightarrow>
          rbind (traverse (open_secret env (in_id i)) (rv_secrets r)) (\<lambda>plain.
          Inr \<lparr>tg_instanceID = in_id i, tg_slug = in_slug i, tg_baseURL = Some base,
               tg_vars = resolve_variables (rv_connector r) (in_variables i), tg_secrets = plain,
               tg_hostHeader = in_hostHeaderOverride i, tg_policy = \<lparr>allow_private_networks = in_allowPrivateNetwork i\<rparr>,
               tg_timeout = instance_timeout i, tg_maxResponseBytes = in_maxResponseBytes i,
               tg_rateLimitPerMin = in_rateLimitPerMin i, tg_maxConcurrent = in_maxConcurrent i\<rparr>))"

section \<open>Connection test\<close>

datatype pick_error = NoSuchTool string | ToolNotEnabled string | NoAutomaticTool

datatype test_message = TestPick pick_error | TestTarget domain_error | TestEngine engine_error | TestAnswered string

datatype test_hint =
    HintNone | HintChooseTool | HintReenter | HintEgress | HintLocalApp | HintBaseURL | HintTimeout | HintCredentials
  | HintNotFound | HintHostOverride string | HintStatus | HintRateLimit | HintCircuit

record test_result =
  tr_ok :: bool
  tr_tool :: string
  tr_statusCode :: int
  tr_durationMS :: int
  tr_message :: test_message
  tr_preview :: string
  tr_hint :: test_hint

definition is_read_only :: "'sc compiled_tool \<Rightarrow> bool" where
  "is_read_only tt =
     (case tl_annotations (ct_def tt) of
        Some an \<Rightarrow> (case an_readOnly an of Some b \<Rightarrow> b | None \<Rightarrow> rq_method (tl_request (ct_def tt)) \<in> {''GET'', ''HEAD''})
      | None \<Rightarrow> rq_method (tl_request (ct_def tt)) \<in> {''GET'', ''HEAD''})"

definition has_required_arguments :: "'sc compiled_tool \<Rightarrow> bool" where
  "has_required_arguments tt =
     (case tl_inputSchema (ct_def tt) of None \<Rightarrow> False
      | Some sch \<Rightarrow> (case map_of sch ''required'' of Some (VArr xs) \<Rightarrow> xs \<noteq> [] | _ \<Rightarrow> False))"

definition pick_test_tool :: "'sc resolved \<Rightarrow> string \<Rightarrow> (pick_error, 'sc compiled_tool) result" where
  "pick_test_tool r name =
     (if name \<noteq> [] then
        (case compiled_tool_named (rv_connector r) name of
           None \<Rightarrow> Inl (NoSuchTool name)
         | Some tt \<Rightarrow> if name \<notin> rv_enabledTools r then Inl (ToolNotEnabled name) else Inr tt)
      else case find (\<lambda>tt. tl_name (ct_def tt) \<in> rv_enabledTools r \<and> is_read_only tt \<and> \<not> has_required_arguments tt)
                  (cc_tools (rv_connector r)) of
             None \<Rightarrow> Inl NoAutomaticTool | Some tt \<Rightarrow> Inr tt)"

definition url_port :: "url \<Rightarrow> string" where
  "url_port u =
     (let h = u_host u; after = takeWhile (\<lambda>c. c \<noteq> CHR '':'') (rev h)
      in if CHR '':'' \<in> set h \<and> list_all is_digit after then rev after else [])"

definition suggested_host_override :: "string \<Rightarrow> string" where
  "suggested_host_override base =
     (case url_parse base of
        Some u \<Rightarrow> if url_port u \<noteq> [] then ''127.0.0.1:'' @ url_port u else ''127.0.0.1''
      | None \<Rightarrow> ''127.0.0.1'')"

definition hint_for :: "engine_error \<Rightarrow> 'sc resolved \<Rightarrow> test_hint" where
  "hint_for e r =
     (case ee_kind e of
        KindEgressBlocked \<Rightarrow> HintEgress
      | KindUpstreamFailure \<Rightarrow>
          if bu_requiresPrivateNetwork (sp_baseURL (mf_spec (cc_manifest (rv_connector r)))) then HintLocalApp else HintBaseURL
      | KindTimeout \<Rightarrow> HintTimeout
      | KindUpstreamStatus \<Rightarrow>
          if ee_status e = 401 \<or> ee_status e = 403 then HintCredentials
          else if ee_status e = 404 then HintNotFound
          else if ee_status e = 400 \<and> in_allowPrivateNetwork (rv_instance r) \<and> in_hostHeaderOverride (rv_instance r) = []
          then HintHostOverride (suggested_host_override (in_baseURL (rv_instance r)))
          else HintStatus
      | KindRateLimited \<Rightarrow> HintRateLimit
      | KindCircuitOpen \<Rightarrow> HintCircuit
      | _ \<Rightarrow> HintNone)"

definition max_preview_bytes :: nat where "max_preview_bytes = 600"

text \<open>The call runs under a deadline of 20 seconds; \<open>ms\<close> is the time it took.  The detail of the
  failure's record holds the message text, which \<open>txt\<close> formats.\<close>

definition test_resolved :: "'sc penv \<Rightarrow> 'sc environment \<Rightarrow> int \<Rightarrow> (engine_error \<Rightarrow> string) \<Rightarrow> actor \<Rightarrow> string \<Rightarrow> string
    \<Rightarrow> 'sc resolved \<Rightarrow> ('sc, test_result) op" where
  "test_resolved env ev ms txt a iid tname r p =
     (case pick_test_tool r tname of
       Inl e \<Rightarrow> (Inr \<lparr>tr_ok = False, tr_tool = [], tr_statusCode = 0, tr_durationMS = 0, tr_message = TestPick e, tr_preview = [],
                  tr_hint = HintChooseTool\<rparr>, p)
     | Inr tt \<Rightarrow>
         (case target_of env r of
            Inl e \<Rightarrow> (Inr \<lparr>tr_ok = False, tr_tool = tl_name (ct_def tt), tr_statusCode = 0, tr_durationMS = 0,
                       tr_message = TestTarget e, tr_preview = [], tr_hint = HintReenter\<rparr>, p)
          | Inr tg \<Rightarrow>
              (let ev1 = ev\<lparr>ev_net := (\<lambda>t. ev_net ev (min t (20 * second)))\<rparr>;
                   (res, x) = execute ev1 (Some tg) (Some (rv_connector r)) (Some tt) (Some []) (pf_executor p);
                   p1 = p\<lparr>pf_executor := x\<rparr>
               in case res of
                    Inl e \<Rightarrow>
                      (Inr \<lparr>tr_ok = False, tr_tool = tl_name (ct_def tt), tr_statusCode = ee_status e, tr_durationMS = ms,
                         tr_message = TestEngine e, tr_preview = [], tr_hint = hint_for e r\<rparr>,
                       p1\<lparr>pf_db := audit_record (pv_svc env) a ''instance.test'' ''instance'' iid ''failure''
                            [(''tool'', VStr (tl_name (ct_def tt))), (''message'', VStr (txt e))] (pf_db p1)\<rparr>)
                  | Inr ok \<Rightarrow>
                      op_bind (op_audit env a ''instance.test'' ''instance'' iid
                                 [(''tool'', VStr (tl_name (ct_def tt))), (''status'', VInt (re_statusCode ok)), (''duration_ms'', VInt64 ms)])
                        (\<lambda>u. op_return \<lparr>tr_ok = True, tr_tool = tl_name (ct_def tt), tr_statusCode = re_statusCode ok, tr_durationMS = ms,
                           tr_message = TestAnswered (md_name (mf_metadata (cc_manifest (rv_connector r)))),
                           tr_preview = truncate_string (re_text ok) max_preview_bytes, tr_hint = HintNone\<rparr>) p1)))"

definition test_connection :: "'sc penv \<Rightarrow> 'sc environment \<Rightarrow> int \<Rightarrow> (engine_error \<Rightarrow> string) \<Rightarrow> actor \<Rightarrow> string \<Rightarrow> string
    \<Rightarrow> ('sc, test_result) op" where
  "test_connection env ev ms txt a iid tname = op_bind (resolve_by_id iid) (test_resolved env ev ms txt a iid tname)"

section \<open>Lemmas\<close>

text \<open>A triple over the database: the operation keeps \<open>I\<close>, and a value it returns has \<open>Q\<close>.\<close>

definition op_spec :: "(db \<Rightarrow> bool) \<Rightarrow> ('sc, 'a) op \<Rightarrow> ('a \<Rightarrow> bool) \<Rightarrow> bool" where
  "op_spec I m Q = (\<forall>p. I (pf_db p) \<longrightarrow> I (pf_db (snd (m p))) \<and> (\<forall>a. fst (m p) = Inr a \<longrightarrow> Q a))"

named_theorems op_rules \<open>triples of the operations\<close>

lemma op_specI:
  "(\<And>p r p'. m p = (r, p') \<Longrightarrow> I (pf_db p) \<Longrightarrow> I (pf_db p') \<and> (\<forall>a. r = Inr a \<longrightarrow> Q a)) \<Longrightarrow> op_spec I m Q"
  unfolding op_spec_def by (metis prod.collapse)

lemma op_specD: "op_spec I m Q \<Longrightarrow> I (pf_db p) \<Longrightarrow> I (pf_db (snd (m p)))"
  by (simp add: op_spec_def)

lemma op_spec_bind [op_rules]:
  assumes "op_spec I m Q" "\<And>a. Q a \<Longrightarrow> op_spec I (k a) R"
  shows "op_spec I (op_bind m k) R"
proof (rule op_specI)
  fix p r p' assume b: "op_bind m k p = (r, p')" and I: "I (pf_db p)"
  obtain r1 p1 where m: "m p = (r1, p1)" by (metis surj_pair)
  have 1: "I (pf_db p1)" "r1 = Inr a \<Longrightarrow> Q a" for a using assms(1) I m by (auto simp: op_spec_def dest: spec[of _ p])
  show "I (pf_db p') \<and> (\<forall>a. r = Inr a \<longrightarrow> R a)"
  proof (cases r1)
    case (Inl e) thus ?thesis using b m 1 by (auto simp: op_bind_def)
  next
    case (Inr a)
    hence "k a p1 = (r, p')" using b m by (simp add: op_bind_def)
    thus ?thesis using assms(2)[OF 1(2)[OF Inr]] 1(1) by (auto simp: op_spec_def dest: spec[of _ p1])
  qed
qed

lemma op_spec_return [op_rules]: "Q a \<Longrightarrow> op_spec I (op_return a) Q"
  by (simp add: op_spec_def op_return_def)

lemma op_spec_fail [op_rules]: "op_spec I (op_fail e) Q"
  by (simp add: op_spec_def op_fail_def)

lemma op_spec_require [op_rules]: "op_spec I (op_require c e) (\<lambda>u. c)"
  by (simp add: op_spec_def op_require_def op_return_def op_fail_def)

lemma op_spec_weaken: "op_spec I m Q \<Longrightarrow> (\<And>a. Q a \<Longrightarrow> R a) \<Longrightarrow> op_spec I m R"
  by (auto simp: op_spec_def)

text \<open>What is the same, the same invariant sees.\<close>

lemma op_spec_same: "(\<And>p. pf_db (snd (m p)) = pf_db p) \<Longrightarrow> op_spec I m (\<lambda>a. True)"
  by (simp add: op_spec_def)

lemma op_spec_invalidate [op_rules]: "op_spec I op_invalidate (\<lambda>u. True)"
  by (rule op_spec_same) (simp add: op_invalidate_def invalidate_all_def)

lemma op_spec_reset [op_rules]: "op_spec I (reset_breaker i) (\<lambda>u. True)"
  by (rule op_spec_same) (simp add: reset_breaker_def)

lemma op_spec_entry [op_rules]: "op_spec I (connector_entry i) (\<lambda>u. True)"
  by (rule op_spec_same) (simp add: connector_entry_def split: option.splits)

text \<open>The invariant of the instance tables.\<close>

definition instance_ok :: "instance_rec \<Rightarrow> bool" where
  "instance_ok i =
     (slug_ok (in_slug i) \<and> in_name i \<noteq> [] \<and> validate_base_url (in_baseURL i) = None \<and> host_override_ok (in_hostHeaderOverride i) \<and>
      500 \<le> in_timeoutMS i \<and> in_timeoutMS i \<le> 120000 \<and> 0 \<le> in_rateLimitPerMin i \<and>
      1 \<le> in_maxConcurrent i \<and> in_maxConcurrent i \<le> 64 \<and>
      1024 \<le> in_maxResponseBytes i \<and> in_maxResponseBytes i \<le> 16777216)"

definition instances_wf :: "db \<Rightarrow> bool" where
  "instances_wf d =
     (list_all instance_ok (db_instances d) \<and> distinct (map in_id (db_instances d)) \<and> distinct (map in_slug (db_instances d)) \<and>
      (\<forall>i\<in>set (db_instances d). \<exists>c\<in>set (db_connectors d). cr_id c = in_connectorID i) \<and>
      (\<forall>s\<in>set (db_secrets d). \<exists>i\<in>set (db_instances d). in_id i = is_instanceID s) \<and>
      (\<forall>b\<in>set (db_tools d). \<exists>i\<in>set (db_instances d). in_id i = tb_instanceID b))"

text \<open>The tables the invariant speaks of.\<close>

definition instance_tables :: "db \<Rightarrow> connector_record list \<times> instance_rec list \<times> instance_secret list \<times> tool_binding list" where
  "instance_tables d = (db_connectors d, db_instances d, db_secrets d, db_tools d)"

lemma instances_wf_same: "instance_tables d' = instance_tables d \<Longrightarrow> instances_wf d' = instances_wf d"
  by (simp add: instance_tables_def instances_wf_def)

lemma tables_faults [simp]: "instance_tables (d\<lparr>db_faults := bs\<rparr>) = instance_tables d"
  by (simp add: instance_tables_def)

lemma instances_wf_faults [simp]: "instances_wf (d\<lparr>db_faults := bs\<rparr>) = instances_wf d"
  by (rule instances_wf_same) simp

text \<open>A statement keeps the invariant when its body does.\<close>

lemma op_spec_stmt:
  assumes "\<And>d. instances_wf d \<Longrightarrow> instances_wf (snd (f d)) \<and> (\<forall>a. fst (f d) = Inr a \<longrightarrow> Q a)"
  shows "op_spec instances_wf (run_sql (stmt f)) Q"
  using assms by (auto simp: op_spec_def run_sql_def stmt_def Let_def split: prod.splits list.splits) (metis fst_conv snd_conv instances_wf_faults)+

lemma op_spec_select [op_rules]: "op_spec instances_wf (run_sql (select f)) (\<lambda>a. True)"
  unfolding select_def by (rule op_spec_stmt) simp

lemma op_spec_instance_get [op_rules]: "op_spec instances_wf (run_sql (instance_get i)) instance_ok"
  unfolding instance_get_def select_row_def
  by (rule op_spec_stmt) (auto simp: instances_wf_def list_all_iff filter_eq_Cons_iff split: list.splits)

lemma op_spec_instance_by_slug [op_rules]: "op_spec instances_wf (run_sql (instance_by_slug s)) instance_ok"
  unfolding instance_by_slug_def select_row_def
  by (rule op_spec_stmt) (auto simp: instances_wf_def list_all_iff filter_eq_Cons_iff split: list.splits)

lemma instance_ok_cong [simp]:
  "instance_ok (i\<lparr>in_variables := v\<rparr>) = instance_ok i" "instance_ok (i\<lparr>in_connectorID := c\<rparr>) = instance_ok i"
  "instance_ok (i\<lparr>in_createdAt := t\<rparr>) = instance_ok i" "instance_ok (i\<lparr>in_updatedAt := t\<rparr>) = instance_ok i"
  "instance_ok (i\<lparr>in_version := n\<rparr>) = instance_ok i" "instance_ok (i\<lparr>in_description := x\<rparr>) = instance_ok i"
  "instance_ok (i\<lparr>in_enabled := b\<rparr>) = instance_ok i" "instance_ok (i\<lparr>in_allowPrivateNetwork := b\<rparr>) = instance_ok i"
  by (simp_all add: instance_ok_def)

text \<open>Statements that write.\<close>

lemma updated_ids:
  assumes "\<And>x. P x \<Longrightarrow> k (f x) = k x"
  shows "(\<exists>r\<in>set (updated P f rows). k r = y) \<longleftrightarrow> (\<exists>r\<in>set rows. k r = y)"
  using assms by (induction rows) (auto simp: updated_def)

lemma op_spec_instance_create [op_rules]: "instance_ok i \<Longrightarrow> op_spec instances_wf (run_sql (instance_create i)) (\<lambda>u. True)"
  unfolding instance_create_def
  by (rule op_spec_stmt) (auto simp: instances_wf_def list_all_iff list_ex_iff)

lemma wf_instances_updated:
  assumes wf: "instances_wf d" and ok: "instance_ok i"
    and free: "\<And>r. r \<in> set (db_instances d) \<Longrightarrow> in_id r \<noteq> in_id i \<Longrightarrow> in_slug r \<noteq> in_slug i"
    and f: "\<And>r. in_id (f r) = in_id i \<and> in_slug (f r) = in_slug i \<and> in_connectorID (f r) = in_connectorID r \<and> instance_ok (f r)"
  shows "instances_wf (d\<lparr>db_instances := updated (\<lambda>r. in_id r = in_id i) f (db_instances d)\<rparr>)"
proof -
  let ?rows = "updated (\<lambda>r. in_id r = in_id i) f (db_instances d)"
  have ids: "map in_id ?rows = map in_id (db_instances d)" by (rule map_key_updated) (simp add: f)
  have "distinct (map in_slug (updated (\<lambda>r. in_id r = in_id i) f rows))"
    if "distinct (map in_id rows)" "distinct (map in_slug rows)" "set rows \<subseteq> set (db_instances d)" for rows
    using that
  proof (induction rows)
    case (Cons r rows)
    have "in_slug (if in_id x = in_id i then f x else x) \<noteq> in_slug (if in_id r = in_id i then f r else r)" if "x \<in> set rows" for x
      using that Cons.prems free[of x] free[of r] f by (auto simp: image_iff)
    moreover have "distinct (map in_slug (updated (\<lambda>r. in_id r = in_id i) f rows))" using Cons by simp
    ultimately show ?case by (force simp: updated_def)
  qed (simp add: updated_def)
  hence "distinct (map in_slug ?rows)" using wf by (simp add: instances_wf_def)
  moreover have "(\<exists>x\<in>set ?rows. in_id x = y) \<longleftrightarrow> (\<exists>x\<in>set (db_instances d). in_id x = y)" for y
    by (rule updated_ids) (simp add: f)
  moreover have "list_all instance_ok ?rows" using wf f by (auto simp: instances_wf_def list_all_iff set_updated)
  moreover have "\<exists>c\<in>set (db_connectors d). cr_id c = in_connectorID x" if x: "x \<in> set ?rows" for x
  proof -
    obtain r where "r \<in> set (db_instances d)" "x = (if in_id r = in_id i then f r else r)" using x by (auto simp: set_updated)
    thus ?thesis using wf f[of r] by (auto simp: instances_wf_def)
  qed
  ultimately show ?thesis using wf ids by (simp add: instances_wf_def)
qed

lemma op_spec_instance_update [op_rules]: "instance_ok i \<Longrightarrow> op_spec instances_wf (run_sql (instance_update i)) instance_ok"
  unfolding instance_update_def
  by (rule op_spec_stmt) (auto simp: Let_def list_ex_iff intro!: wf_instances_updated)

lemma op_spec_instance_delete [op_rules]: "op_spec instances_wf (run_sql (instance_delete i)) (\<lambda>u. True)"
  unfolding instance_delete_def
  by (rule op_spec_stmt) (auto simp: instances_wf_def list_all_iff distinct_map_filter; metis)

lemma op_spec_secret_set [op_rules]: "op_spec instances_wf (run_sql (secret_set s)) (\<lambda>u. True)"
  unfolding secret_set_def
  by (rule op_spec_stmt) (auto simp: Let_def instances_wf_def list_ex_iff set_updated split: if_splits)

lemma op_spec_secret_delete [op_rules]: "op_spec instances_wf (run_sql (secret_delete i n)) (\<lambda>u. True)"
  unfolding secret_delete_def by (rule op_spec_stmt) (auto simp: instances_wf_def)

lemma op_spec_tool_binding_set [op_rules]: "op_spec instances_wf (run_sql (tool_binding_set b)) (\<lambda>u. True)"
  unfolding tool_binding_set_def
  by (rule op_spec_stmt) (auto simp: Let_def instances_wf_def list_ex_iff set_updated split: if_splits)

lemma op_spec_connector_upsert [op_rules]: "op_spec instances_wf (run_sql (connector_upsert c)) (\<lambda>u. True)"
proof -
  have "(\<exists>x\<in>set (updated (\<lambda>r. cr_id r = cr_id c) (\<lambda>r. c\<lparr>cr_createdAt := cr_createdAt r\<rparr>) rows). cr_id x = y)
      \<longleftrightarrow> (\<exists>x\<in>set rows. cr_id x = y)" for rows y
    by (rule updated_ids) simp
  thus ?thesis unfolding connector_upsert_def by (intro op_spec_stmt) (auto simp: instances_wf_def)
qed

lemma op_spec_connector_delete [op_rules]: "op_spec instances_wf (run_sql (connector_delete i)) (\<lambda>u. True)"
  unfolding connector_delete_def
  by (rule op_spec_stmt) (auto simp: instances_wf_def list_ex_iff; metis)

lemma op_spec_connector_get [op_rules]: "op_spec instances_wf (run_sql (connector_get i)) (\<lambda>c. True)"
  unfolding connector_get_def select_row_def by (rule op_spec_stmt) simp

lemma instances_wf_audit [simp]: "instances_wf (audit_record env a ac tt ti re de d) = instances_wf d"
proof -
  obtain r d' where "audit_append \<lparr>ae_id = new_id ''aud'' (sv_auditBytes env), ae_at = sv_auditNow env, ae_actorType = ac_type a,
      ae_actorID = ac_id a, ae_action = ac, ae_targetType = tt, ae_targetID = ti, ae_result = re, ae_ip = ac_ip a, ae_detail = de\<rparr> d = (r, d')"
    by (metis surj_pair)
  hence "instance_tables (audit_record env a ac tt ti re de d) = instance_tables d"
    unfolding audit_record_def audit_append_def
    by (auto simp: sql_fail_def instance_tables_def split: option.splits if_splits elim!: stmt_cases)
  thus ?thesis by (rule instances_wf_same)
qed

lemma op_spec_audit [op_rules]: "op_spec instances_wf (op_audit env a ac tt ti de) (\<lambda>u. True)"
  by (simp add: op_spec_def op_audit_def audit_success_def)

text \<open>Clamped values are within the limits.\<close>

lemma clamp_bounds [simp]:
  "500 \<le> clamp_timeout x" "clamp_timeout x \<le> 120000" "0 \<le> clamp_non_negative x" "1 \<le> clamp_concurrency x"
  "clamp_concurrency x \<le> 64" "1024 \<le> clamp_response_bytes x" "clamp_response_bytes x \<le> 16777216"
  by (auto simp: clamp_timeout_def clamp_non_negative_def clamp_concurrency_def clamp_response_bytes_def
      max_timeout_ms_def max_response_bytes_cap_def)

lemma new_instance_ok: "new_instance env e inp = Inr i \<Longrightarrow> instance_ok i"
  by (auto simp: new_instance_def Let_def instance_ok_def split: if_splits)

lemma change_limit_ok:
  assumes "instance_ok i" "\<And>i n. instance_ok i \<Longrightarrow> instance_ok (upd (\<lambda>x. clamp n) i)"
  shows "instance_ok (fst (change_limit key mk clamp upd v (i, ch)))"
  using assms by (auto simp: change_limit_def split: option.splits)

lemma change_limits_ok: "instance_ok (fst s) \<Longrightarrow> instance_ok (fst (change_limits inp s))"
  by (cases s) (auto simp: change_limits_def change_limit_def instance_ok_def split: option.splits)

lemma apply_changes_ok:
  assumes "apply_changes env e inp i = Inr s" "instance_ok i"
  shows "instance_ok (fst s)"
proof -
  obtain i1 ch1 s3 s4 s5 where 1: "change_name (up_name inp) (i, []) = Inr (i1, ch1)"
    and 3: "change_base_url (sp_baseURL (mf_spec (cc_manifest (rg_compiled e)))) (up_baseURL inp)
       ((case up_description inp of None \<Rightarrow> i1 | Some x \<Rightarrow> i1\<lparr>in_description := trim_space x\<rparr>), ch1) = Inr s3"
    and 4: "change_variables (pv_libs env) (rg_compiled e) (up_variables inp) s3 = Inr s4"
    and 5: "change_host (up_hostHeaderOverride inp) (change_flags inp s4) = Inr s5" and s: "s = change_limits inp s5"
    using assms(1) by (auto simp: apply_changes_def Let_def split: prod.splits)
  have "instance_ok i1" using 1 assms(2) by (auto simp: change_name_def instance_ok_def Let_def split: option.splits if_splits)
  hence "instance_ok (fst s3)" using 3
    by (auto simp: change_base_url_def instance_ok_def Let_def split: option.splits if_splits)
  hence "instance_ok (fst s4)" using 4
    by (cases s3) (auto simp: change_variables_def split: option.splits if_splits)
  hence flags: "instance_ok (fst (change_flags inp s4))"
    by (cases s4) (auto simp: change_flags_def split: option.splits)
  obtain i4 ch4 where s4: "change_flags inp s4 = (i4, ch4)" by (metis surj_pair)
  have "instance_ok (fst s5)" using 5 flags
    by (auto simp: s4 change_host_def instance_ok_def Let_def split: option.splits if_splits)
  thus ?thesis using s change_limits_ok by blast
qed

text \<open>Every operation of the services keeps the invariant.\<close>

lemma op_spec_if [op_rules]: "op_spec I m Q \<Longrightarrow> op_spec I n Q \<Longrightarrow> op_spec I (if c then m else n) Q"
  by simp

lemma op_spec_pure [op_rules]: "op_spec I (\<lambda>p. (x, p)) (\<lambda>a. x = Inr a)"
  by (simp add: op_spec_def)

lemma op_spec_option [op_rules]: "op_spec I (case x of None \<Rightarrow> op_fail e | Some c \<Rightarrow> op_return c) (\<lambda>c. x = Some c)"
  by (simp add: op_spec_def op_fail_def op_return_def split: option.splits)

lemma op_spec_True: "op_spec I m Q \<Longrightarrow> op_spec I m (\<lambda>a. True)"
  by (auto simp: op_spec_def)

lemma op_spec_pick: "(\<And>x. op_spec I (m x) Q) \<Longrightarrow> op_spec I (\<lambda>p. m (f p) p) Q"
  by (simp add: op_spec_def)

abbreviation keeps_instances :: "('sc, 'a) op \<Rightarrow> bool" where
  "keeps_instances m \<equiv> op_spec instances_wf m (\<lambda>a. True)"

lemma create_instance_keeps: "keeps_instances (create_instance env a inp)"
proof -
  have chain: "keeps_instances (op_bind (run_sql (instance_create i)) (\<lambda>u. op_bind op_invalidate (\<lambda>u.
      op_bind (op_audit env a s1 s2 s3 de) (\<lambda>u. op_bind (if b then op_audit env' a s1' s2' s3' de' else op_return ()) (\<lambda>u. op_return i)))))"
    if "instance_ok i" for i de s1 s2 s3 b env' s1' s2' s3' de'
    by (rule op_rules TrueI that)+
  show ?thesis
  proof (rule op_specI)
    fix p r p' assume c: "create_instance env a inp p = (r, p')" and I: "instances_wf (pf_db p)"
    show "instances_wf (pf_db p') \<and> (\<forall>a. r = Inr a \<longrightarrow> True)"
    proof (cases "\<exists>e i. registry_get (pf_registry p) (cn_connectorID inp) = Some e \<and> new_instance env e inp = Inr i")
      case True
      then obtain e i where e: "registry_get (pf_registry p) (cn_connectorID inp) = Some e" "new_instance env e inp = Inr i" by blast
      show ?thesis using op_specD[OF chain[OF new_instance_ok[OF e(2)]] I] c e
        unfolding create_instance_def Let_def by (simp only: option.case sum.case) (metis snd_conv)
    next
      case False
      thus ?thesis using c I by (auto simp: create_instance_def split: option.splits sum.splits)
    qed
  qed
qed

lemma update_instance_keeps: "keeps_instances (update_instance env a i inp)"
proof -
  have "keeps_instances (op_bind (run_sql (instance_update (i1\<lparr>in_updatedAt := now\<rparr>))) (\<lambda>i. op_bind op_invalidate (\<lambda>u.
      op_bind (reset_breaker (in_id i)) (\<lambda>u. op_bind (op_audit env a s1 s2 (in_id i) ch) (\<lambda>u.
      op_bind (if b then op_audit env' a s1' s2' (in_id i) (de i) else op_return ()) (\<lambda>u. op_return i))))))"
    if "instance_ok i1" for i1 :: instance_rec and now s1 s2 ch b env' s1' s2' and de :: "instance_rec \<Rightarrow> (string, goval) gomap"
    by (rule op_rules TrueI | simp add: that)+
  thus ?thesis unfolding update_instance_def
    by (intro op_spec_bind[OF op_spec_instance_get] op_spec_bind[OF op_spec_entry] op_spec_bind[OF op_spec_pure])
       (auto dest: apply_changes_ok split: prod.splits)
qed

lemma delete_instance_keeps: "keeps_instances (delete_instance env a i)"
  unfolding delete_instance_def by (rule op_rules)+

lemma set_secret_keeps: "keeps_instances (set_secret env a i n pt)"
  unfolding set_secret_def by (rule op_rules)+

lemma delete_secret_keeps: "keeps_instances (delete_secret env a i n)"
  unfolding delete_secret_def by (rule op_rules)+

lemma set_tool_enabled_keeps: "keeps_instances (set_tool_enabled env a i n b)"
  unfolding set_tool_enabled_def by (rule op_rules)+

lemma keepsI: "(\<And>p. instances_wf (pf_db p) \<Longrightarrow> instances_wf (pf_db (snd (m p)))) \<Longrightarrow> keeps_instances m"
  by (simp add: op_spec_def)

lemma import_manifest_keeps: "keeps_instances (import_manifest env a data src)"
proof (rule keepsI)
  fix p :: "'a platform" assume I: "instances_wf (pf_db p)"
  have put: "keeps_instances (\<lambda>p2. case registry_put lib y rec (pf_registry p2) of
      (Inl e, reg) \<Rightarrow> (Inl ErrOther, p2\<lparr>pf_registry := reg\<rparr>)
    | (Inr en, reg) \<Rightarrow> op_bind (op_audit env a s1 s2 s3 (de en)) (\<lambda>u. op_return en) (p2\<lparr>pf_registry := reg\<rparr>))"
    for lib :: "'a libs" and y rec s1 s2 s3 and de :: "'a reg_entry \<Rightarrow> (string, goval) gomap"
  proof (rule keepsI)
    fix q :: "'a platform" assume q: "instances_wf (pf_db q)"
    have "keeps_instances (op_bind (op_audit env a s1 s2 s3 (de en)) (\<lambda>u. op_return en))" for en
      by (rule op_rules TrueI)+
    from op_specD[OF this] q
    show "instances_wf (pf_db (snd (case registry_put lib y rec (pf_registry q) of
      (Inl e, reg) \<Rightarrow> (Inl ErrOther, q\<lparr>pf_registry := reg\<rparr>)
    | (Inr en, reg) \<Rightarrow> op_bind (op_audit env a s1 s2 s3 (de en)) (\<lambda>u. op_return en) (q\<lparr>pf_registry := reg\<rparr>))))"
      by (auto split: prod.splits sum.splits)
  qed
  have store: "keeps_instances (op_bind (run_sql (connector_upsert rec)) (\<lambda>u p2. case registry_put lib y rec (pf_registry p2) of
      (Inl e, reg) \<Rightarrow> (Inl ErrOther, p2\<lparr>pf_registry := reg\<rparr>)
    | (Inr en, reg) \<Rightarrow> op_bind (op_audit env a s1 s2 s3 (de en)) (\<lambda>u. op_return en) (p2\<lparr>pf_registry := reg\<rparr>)))"
    for lib :: "'a libs" and y rec s1 s2 s3 and de :: "'a reg_entry \<Rightarrow> (string, goval) gomap"
    by (rule op_rules put)+
  have get: "instances_wf (pf_db (snd (run_sql (connector_get i) p)))" for i
    by (rule op_specD[OF op_spec_connector_get I])
  show "instances_wf (pf_db (snd (import_manifest env a data src p)))"
    using I get op_specD[OF store] unfolding import_manifest_def Let_def
    by (auto split: sum.split prod.split simp: case_prod_beta)
qed

lemma sync_records_keeps: "keeps_instances (sync_records env recs)"
proof (induction recs)
  case Nil
  show ?case by (rule keepsI) simp
next
  case (Cons rec recs)
  have chain: "keeps_instances (op_bind (run_sql (connector_upsert rec')) (\<lambda>u. sync_records env recs))" for rec'
    by (rule op_rules Cons.IH)+
  show ?case
  proof (rule keepsI)
    fix p :: "'a platform" assume I: "instances_wf (pf_db p)"
    have get: "instances_wf (pf_db (snd (run_sql (connector_get i) p)))" for i
      by (rule op_specD[OF op_spec_connector_get I])
    obtain r p1 where 1: "run_sql (connector_get (cr_id rec)) p = (r, p1)" by (metis surj_pair)
    show "instances_wf (pf_db (snd (sync_records env (rec # recs) p)))"
      using get[of "cr_id rec"] op_specD[OF chain] op_specD[OF Cons.IH] by (auto simp: 1 split: sum.splits)
  qed
qed

lemma sync_builtins_keeps: "keeps_instances (sync_builtins env files)"
  unfolding sync_builtins_def using op_spec_fail sync_records_keeps by (auto split: option.splits)

lemma load_all_keeps: "keeps_instances (load_all_connectors env)"
  unfolding load_all_connectors_def connector_list_def by (rule op_rules op_spec_same | simp)+

lemma delete_connector_keeps: "keeps_instances (delete_connector env a i)"
  unfolding delete_connector_def count_by_connector_def by (rule op_rules op_spec_same | simp)+

lemma resolve_instance_keeps: "instance_ok i \<Longrightarrow> op_spec instances_wf (resolve_instance i) (\<lambda>r. instance_ok (rv_instance r))"
  unfolding resolve_instance_def tool_binding_list_def load_secrets_def by (rule op_rules | simp)+

lemma resolve_by_id_keeps: "op_spec instances_wf (resolve_by_id i) (\<lambda>r. instance_ok (rv_instance r))"
  unfolding resolve_by_id_def by (rule op_rules resolve_instance_keeps)+

lemma test_connection_keeps: "keeps_instances (test_connection env ev ms txt a i n)"
  unfolding test_connection_def
proof (rule op_spec_bind[OF resolve_by_id_keeps], rule keepsI)
  fix r :: "'a resolved" and p :: "'a platform" assume I: "instances_wf (pf_db p)"
  have "keeps_instances (op_bind (op_audit env a s1 s2 i de) (\<lambda>u. op_return x))" for s1 s2 de and x :: test_result
    by (rule op_rules TrueI)+
  from op_specD[OF this] I show "instances_wf (pf_db (snd (test_resolved env ev ms txt a i n r p)))"
    by (auto simp: test_resolved_def Let_def split: sum.splits prod.splits)
qed

text \<open>What the services do to the state, in any order and with any surroundings.  Another part
  of the program may write tables the invariant does not mention; a slow reader may file an
  instance in the cache at any time, and the registry and the engine have their own operations.\<close>

inductive platform_step :: "'sc platform \<Rightarrow> 'sc platform \<Rightarrow> bool" where
  Create: "platform_step p (snd (create_instance env a inp p))"
| Update: "platform_step p (snd (update_instance env a i upd p))"
| Delete: "platform_step p (snd (delete_instance env a i p))"
| SetSecret: "platform_step p (snd (set_secret env a i n pt p))"
| DeleteSecret: "platform_step p (snd (delete_secret env a i n p))"
| SetTool: "platform_step p (snd (set_tool_enabled env a i n b p))"
| Import: "platform_step p (snd (import_manifest env a data src p))"
| DeleteConnector: "platform_step p (snd (delete_connector env a i p))"
| SyncBuiltins: "platform_step p (snd (sync_builtins env files p))"
| LoadAll: "platform_step p (snd (load_all_connectors env p))"
| ResolveById: "platform_step p (snd (resolve_by_id i p))"
| Test: "platform_step p (snd (test_connection env ev ms txt a i n p))"
| Cache: "platform_step p (p\<lparr>pf_cache := c\<rparr>)"
| Registry: "platform_step p (p\<lparr>pf_registry := g\<rparr>)"
| Engine: "platform_step p (p\<lparr>pf_executor := x\<rparr>)"
| Others: "instance_tables d = instance_tables (pf_db p) \<Longrightarrow> platform_step p (p\<lparr>pf_db := d\<rparr>)"

inductive platform_reach :: "'sc platform \<Rightarrow> bool" where
  Start: "pf_db p = empty_db\<lparr>db_faults := bs\<rparr> \<Longrightarrow> platform_reach p"
| Step: "platform_reach p \<Longrightarrow> platform_step p p' \<Longrightarrow> platform_reach p'"

lemma platform_step_wf: "platform_step p p' \<Longrightarrow> instances_wf (pf_db p) \<Longrightarrow> instances_wf (pf_db p')"
proof (induction rule: platform_step.induct)
  case (Others d p)
  thus ?case using instances_wf_same[OF Others(1)] by simp
qed ((rule create_instance_keeps[THEN op_specD] update_instance_keeps[THEN op_specD] delete_instance_keeps[THEN op_specD]
       set_secret_keeps[THEN op_specD] delete_secret_keeps[THEN op_specD] set_tool_enabled_keeps[THEN op_specD]
       import_manifest_keeps[THEN op_specD] delete_connector_keeps[THEN op_specD] sync_builtins_keeps[THEN op_specD]
       load_all_keeps[THEN op_specD] resolve_by_id_keeps[THEN op_specD] test_connection_keeps[THEN op_specD], assumption) | simp)+

lemma platform_reach_wf: "platform_reach p \<Longrightarrow> instances_wf (pf_db p)"
proof (induction rule: platform_reach.induct)
  case (Start p bs)
  thus ?case by (simp add: instances_wf_def empty_db_def)
next
  case (Step p p')
  thus ?case using platform_step_wf by blast
qed

text \<open>A byte below 128 is a rune of its own.\<close>

lemma decode_rune_low: "decode_rune s = (r, w) \<Longrightarrow> c \<in> set (take w s) \<Longrightarrow> byte c < (128 :: nat) \<Longrightarrow> r = byte c"
  by (auto simp: decode_rune_def Let_def in_rng_def split: list.splits if_splits)

lemma low_byte_rune: "c \<in> set s \<Longrightarrow> byte c < (128 :: nat) \<Longrightarrow> byte c \<in> set (runes s)"
proof (induction s rule: utf8_chunks.induct)
  case (1 s)
  show ?case
  proof (cases "c \<in> set (take (snd (decode_rune s)) s)")
    case True
    hence "fst (decode_rune s) = byte c" using decode_rune_low[of s] 1(3) by (metis prod.collapse)
    moreover obtain r w where "decode_rune s = (r, w)" by (metis surj_pair)
    ultimately show ?thesis using 1(2) by (subst runes_def, subst utf8_chunks.simps) auto
  next
    case False
    have "c \<in> set (drop (snd (decode_rune s)) s)" using False 1(2) by (metis Un_iff append_take_drop_id set_append)
    moreover obtain r w where rw: "decode_rune s = (r, w)" by (metis surj_pair)
    ultimately have "byte c \<in> set (runes (drop w s))" using 1 by fastforce
    thus ?thesis using 1(2) by (subst runes_def, subst utf8_chunks.simps) (auto simp: rw runes_def)
  qed
qed

lemma host_override_clean: "host_override_ok h \<Longrightarrow> validate_header_value h = None"
proof -
  assume h: "host_override_ok h"
  have "\<not> ctl_char c" if "c \<in> set h" for c
  proof
    assume c: "ctl_char c"
    hence "byte c \<in> set (runes h)" using low_byte_rune[OF that] by (auto simp: ctl_char_def)
    thus False using h c that by (auto simp: host_override_ok_def ctl_char_def list_ex_iff)
  qed
  thus ?thesis by (auto simp: validate_header_value_def list_ex_iff)
qed

lemma valid_base_url_parses: "validate_base_url b = None \<Longrightarrow>
    \<exists>u. url_parse b = Some u \<and> (u_scheme u = ''http'' \<or> u_scheme u = ''https'') \<and> u_host u \<noteq> [] \<and> \<not> u_user u"
  by (auto simp: validate_base_url_def split: option.splits if_splits)

text \<open>How a chain succeeds.\<close>

lemma op_bind_Inr: "op_bind m k p = (Inr b, p') \<longleftrightarrow> (\<exists>a p1. m p = (Inr a, p1) \<and> k a p1 = (Inr b, p'))"
  by (auto simp: op_bind_def split: prod.splits sum.splits)

lemma op_return_eq [simp]: "op_return a p = (r, p') \<longleftrightarrow> r = Inr a \<and> p' = p"
  by (auto simp: op_return_def)

lemma op_fail_eq [simp]: "op_fail e p = (r, p') \<longleftrightarrow> r = Inl e \<and> p' = p"
  by (auto simp: op_fail_def)

lemma op_require_eq [simp]: "op_require c e p = (Inr u, p') \<longleftrightarrow> c \<and> p' = p"
  by (auto simp: op_require_def)

lemma op_invalidate_eq [simp]: "op_invalidate p = (r, p') \<longleftrightarrow> r = Inr () \<and> p' = invalidate_all p"
  by (auto simp: op_invalidate_def)

lemma connector_entry_eq [simp]: "connector_entry i p = (Inr en, p') \<longleftrightarrow> registry_get (pf_registry p) i = Some en \<and> p' = p"
  by (auto simp: connector_entry_def split: option.splits)

text \<open>Frames over the tables.\<close>

lemma audit_tables [simp]: "instance_tables (audit_success env a ac tt ti de d) = instance_tables d"
proof -
  obtain r d' where "audit_append \<lparr>ae_id = new_id ''aud'' (sv_auditBytes env), ae_at = sv_auditNow env, ae_actorType = ac_type a,
      ae_actorID = ac_id a, ae_action = ac, ae_targetType = tt, ae_targetID = ti, ae_result = ''success'', ae_ip = ac_ip a, ae_detail = de\<rparr> d = (r, d')"
    by (metis surj_pair)
  thus ?thesis unfolding audit_success_def audit_record_def audit_append_def
    by (auto simp: sql_fail_def instance_tables_def split: option.splits if_splits elim!: stmt_cases)
qed

lemma select_tables: "run_sql (select f) p = (r, p') \<Longrightarrow>
    \<exists>bs. p' = p\<lparr>pf_db := (pf_db p)\<lparr>db_faults := bs\<rparr>\<rparr> \<and> (\<forall>x. r = Inr x \<longrightarrow> x = f ((pf_db p)\<lparr>db_faults := bs\<rparr>))"
  by (auto simp: run_sql_eq select_def elim!: stmt_cases)

lemma select_row_tables: "run_sql (select_row f) p = (r, p') \<Longrightarrow>
    \<exists>bs. p' = p\<lparr>pf_db := (pf_db p)\<lparr>db_faults := bs\<rparr>\<rparr> \<and> (\<forall>x. r = Inr x \<longrightarrow> x \<in> set (f ((pf_db p)\<lparr>db_faults := bs\<rparr>)))"
  by (auto simp: run_sql_eq select_row_def elim!: stmt_cases split: list.splits)

text \<open>What a resolution reads.\<close>

definition stored_secrets :: "string \<Rightarrow> db \<Rightarrow> (string, string) gomap" where
  "stored_secrets i d = List.fold (\<lambda>r m. kv_put (is_name r) (is_ciphertext r) m) (filter (\<lambda>r. is_instanceID r = i) (db_secrets d)) []"

definition stored_tools :: "string \<Rightarrow> db \<Rightarrow> tool_binding list" where
  "stored_tools i d = filter (\<lambda>r. tb_instanceID r = i) (db_tools d)"

definition fresh_resolution :: "'sc platform \<Rightarrow> 'sc resolved \<Rightarrow> bool" where
  "fresh_resolution p r =
     (rv_instance r \<in> set (db_instances (pf_db p)) \<and> rv_secrets r = stored_secrets (in_id (rv_instance r)) (pf_db p) \<and>
      rv_enabledTools r = enabled_tool_set (rv_connector r) (stored_tools (in_id (rv_instance r)) (pf_db p)))"

lemma resolve_instance_fresh:
  assumes "resolve_instance i p = (Inr r, p')"
  shows "rv_instance r = i \<and> rv_secrets r = stored_secrets (in_id i) (pf_db p) \<and>
    rv_enabledTools r = enabled_tool_set (rv_connector r) (stored_tools (in_id i) (pf_db p)) \<and>
    instance_tables (pf_db p') = instance_tables (pf_db p)"
  using assms unfolding resolve_instance_def tool_binding_list_def load_secrets_def
  by (auto simp: op_bind_Inr stored_secrets_def stored_tools_def dest!: select_tables)

lemma resolve_by_id_fresh: "resolve_by_id i p = (Inr r, p') \<Longrightarrow> in_id (rv_instance r) = i \<and> fresh_resolution p r"
  unfolding resolve_by_id_def op_bind_Inr instance_get_def
  by (auto dest!: select_row_tables resolve_instance_fresh simp: fresh_resolution_def stored_secrets_def stored_tools_def)

lemma fold_put_value:
  assumes "\<And>r. r \<in> set rows \<Longrightarrow> k r = x \<Longrightarrow> v r = y" "(\<exists>r\<in>set rows. k r = x) \<or> map_of m x = Some y"
  shows "map_of (List.fold (\<lambda>r m. kv_put (k r) (v r) m) rows m) x = Some y"
  using assms by (induction rows arbitrary: m) auto

lemma fold_put_rows: "(n, c) \<in> set (List.fold (\<lambda>r m. kv_put (k r) (v r) m) rows m) \<Longrightarrow>
    (\<exists>r\<in>set rows. k r = n \<and> v r = c) \<or> (n, c) \<in> set m"
proof (induction rows arbitrary: m)
  case (Cons r rows)
  have "(n, c) \<in> set (kv_put (k r) (v r) m) \<Longrightarrow> (n, c) = (k r, v r) \<or> (n, c) \<in> set m"
    by (induction m rule: kv_put.induct[of _ "k r" "v r"]) (auto split: if_splits)
  thus ?case using Cons by auto
qed simp

lemma open_secrets:
  "traverse (open_secret env i) kvs = Inr plain \<Longrightarrow> map_of plain n =
     (case map_of kvs n of None \<Rightarrow> None | Some ct \<Rightarrow> unseal (sv_crypto (pv_svc env)) (sv_keyring (pv_svc env)) (secret_aad i n) ct)"
  by (induction kvs arbitrary: plain) (auto simp: open_secret_def split: option.splits)

lemma open_secrets_all:
  "(\<And>n ct. (n, ct) \<in> set kvs \<Longrightarrow> unseal (sv_crypto (pv_svc env)) (sv_keyring (pv_svc env)) (secret_aad i n) ct \<noteq> None)
   \<Longrightarrow> \<exists>plain. traverse (open_secret env i) kvs = Inr plain"
proof (induction kvs)
  case (Cons kv kvs)
  obtain n ct where kv: "kv = (n, ct)" by (metis surj_pair)
  obtain v where "unseal (sv_crypto (pv_svc env)) (sv_keyring (pv_svc env)) (secret_aad i n) ct = Some v"
    using Cons.prems[of n ct] kv by auto
  hence "open_secret env i kv = Inr (n, v)" by (simp add: open_secret_def kv)
  thus ?case using Cons by auto
qed simp

text \<open>The rows after a secret was set.\<close>

lemma set_secret_rows:
  assumes "set_secret env a i n pt p = (Inr (), p1)"
  obtains ct where "seal (sv_crypto (pv_svc env)) (sv_keyring (pv_svc env)) (sv_random (pv_svc env) 0) (secret_aad i n) pt = Some ct"
    "\<And>s. s \<in> set (db_secrets (pf_db p1)) \<Longrightarrow> is_instanceID s = i \<Longrightarrow> is_name s = n \<Longrightarrow> is_ciphertext s = ct"
    "\<exists>s\<in>set (db_secrets (pf_db p1)). is_instanceID s = i \<and> is_name s = n"
    "\<And>s. s \<in> set (db_secrets (pf_db p1)) \<Longrightarrow> \<not> (is_instanceID s = i \<and> is_name s = n) \<Longrightarrow> s \<in> set (db_secrets (pf_db p))"
    "pf_cache p1 = []"
proof -
  let ?row = "\<lambda>ct. \<lparr>is_instanceID = i, is_name = n, is_ciphertext = ct, is_updatedAt = sv_now (pv_svc env)\<rparr>"
  obtain x p0 ct d2 where 0: "run_sql (instance_get i) p = (Inr x, p0)"
    and ct: "seal (sv_crypto (pv_svc env)) (sv_keyring (pv_svc env)) (sv_random (pv_svc env) 0) (secret_aad i n) pt = Some ct"
    and 2: "secret_set (?row ct) (pf_db p0) = (Inr (), d2)"
    and p1: "instance_tables (pf_db p1) = instance_tables d2" "pf_cache p1 = []"
    using assms by (auto simp: set_secret_def op_bind_Inr run_sql_eq op_audit_def invalidate_all_def split: option.splits)
  have db0: "db_secrets (pf_db p0) = db_secrets (pf_db p)"
    using 0 unfolding instance_get_def by (auto dest!: select_row_tables)
  have s1: "db_secrets (pf_db p1) = db_secrets d2" using p1(1) by (simp add: instance_tables_def)
  let ?same = "\<lambda>r. is_instanceID r = i \<and> is_name r = n"
  have rows: "db_secrets d2 = (if list_ex ?same (db_secrets (pf_db p)) then updated ?same (\<lambda>r. ?row ct) (db_secrets (pf_db p))
      else db_secrets (pf_db p) @ [?row ct])"
    using 2 unfolding secret_set_def by (auto simp: db0 Let_def elim!: stmt_cases split: if_splits)
  show ?thesis
  proof (rule that[OF ct])
    have "s = ?row ct" if "s \<in> set (db_secrets (pf_db p1))" "is_instanceID s = i" "is_name s = n" for s
      using that by (auto simp: s1 rows set_updated list_ex_iff split: if_splits)
    thus "\<And>s. s \<in> set (db_secrets (pf_db p1)) \<Longrightarrow> is_instanceID s = i \<Longrightarrow> is_name s = n \<Longrightarrow> is_ciphertext s = ct"
      by (metis instance_secret.select_convs(3))
    show "\<exists>s\<in>set (db_secrets (pf_db p1)). is_instanceID s = i \<and> is_name s = n"
    proof (cases "list_ex ?same (db_secrets (pf_db p))")
      case True
      then obtain x where "x \<in> set (db_secrets (pf_db p))" "?same x" by (auto simp: list_ex_iff)
      hence "?row ct \<in> set (db_secrets (pf_db p1))" using True by (auto simp: s1 rows set_updated)
      thus ?thesis by force
    qed (simp add: s1 rows)
    show "\<And>s. s \<in> set (db_secrets (pf_db p1)) \<Longrightarrow> \<not> (is_instanceID s = i \<and> is_name s = n) \<Longrightarrow> s \<in> set (db_secrets (pf_db p))"
      by (auto simp: s1 rows set_updated split: if_splits)
  qed (rule p1(2))
qed

text \<open>The commands of the service, as data.\<close>

datatype instance_command =
    CmdCreate create_input | CmdUpdate string update_input | CmdDelete string
  | CmdSetSecret string string string | CmdDeleteSecret string string | CmdSetTool string string bool

definition op_void :: "('sc, 'a) op \<Rightarrow> ('sc, unit) op" where
  "op_void m = op_bind m (\<lambda>a. op_return ())"

fun run_command :: "'sc penv \<Rightarrow> actor \<Rightarrow> instance_command \<Rightarrow> ('sc, unit) op" where
  "run_command env a (CmdCreate inp) = op_void (create_instance env a inp)"
| "run_command env a (CmdUpdate i upd) = op_void (update_instance env a i upd)"
| "run_command env a (CmdDelete i) = delete_instance env a i"
| "run_command env a (CmdSetSecret i n s) = set_secret env a i n s"
| "run_command env a (CmdDeleteSecret i n) = delete_secret env a i n"
| "run_command env a (CmdSetTool i n b) = set_tool_enabled env a i n b"

fun reconfigured :: "instance_command \<Rightarrow> string option" where
  "reconfigured (CmdUpdate i upd) = Some i"
| "reconfigured (CmdDelete i) = Some i"
| "reconfigured _ = None"

lemma op_audit_eq [simp]: "op_audit env a ac tt ti de p = (r, p') \<longleftrightarrow>
    r = Inr () \<and> p' = p\<lparr>pf_db := audit_success (pv_svc env) a ac tt ti de (pf_db p)\<rparr>"
  by (auto simp: op_audit_def)

lemma run_command_cache:
  assumes "run_command env a c p = (Inr (), p1)" shows "pf_cache p1 = []"
proof (cases c)
  case (CmdCreate inp)
  thus ?thesis using assms
    by (auto simp: op_void_def op_bind_Inr create_instance_def Let_def run_sql_eq invalidate_all_def split: option.splits sum.splits if_splits)
next
  case (CmdUpdate i upd)
  thus ?thesis using assms
    by (auto simp: op_void_def op_bind_Inr update_instance_def run_sql_eq invalidate_all_def reset_breaker_def split: if_splits)
qed (use assms in \<open>auto simp: op_bind_Inr delete_instance_def set_secret_def delete_secret_def set_tool_enabled_def
       run_sql_eq invalidate_all_def reset_breaker_def split: option.splits\<close>)

lemma instance_get_id: "run_sql (instance_get i) p = (Inr x, p') \<Longrightarrow> in_id x = i"
  unfolding instance_get_def by (auto dest!: select_row_tables)

lemma change_ids:
  "change_name v s = Inr s' \<Longrightarrow> in_id (fst s') = in_id (fst s)" "change_base_url bu v s = Inr s' \<Longrightarrow> in_id (fst s') = in_id (fst s)"
  "change_variables lib c vs s = Inr s' \<Longrightarrow> in_id (fst s') = in_id (fst s)" "change_host v s = Inr s' \<Longrightarrow> in_id (fst s') = in_id (fst s)"
  "in_id (fst (change_flags inp s)) = in_id (fst s)" "in_id (fst (change_limits inp s)) = in_id (fst s)"
  by (cases s; auto simp: change_name_def change_base_url_def change_variables_def change_host_def change_flags_def
      change_limits_def change_limit_def Let_def split: option.splits if_splits)+

lemma apply_changes_id:
  assumes "apply_changes env e inp i = Inr (i1, ch)" shows "in_id i1 = in_id i"
proof -
  obtain i2 ch2 s3 s4 s5 where 1: "change_name (up_name inp) (i, []) = Inr (i2, ch2)"
    and 3: "change_base_url (sp_baseURL (mf_spec (cc_manifest (rg_compiled e)))) (up_baseURL inp)
       ((case up_description inp of None \<Rightarrow> i2 | Some x \<Rightarrow> i2\<lparr>in_description := trim_space x\<rparr>), ch2) = Inr s3"
    and 4: "change_variables (pv_libs env) (rg_compiled e) (up_variables inp) s3 = Inr s4"
    and 5: "change_host (up_hostHeaderOverride inp) (change_flags inp s4) = Inr s5" and s: "(i1, ch) = change_limits inp s5"
    using assms by (auto simp: apply_changes_def Let_def split: prod.splits)
  show ?thesis using change_ids(1)[OF 1] change_ids(2)[OF 3] change_ids(3)[OF 4] change_ids(4)[OF 5] change_ids(5)[of inp s4] change_ids(6)[of inp s5]
    by (auto simp: s[symmetric] split: option.splits)
qed

lemma instance_update_id: "run_sql (instance_update i) p = (Inr x, p') \<Longrightarrow> in_id x = in_id i"
  unfolding instance_update_def by (auto simp: run_sql_eq Let_def elim!: stmt_cases split: if_splits)

lemma kv_del_self: "map_of (kv_del k m) k = None"
  by (induction m) (auto simp: kv_del_def)

lemma run_command_breaker:
  assumes "run_command env a c p = (Inr (), p1)" "reconfigured c = Some i"
  shows "map_of (ex_breaker (pf_executor p1)) i = None"
  using assms
proof (cases c)
  case (CmdUpdate i' upd)
  thus ?thesis using assms
    by (auto simp: op_void_def op_bind_Inr update_instance_def invalidate_all_def reset_breaker_def breaker_reset_def kv_del_self
        dest!: instance_get_id apply_changes_id instance_update_id split: if_splits)
qed (auto simp: delete_instance_def op_bind_Inr invalidate_all_def reset_breaker_def breaker_reset_def kv_del_self)

lemma breaker_allow_unknown: "map_of b k = None \<Longrightarrow> fst (breaker_allow cfg now k b)"
  by (simp add: breaker_allow_def breaker_get_def entry_allow_def new_entry_def Let_def)

lemma resolve_by_slug_fresh:
  assumes "resolve_by_slug env others s p = (Inr r, p')" "pf_cache p = []"
  shows "in_slug (rv_instance r) = s \<and> fresh_resolution p r"
proof -
  have miss: "cache_get now s (pf_cache p) = None" for now using assms(2) by (simp add: cache_get_def)
  obtain i p0 p1 where 1: "run_sql (instance_by_slug s) p = (Inr i, p0)" and 2: "resolve_instance i p0 = (Inr r, p1)"
    using assms(1) unfolding resolve_by_slug_def miss option.case op_bind_Inr Let_def by blast
  obtain bs where p0: "p0 = p\<lparr>pf_db := (pf_db p)\<lparr>db_faults := bs\<rparr>\<rparr>" "i \<in> set (db_instances (pf_db p))" "in_slug i = s"
    using select_row_tables[OF 1[unfolded instance_by_slug_def]] by auto
  show ?thesis using resolve_instance_fresh[OF 2] p0 by (simp add: fresh_resolution_def stored_secrets_def stored_tools_def)
qed

section \<open>Properties\<close>

text \<open>C12: in every state the services can reach, with any failing statements, every endpoint slug
  is well formed and names one instance, and the configuration of every instance is within the
  limits; so whatever is resolved and decrypted into a target, the engine calls over HTTP or
  HTTPS at a fixed host, with a deadline between half a second and two minutes, at most 64 calls at a
  time and a response of at most 16 MiB, under a Host header without control characters.\<close>
theorem instances_within_limits:
  assumes "platform_reach p"
  shows "distinct (map in_slug (db_instances (pf_db p))) \<and>
    (\<forall>i\<in>set (db_instances (pf_db p)). slug_ok (in_slug i) \<and> in_name i \<noteq> [] \<and> validate_base_url (in_baseURL i) = None) \<and>
    (\<forall>env iid r p' tg. resolve_by_id iid p = (Inr r, p') \<and> target_of env r = Inr tg \<longrightarrow>
       (\<exists>u. tg_baseURL tg = Some u \<and> (u_scheme u = ''http'' \<or> u_scheme u = ''https'') \<and> u_host u \<noteq> [] \<and> \<not> u_user u) \<and>
       500 * 1000000 \<le> tg_timeout tg \<and> tg_timeout tg \<le> 120 * second \<and> 0 \<le> tg_rateLimitPerMin tg \<and>
       1 \<le> tg_maxConcurrent tg \<and> tg_maxConcurrent tg \<le> 64 \<and>
       1024 \<le> tg_maxResponseBytes tg \<and> tg_maxResponseBytes tg \<le> 16 * 1024 * 1024 \<and>
       validate_header_value (tg_hostHeader tg) = None)"
proof (intro conjI ballI allI impI)
  note wf = platform_reach_wf[OF assms]
  show "distinct (map in_slug (db_instances (pf_db p)))" using wf by (simp add: instances_wf_def)
  fix i assume "i \<in> set (db_instances (pf_db p))"
  hence "instance_ok i" using wf by (auto simp: instances_wf_def list_all_iff)
  thus "slug_ok (in_slug i)" "in_name i \<noteq> []" "validate_base_url (in_baseURL i) = None" by (simp_all add: instance_ok_def)
next
  fix env iid r p' tg assume rt: "resolve_by_id iid p = (Inr r, p') \<and> target_of env r = Inr tg"
  hence ok: "instance_ok (rv_instance r)"
    using resolve_by_id_keeps[of iid] platform_reach_wf[OF assms] by (auto simp: op_spec_def dest!: spec[of _ p])
  let ?i = "rv_instance r"
  obtain u where u: "url_parse (in_baseURL ?i) = Some u" "u_scheme u = ''http'' \<or> u_scheme u = ''https''" "u_host u \<noteq> []" "\<not> u_user u"
    using ok valid_base_url_parses[of "in_baseURL ?i"] by (auto simp: instance_ok_def)
  have tg: "tg_baseURL tg = Some u" "tg_timeout tg = instance_timeout ?i" "tg_rateLimitPerMin tg = in_rateLimitPerMin ?i"
    "tg_maxConcurrent tg = in_maxConcurrent ?i" "tg_maxResponseBytes tg = in_maxResponseBytes ?i" "tg_hostHeader tg = in_hostHeaderOverride ?i"
    using rt u(1) by (auto simp: target_of_def Let_def)
  show "\<exists>u. tg_baseURL tg = Some u \<and> (u_scheme u = ''http'' \<or> u_scheme u = ''https'') \<and> u_host u \<noteq> [] \<and> \<not> u_user u"
    using u tg by blast
  show "validate_header_value (tg_hostHeader tg) = None" using ok host_override_clean by (simp add: tg instance_ok_def)
  show "500 * 1000000 \<le> tg_timeout tg" "tg_timeout tg \<le> 120 * second" "0 \<le> tg_rateLimitPerMin tg"
    "1 \<le> tg_maxConcurrent tg" "tg_maxConcurrent tg \<le> 64" "1024 \<le> tg_maxResponseBytes tg" "tg_maxResponseBytes tg \<le> 16 * 1024 * 1024"
    using ok by (simp_all add: tg instance_ok_def instance_timeout_def second_def int64_wrap_id)
qed

text \<open>C13: a credential reaches the calls it is for.  After \<open>SetSecret\<close> succeeded, resolving the
  instance gives a target that carries exactly the plaintext that was set under that name, and
  for every other name what its stored ciphertext opens to; the target exists as long as the
  other stored ciphertexts still open under the current key.\<close>
theorem secret_reaches_target:
  assumes "crypto_ok (sv_crypto (pv_svc env))" "sv_random (pv_svc env) 0 = Some nonce" "length nonce = 12"
    and "platform_reach p" "set_secret env a iid name plaintext p = (Inr (), p1)"
    and "resolve_by_id iid p1 = (Inr r, p2)"
    and "\<And>s. s \<in> set (db_secrets (pf_db p)) \<Longrightarrow> is_instanceID s = iid \<Longrightarrow> is_name s \<noteq> name
           \<Longrightarrow> unseal (sv_crypto (pv_svc env)) (sv_keyring (pv_svc env)) (secret_aad iid (is_name s)) (is_ciphertext s) \<noteq> None"
  shows "\<exists>tg. target_of env r = Inr tg \<and> map_of (tg_secrets tg) name = Some plaintext \<and>
    (\<forall>n. map_of (tg_secrets tg) n = (case map_of (rv_secrets r) n of None \<Rightarrow> None
       | Some ct \<Rightarrow> unseal (sv_crypto (pv_svc env)) (sv_keyring (pv_svc env)) (secret_aad iid n) ct))"
proof -
  let ?unseal = "\<lambda>n. unseal (sv_crypto (pv_svc env)) (sv_keyring (pv_svc env)) (secret_aad iid n)"
  let ?mine = "filter (\<lambda>s. is_instanceID s = iid) (db_secrets (pf_db p1))"
  obtain ct where ct: "seal (sv_crypto (pv_svc env)) (sv_keyring (pv_svc env)) (sv_random (pv_svc env) 0) (secret_aad iid name) plaintext = Some ct"
    and rows: "\<And>s. s \<in> set (db_secrets (pf_db p1)) \<Longrightarrow> is_instanceID s = iid \<Longrightarrow> is_name s = name \<Longrightarrow> is_ciphertext s = ct"
      "\<exists>s\<in>set (db_secrets (pf_db p1)). is_instanceID s = iid \<and> is_name s = name"
      "\<And>s. s \<in> set (db_secrets (pf_db p1)) \<Longrightarrow> \<not> (is_instanceID s = iid \<and> is_name s = name) \<Longrightarrow> s \<in> set (db_secrets (pf_db p))"
    using set_secret_rows[OF assms(5)] by metis
  have opens: "?unseal name ct = Some plaintext"
    using unseal_seal[OF assms(1), of nonce] ct assms(2,3) by (simp add: nonce_size_def)
  have "platform_reach p1" using platform_reach.Step[OF assms(4) platform_step.SetSecret] assms(5) by (metis snd_conv)
  note ok = resolve_by_id_keeps[of iid] platform_reach_wf[OF this]
  have r: "rv_secrets r = stored_secrets iid (pf_db p1)" "in_id (rv_instance r) = iid" "instance_ok (rv_instance r)"
    using resolve_by_id_fresh[OF assms(6)] assms(6) ok by (auto simp: fresh_resolution_def op_spec_def dest!: spec[of _ p1])
  obtain u where u: "url_parse (in_baseURL (rv_instance r)) = Some u"
    using valid_base_url_parses[of "in_baseURL (rv_instance r)"] r(3) by (auto simp: instance_ok_def)
  have stored: "map_of (rv_secrets r) name = Some ct"
    unfolding r(1) stored_secrets_def by (rule fold_put_value) (use rows in auto)
  have "?unseal n c \<noteq> None" if nc: "(n, c) \<in> set (rv_secrets r)" for n c
  proof -
    obtain s where s: "s \<in> set ?mine" "is_name s = n" "is_ciphertext s = c"
      using nc fold_put_rows[of n c is_name is_ciphertext ?mine "[]"] by (auto simp: r(1) stored_secrets_def)
    show ?thesis
    proof (cases "n = name")
      case True
      thus ?thesis using rows(1)[of s] s opens by auto
    next
      case False
      thus ?thesis using assms(7)[of s] rows(3)[of s] s by auto
    qed
  qed
  then obtain plain where plain: "traverse (open_secret env iid) (rv_secrets r) = Inr plain" using open_secrets_all by blast
  have vals: "map_of plain n = (case map_of (rv_secrets r) n of None \<Rightarrow> None | Some ct \<Rightarrow> ?unseal n ct)" for n
    by (rule open_secrets[OF plain])
  obtain tg where "target_of env r = Inr tg" "tg_secrets tg = plain"
    using u plain r(2) by (auto simp: target_of_def Let_def)
  thus ?thesis using vals[of name] vals stored opens by auto
qed

text \<open>C14: a change takes effect at once.  Once a command of the instance service succeeded, the
  next request to an endpoint works with the stored configuration, credentials and tool switches
  and not with a cached older state; and after an update or a deletion the circuit of the instance
  lets the next call through, however many failures were counted before.\<close>
theorem commands_take_effect:
  assumes "run_command env a c p = (Inr (), p1)"
  shows "(\<forall>env' others s r p2. resolve_by_slug env' others s p1 = (Inr r, p2) \<longrightarrow>
       in_slug (rv_instance r) = s \<and> rv_instance r \<in> set (db_instances (pf_db p1)) \<and>
       rv_secrets r = stored_secrets (in_id (rv_instance r)) (pf_db p1) \<and>
       rv_enabledTools r = enabled_tool_set (rv_connector r) (stored_tools (in_id (rv_instance r)) (pf_db p1))) \<and>
    (\<forall>i cfg now. reconfigured c = Some i \<longrightarrow> fst (breaker_allow cfg now i (ex_breaker (pf_executor p1))))"
  using resolve_by_slug_fresh[OF _ run_command_cache[OF assms]] run_command_breaker[OF assms]
  by (auto simp: fresh_resolution_def intro: breaker_allow_unknown)

text \<open>A connector with one secret, an instance of it, and a credential for the instance.\<close>

definition secret_manifest :: manifest where
  "secret_manifest = demo_manifest\<lparr>mf_spec := (mf_spec demo_manifest)\<lparr>sp_secrets := [\<lparr>se_name = ''key'', se_description = [], se_required = True\<rparr>]\<rparr>\<rparr>"

definition inst_env :: "unit penv" where
  "inst_env = demo_penv\<lparr>pv_svc := demo_svc ''elevenbytes'' 10, pv_yaml := (\<lambda>t. Some secret_manifest)\<rparr>"

definition inst_input :: create_input where
  "inst_input = \<lparr>cn_name = ''Demo One'', cn_slug = [], cn_description = [], cn_connectorID = ''demo'', cn_baseURL = [],
     cn_variables = [], cn_enabled = True, cn_allowPrivateNetwork = False, cn_hostHeaderOverride = [], cn_timeoutMS = 999999,
     cn_rateLimitPerMin = 0, cn_maxConcurrent = 0, cn_maxResponseBytes = 1\<rparr>"

definition inst_p0 :: "unit platform" where
  "inst_p0 = \<lparr>pf_db = empty_db, pf_registry = [], pf_cache = [], pf_executor = idle_executor\<rparr>"

definition inst_row :: connector_record where
  "inst_row = \<lparr>cr_id = ''demo'', cr_name = ''Demo'', cr_version = ''1'', cr_source = ''manifest'', cr_manifest = ''m'',
     cr_checksum = ''6d'', cr_createdAt = 10, cr_updatedAt = 10\<rparr>"

definition inst_entry :: "unit reg_entry" where
  "inst_entry = \<lparr>rg_record = inst_row, rg_compiled = \<lparr>cc_manifest = secret_manifest,
     cc_auth = \<lparr>ca_type = [], ca_in = [], ca_name = [], ca_value = None, ca_username = None, ca_password = None\<rparr>,
     cc_headers = [], cc_tools = [], cc_byName = [], cc_variables = [],
     cc_secretDefs = [(''key'', \<lparr>se_name = ''key'', se_description = [], se_required = True\<rparr>)]\<rparr>\<rparr>"

definition inst_p1 :: "unit platform" where
  "inst_p1 = inst_p0\<lparr>pf_db := empty_db\<lparr>db_connectors := [inst_row]\<rparr>, pf_registry := [(''demo'', inst_entry)]\<rparr>"

definition inst_id :: string where "inst_id = ''inst_mvwgk5tfnzrhs5dfom''"

definition inst_rec :: instance_rec where
  "inst_rec = \<lparr>in_id = inst_id, in_slug = ''demo-one'', in_name = ''Demo One'', in_description = [], in_connectorID = ''demo'',
     in_baseURL = ''https://api.example'', in_variables = [], in_enabled = True, in_allowPrivateNetwork = False,
     in_hostHeaderOverride = [], in_timeoutMS = 120000, in_rateLimitPerMin = 120, in_maxConcurrent = 4,
     in_maxResponseBytes = 1024, in_createdAt = 10, in_updatedAt = 10, in_version = 1\<rparr>"

definition inst_p2 :: "unit platform" where
  "inst_p2 = inst_p1\<lparr>pf_db := empty_db\<lparr>db_connectors := [inst_row], db_instances := [inst_rec]\<rparr>\<rparr>"

definition inst_p3 :: "unit platform" where "inst_p3 = snd (set_secret inst_env demo_actor inst_id ''key'' ''s3cret'' inst_p2)"

lemma inst_p3_code [code]:
  "inst_p3 = inst_p2\<lparr>pf_db := (pf_db inst_p2)\<lparr>
     db_secrets := [\<lparr>is_instanceID = inst_id, is_name = ''key'',
       is_ciphertext = CHR 0x01 # ''elevenbytes0s3crettttttttttttttttt'', is_updatedAt = 10\<rparr>],
     db_audit := [\<lparr>aw_event = \<lparr>ae_id = ''aud_mvwgk5tfnzrhs5dfom'', ae_at = 10, ae_actorType = ''user'', ae_actorID = ''other'',
       ae_action = ''instance.secret_set'', ae_targetType = ''instance'', ae_targetID = inst_id, ae_result = ''success'', ae_ip = [],
       ae_detail = [(''secret'', VStr ''key''), (''action'', VStr ''set'')]\<rparr>, aw_detail = ''{'' @ CHR 0x22 # ''action'' @ CHR 0x22 # '':'' @ CHR 0x22 # ''set'' @ CHR 0x22 # '','' @ CHR 0x22 # ''secret'' @ CHR 0x22 # '':'' @ CHR 0x22 # ''key'' @ CHR 0x22 # ''}'' @ []\<rparr>]\<rparr>\<rparr>"
  by code_simp

lemma platform_reach_same:
  fixes p :: "'sc platform" and g :: "'sc registry"
  shows "platform_reach p \<Longrightarrow> instance_tables d = instance_tables (pf_db p) \<Longrightarrow>
   platform_reach \<lparr>pf_db = d, pf_registry = g, pf_cache = c, pf_executor = x\<rparr>"
proof -
  assume p: "platform_reach p" and d: "instance_tables d = instance_tables (pf_db p)"
  let ?q = "((p\<lparr>pf_db := d\<rparr>)\<lparr>pf_registry := g\<rparr>)\<lparr>pf_cache := c\<rparr>\<lparr>pf_executor := x\<rparr>"
  have "platform_reach ?q"
    by (rule platform_reach.Step[OF platform_reach.Step[OF platform_reach.Step[OF platform_reach.Step[OF p
          platform_step.Others[OF d]] platform_step.Registry] platform_step.Cache] platform_step.Engine])
  thus ?thesis by (cases p) simp
qed

lemma inst_reach: "platform_reach inst_p2"
proof -
  have 0: "platform_reach inst_p0" by (rule platform_reach.Start[of _ "[]"]) (simp add: inst_p0_def empty_db_def)
  let ?a = "snd (import_manifest inst_env demo_actor ''m'' [] inst_p0)"
  have a: "platform_reach ?a" by (rule platform_reach.Step[OF 0 platform_step.Import])
  have "instance_tables (pf_db ?a) = ([inst_row], [], [], [])" by code_simp
  hence "instance_tables (empty_db\<lparr>db_connectors := [inst_row]\<rparr>) = instance_tables (pf_db ?a)"
    by (simp add: instance_tables_def empty_db_def)
  from platform_reach_same[OF a this] have 1: "platform_reach inst_p1" by (simp add: inst_p1_def inst_p0_def)
  let ?b = "snd (create_instance inst_env demo_actor inst_input inst_p1)"
  have b: "platform_reach ?b" by (rule platform_reach.Step[OF 1 platform_step.Create])
  have "instance_tables (pf_db ?b) = ([inst_row], [inst_rec], [], [])" by code_simp
  hence "instance_tables (empty_db\<lparr>db_connectors := [inst_row], db_instances := [inst_rec]\<rparr>) = instance_tables (pf_db ?b)"
    by (simp add: instance_tables_def empty_db_def)
  from platform_reach_same[OF b this] show ?thesis by (simp add: inst_p2_def inst_p1_def inst_p0_def)
qed

lemma instances_within_limits_witness:
  "distinct (map in_slug (db_instances (pf_db inst_p2))) \<and> map in_slug (db_instances (pf_db inst_p2)) = [''demo-one'']"
proof -
  have "map in_slug (db_instances (pf_db inst_p2)) = [''demo-one'']" by code_simp
  thus ?thesis using instances_within_limits[OF inst_reach] by blast
qed

lemma inst_secret_set: "set_secret inst_env demo_actor inst_id ''key'' ''s3cret'' inst_p2 = (Inr (), inst_p3)"
proof -
  have "is_ok (fst (set_secret inst_env demo_actor inst_id ''key'' ''s3cret'' inst_p2))" by code_simp
  then obtain u where "fst (set_secret inst_env demo_actor inst_id ''key'' ''s3cret'' inst_p2) = Inr u" by (auto simp: is_ok_iff)
  thus ?thesis unfolding inst_p3_def by (intro prod_eqI) simp_all
qed

lemma secret_reaches_target_witness:
  "\<exists>r p2 tg. resolve_by_id inst_id inst_p3 = (Inr r, p2) \<and> target_of inst_env r = Inr tg \<and> map_of (tg_secrets tg) ''key'' = Some ''s3cret''"
proof -
  have "is_ok (fst (resolve_by_id inst_id inst_p3))" by code_simp
  then obtain r p2 where r: "resolve_by_id inst_id inst_p3 = (Inr r, p2)" by (metis is_ok_iff prod.collapse)
  have none: "db_secrets (pf_db inst_p2) = []" by code_simp
  have env: "crypto_ok (sv_crypto (pv_svc inst_env))" "length ''elevenbytes0'' = 12"
    using toy_crypto_ok by (simp_all add: inst_env_def demo_svc_def)
  have nonce: "sv_random (pv_svc inst_env) 0 = Some ''elevenbytes0''" by code_simp
  show ?thesis using secret_reaches_target[OF env(1) nonce env(2) inst_reach inst_secret_set r] none r by auto
qed

lemma commands_take_effect_witness:
  "\<exists>r p2. resolve_by_slug inst_env id ''demo-one'' inst_p3 = (Inr r, p2) \<and> rv_secrets r = stored_secrets inst_id (pf_db inst_p3) \<and> rv_secrets r \<noteq> []"
proof -
  have "run_command inst_env demo_actor (CmdSetSecret inst_id ''key'' ''s3cret'') inst_p2 = (Inr (), inst_p3)" using inst_secret_set by simp
  note fresh = commands_take_effect[OF this]
  have "(case fst (resolve_by_slug inst_env id ''demo-one'' inst_p3) of Inl e \<Rightarrow> False | Inr r \<Rightarrow> in_id (rv_instance r) = inst_id \<and> rv_secrets r \<noteq> [])"
    by code_simp
  then obtain r p2 where "resolve_by_slug inst_env id ''demo-one'' inst_p3 = (Inr r, p2)" "in_id (rv_instance r) = inst_id" "rv_secrets r \<noteq> []"
    by (auto split: sum.splits) (metis prod.collapse)
  thus ?thesis using fresh by metis
qed

end
