(* ===== verification/IndexStore.thy ===== *)
theory IndexStore
  imports Store
begin

text \<open>
  \<open>internal/store/sqlitestore/searchindex.go\<close> and \<open>platform.go\<close>: the tables of the search
  index and the row of platform settings.  A transaction is one statement: it changes
  everything or nothing.  Embeddings are kept as the numbers their bytes stand for
  (\<open>Rank\<close> shows the bytes read back).  The full-text engine is an argument: which rows match
  a query, best first, or a query it rejects.
\<close>

section \<open>The search index\<close>

definition clear_instance :: "string \<Rightarrow> unit sql" where
  "clear_instance i = stmt (\<lambda>d. (Inr (), d\<lparr>
     db_fts := filter (\<lambda>r. ft_instanceID r \<noteq> i) (db_fts d),
     db_chunks := filter (\<lambda>r. ic_instanceID r \<noteq> i) (db_chunks d),
     db_documents := filter (\<lambda>r. id_instanceID r \<noteq> i) (db_documents d),
     db_meta := filter (\<lambda>r. ix_instanceID r \<noteq> i) (db_meta d)\<rparr>))"

text \<open>One row in each table, under the next identifier; chunks refer to an instance.\<close>

definition insert_chunk :: "string \<Rightarrow> index_chunk \<Rightarrow> db \<Rightarrow> db" where
  "insert_chunk i c d =
     (let n = db_nextChunk d in
      d\<lparr>db_nextChunk := n + 1,
         db_chunks := db_chunks d @ [c\<lparr>ic_id := n, ic_instanceID := i\<rparr>],
         db_fts := db_fts d @ [\<lparr>ft_chunkID = n, ft_instanceID = i, ft_text = ic_text c\<rparr>]\<rparr>)"

definition insert_chunks :: "string \<Rightarrow> index_chunk list \<Rightarrow> unit sql" where
  "insert_chunks i cs =
     (if cs = [] then sql_return ()
      else stmt (\<lambda>d.
        if \<not> list_ex (\<lambda>r. in_id r = i) (db_instances d) then (Inl ErrConflict, d)
        else (Inr (), List.fold (insert_chunk i) cs d)))"

definition of_document :: "string \<Rightarrow> string \<Rightarrow> string \<Rightarrow> index_chunk \<Rightarrow> bool" where
  "of_document i item att r = (ic_instanceID r = i \<and> ic_itemKey r = item \<and> ic_attachmentKey r = att)"

definition delete_document_chunks :: "string \<Rightarrow> string \<Rightarrow> string \<Rightarrow> unit sql" where
  "delete_document_chunks i item att = stmt (\<lambda>d.
     let ids = map ic_id (filter (of_document i item att) (db_chunks d)) in
     (Inr (), d\<lparr>db_fts := filter (\<lambda>r. ft_chunkID r \<notin> set ids) (db_fts d),
                 db_chunks := filter (\<lambda>r. \<not> of_document i item att r) (db_chunks d)\<rparr>))"

definition count_chunks :: "string \<Rightarrow> nat sql" where
  "count_chunks i = select (\<lambda>d. length (filter (\<lambda>r. ic_instanceID r = i) (db_chunks d)))"

definition load_all_chunks :: "string \<Rightarrow> index_chunk list sql" where
  "load_all_chunks i = select (\<lambda>d. filter (\<lambda>r. ic_instanceID r = i) (db_chunks d))"

text \<open>A query the engine rejects has no matches.\<close>

definition bm25_search :: "(string \<Rightarrow> fts_row list \<Rightarrow> fts_row list option) \<Rightarrow> string \<Rightarrow> string \<Rightarrow> nat \<Rightarrow> int list sql" where
  "bm25_search matches i query n =
     (if query = [] then sql_return []
      else select (\<lambda>d. case matches query (db_fts d) of
             None \<Rightarrow> []
           | Some rows \<Rightarrow> map ft_chunkID (take n (filter (\<lambda>r. ft_instanceID r = i) rows))))"

definition list_documents :: "string \<Rightarrow> index_document list sql" where
  "list_documents i = select (\<lambda>d. filter (\<lambda>r. id_instanceID r = i) (db_documents d))"

definition same_document :: "index_document \<Rightarrow> index_document \<Rightarrow> bool" where
  "same_document x r =
     (id_instanceID r = id_instanceID x \<and> id_itemKey r = id_itemKey x \<and> id_attachmentKey r = id_attachmentKey x)"

definition upsert_document :: "index_document \<Rightarrow> unit sql" where
  "upsert_document x = stmt (\<lambda>d.
     if \<not> list_ex (\<lambda>r. in_id r = id_instanceID x) (db_instances d) then (Inl ErrConflict, d)
     else if list_ex (same_document x) (db_documents d)
     then (Inr (), d\<lparr>db_documents := updated (same_document x) (\<lambda>r. x) (db_documents d)\<rparr>)
     else (Inr (), d\<lparr>db_documents := db_documents d @ [x]\<rparr>))"

definition delete_document :: "string \<Rightarrow> string \<Rightarrow> string \<Rightarrow> unit sql" where
  "delete_document i item att = stmt (\<lambda>d.
     (Inr (), d\<lparr>db_documents :=
        filter (\<lambda>r. \<not> (id_instanceID r = i \<and> id_itemKey r = item \<and> id_attachmentKey r = att)) (db_documents d)\<rparr>))"

definition get_meta :: "string \<Rightarrow> index_meta option sql" where
  "get_meta i = select (\<lambda>d. find (\<lambda>r. ix_instanceID r = i) (db_meta d))"

definition set_meta :: "index_meta \<Rightarrow> unit sql" where
  "set_meta x = stmt (\<lambda>d.
     if \<not> list_ex (\<lambda>r. in_id r = ix_instanceID x) (db_instances d) then (Inl ErrConflict, d)
     else if list_ex (\<lambda>r. ix_instanceID r = ix_instanceID x) (db_meta d)
     then (Inr (), d\<lparr>db_meta := updated (\<lambda>r. ix_instanceID r = ix_instanceID x) (\<lambda>r. x) (db_meta d)\<rparr>)
     else (Inr (), d\<lparr>db_meta := db_meta d @ [x]\<rparr>))"

section \<open>Platform settings\<close>

definition get_embedder_settings :: "embedder_settings sql" where
  "get_embedder_settings = select db_embedder"

definition set_embedder_settings :: "embedder_settings \<Rightarrow> unit sql" where
  "set_embedder_settings s = stmt (\<lambda>d. (Inr (), d\<lparr>db_embedder := s\<rparr>))"

definition get_embedder_key :: "string option sql" where
  "get_embedder_key = select db_embedderKey"

definition set_embedder_key :: "string \<Rightarrow> unit sql" where
  "set_embedder_key ct = stmt (\<lambda>d. (Inr (), d\<lparr>db_embedderKey := Some ct\<rparr>))"

definition delete_embedder_key :: "unit sql" where
  "delete_embedder_key = stmt (\<lambda>d. (Inr (), d\<lparr>db_embedderKey := None\<rparr>))"

section \<open>What a statement leaves alone\<close>

text \<open>The index of one instance.\<close>

definition index_of :: "string \<Rightarrow> db \<Rightarrow> index_chunk list \<times> index_document list \<times> index_meta list \<times> fts_row list" where
  "index_of i d =
     (filter (\<lambda>r. ic_instanceID r = i) (db_chunks d), filter (\<lambda>r. id_instanceID r = i) (db_documents d),
      filter (\<lambda>r. ix_instanceID r = i) (db_meta d), filter (\<lambda>r. ft_instanceID r = i) (db_fts d))"

text \<open>Every table but those of the index.\<close>

definition other_tables :: "db \<Rightarrow> _" where
  "other_tables d =
     (db_users d, db_sessions d, db_connectors d, db_instances d, db_secrets d, db_tools d, db_tokens d, db_embedder d, db_embedderKey d)"

text \<open>Identifiers of chunks are unique and below the next one, and a full-text row belongs to the
  instance of its chunk.\<close>

definition chunks_wf :: "db \<Rightarrow> bool" where
  "chunks_wf d =
     (distinct (map ic_id (db_chunks d)) \<and> list_all (\<lambda>c. ic_id c < db_nextChunk d) (db_chunks d) \<and>
      (\<forall>c\<in>set (db_chunks d). \<forall>r\<in>set (db_fts d). ft_chunkID r = ic_id c \<longrightarrow> ft_instanceID r = ic_instanceID c) \<and>
      list_all (\<lambda>r. ft_chunkID r < db_nextChunk d) (db_fts d))"

lemma insert_chunk_frame:
  "other_tables (insert_chunk i c d) = other_tables d"
  "j \<noteq> i \<Longrightarrow> index_of j (insert_chunk i c d) = index_of j d"
  "chunks_wf d \<Longrightarrow> chunks_wf (insert_chunk i c d)"
  by (auto simp: insert_chunk_def Let_def other_tables_def index_of_def chunks_wf_def list_all_iff)

lemma fold_insert_frame:
  "other_tables (List.fold (insert_chunk i) cs d) = other_tables d"
  "j \<noteq> i \<Longrightarrow> index_of j (List.fold (insert_chunk i) cs d) = index_of j d"
  "chunks_wf d \<Longrightarrow> chunks_wf (List.fold (insert_chunk i) cs d)"
  by (induction cs arbitrary: d) (simp_all add: insert_chunk_frame)

end
