(* ===== verification/Rank.thy ===== *)
theory Rank
  imports GoValue "HOL-Library.Word" "HOL-Library.Product_Lexorder"
begin

text \<open>
  \<open>internal/index/rank.go\<close>, and the vector encoding of
  \<open>internal/store/sqlitestore/searchindex.go\<close>: the similarity of two embeddings and the
  fusion of two rankings.  A finite \<open>float32\<close> is the rational number it denotes; \<open>rnd32\<close>
  rounds to it and \<open>sqrt64\<close> is the correctly rounded square root.  The product of two
  \<open>float32\<close> numbers is a \<open>float64\<close>, so it makes no difference whether the machine fuses
  the multiplication and the addition.
\<close>

section \<open>Single precision and square roots\<close>

definition round_to :: "int \<Rightarrow> rat \<Rightarrow> rat" where
  "round_to e q = sgn q * (of_int (round_half_even (\<bar>q\<bar> / pow2 e)) * pow2 e)"

definition rnd32 :: "rat \<Rightarrow> rat" where
  "rnd32 q = (if q = 0 then 0 else round_to (max (rat_exp \<bar>q\<bar> - 23) (- 149)) q)"

text \<open>Out of range above; \<open>strconv.ParseFloat\<close> reports it.\<close>

definition f32_round :: "rat \<Rightarrow> rat option" where
  "f32_round q = (if rnd32 q = 0 \<or> rat_exp \<bar>rnd32 q\<bar> < 128 then Some (rnd32 q) else None)"

fun isqrt :: "nat \<Rightarrow> nat" where
  "isqrt n = (if n = 0 then 0 else let r = 2 * isqrt (n div 4) in if Suc r * Suc r \<le> n then Suc r else r)"

declare isqrt.simps [simp del]

text \<open>The significand of the root has 53 bits: \<open>s\<close> is the root in units of the last place, rounded
  down; the remainder decides, and is never a tie.\<close>

definition sqrt64 :: "rat \<Rightarrow> rat" where
  "sqrt64 q =
     (if q \<le> 0 then 0
      else let u = rat_exp q div 2 - 52; x = q / (pow2 u * pow2 u); s = isqrt (nat (floor x));
               half = of_nat s + 1 / 2
           in of_nat (if x < half * half then s else Suc s) * pow2 u)"

lemma isqrt_bounds: "isqrt n * isqrt n \<le> n \<and> n < Suc (isqrt n) * Suc (isqrt n)"
proof (induction n rule: isqrt.induct)
  case (1 n)
  show ?case
  proof (cases "n = 0")
    case True thus ?thesis by (simp add: isqrt.simps)
  next
    case False
    define r where "r = isqrt (n div 4)"
    have r: "r * r \<le> n div 4" "n div 4 < Suc r * Suc r" using 1[OF False] unfolding r_def by simp_all
    have lo: "2 * r * (2 * r) \<le> n" using r(1) by (simp add: algebra_simps)
    have "n < 4 * (Suc r * Suc r)" using r(2) by (simp add: div_less_iff_less_mult algebra_simps)
    hence hi: "n < (2 * r + 2) * (2 * r + 2)" by (simp add: algebra_simps)
    have eq: "isqrt n = (if Suc (2 * r) * Suc (2 * r) \<le> n then Suc (2 * r) else 2 * r)"
      using False by (subst isqrt.simps) (simp add: Let_def r_def)
    show ?thesis unfolding eq using lo hi by auto
  qed
qed

section \<open>Similarity\<close>

text \<open>\<open>Cosine\<close>.\<close>

definition dot64 :: "rat list \<Rightarrow> rat list \<Rightarrow> rat" where
  "dot64 xs ys = List.fold (\<lambda>(x, y) acc. rnd (acc + rnd (x * y))) (zip xs ys) 0"

definition cosine :: "rat list \<Rightarrow> rat list \<Rightarrow> rat" where
  "cosine a b =
     (if length a \<noteq> length b \<or> a = [] then 0
      else let dot = dot64 a b; na = dot64 a a; nb = dot64 b b in
        if na = 0 \<or> nb = 0 then 0 else rnd32 (rnd (dot / rnd (sqrt64 na * sqrt64 nb))))"

lemma dot64_swap: "length a = length b \<Longrightarrow> dot64 a b = dot64 b a"
proof -
  have "length a = length b \<Longrightarrow>
      List.fold (\<lambda>(x, y) acc. rnd (acc + rnd (x * y))) (zip a b) z = List.fold (\<lambda>(x, y) acc. rnd (acc + rnd (x * y))) (zip b a) z" for z
    by (induction a b arbitrary: z rule: list_induct2) (simp_all add: mult.commute)
  thus "length a = length b \<Longrightarrow> ?thesis" by (simp add: dot64_def)
qed

lemma cosine_swap: "cosine a b = cosine b a"
  by (auto simp: cosine_def Let_def dot64_swap mult.commute)

lemma cosine_mismatch [simp]: "length a \<noteq> length b \<Longrightarrow> cosine a b = 0"
  by (simp add: cosine_def)

section \<open>Fusion\<close>

definition rrf_k :: rat where "rrf_k = 60"

text \<open>Position \<open>pos\<close> counts from 0.\<close>

definition rrf_weight :: "nat \<Rightarrow> rat" where
  "rrf_weight pos = rnd (1 / rnd (rrf_k + of_nat (pos + 1)))"

fun rrf_add :: "nat \<Rightarrow> int list \<Rightarrow> (int, rat) gomap \<Rightarrow> (int, rat) gomap" where
  "rrf_add pos [] m = m"
| "rrf_add pos (i # is) m =
     rrf_add (Suc pos) is (kv_put i (rnd ((case map_of m i of None \<Rightarrow> 0 | Some s \<Rightarrow> s) + rrf_weight pos)) m)"

definition rrf_scores :: "int list list \<Rightarrow> (int, rat) gomap" where
  "rrf_scores rankings = List.fold (rrf_add 0) rankings []"

definition fuse_rrf :: "int list list \<Rightarrow> int list" where
  "fuse_rrf rankings = (let scores = rrf_scores rankings in sort_key (\<lambda>i. (- the (map_of scores i), i)) (map fst scores))"

lemma rrf_add_wf: "kv_wf m \<Longrightarrow> kv_wf (rrf_add pos is m)"
  by (induction "is" arbitrary: pos m) (auto simp: kv_wf_put)

lemma rrf_add_keys: "fst ` set (rrf_add pos is m) = fst ` set m \<union> set is"
  by (induction "is" arbitrary: pos m) (auto simp: kv_put_keys)

lemma rrf_scores_wf: "kv_wf (rrf_scores rankings)"
proof -
  have "kv_wf m \<Longrightarrow> kv_wf (List.fold (rrf_add 0) rankings m)" for m
    by (induction rankings arbitrary: m) (simp_all add: rrf_add_wf)
  thus ?thesis by (simp add: rrf_scores_def kv_wf_Nil)
qed

lemma rrf_scores_keys: "fst ` set (rrf_scores rankings) = \<Union> (set ` set rankings)"
proof -
  have "fst ` set (List.fold (rrf_add 0) rankings m) = fst ` set m \<union> \<Union> (set ` set rankings)" for m
    by (induction rankings arbitrary: m) (auto simp: rrf_add_keys)
  thus ?thesis by (simp add: rrf_scores_def)
qed

lemma fuse_rrf_set: "set (fuse_rrf rankings) = \<Union> (set ` set rankings)"
  using rrf_scores_keys by (simp add: fuse_rrf_def Let_def)

lemma fuse_rrf_distinct: "distinct (fuse_rrf rankings)"
  using rrf_scores_wf by (simp add: fuse_rrf_def Let_def kv_wf_def)

text \<open>The order in which Go visits the map of scores does not matter.\<close>

lemma fuse_rrf_order:
  assumes "distinct ids" "set ids = fst ` set (rrf_scores rankings)"
  shows "sort_key (\<lambda>i. (- the (map_of (rrf_scores rankings) i), i)) ids = fuse_rrf rankings"
proof -
  let ?k = "\<lambda>i. (- the (map_of (rrf_scores rankings) i), i)"
  have inj: "inj ?k" by (simp add: inj_def)
  have "map ?k (sort_key ?k ids) = map ?k (sort_key ?k (map fst (rrf_scores rankings)))"
    by (rule sorted_distinct_set_unique)
      (use assms rrf_scores_wf in \<open>simp_all add: distinct_map inj_on_subset[OF inj] kv_wf_def\<close>)
  thus ?thesis using inj by (simp add: fuse_rrf_def Let_def inj_map_eq_map del: map_map)
qed

section \<open>Vectors as bytes\<close>

text \<open>\<open>encodeVector\<close> and \<open>decodeVector\<close>, over the bit patterns \<open>math.Float32bits\<close> gives.\<close>

definition put_uint32 :: "32 word \<Rightarrow> string" where
  "put_uint32 w = map (\<lambda>k. char_of (unat (drop_bit (8 * k) w) mod 256)) [0..<4]"

definition uint32 :: "string \<Rightarrow> 32 word" where
  "uint32 b = of_nat (of_char (b ! 0) + 256 * of_char (b ! 1) + 65536 * of_char (b ! 2) + 16777216 * of_char (b ! 3))"

definition encode_vector :: "32 word list \<Rightarrow> string" where
  "encode_vector v = concat (map put_uint32 v)"

definition decode_vector :: "string \<Rightarrow> 32 word list" where
  "decode_vector b = map (\<lambda>i. uint32 (drop (4 * i) b)) [0..<length b div 4]"

lemma byte_div_mod:
  assumes "(n :: nat) < 2 ^ 32"
  shows "n mod 256 + 256 * (n div 2 ^ 8 mod 256) + 65536 * (n div 2 ^ 16 mod 256) + 16777216 * (n div 2 ^ 24 mod 256) = n"
proof -
  let ?b = "n div 256" let ?c = "?b div 256" let ?d = "?c div 256"
  have q: "n div 2 ^ 8 = ?b" "n div 2 ^ 16 = ?c" "n div 2 ^ 24 = ?d" by (simp_all add: div_mult2_eq[symmetric])
  have "?d < 256" using assms by (simp add: div_mult2_eq[symmetric] less_mult_imp_div_less)
  hence d: "?d mod 256 = ?d" by simp
  have "n = 256 * ?b + n mod 256" "?b = 256 * ?c + ?b mod 256" "?c = 256 * ?d + ?c mod 256" by simp_all
  thus ?thesis unfolding q d by linarith
qed

lemma uint32_put: "uint32 (put_uint32 w @ rest) = w"
proof -
  have n: "unat w < 2 ^ 32" using unsigned_less[of w] by simp
  have "(of_nat (unat w mod 256 + 256 * (unat w div 2 ^ 8 mod 256) + 65536 * (unat w div 2 ^ 16 mod 256)
      + 16777216 * (unat w div 2 ^ 24 mod 256)) :: 32 word) = w"
    unfolding byte_div_mod[OF n] by simp
  moreover have "unat (drop_bit k w) = unat w div 2 ^ k" for k by (metis unat_drop_bit_eq drop_bit_eq_div)
  ultimately show ?thesis
    by (simp add: uint32_def put_uint32_def upt_rec[of 0] upt_rec[of 1] upt_rec[of 2] upt_rec[of 3] nth_append)
qed

lemma put_uint32_length [simp]: "length (put_uint32 w) = 4"
  by (simp add: put_uint32_def)

lemma encode_vector_length: "length (encode_vector v) = 4 * length v"
  by (induction v) (simp_all add: encode_vector_def)

text \<open>A stored embedding reads back bit for bit.\<close>

lemma decode_encode_vector: "decode_vector (encode_vector v) = v"
proof -
  have "decode_vector (encode_vector v @ rest) = v" if "length rest < 4" for rest
  proof (induction v)
    case Nil
    thus ?case using that by (simp add: decode_vector_def encode_vector_def)
  next
    case (Cons w v)
    have "length (encode_vector (w # v) @ rest) div 4 = Suc (length v)"
      using that by (simp add: encode_vector_length)
    hence "decode_vector (encode_vector (w # v) @ rest) = map (\<lambda>i. uint32 (drop (4 * i) (encode_vector (w # v) @ rest))) [0..<Suc (length v)]"
      by (simp only: decode_vector_def)
    also have "\<dots> = uint32 (put_uint32 w @ encode_vector v @ rest) #
        map (\<lambda>i. uint32 (drop (4 * Suc i) (put_uint32 w @ encode_vector v @ rest))) [0..<length v]"
      by (simp add: upt_conv_Cons map_Suc_upt[symmetric] encode_vector_def comp_def del: upt_Suc)
    also have "\<dots> = w # map (\<lambda>i. uint32 (drop (4 * i) (encode_vector v @ rest))) [0..<length v]"
      by (simp add: uint32_put)
    also have "\<dots> = w # decode_vector (encode_vector v @ rest)"
      using that by (simp add: decode_vector_def encode_vector_length)
    finally show ?case using Cons by simp
  qed
  from this[of "[]"] show ?thesis by simp
qed

end
