(* ===== verification/Embedder.thy ===== *)
theory Embedder
  imports Client Limiter JsonStruct JsonEnc Rank
begin

text \<open>
  \<open>internal/index/embedder.go\<close>: the client of the embedding sidecar.  The call goes
  through the guarded HTTP client and the limiter the engine uses, both arguments here;
  the answer is decoded as \<open>encoding/json\<close> decodes it into
  \<open>struct { Embeddings [][]float32; Error string }\<close>.
\<close>

section \<open>Decoding the answer\<close>

text \<open>A slice with its backing array: a repeated field is decoded over the elements already there,
  and \<open>null\<close> keeps an element.\<close>

type_synonym 'a slice = "'a list \<times> nat"

definition slice_value :: "'a slice \<Rightarrow> 'a list" where "slice_value s = take (snd s) (fst s)"

definition decode_slice :: "(string \<Rightarrow> 'a \<Rightarrow> 'a) \<Rightarrow> 'a \<Rightarrow> string \<Rightarrow> 'a slice \<Rightarrow> 'a slice" where
  "decode_slice f zero raw s =
     (if is_null raw then ([], 0)
      else case raw_elements raw of
        None \<Rightarrow> s
      | Some [] \<Rightarrow> ([], 0)
      | Some rs \<Rightarrow>
          (let n = length rs; old = fst s @ replicate (n - length (fst s)) zero
           in (map (\<lambda>(r, x). f r x) (zip rs old) @ drop n old, n)))"

definition float32_of :: "string \<Rightarrow> rat option" where
  "float32_of raw = (case json_number raw of Some (q, []) \<Rightarrow> f32_round q | _ \<Rightarrow> None)"

definition decode_float32 :: "string \<Rightarrow> rat \<Rightarrow> rat" where
  "decode_float32 raw x = (if is_null raw then x else case float32_of raw of Some q \<Rightarrow> q | None \<Rightarrow> x)"

definition decode_vectors :: "string \<Rightarrow> rat slice slice \<Rightarrow> rat slice slice" where
  "decode_vectors = decode_slice (decode_slice decode_float32 0) ([], 0)"

text \<open>No type error at any depth.\<close>

definition elements_ok :: "(string \<Rightarrow> bool) \<Rightarrow> string \<Rightarrow> bool" where
  "elements_ok ok raw = (is_null raw \<or> (case raw_elements raw of Some rs \<Rightarrow> list_all ok rs | None \<Rightarrow> False))"

definition vectors_ok :: "string \<Rightarrow> bool" where
  "vectors_ok = elements_ok (elements_ok (\<lambda>raw. is_null raw \<or> float32_of raw \<noteq> None))"

record embed_response =
  er_embeddings :: "rat list list"
  er_error :: string

definition decode_embed_response :: "string \<Rightarrow> embed_response option" where
  "decode_embed_response body =
     (let raw = skip_ws body in
      if \<not> json_valid body then None
      else if has_prefix ''null'' raw then Some \<lparr>er_embeddings = [], er_error = []\<rparr>
      else if conforms (ShStruct [(''error'', ShStr)]) raw \<and> list_all vectors_ok (occurrences ''embeddings'' raw)
      then Some \<lparr>er_embeddings = map slice_value (slice_value (List.fold decode_vectors (occurrences ''embeddings'' raw) ([], 0))),
                 er_error = field_string ''error'' raw\<rparr>
      else None)"

section \<open>The call\<close>

definition default_embedder :: string where "default_embedder = ''nomic-embed-text''"
definition max_embed_response_bytes :: int where "max_embed_response_bytes = 16777216"
definition embedder_limiter_key :: string where "embedder_limiter_key = ''embedder''"

datatype embed_error =
    EmbedNoURL | EmbedRateLimited | EmbedRequest | EmbedCall transport_error | EmbedStatus int string
  | EmbedDecode | EmbedReported string | EmbedCount nat nat

definition embed_body :: "string \<Rightarrow> string list \<Rightarrow> string" where
  "embed_body model texts =
     ''{'' @ json_quote ''model'' @ '':'' @ json_quote model @ '','' @ json_quote ''input'' @ '':[''
     @ join_str '','' (map json_quote texts) @ '']}''"

definition embed_truncate :: "string \<Rightarrow> nat \<Rightarrow> string" where
  "embed_truncate b n = (if length b \<le> n then b else take n b @ encode_rune 8230)"

definition embed_request :: "string \<Rightarrow> string \<Rightarrow> string \<Rightarrow> string list \<Rightarrow> http_request option" where
  "embed_request base model key texts =
     map_option (\<lambda>u0.
        let u = new_request_url u0; h = header_set ''Content-Type'' ''application/json'' [] in
        \<lparr>hr_method = ''POST'', hr_url = u, hr_host = u_host u,
         hr_header = (if key = [] then h else header_set ''Authorization'' (''Bearer '' @ key) h),
         hr_body = Some (embed_body model texts)\<rparr>)
       (url_parse (base @ ''/api/embed''))"

text \<open>What a response says of the texts.\<close>

definition embed_answer :: "string list \<Rightarrow> response \<Rightarrow> (embed_error, rat list list) result" where
  "embed_answer texts rp =
     (if rp_status rp < 200 \<or> 300 \<le> rp_status rp then Inl (EmbedStatus (rp_status rp) (embed_truncate (rp_body rp) 300))
      else case decode_embed_response (rp_body rp) of
        None \<Rightarrow> Inl EmbedDecode
      | Some r \<Rightarrow>
          if er_error r \<noteq> [] then Inl (EmbedReported (er_error r))
          else if length (er_embeddings r) \<noteq> length texts then Inl (EmbedCount (length (er_embeddings r)) (length texts))
          else Inr (er_embeddings r))"

text \<open>The surroundings of one call: the clock's reading and the network that answers it.\<close>

definition embed :: "client \<Rightarrow> int \<Rightarrow> (http_request \<Rightarrow> network) \<Rightarrow> string \<Rightarrow> string \<Rightarrow> string \<Rightarrow> int \<Rightarrow> egress_policy \<Rightarrow> string list
    \<Rightarrow> limiter \<Rightarrow> (embed_error, rat list list) result \<times> limiter" where
  "embed c now net base model0 key rate policy texts l =
     (if texts = [] then (Inr [], l)
      else if base = [] then (Inl EmbedNoURL, l)
      else
        let model = (if model0 = [] then default_embedder else model0); (ok, l1) = limiter_allow now l embedder_limiter_key rate in
        if \<not> ok then (Inl EmbedRateLimited, l1)
        else case embed_request base model key texts of
          None \<Rightarrow> (Inl EmbedRequest, l1)
        | Some req \<Rightarrow>
            (case fst (client_do (net req) c req policy max_embed_response_bytes) of
               Inl e \<Rightarrow> (Inl (EmbedCall e), l1)
             | Inr rp \<Rightarrow> (embed_answer texts rp, l1)))"

lemma embed_one_vector_each:
  "fst (embed c now net base model key rate policy texts l) = Inr vs \<Longrightarrow> length vs = length texts"
  by (auto simp: embed_def embed_answer_def Let_def split: prod.splits if_splits option.splits sum.splits)

end
