(* ===== verification/Chunk.thy ===== *)
theory Chunk
  imports Utf8
begin

text \<open>
  \<open>internal/index/chunk.go\<close> and \<open>heading.go\<close>: a text is cut into overlapping spans, at
  paragraph, sentence or word boundaries where there are any, or along the headings of a
  markup dialect.  Positions count runes.
\<close>

record span =
  sn_index :: nat
  sn_start :: nat
  sn_end :: nat
  sn_text :: string

definition default_size :: int where "default_size = 1000"
definition default_overlap :: int where "default_overlap = 150"

text \<open>\<open>runes[from:to]\<close>.\<close>

definition rune_slice :: "nat list \<Rightarrow> nat \<Rightarrow> nat \<Rightarrow> nat list" where
  "rune_slice rs from to = take (to - from) (drop from rs)"

text \<open>\<open>strings.LastIndex\<close>.\<close>

definition last_index :: "string \<Rightarrow> string \<Rightarrow> nat option" where
  "last_index s sep = find (\<lambda>i. has_prefix sep (drop i s)) (rev [0..<Suc (length s)])"

definition last_index_after :: "nat list \<Rightarrow> nat \<Rightarrow> nat \<Rightarrow> string \<Rightarrow> nat option" where
  "last_index_after rs from to sep =
     (let s = encode_runes (rune_slice rs from to) in
      map_option (\<lambda>i. from + length (runes (take i s)) + length (runes sep)) (last_index s sep))"

text \<open>The separators, in the order they are tried.\<close>

definition break_separators :: "string list" where
  "break_separators = [[CHR 0x0A, CHR 0x0A], ''. '', ''? '', ''! '', [CHR 0x0A], '' '']"

fun first_break :: "nat list \<Rightarrow> nat \<Rightarrow> nat \<Rightarrow> string list \<Rightarrow> nat" where
  "first_break rs from to [] = to"
| "first_break rs from to (sep # seps) =
     (case last_index_after rs from to sep of
        Some i \<Rightarrow> if 0 < i then i else first_break rs from to seps
      | None \<Rightarrow> first_break rs from to seps)"

definition break_point :: "nat list \<Rightarrow> nat \<Rightarrow> nat \<Rightarrow> nat" where
  "break_point rs start rawEnd =
     first_break rs (let minCut = rawEnd - (rawEnd - start) div 3 in if minCut < start then start else minCut) rawEnd break_separators"

definition chunk_end :: "nat list \<Rightarrow> nat \<Rightarrow> nat \<Rightarrow> nat" where
  "chunk_end rs sz start = (if length rs \<le> start + sz then length rs else break_point rs start (start + sz))"

lemma first_break_after:
  assumes "from < to" "list_all (\<lambda>sep. runes sep \<noteq> []) seps" shows "from < first_break rs from to seps"
  using assms(2)
  by (induction seps) (use assms(1) in \<open>auto simp: last_index_after_def Let_def split: option.splits\<close>)

lemma separators_runes: "list_all (\<lambda>sep. runes sep \<noteq> []) break_separators"
  by (simp add: break_separators_def runes_def)

lemma break_point_after: "start < rawEnd \<Longrightarrow> start < break_point rs start rawEnd"
proof -
  assume s: "start < rawEnd"
  let ?from = "let minCut = rawEnd - (rawEnd - start) div 3 in if minCut < start then start else minCut"
  show ?thesis
  proof (cases "?from < rawEnd")
    case True
    have "start \<le> ?from" by (simp add: Let_def)
    also have "?from < break_point rs start rawEnd"
      unfolding break_point_def by (rule first_break_after[OF True separators_runes])
    finally show ?thesis .
  next
    case False
    moreover have "?from \<le> rawEnd" using s by (simp add: Let_def)
    ultimately have eq: "?from = rawEnd" by simp
    have "rawEnd \<le> first_break rs rawEnd rawEnd seps" for seps
      by (induction seps) (auto simp: last_index_after_def Let_def split: option.splits)
    thus ?thesis using s unfolding break_point_def eq by (meson less_le_trans)
  qed
qed

lemma chunk_end_after: "start < length rs \<Longrightarrow> 0 < sz \<Longrightarrow> start < chunk_end rs sz start"
  by (simp add: chunk_end_def break_point_after)

text \<open>\<open>ChunkSize\<close> never passes a size of zero.\<close>

function chunk_loop :: "nat list \<Rightarrow> nat \<Rightarrow> nat \<Rightarrow> nat \<Rightarrow> nat \<Rightarrow> span list" where
  "chunk_loop rs sz overlap start n =
     (if length rs \<le> start \<or> sz = 0 then []
      else (let e = chunk_end rs sz start; body = trim_space (encode_runes (rune_slice rs start e));
                out = (if body \<noteq> [] then [\<lparr>sn_index = n, sn_start = start, sn_end = e, sn_text = body\<rparr>] else []);
                n1 = (if body \<noteq> [] then Suc n else n)
            in if length rs \<le> e then out
               else out @ chunk_loop rs sz overlap (if e - overlap \<le> start then e else e - overlap) n1))"
  by pat_completeness auto
termination
  apply (relation "measure (\<lambda>(rs, sz, overlap, start, n). length rs - start)")
   apply simp
  subgoal for rs sz overlap start n e
    using chunk_end_after[of start rs sz] by auto
  done

declare chunk_loop.simps [simp del]

definition chunk_size :: "string \<Rightarrow> int \<Rightarrow> int \<Rightarrow> span list" where
  "chunk_size text size0 overlap0 =
     (let rs = runes text; sz = (if size0 \<le> 0 then default_size else size0);
          overlap = (if overlap0 < 0 \<or> sz \<le> overlap0 then 0 else overlap0)
      in if rs = [] then [] else chunk_loop rs (nat sz) (nat overlap) 0 0)"

definition chunk :: "string \<Rightarrow> span list" where
  "chunk text = chunk_size text default_size default_overlap"

section \<open>Headings\<close>

definition heading_marker :: "string \<Rightarrow> char option" where
  "heading_marker d = (if d = ''typst'' then Some CHR ''='' else if d = ''markdown'' then Some CHR ''#'' else None)"

definition parse_heading :: "string \<Rightarrow> char \<Rightarrow> (nat \<times> string) option" where
  "parse_heading line marker =
     (let i = length (takeWhile (\<lambda>c. c = marker) line) in
      if i = 0 \<or> length line \<le> i \<or> line ! i \<noteq> CHR '' '' then None
      else (let title = trim_space (drop (i + 1) line) in if title = [] then None else Some (i, title)))"

definition is_fence :: "string \<Rightarrow> bool" where
  "is_fence line = (let t = trim_space line in has_prefix ''```'' t \<or> has_prefix ''~~~'' t)"

record heading_section =
  hs_breadcrumb :: string
  hs_bodyStart :: nat
  hs_bodyEnd :: nat

text \<open>The state of the walk; the innermost open heading is the head of the stack.\<close>

record section_walk =
  sw_stack :: "(nat \<times> string) list"
  sw_sections :: "heading_section list"
  sw_pos :: nat
  sw_bodyStart :: nat
  sw_inFence :: bool
  sw_haveHeading :: bool

definition flush_section :: "section_walk \<Rightarrow> section_walk" where
  "flush_section w =
     (if sw_pos w \<le> sw_bodyStart w then w
      else w\<lparr>sw_sections := sw_sections w @ [\<lparr>hs_breadcrumb = join_str '' > '' (rev (map snd (sw_stack w))),
        hs_bodyStart = sw_bodyStart w, hs_bodyEnd = sw_pos w\<rparr>]\<rparr>)"

definition trim_newlines :: "string \<Rightarrow> string" where
  "trim_newlines s = rev (dropWhile (\<lambda>c. c = CHR 0x0A) (rev s))"

definition walk_line :: "char \<Rightarrow> string \<Rightarrow> section_walk \<Rightarrow> section_walk" where
  "walk_line marker line w =
     (let trimmed = trim_newlines line; n = length (runes line);
          w1 = (if is_fence trimmed then w\<lparr>sw_inFence := \<not> sw_inFence w\<rparr>
                else if sw_inFence w then w
                else case parse_heading trimmed marker of
                  None \<Rightarrow> w
                | Some (level, title) \<Rightarrow>
                    (let w0 = flush_section (w\<lparr>sw_haveHeading := True\<rparr>)
                     in w0\<lparr>sw_stack := (level, title) # dropWhile (\<lambda>e. level \<le> fst e) (sw_stack w0),
                           sw_bodyStart := sw_pos w0 + n\<rparr>))
      in w1\<lparr>sw_pos := sw_pos w1 + n\<rparr>)"

text \<open>\<open>strings.SplitAfter\<close> with the line break.\<close>

definition split_lines :: "string \<Rightarrow> string list" where
  "split_lines s = (let ls = split_on CHR 0x0A s in map (\<lambda>l. l @ [CHR 0x0A]) (butlast ls) @ [last ls])"

definition split_sections :: "string \<Rightarrow> string \<Rightarrow> heading_section list option" where
  "split_sections body dialect =
     (case heading_marker dialect of
        None \<Rightarrow> None
      | Some m \<Rightarrow>
          (let w = flush_section (List.fold (walk_line m) (split_lines body)
                 \<lparr>sw_stack = [], sw_sections = [], sw_pos = 0, sw_bodyStart = 0, sw_inFence = False, sw_haveHeading = False\<rparr>)
           in if sw_haveHeading w \<and> sw_sections w \<noteq> [] then Some (sw_sections w) else None))"

text \<open>A nil slice is \<open>None\<close>: the sections of a text whose headings have no bodies are nil, too.\<close>

definition with_breadcrumb :: "string \<Rightarrow> string \<Rightarrow> string" where
  "with_breadcrumb b body = (if b = [] then body else b @ [CHR 0x0A, CHR 0x0A] @ body)"

fun chunk_sections :: "nat list \<Rightarrow> heading_section list \<Rightarrow> nat \<Rightarrow> span list" where
  "chunk_sections rs [] n = []"
| "chunk_sections rs (h # hs) n =
     (let body = trim_space (encode_runes (rune_slice rs (hs_bodyStart h) (hs_bodyEnd h)));
          mk = (\<lambda>k t. \<lparr>sn_index = k, sn_start = hs_bodyStart h, sn_end = hs_bodyEnd h, sn_text = with_breadcrumb (hs_breadcrumb h) t\<rparr>);
          out = (if body = [] then []
                 else if int (length (runes body)) \<le> default_size then [mk n body]
                 else map (\<lambda>s. mk (n + sn_index s) (sn_text s)) (chunk_size body default_size default_overlap))
      in out @ chunk_sections rs hs (n + length out))"

definition chunk_heading :: "string \<Rightarrow> string \<Rightarrow> span list" where
  "chunk_heading body dialect =
     (case split_sections body dialect of None \<Rightarrow> chunk body | Some hs \<Rightarrow> chunk_sections (runes body) hs 0)"

section \<open>Lemmas\<close>

lemma valid_small: "r < 55296 \<Longrightarrow> valid_rune r" "valid_rune rune_error"
  by (simp_all add: valid_rune_def rune_error_def)

lemma decode_rune_valid: "s \<noteq> [] \<Longrightarrow> valid_rune (fst (decode_rune s))"
proof (cases s)
  case (Cons c0 r0)
  have low: "valid_rune (byte c0)" if "byte c0 < (128 :: nat)" by (rule valid_small) (use that in linarith)
  show ?thesis
  proof (cases "byte c0 < (224 :: nat)")
    case True
    thus ?thesis unfolding Cons
      by (simp add: decode_rune_def Let_def valid_small(2) low in_rng_def split: list.split)
         (intro conjI impI allI valid_small(1); linarith)
  next
    case high: False
    show ?thesis
    proof (cases "byte c0 < (240 :: nat)")
      case True
      consider "byte c0 = (237 :: nat)" | "byte c0 < (237 :: nat)" | "237 < (byte c0 :: nat)" by linarith
      thus ?thesis using high True unfolding Cons
        by cases (simp add: decode_rune_def Let_def valid_small(2) in_rng_def split: list.split,
                  intro conjI impI allI; simp add: valid_rune_def; linarith)+
    next
      case False
      consider "byte c0 = (240 :: nat)" | "byte c0 = (244 :: nat)" | "240 < (byte c0 :: nat)" "(byte c0 :: nat) < 244"
        | "244 < (byte c0 :: nat)" using False by linarith
      thus ?thesis unfolding Cons
        by cases (simp add: decode_rune_def Let_def valid_small(2) in_rng_def split: list.split,
                  (intro conjI impI allI; simp add: valid_rune_def; linarith)?)+
    qed
  qed
qed simp

lemma runes_valid: "list_all valid_rune (runes s)"
proof (induction s rule: utf8_chunks.induct)
  case (1 s)
  show ?case
  proof (cases "s = []")
    case False
    obtain r w where rw: "decode_rune s = (r, w)" by (metis surj_pair)
    have "valid_rune r" using decode_rune_valid[OF False] rw by simp
    moreover have "list_all valid_rune (runes (drop w s))" using 1[OF False rw[symmetric] refl] by simp
    ultimately show ?thesis using False by (subst runes_def, subst utf8_chunks.simps) (simp add: rw runes_def)
  qed (simp add: runes_def)
qed

lemma chunk_nonempty: "(r, b) \<in> set (utf8_chunks s) \<Longrightarrow> b \<noteq> []"
proof (induction s rule: utf8_chunks.induct)
  case (1 s)
  obtain r0 w where rw: "decode_rune s = (r0, w)" by (metis surj_pair)
  have s: "s \<noteq> []" using 1(2) by auto
  have "take w s \<noteq> []" using decode_rune_width[OF s] rw s by auto
  thus ?case using 1 s rw by (subst (asm) utf8_chunks.simps) auto
qed

lemma trim_space_Nil_iff: "trim_space s = [] \<longleftrightarrow> (\<forall>r\<in>set (runes s). is_space_rune r)"
proof -
  let ?ds = "dropWhile (is_space_rune \<circ> fst) (utf8_chunks s)"
  let ?es = "dropWhile (is_space_rune \<circ> fst) (rev ?ds)"
  have sub: "set ?es \<subseteq> set (utf8_chunks s)" using set_dropWhile_subset by (metis set_rev subset_trans)
  define es where "es = ?es"
  have ne: "snd x \<noteq> []" if "x \<in> set es" for x using chunk_nonempty[of "fst x" "snd x" s] that sub by (auto simp: es_def)
  have "trim_space s = chunks_bytes (rev es)" by (simp add: trim_space_def es_def)
  hence "trim_space s = [] \<longleftrightarrow> es = []" by (cases es) (use ne in \<open>auto simp: chunks_bytes_def\<close>)
  hence "trim_space s = [] \<longleftrightarrow> ?es = []" by (simp only: es_def)
  also have "\<dots> \<longleftrightarrow> (\<forall>x\<in>set ?ds. is_space_rune (fst x))" by (simp add: dropWhile_eq_Nil_conv)
  also have "\<dots> \<longleftrightarrow> (\<forall>r\<in>set (runes s). is_space_rune r)"
  proof
    assume all: "\<forall>x\<in>set ?ds. is_space_rune (fst x)"
    have "?ds = []" using all hd_dropWhile[of "is_space_rune \<circ> fst" "utf8_chunks s"] hd_in_set[of ?ds] by auto
    thus "\<forall>r\<in>set (runes s). is_space_rune r" by (auto simp: runes_def dropWhile_eq_Nil_conv)
  next
    assume "\<forall>r\<in>set (runes s). is_space_rune r"
    thus "\<forall>x\<in>set ?ds. is_space_rune (fst x)" using set_dropWhile_subset by (fastforce simp: runes_def)
  qed
  finally show ?thesis .
qed

text \<open>An ASCII byte inside an encoding is a rune, and what precedes it is an encoding.\<close>

lemma encode_rune_high: "128 \<le> r \<Longrightarrow> c \<in> set (encode_rune r) \<Longrightarrow> 128 \<le> (byte c :: nat)"
  by (auto simp: encode_rune_def of_char_char_of_nat split: if_splits)

lemma encode_runes_split:
  assumes "encode_runes rs = a @ c # b" "byte c < (128 :: nat)"
  shows "\<exists>rs1 rs2. rs = rs1 @ byte c # rs2 \<and> a = encode_runes rs1 \<and> b = encode_runes rs2"
  using assms(1)
proof (induction rs arbitrary: a)
  case (Cons r rs)
  have enc: "encode_rune r @ encode_runes rs = a @ c # b" using Cons.prems by (simp add: encode_runes_def)
  show ?case
  proof (cases "length (encode_rune r) \<le> length a")
    case True
    then obtain a' where a': "a = encode_rune r @ a'" using enc
      by (metis append_eq_append_conv_if append_take_drop_id)
    then obtain rs1 rs2 where "rs = rs1 @ byte c # rs2" "a' = encode_runes rs1" "b = encode_runes rs2"
      using Cons.IH[of a'] enc by auto
    hence "r # rs = (r # rs1) @ byte c # rs2 \<and> a = encode_runes (r # rs1) \<and> b = encode_runes rs2"
      using a' by (simp add: encode_runes_def)
    thus ?thesis by blast
  next
    case False
    hence "encode_rune r ! length a = c" using arg_cong[OF enc, of "\<lambda>xs. xs ! length a"] by (simp add: nth_append)
    hence "c \<in> set (encode_rune r)" using False by (metis not_le nth_mem)
    hence r: "r < 128" using encode_rune_high[of r c] assms(2) by fastforce
    hence "encode_rune r = [char_of r]" by (simp add: encode_rune_def)
    hence "a = []" "c = char_of r" "b = encode_runes rs" using False enc by (auto simp: Cons_eq_append_conv)
    hence "r # rs = [] @ byte c # rs \<and> a = encode_runes [] \<and> b = encode_runes rs"
      using r by (simp add: encode_runes_def of_char_char_of_nat)
    thus ?thesis by blast
  qed
qed (simp add: encode_runes_def)

text \<open>An ASCII word inside an encoding is a run of runes.\<close>

lemma encode_runes_word:
  assumes "encode_runes rs = a @ w @ b" "ascii w" "w \<noteq> []" "list_all valid_rune rs"
  shows "length (runes a) + length w \<le> length rs"
proof -
  have "\<exists>rs1 rs2. rs = rs1 @ rs2 \<and> a = encode_runes rs1 \<and> length w \<le> length rs2"
    using assms(1-3)
  proof (induction w arbitrary: rs a)
    case (Cons c w)
    obtain rs1 rs2 where 1: "rs = rs1 @ byte c # rs2" "a = encode_runes rs1" "w @ b = encode_runes rs2"
      using encode_runes_split[of rs a c "w @ b"] Cons.prems by auto
    have "length w \<le> length rs2"
    proof (cases "w = []")
      case False
      then obtain rs1' rs2' where "rs2 = rs1' @ rs2'" "[] = encode_runes rs1'" "length w \<le> length rs2'"
        using Cons.IH[of rs2 "[]"] 1(3) Cons.prems(2) by auto
      thus ?thesis by simp
    qed simp
    thus ?case using 1 by (intro exI[of _ rs1] exI[of _ "byte c # rs2"]) simp
  qed simp
  then obtain rs1 rs2 where "rs = rs1 @ rs2" "a = encode_runes rs1" "length w \<le> length rs2" by blast
  thus ?thesis using assms(4) by (simp add: runes_encode_runes)
qed

lemma find_SomeD: "find P xs = Some x \<Longrightarrow> x \<in> set xs \<and> P x"
  by (induction xs) (auto split: if_splits)

lemma last_index_split: "last_index s w = Some i \<Longrightarrow> i \<le> length s \<and> s = take i s @ w @ drop (length w) (drop i s)"
proof -
  assume "last_index s w = Some i"
  from find_SomeD[OF this[unfolded last_index_def]]
  have "i < Suc (length s)" "has_prefix w (drop i s)" by (simp_all only: set_rev set_upt) simp_all
  moreover from this(2) obtain r where "drop i s = w @ r" by (auto simp: has_prefix_iff)
  ultimately show ?thesis by (metis append_eq_conv_conj append_take_drop_id less_Suc_eq_le)
qed

lemma rune_slice_valid: "list_all valid_rune rs \<Longrightarrow> list_all valid_rune (rune_slice rs from to)"
  by (auto simp: rune_slice_def list_all_iff dest: in_set_takeD in_set_dropD)

lemma last_index_after_bound:
  assumes "last_index_after rs from to w = Some i" "ascii w" "w \<noteq> []" "list_all valid_rune rs" "from \<le> to"
  shows "i \<le> to"
proof -
  let ?s = "encode_runes (rune_slice rs from to)"
  obtain j where j: "last_index ?s w = Some j" "i = from + length (runes (take j ?s)) + length (runes w)"
    using assms(1) by (auto simp: last_index_after_def Let_def)
  have "length (runes (take j ?s)) + length w \<le> length (rune_slice rs from to)"
    using encode_runes_word[OF conjunct2[OF last_index_split[OF j(1)]] assms(2,3) rune_slice_valid[OF assms(4)]] .
  also have "\<dots> \<le> to - from" by (simp add: rune_slice_def)
  finally show ?thesis using j(2) assms(2,5) by (simp add: runes_ascii)
qed

lemma break_point_bound:
  assumes "list_all valid_rune rs" "start \<le> rawEnd" shows "break_point rs start rawEnd \<le> rawEnd"
proof -
  have "first_break rs lo rawEnd seps \<le> rawEnd"
    if "lo \<le> rawEnd" "list_all (\<lambda>w. ascii w \<and> w \<noteq> []) seps" for lo seps
    using that(2)
    by (induction seps) (use last_index_after_bound[OF _ _ _ assms(1) that(1)] in \<open>auto split: option.splits\<close>)
  moreover have "list_all (\<lambda>w. ascii w \<and> w \<noteq> []) break_separators" by code_simp
  ultimately show ?thesis using assms(2) by (simp add: break_point_def Let_def)
qed

lemma chunk_end_bound: "list_all valid_rune rs \<Longrightarrow> start < length rs \<Longrightarrow> chunk_end rs sz start \<le> length rs \<and> chunk_end rs sz start \<le> start + sz"
  using break_point_bound[of rs start "start + sz"] by (auto simp: chunk_end_def)

text \<open>What a span of a text is.\<close>

definition span_ok :: "nat list \<Rightarrow> nat \<Rightarrow> span \<Rightarrow> bool" where
  "span_ok rs sz s =
     (sn_start s < sn_end s \<and> sn_end s \<le> length rs \<and> sn_end s \<le> sn_start s + sz \<and>
      sn_text s = trim_space (encode_runes (rune_slice rs (sn_start s) (sn_end s))) \<and> sn_text s \<noteq> [])"

lemma blank_slice:
  assumes "list_all valid_rune rs" "trim_space (encode_runes (rune_slice rs a b)) = []" "a \<le> q" "q < b" "b \<le> length rs"
  shows "is_space_rune (rs ! q)"
proof -
  have "rs ! q = rune_slice rs a b ! (q - a)" using assms(3-5) by (simp add: rune_slice_def)
  moreover have "q - a < length (rune_slice rs a b)" using assms(3-5) by (simp add: rune_slice_def)
  ultimately have "rs ! q \<in> set (runes (encode_runes (rune_slice rs a b)))"
    using runes_encode_runes[OF rune_slice_valid[OF assms(1), of a b]] by simp
  thus ?thesis using assms(2) by (simp add: trim_space_Nil_iff)
qed

lemma chunk_loop_spans:
  assumes "list_all valid_rune rs" "0 < sz"
  shows "list_all (span_ok rs sz) (chunk_loop rs sz ov start n) \<and>
    map sn_index (chunk_loop rs sz ov start n) = [n..<n + length (chunk_loop rs sz ov start n)] \<and>
    sorted_wrt (<) (map sn_start (chunk_loop rs sz ov start n)) \<and>
    (\<forall>s\<in>set (chunk_loop rs sz ov start n). start \<le> sn_start s) \<and>
    (\<forall>q. start \<le> q \<and> q < length rs \<and> \<not> is_space_rune (rs ! q) \<longrightarrow>
       (\<exists>s\<in>set (chunk_loop rs sz ov start n). sn_start s \<le> q \<and> q < sn_end s))"
  using assms
proof (induction rs sz ov start n rule: chunk_loop.induct)
  case (1 rs sz ov start n)
  show ?case
  proof (cases "length rs \<le> start \<or> sz = 0")
    case True
    have "chunk_loop rs sz ov start n = []" by (subst chunk_loop.simps) (use True in simp)
    thus ?thesis using True 1(3) by auto
  next
    case False
    define e where "e = chunk_end rs sz start"
    define body where "body = trim_space (encode_runes (rune_slice rs start e))"
    define out where "out = (if body \<noteq> [] then [\<lparr>sn_index = n, sn_start = start, sn_end = e, sn_text = body\<rparr>] else [])"
    define n1 where "n1 = (if body \<noteq> [] then Suc n else n)"
    define next1 where "next1 = (if e - ov \<le> start then e else e - ov)"
    have e: "start < e" "e \<le> length rs" "e \<le> start + sz"
      using chunk_end_after[of start rs sz] chunk_end_bound[of rs start sz] False 1(2) by (auto simp: e_def)
    have nx: "start < next1" "next1 \<le> e" using e by (auto simp: next1_def)
    have loop: "chunk_loop rs sz ov start n = (if length rs \<le> e then out else out @ chunk_loop rs sz ov next1 n1)"
      using False by (subst chunk_loop.simps) (simp add: Let_def e_def body_def out_def n1_def next1_def)
    have here: "list_all (span_ok rs sz) out" "map sn_index out = [n..<n1]" "n1 = n + length out"
      using e by (auto simp: out_def n1_def span_ok_def body_def)
    have cover: "\<exists>s\<in>set out. sn_start s \<le> q \<and> q < sn_end s" if "start \<le> q" "q < e" "\<not> is_space_rune (rs ! q)" for q
    proof -
      have "body \<noteq> []" using blank_slice[OF 1(2), of start e q] that e by (auto simp: body_def)
      thus ?thesis using that by (simp add: out_def)
    qed
    show ?thesis
    proof (cases "length rs \<le> e")
      case True
      have "sorted_wrt (<) (map sn_start out)" "\<forall>s\<in>set out. start \<le> sn_start s" by (auto simp: out_def)
      thus ?thesis using loop True here cover by (auto simp: here(3))
    next
      case more: False
      let ?rest = "chunk_loop rs sz ov next1 n1"
      have IH: "list_all (span_ok rs sz) ?rest" "map sn_index ?rest = [n1..<n1 + length ?rest]" "sorted_wrt (<) (map sn_start ?rest)"
        "\<forall>s\<in>set ?rest. next1 \<le> sn_start s"
        "\<And>q. next1 \<le> q \<Longrightarrow> q < length rs \<Longrightarrow> \<not> is_space_rune (rs ! q) \<Longrightarrow> \<exists>s\<in>set ?rest. sn_start s \<le> q \<and> q < sn_end s"
        using 1(1)[OF False e_def body_def out_def n1_def more] 1(2,3) by (auto simp: next1_def)
      have L: "chunk_loop rs sz ov start n = out @ ?rest" using loop more by simp
      have idx: "map sn_index (out @ ?rest) = [n..<n + length (out @ ?rest)]"
        using here(2,3) IH(2) by (simp add: upt_add_eq_append[symmetric] add.assoc flip: upt_add_eq_append) (metis le_add1 upt_add_eq_append add.assoc)
      have starts: "sorted_wrt (<) (map sn_start (out @ ?rest))" "\<forall>s\<in>set (out @ ?rest). start \<le> sn_start s"
        using IH(3,4) nx(1) by (auto simp: out_def)
      have "\<exists>s\<in>set (out @ ?rest). sn_start s \<le> q \<and> q < sn_end s"
        if "start \<le> q" "q < length rs" "\<not> is_space_rune (rs ! q)" for q
      proof (cases "q < e")
        case True
        thus ?thesis using cover that by auto
      next
        case False
        thus ?thesis using IH(5)[of q] that nx(2) by auto
      qed
      thus ?thesis using here(1) IH(1) idx starts unfolding L by auto
    qed
  qed
qed

text \<open>The lines of a text have its runes.\<close>

lemma decode_rune_stop: "a \<noteq> [] \<Longrightarrow> byte c < (128 :: nat) \<Longrightarrow> decode_rune (a @ c # b) = decode_rune a"
  by (cases a) (auto simp: decode_rune_def Let_def in_rng_def split: list.splits)

lemma runes_Cons_ascii: "byte c < (128 :: nat) \<Longrightarrow> runes (c # b) = byte c # runes b"
  by (simp add: runes_def utf8_chunks_low)

lemma runes_line: "byte c < (128 :: nat) \<Longrightarrow> runes (a @ c # b) = runes a @ byte c # runes b"
proof (induction a rule: utf8_chunks.induct)
  case (1 s)
  show ?case
  proof (cases "s = []")
    case True
    thus ?thesis using runes_Cons_ascii[OF 1(2)] by (simp add: runes_def[of "[]"])
  next
    case False
    obtain r w where rw: "decode_rune s = (r, w)" by (metis surj_pair)
    have w: "w \<le> length s" using decode_rune_bound[of s] rw by simp
    have "runes (s @ c # b) = r # runes (drop w s @ c # b)"
      using decode_rune_stop[OF False 1(2), of b] rw w unfolding runes_def by (subst utf8_chunks.simps) simp
    moreover have "runes s = r # runes (drop w s)"
      using False rw unfolding runes_def by (subst utf8_chunks.simps) simp
    ultimately show ?thesis using 1(1)[OF False rw[symmetric] refl 1(2)] by simp
  qed
qed

lemma runes_join_lines:
  "ls \<noteq> [] \<Longrightarrow> concat (map runes (map (\<lambda>l. l @ [CHR 0x0A]) (butlast ls) @ [last ls])) = runes (join_str [CHR 0x0A] ls)"
proof (induction "[CHR 0x0A]" ls rule: join_str.induct)
  case (3 x y ys)
  have nl: "byte CHR 0x0A < (128 :: nat)" by simp
  have "runes (x @ CHR 0x0A # join_str [CHR 0x0A] (y # ys)) = runes x @ byte CHR 0x0A # runes (join_str [CHR 0x0A] (y # ys))"
    by (rule runes_line[OF nl])
  moreover have "runes (x @ [CHR 0x0A]) = runes x @ [byte CHR 0x0A]" using runes_line[OF nl, of x "[]"] by (simp add: runes_def[of "[]"])
  ultimately show ?case using 3 by simp
qed simp_all

lemma runes_split_lines: "concat (map runes (split_lines s)) = runes s"
  using runes_join_lines[of "split_on CHR 0x0A s"] by (simp add: split_lines_def Let_def join_split)

text \<open>Sections lie inside the text, one after the other.\<close>

definition walk_ok :: "section_walk \<Rightarrow> bool" where
  "walk_ok w =
     (list_all (\<lambda>h. hs_bodyStart h < hs_bodyEnd h \<and> hs_bodyEnd h \<le> sw_pos w) (sw_sections w) \<and>
      sorted_wrt (\<lambda>h h'. hs_bodyEnd h \<le> hs_bodyStart h') (sw_sections w) \<and>
      (\<forall>h\<in>set (sw_sections w). hs_bodyEnd h \<le> sw_bodyStart w))"

lemma walk_ok_frame:
  assumes "walk_ok w" "sw_sections w' = sw_sections w" "sw_pos w \<le> sw_pos w'" "sw_bodyStart w' = sw_bodyStart w"
  shows "walk_ok w'"
  using assms unfolding walk_ok_def list_all_iff by auto

lemma flush_section_fields [simp]:
  "sw_pos (flush_section w) = sw_pos w" "sw_bodyStart (flush_section w) = sw_bodyStart w"
  "sw_haveHeading (flush_section w) = sw_haveHeading w"
  by (simp_all add: flush_section_def)

lemma flush_section_props:
  assumes "walk_ok w"
  shows "list_all (\<lambda>h. hs_bodyStart h < hs_bodyEnd h \<and> hs_bodyEnd h \<le> sw_pos w) (sw_sections (flush_section w))"
    and "sorted_wrt (\<lambda>h h'. hs_bodyEnd h \<le> hs_bodyStart h') (sw_sections (flush_section w))"
  using assms by (auto simp: walk_ok_def flush_section_def list_all_iff sorted_wrt_append)

lemma walk_ok_heading:
  assumes "walk_ok w"
  shows "walk_ok (flush_section (w\<lparr>sw_haveHeading := True\<rparr>)\<lparr>sw_stack := st, sw_bodyStart := sw_pos w + n, sw_pos := sw_pos w + n\<rparr>)"
proof -
  have "walk_ok (w\<lparr>sw_haveHeading := True\<rparr>)" using assms by (rule walk_ok_frame) simp_all
  from flush_section_props[OF this] show ?thesis by (auto simp: walk_ok_def list_all_iff)
qed

lemma walk_line_ok:
  assumes "walk_ok w" shows "walk_ok (walk_line m line w) \<and> sw_pos (walk_line m line w) = sw_pos w + length (runes line)"
proof (cases "is_fence (trim_newlines line) \<or> sw_inFence w \<or> parse_heading (trim_newlines line) m = None")
  case True
  hence same: "sw_sections (walk_line m line w) = sw_sections w" "sw_bodyStart (walk_line m line w) = sw_bodyStart w"
    and pos: "sw_pos (walk_line m line w) = sw_pos w + length (runes line)"
    by (auto simp: walk_line_def Let_def)
  show ?thesis using walk_ok_frame[OF assms same(1) _ same(2)] pos by simp
next
  case False
  then obtain level title where "parse_heading (trim_newlines line) m = Some (level, title)" by auto
  with False show ?thesis using walk_ok_heading[OF assms] by (simp add: walk_line_def Let_def)
qed

lemma walk_lines_ok:
  "walk_ok w \<Longrightarrow> walk_ok (List.fold (walk_line m) ls w) \<and>
     sw_pos (List.fold (walk_line m) ls w) = sw_pos w + length (concat (map runes ls))"
  by (induction ls arbitrary: w) (use walk_line_ok in \<open>auto simp: algebra_simps\<close>)

lemma split_sections_ok:
  assumes "split_sections body d = Some hs"
  shows "list_all (\<lambda>h. hs_bodyStart h < hs_bodyEnd h \<and> hs_bodyEnd h \<le> length (runes body)) hs \<and>
    sorted_wrt (\<lambda>h h'. hs_bodyEnd h \<le> hs_bodyStart h') hs"
proof -
  let ?w0 = "\<lparr>sw_stack = [], sw_sections = [], sw_pos = 0, sw_bodyStart = 0, sw_inFence = False, sw_haveHeading = False\<rparr>"
  obtain m where hs: "hs = sw_sections (flush_section (List.fold (walk_line m) (split_lines body) ?w0))"
    using assms by (auto simp: split_sections_def Let_def split: option.splits if_splits)
  have "walk_ok ?w0" by (simp add: walk_ok_def)
  note w = walk_lines_ok[OF this, of m "split_lines body"]
  hence "sw_pos (List.fold (walk_line m) (split_lines body) ?w0) = length (runes body)" by (simp add: runes_split_lines)
  with flush_section_props[OF conjunct1[OF w]] show ?thesis unfolding hs by simp
qed

text \<open>What one section contributes: spans with its positions, numbered from \<open>n\<close>.\<close>

lemma chunk_size_numbered:
  "list_all (\<lambda>s. sn_text s \<noteq> []) (chunk_size t default_size default_overlap)"
  "map sn_index (chunk_size t default_size default_overlap) = [0..<length (chunk_size t default_size default_overlap)]"
  using chunk_loop_spans[OF runes_valid[of t], of "nat default_size" "nat default_overlap" 0 0]
  by (auto simp: chunk_size_def Let_def default_size_def default_overlap_def span_ok_def list_all_iff)

lemma map_add_index: "map f xs = [0..<length xs] \<Longrightarrow> map (\<lambda>s. n + f s) xs = [n..<n + length xs]"
proof -
  assume "map f xs = [0..<length xs]"
  hence "map (\<lambda>i. i + n) (map f xs) = [n..<length xs + n]" by (simp add: map_add_upt del: map_map)
  thus ?thesis by (simp add: comp_def add.commute)
qed

definition section_spans :: "nat list \<Rightarrow> heading_section \<Rightarrow> nat \<Rightarrow> span list" where
  "section_spans rs h n =
     (let body = trim_space (encode_runes (rune_slice rs (hs_bodyStart h) (hs_bodyEnd h)));
          mk = (\<lambda>k t. \<lparr>sn_index = k, sn_start = hs_bodyStart h, sn_end = hs_bodyEnd h, sn_text = with_breadcrumb (hs_breadcrumb h) t\<rparr>)
      in if body = [] then []
         else if int (length (runes body)) \<le> default_size then [mk n body]
         else map (\<lambda>s. mk (n + sn_index s) (sn_text s)) (chunk_size body default_size default_overlap))"

lemma chunk_sections_Cons:
  "chunk_sections rs (h # hs) n = section_spans rs h n @ chunk_sections rs hs (n + length (section_spans rs h n))"
  by (simp add: section_spans_def Let_def)

lemma section_spans_ok:
  "list_all (\<lambda>s. sn_start s = hs_bodyStart h \<and> sn_end s = hs_bodyEnd h \<and> sn_text s \<noteq> []) (section_spans rs h n)"
  "map sn_index (section_spans rs h n) = [n..<n + length (section_spans rs h n)]"
  using chunk_size_numbered
  by (auto simp: section_spans_def Let_def list_all_iff with_breadcrumb_def comp_def map_add_index)

declare chunk_sections.simps(2) [simp del]

lemma chunk_sections_ok:
  assumes "list_all (\<lambda>h. hs_bodyStart h < hs_bodyEnd h \<and> hs_bodyEnd h \<le> length rs) hs"
  shows "list_all (\<lambda>s. sn_start s < sn_end s \<and> sn_end s \<le> length rs \<and> sn_text s \<noteq> []) (chunk_sections rs hs n)"
    and "map sn_index (chunk_sections rs hs n) = [n..<n + length (chunk_sections rs hs n)]"
  using assms
proof (induction hs arbitrary: n)
  case (Cons h hs)
  { case 1
    thus ?case using Cons.IH(1) section_spans_ok(1)[of h rs n] by (auto simp: chunk_sections_Cons list_all_iff)
  next
    case 2
    let ?k = "n + length (section_spans rs h n)"
    have "[n..<?k] @ [?k..<?k + length (chunk_sections rs hs ?k)] = [n..<?k + length (chunk_sections rs hs ?k)]"
      by (metis le_add1 upt_add_eq_append add.assoc)
    thus ?case using Cons.IH(2)[of ?k] 2 by (simp add: chunk_sections_Cons section_spans_ok add.assoc) }
qed simp_all

text \<open>The size \<open>ChunkSize\<close> works with.\<close>

definition effective_size :: "int \<Rightarrow> nat" where
  "effective_size sz = (if sz \<le> 0 then nat default_size else nat sz)"

lemma chunk_size_loop: "\<exists>ov. chunk_size t sz overlap = chunk_loop (runes t) (effective_size sz) ov 0 0"
  by (auto simp: chunk_size_def effective_size_def Let_def chunk_loop.simps[of "[]"])

lemma increasing_length:
  assumes "sorted_wrt (<) xs" "\<forall>x\<in>set xs. x < (n :: nat)" shows "length xs \<le> n"
proof -
  have "set xs \<subseteq> {..<n}" using assms(2) by auto
  hence "card (set xs) \<le> n" using card_mono[of "{..<n}"] by force
  thus ?thesis using assms(1) by (simp add: distinct_card strict_sorted_iff)
qed

text \<open>C30: cutting a text always ends, with at most one span per rune: for every size and overlap,
  also those the caller got wrong, each span starts strictly after the one before, is numbered in
  order, lies inside the text, is at most the effective size long and holds the trimmed text of its
  slice, which is not empty; and every rune that is not white space lies in some span.  Cutting along
  headings numbers its spans in order, keeps them inside the text and leaves none empty.\<close>

theorem chunks_cover_text:
  "list_all (span_ok (runes t) (effective_size sz)) (chunk_size t sz overlap) \<and>
   map sn_index (chunk_size t sz overlap) = [0..<length (chunk_size t sz overlap)] \<and>
   sorted_wrt (<) (map sn_start (chunk_size t sz overlap)) \<and>
   length (chunk_size t sz overlap) \<le> length (runes t) \<and>
   {q \<in> {..<length (runes t)}. \<not> is_space_rune (runes t ! q)}
     \<subseteq> (\<Union>s\<in>set (chunk_size t sz overlap). {sn_start s..<sn_end s}) \<and>
   map sn_index (chunk_heading t dialect) = [0..<length (chunk_heading t dialect)] \<and>
   list_all (\<lambda>s. sn_start s < sn_end s \<and> sn_end s \<le> length (runes t) \<and> sn_text s \<noteq> []) (chunk_heading t dialect)"
proof -
  have pos: "0 < effective_size z" for z by (simp add: effective_size_def default_size_def)
  have any: "list_all (span_ok (runes t) (effective_size z)) (chunk_size t z v)" 
    "map sn_index (chunk_size t z v) = [0..<length (chunk_size t z v)]"
    "sorted_wrt (<) (map sn_start (chunk_size t z v))"
    "\<forall>q. q < length (runes t) \<and> \<not> is_space_rune (runes t ! q) \<longrightarrow> (\<exists>s\<in>set (chunk_size t z v). sn_start s \<le> q \<and> q < sn_end s)" for z v
  proof -
    obtain ov where eq: "chunk_size t z v = chunk_loop (runes t) (effective_size z) ov 0 0" using chunk_size_loop by blast
    note l = chunk_loop_spans[OF runes_valid[of t] pos[of z], of ov 0 0]
    show "list_all (span_ok (runes t) (effective_size z)) (chunk_size t z v)"
      "map sn_index (chunk_size t z v) = [0..<length (chunk_size t z v)]"
      "sorted_wrt (<) (map sn_start (chunk_size t z v))"
      "\<forall>q. q < length (runes t) \<and> \<not> is_space_rune (runes t ! q) \<longrightarrow> (\<exists>s\<in>set (chunk_size t z v). sn_start s \<le> q \<and> q < sn_end s)"
      using l unfolding eq by auto
  qed
  have len: "length (chunk_size t sz overlap) \<le> length (runes t)"
  proof -
    have "\<forall>x\<in>set (map sn_start (chunk_size t sz overlap)). x < length (runes t)"
      using any(1)[of sz overlap] by (fastforce simp: list_all_iff span_ok_def)
    from increasing_length[OF any(3) this] show ?thesis by simp
  qed
  have heading: "map sn_index (chunk_heading t dialect) = [0..<length (chunk_heading t dialect)] \<and>
    list_all (\<lambda>s. sn_start s < sn_end s \<and> sn_end s \<le> length (runes t) \<and> sn_text s \<noteq> []) (chunk_heading t dialect)"
  proof (cases "split_sections t dialect")
    case None
    thus ?thesis using any(1)[of default_size default_overlap] any(2)[of default_size default_overlap]
      by (auto simp: chunk_heading_def chunk_def list_all_iff span_ok_def)
  next
    case (Some hs)
    thus ?thesis using chunk_sections_ok[OF conjunct1[OF split_sections_ok[OF Some]], of 0] by (simp add: chunk_heading_def)
  qed
  show ?thesis using any[of sz overlap] len heading by (intro conjI) fastforce+
qed

end
