(* ===== verification/Indexer.thy ===== *)
theory Indexer
  imports Instances IndexStore Embedder Chunk
begin

text \<open>
  \<open>internal/service/index.go\<close> and \<open>internal/index/source/source.go\<close>: the indexer.  Its state
  is the platform's, the status of each instance's runs and the runs that were started and have
  not run yet (the goroutines).  A crawler is a tree of the tool calls it makes and the
  documents it emits, so the indexer's callback runs between its calls as it does in Go.
  Instants, random bytes, the engine's surroundings and the network of the embedder differ
  from step to step: they are functions of the counter \<open>xs_tick\<close>.
\<close>

section \<open>Sources\<close>

record document =
  dc_itemKey :: string
  dc_attachmentKey :: string
  dc_headingDialect :: string

datatype call_error = CallNotEnabled string | CallFailed engine_error

text \<open>The end of a crawl: an error, or whether the listing was truncated.\<close>

datatype crawl =
    CrawlDone "(string, bool) result"
  | CrawlEmit document string crawl
  | CrawlCall string "(string, goval) gomap" "(call_error, tool_result) result \<Rightarrow> crawl"

record crawler =
  cw_required :: "string list"
  cw_crawl :: "target \<Rightarrow> crawl"

section \<open>State\<close>

datatype index_error =
    IxDomain domain_error | IxUnsupported | IxRunning | IxNoEmbedder | IxNoSearch | IxKey | IxNeedsTool string
  | IxModelChanged string string | IxCrawl string | IxEmbedQuery embed_error
  | IxEmbed string embed_error | IxStoring string domain_error | IxClearing string domain_error

record index_status =
  st_running :: bool
  st_items :: nat
  st_chunks :: nat
  st_skipped :: nat
  st_pruned :: nat
  st_empty :: nat
  st_failed :: nat
  st_lastError :: "index_error option"
  st_started :: int
  st_finished :: int

definition fresh_status :: "bool \<Rightarrow> int \<Rightarrow> index_status" where
  "fresh_status run t =
     \<lparr>st_running = run, st_items = 0, st_chunks = 0, st_skipped = 0, st_pruned = 0, st_empty = 0, st_failed = 0,
      st_lastError = None, st_started = t, st_finished = zero_time\<rparr>"

datatype reindex_mode = ReindexUpdate | ReindexRebuild

record 'sc indexer =
  xs_platform :: "'sc platform"
  xs_status :: "(string, index_status) gomap"
  xs_jobs :: "(string \<times> reindex_mode) list"
  xs_tick :: nat

text \<open>\<open>ie_tie\<close> and \<open>ie_visit\<close> stand for the orders Go leaves open: equal scores under
  \<open>sort.Slice\<close>, and the iteration over a map.\<close>

record 'sc index_env =
  ie_penv :: "nat \<Rightarrow> 'sc penv"
  ie_engine :: "nat \<Rightarrow> 'sc environment"
  ie_source :: "string \<Rightarrow> crawler option"
  ie_client :: client
  ie_net :: "nat \<Rightarrow> http_request \<Rightarrow> network"
  ie_match :: "string \<Rightarrow> fts_row list \<Rightarrow> fts_row list option"
  ie_tie :: "int \<Rightarrow> int"
  ie_visit :: "index_document \<Rightarrow> int"

type_synonym ('sc, 'a) xop = "'sc indexer \<Rightarrow> (index_error, 'a) result \<times> 'sc indexer"

definition penv_at :: "'sc index_env \<Rightarrow> 'sc indexer \<Rightarrow> 'sc penv" where "penv_at env s = ie_penv env (xs_tick s)"

definition now_at :: "'sc index_env \<Rightarrow> 'sc indexer \<Rightarrow> int" where "now_at env s = sv_now (pv_svc (penv_at env s))"

definition x_return :: "'a \<Rightarrow> ('sc, 'a) xop" where "x_return a s = (Inr a, s)"

definition x_fail :: "index_error \<Rightarrow> ('sc, 'a) xop" where "x_fail e s = (Inl e, s)"

definition x_bind :: "('sc, 'a) xop \<Rightarrow> ('a \<Rightarrow> ('sc, 'b) xop) \<Rightarrow> ('sc, 'b) xop" where
  "x_bind m k s = (case m s of (Inl e, s1) \<Rightarrow> (Inl e, s1) | (Inr a, s1) \<Rightarrow> k a s1)"

text \<open>An error handled where it arises.\<close>

definition x_catch :: "('sc, 'a) xop \<Rightarrow> (index_error \<Rightarrow> ('sc, 'a) xop) \<Rightarrow> ('sc, 'a) xop" where
  "x_catch m h s = (case m s of (Inl e, s1) \<Rightarrow> h e s1 | (Inr a, s1) \<Rightarrow> (Inr a, s1))"

definition x_op :: "('sc, 'a) op \<Rightarrow> ('sc, 'a) xop" where
  "x_op m s = (case m (xs_platform s) of (Inl e, p) \<Rightarrow> (Inl (IxDomain e), s\<lparr>xs_platform := p\<rparr>) | (Inr a, p) \<Rightarrow> (Inr a, s\<lparr>xs_platform := p\<rparr>))"

definition x_sql :: "'a sql \<Rightarrow> ('sc, 'a) xop" where "x_sql m = x_op (run_sql m)"

definition x_audit :: "'sc index_env \<Rightarrow> actor \<Rightarrow> string \<Rightarrow> string \<Rightarrow> string \<Rightarrow> (string, goval) gomap \<Rightarrow> ('sc, unit) xop" where
  "x_audit env a action ttype tid detail s =
     (let (r, s1) = x_op (op_audit (penv_at env s) a action ttype tid detail) s in (r, s1\<lparr>xs_tick := Suc (xs_tick s1)\<rparr>))"

section \<open>Status\<close>

definition change_status :: "string \<Rightarrow> (index_status \<Rightarrow> index_status) \<Rightarrow> 'sc indexer \<Rightarrow> 'sc indexer" where
  "change_status i f s =
     (case map_of (xs_status s) i of None \<Rightarrow> s | Some st \<Rightarrow> s\<lparr>xs_status := kv_put i (f st) (xs_status s)\<rparr>)"

definition add_item :: "string \<Rightarrow> 'sc indexer \<Rightarrow> 'sc indexer" where "add_item i = change_status i (st_items_update Suc)"
definition add_chunks :: "string \<Rightarrow> nat \<Rightarrow> 'sc indexer \<Rightarrow> 'sc indexer" where "add_chunks i n = change_status i (st_chunks_update (\<lambda>k. k + n))"
definition add_skipped :: "string \<Rightarrow> 'sc indexer \<Rightarrow> 'sc indexer" where "add_skipped i = change_status i (st_skipped_update Suc)"
definition add_pruned :: "string \<Rightarrow> 'sc indexer \<Rightarrow> 'sc indexer" where "add_pruned i = change_status i (st_pruned_update Suc)"
definition add_empty_text :: "string \<Rightarrow> 'sc indexer \<Rightarrow> 'sc indexer" where "add_empty_text i = change_status i (st_empty_update Suc)"

definition add_failed :: "string \<Rightarrow> index_error \<Rightarrow> 'sc indexer \<Rightarrow> 'sc indexer" where
  "add_failed i e = change_status i (\<lambda>st. st\<lparr>st_failed := Suc (st_failed st), st_lastError := Some e\<rparr>)"

definition fail_run :: "string \<Rightarrow> index_error \<Rightarrow> 'sc indexer \<Rightarrow> 'sc indexer" where
  "fail_run i e s =
     (let st = (case map_of (xs_status s) i of None \<Rightarrow> fresh_status False zero_time | Some st \<Rightarrow> st)
      in s\<lparr>xs_status := kv_put i (st\<lparr>st_lastError := Some e\<rparr>) (xs_status s)\<rparr>)"

definition finish_run :: "string \<Rightarrow> int \<Rightarrow> 'sc indexer \<Rightarrow> 'sc indexer" where
  "finish_run i t = change_status i (\<lambda>st. st\<lparr>st_running := False, st_finished := t\<rparr>)"

definition supported :: "'sc index_env \<Rightarrow> string \<Rightarrow> bool" where
  "supported env connectorID = (ie_source env connectorID \<noteq> None)"

definition index_ready :: "string \<Rightarrow> ('sc, bool) xop" where
  "index_ready i s = (case x_sql (count_chunks i) s of (Inl e, s1) \<Rightarrow> (Inr False, s1) | (Inr n, s1) \<Rightarrow> (Inr (0 < n), s1))"

definition status_of :: "string \<Rightarrow> ('sc, index_status \<times> nat) xop" where
  "status_of i = x_bind (x_sql (count_chunks i)) (\<lambda>n s.
     (Inr (case map_of (xs_status s) i of None \<Rightarrow> fresh_status False zero_time | Some st \<Rightarrow> st, n), s))"

section \<open>Settings\<close>

definition platform_secret_scope :: string where "platform_secret_scope = ''platform''"
definition embedder_api_key_name :: string where "embedder_api_key_name = ''embedderApiKey''"

definition embedder_settings_set :: "('sc, embedder_settings \<times> bool) xop" where
  "embedder_settings_set =
     x_bind (x_sql get_embedder_settings) (\<lambda>st.
     x_bind (x_sql get_embedder_key) (\<lambda>k.
     x_return (st, k \<noteq> None)))"

definition embedder_api_key :: "'sc index_env \<Rightarrow> ('sc, string) xop" where
  "embedder_api_key env = x_bind (x_sql get_embedder_key) (\<lambda>k s.
     case k of None \<Rightarrow> (Inr [], s)
     | Some ct \<Rightarrow>
         (case unseal (sv_crypto (pv_svc (penv_at env s))) (sv_keyring (pv_svc (penv_at env s)))
                 (secret_aad platform_secret_scope embedder_api_key_name) ct of
            None \<Rightarrow> (Inl IxKey, s) | Some p \<Rightarrow> (Inr p, s)))"

definition set_embedder_api_key :: "'sc index_env \<Rightarrow> actor \<Rightarrow> string \<Rightarrow> ('sc, unit) xop" where
  "set_embedder_api_key env a plaintext s =
     (let sv = pv_svc (penv_at env s) in
      if plaintext = [] \<or> 8192 < length plaintext then (Inl (IxDomain ErrInvalidInput), s)
      else case seal (sv_crypto sv) (sv_keyring sv) (sv_random sv 0) (secret_aad platform_secret_scope embedder_api_key_name) plaintext of
        None \<Rightarrow> (Inl (IxDomain ErrOther), s)
      | Some ct \<Rightarrow>
          x_bind (x_sql (set_embedder_key ct)) (\<lambda>u.
          x_audit env a ''platform.settings_update'' ''platform'' ''embedder'' [(''secret'', VStr ''set'')]) s)"

definition delete_embedder_api_key :: "'sc index_env \<Rightarrow> actor \<Rightarrow> ('sc, unit) xop" where
  "delete_embedder_api_key env a =
     x_bind (x_sql delete_embedder_key) (\<lambda>u.
     x_audit env a ''platform.settings_update'' ''platform'' ''embedder'' [(''secret'', VStr ''deleted'')])"

section \<open>Starting a run\<close>

definition reindex :: "'sc index_env \<Rightarrow> actor \<Rightarrow> string \<Rightarrow> reindex_mode \<Rightarrow> ('sc, unit) xop" where
  "reindex env a i mode =
     x_bind (x_op (resolve_by_id i)) (\<lambda>r s.
       if \<not> supported env (cr_id (rv_connectorRec r)) then (Inl (IxDomain ErrInvalidInput), s)
       else if (case map_of (xs_status s) i of Some st \<Rightarrow> st_running st | None \<Rightarrow> False) then (Inl IxRunning, s)
       else
         (case x_audit env a ''instance.index_reindex'' ''instance'' i
                 [(''action'', VStr ''started''), (''mode'', VStr (if mode = ReindexRebuild then ''rebuild'' else ''update''))]
                 (s\<lparr>xs_status := kv_put i (fresh_status True (now_at env s)) (xs_status s)\<rparr>) of
            (u, s1) \<Rightarrow> (Inr (), s1\<lparr>xs_jobs := xs_jobs s1 @ [(i, mode)]\<rparr>)))"

text \<open>Every supported, enabled instance without an index; failures are left to its status.\<close>

fun auto_index :: "'sc index_env \<Rightarrow> actor \<Rightarrow> summary list \<Rightarrow> 'sc indexer \<Rightarrow> 'sc indexer" where
  "auto_index env a [] s = s"
| "auto_index env a (x # xs) s =
     (if \<not> in_enabled (sm_instance x) \<or> \<not> supported env (sm_connectorID x) then auto_index env a xs s
      else let (ready, s1) = index_ready (in_id (sm_instance x)) s in
        if ready = Inr True then auto_index env a xs s1
        else auto_index env a xs (snd (reindex env a (in_id (sm_instance x)) ReindexUpdate s1)))"

definition auto_index_existing :: "'sc index_env \<Rightarrow> actor \<Rightarrow> 'sc indexer \<Rightarrow> 'sc indexer" where
  "auto_index_existing env a s =
     (case x_op list_instances s of (Inl e, s1) \<Rightarrow> s1 | (Inr xs, s1) \<Rightarrow> auto_index env a xs s1)"

definition update_embedder_settings :: "'sc index_env \<Rightarrow> actor \<Rightarrow> string \<Rightarrow> string \<Rightarrow> int \<Rightarrow> ('sc, unit) xop" where
  "update_embedder_settings env a url model rate0 =
     (let rate = (if rate0 < 0 then 0 else rate0) in
      x_bind (x_sql get_embedder_settings) (\<lambda>previous s.
        let st = \<lparr>es_url = trim_space url, es_model = trim_space model, es_rateLimitPerMin = rate, es_updatedAt = now_at env s\<rparr> in
        x_bind (x_sql (set_embedder_settings st)) (\<lambda>u.
        x_bind (x_audit env a ''platform.settings_update'' ''platform'' ''embedder''
                  [(''url_set'', VBool (es_url st \<noteq> [])), (''rate_limit_per_min'', VInt rate)]) (\<lambda>u s1.
          (Inr (), if es_url previous = [] \<and> es_url st \<noteq> [] then auto_index_existing env a s1 else s1))) s))"

section \<open>One document\<close>

definition reindex_max_chunks_per_file :: nat where "reindex_max_chunks_per_file = 200"
definition reindex_embed_batch :: nat where "reindex_embed_batch = 16"

definition chunk_for :: "document \<Rightarrow> string \<Rightarrow> span list" where
  "chunk_for doc text = (if dc_headingDialect doc \<noteq> [] then chunk_heading text (dc_headingDialect doc) else chunk text)"

definition hash_text :: "'sc index_env \<Rightarrow> string \<Rightarrow> string" where
  "hash_text env t = hex_encode (pv_sha256 (ie_penv env 0) t)"

text \<open>The embedder shares the engine's HTTP client and limiter; its egress policy allows private
  addresses.\<close>

definition embed_call :: "'sc index_env \<Rightarrow> embedder_settings \<Rightarrow> string \<Rightarrow> string list \<Rightarrow> 'sc indexer
    \<Rightarrow> (embed_error, rat list list) result \<times> 'sc indexer" where
  "embed_call env st key texts s =
     (let p = xs_platform s; ex = pf_executor p;
          (r, l) = embed (ie_client env) (now_at env s) (ie_net env (xs_tick s)) (es_url st) (es_model st) key (es_rateLimitPerMin st)
                     \<lparr>allow_private_networks = True\<rparr> texts (ex_limiter ex)
      in (r, s\<lparr>xs_platform := p\<lparr>pf_executor := ex\<lparr>ex_limiter := l\<rparr>\<rparr>, xs_tick := Suc (xs_tick s)\<rparr>))"

definition chunk_row :: "string \<Rightarrow> document \<Rightarrow> span \<Rightarrow> rat list \<Rightarrow> index_chunk" where
  "chunk_row i doc sp v =
     \<lparr>ic_id = 0, ic_instanceID = i, ic_itemKey = dc_itemKey doc, ic_attachmentKey = dc_attachmentKey doc,
      ic_chunkIndex = int (sn_index sp), ic_charStart = int (sn_start sp), ic_charEnd = int (sn_end sp), ic_text = sn_text sp, ic_embedding = v\<rparr>"

function embed_spans :: "'sc index_env \<Rightarrow> embedder_settings \<Rightarrow> string \<Rightarrow> string \<Rightarrow> document \<Rightarrow> span list \<Rightarrow> ('sc, index_chunk list) xop" where
  "embed_spans env st key i doc spans s =
     (if spans = [] then (Inr [], s)
      else let b = take reindex_embed_batch spans in
        case embed_call env st key (map sn_text b) s of
          (Inl e, s1) \<Rightarrow> (Inl (IxEmbed (dc_attachmentKey doc) e), s1)
        | (Inr vs, s1) \<Rightarrow>
            (case embed_spans env st key i doc (drop reindex_embed_batch spans) s1 of
               (Inl e, s2) \<Rightarrow> (Inl e, s2)
             | (Inr rest, s2) \<Rightarrow> (Inr (map (\<lambda>(sp, v). chunk_row i doc sp v) (zip b vs) @ rest), s2)))"
  by pat_completeness auto
termination
  by (relation "measure (\<lambda>(env, st, key, i, doc, spans, s). length spans)") (auto simp: reindex_embed_batch_def)

declare embed_spans.simps [simp del]

text \<open>How many chunks, and their dimension.\<close>

definition index_document_text :: "'sc index_env \<Rightarrow> string \<Rightarrow> embedder_settings \<Rightarrow> string \<Rightarrow> document \<Rightarrow> string \<Rightarrow> ('sc, nat \<times> nat) xop" where
  "index_document_text env i st key doc text =
     x_bind (embed_spans env st key i doc (take reindex_max_chunks_per_file (chunk_for doc text))) (\<lambda>chunks.
       if chunks = [] then x_return (0, 0)
       else x_bind (x_catch (x_sql (insert_chunks i chunks))
                      (\<lambda>e. x_fail (case e of IxDomain d \<Rightarrow> IxStoring (dc_attachmentKey doc) d | _ \<Rightarrow> e))) (\<lambda>u s.
            (Inr (length chunks, length (ic_embedding (hd chunks))), add_chunks i (length chunks) s)))"

section \<open>The run\<close>

type_synonym doc_key = "string \<times> string"

text \<open>What the callback keeps between documents.\<close>

record 'sc index_run =
  rn_indexer :: "'sc indexer"
  rn_seen :: "doc_key list"
  rn_dimension :: nat

definition on_indexer :: "('sc indexer \<Rightarrow> 'sc indexer) \<Rightarrow> 'sc index_run \<Rightarrow> 'sc index_run" where
  "on_indexer f w = w\<lparr>rn_indexer := f (rn_indexer w)\<rparr>"

text \<open>Chunk, embed and store a document whose text is new.\<close>

definition store_document :: "'sc index_env \<Rightarrow> string \<Rightarrow> embedder_settings \<Rightarrow> string \<Rightarrow> document \<Rightarrow> string \<Rightarrow> 'sc index_run \<Rightarrow> 'sc index_run" where
  "store_document env i st key doc text w =
     (case index_document_text env i st key doc text (rn_indexer w) of
        (Inl e, s1) \<Rightarrow> w\<lparr>rn_indexer := add_failed i e s1\<rparr>
      | (Inr (n, dm), s1) \<Rightarrow>
          if n = 0 then w\<lparr>rn_indexer := s1\<rparr>
          else w\<lparr>rn_dimension := dm, rn_indexer := snd (x_sql (upsert_document
                 \<lparr>id_instanceID = i, id_itemKey = dc_itemKey doc, id_attachmentKey = dc_attachmentKey doc,
                  id_contentHash = hash_text env text, id_chunkCount = int n, id_updatedAt = now_at env s1\<rparr>) s1)\<rparr>)"

definition on_document :: "'sc index_env \<Rightarrow> string \<Rightarrow> embedder_settings \<Rightarrow> string \<Rightarrow> (doc_key, index_document) gomap
    \<Rightarrow> document \<Rightarrow> string \<Rightarrow> 'sc index_run \<Rightarrow> 'sc index_run" where
  "on_document env i st key existing doc text w0 =
     (let k = (dc_itemKey doc, dc_attachmentKey doc); w = on_indexer (add_item i) (w0\<lparr>rn_seen := k # rn_seen w0\<rparr>) in
      if trim_space text = [] then on_indexer (add_empty_text i) w
      else case map_of existing k of
        None \<Rightarrow> store_document env i st key doc text w
      | Some prior \<Rightarrow>
          if id_contentHash prior = hash_text env text then on_indexer (add_skipped i) w
          else (case x_sql (delete_document_chunks i (fst k) (snd k)) (rn_indexer w) of
                  (Inl e, s1) \<Rightarrow> w\<lparr>rn_indexer := add_failed i (case e of IxDomain d \<Rightarrow> IxClearing (snd k) d | _ \<Rightarrow> e) s1\<rparr>
                | (Inr u, s1) \<Rightarrow> store_document env i st key doc text (w\<lparr>rn_indexer := s1\<rparr>)))"

text \<open>\<open>Runtime.Call\<close>: a tool that is declared and enabled, executed by the engine.\<close>

definition runtime_call :: "'sc index_env \<Rightarrow> target \<Rightarrow> 'sc resolved \<Rightarrow> string \<Rightarrow> (string, goval) gomap \<Rightarrow> 'sc indexer
    \<Rightarrow> (call_error, tool_result) result \<times> 'sc indexer" where
  "runtime_call env tg r name args s =
     (case compiled_tool_named (rv_connector r) name of
        None \<Rightarrow> (Inl (CallNotEnabled name), s)
      | Some tt \<Rightarrow>
          if name \<notin> rv_enabledTools r then (Inl (CallNotEnabled name), s)
          else let p = xs_platform s;
                   (res, ex) = execute (ie_engine env (xs_tick s)) (Some tg) (Some (rv_connector r)) (Some tt) (Some args) (pf_executor p)
               in (case res of Inl e \<Rightarrow> Inl (CallFailed e) | Inr x \<Rightarrow> Inr x,
                   s\<lparr>xs_platform := p\<lparr>pf_executor := ex\<rparr>, xs_tick := Suc (xs_tick s)\<rparr>))"

primrec run_crawl :: "(string \<Rightarrow> (string, goval) gomap \<Rightarrow> 'sc indexer \<Rightarrow> (call_error, tool_result) result \<times> 'sc indexer)
    \<Rightarrow> (document \<Rightarrow> string \<Rightarrow> 'sc index_run \<Rightarrow> 'sc index_run) \<Rightarrow> crawl \<Rightarrow> 'sc index_run
    \<Rightarrow> (string, bool) result \<times> 'sc index_run" where
  "run_crawl call emit (CrawlDone r) = (\<lambda>w. (r, w))"
| "run_crawl call emit (CrawlEmit doc text k) = (\<lambda>w. run_crawl call emit k (emit doc text w))"
| "run_crawl call emit (CrawlCall name args k) = (\<lambda>w.
     (let (res, s1) = call name args (rn_indexer w) in run_crawl call emit (k res) (w\<lparr>rn_indexer := s1\<rparr>)))"

text \<open>Documents that were indexed before and that this crawl did not see.\<close>

definition prune_document :: "string \<Rightarrow> index_document \<Rightarrow> 'sc indexer \<Rightarrow> 'sc indexer" where
  "prune_document i d s =
     (case x_sql (delete_document_chunks i (id_itemKey d) (id_attachmentKey d)) s of
        (Inl e, s1) \<Rightarrow> s1
      | (Inr u, s1) \<Rightarrow>
          (case x_sql (delete_document i (id_itemKey d) (id_attachmentKey d)) s1 of
             (Inl e, s2) \<Rightarrow> s2 | (Inr u, s2) \<Rightarrow> add_pruned i s2))"

definition existing_documents :: "index_document list \<Rightarrow> (doc_key, index_document) gomap" where
  "existing_documents ds = List.fold (\<lambda>d. kv_put (id_itemKey d, id_attachmentKey d) d) ds []"

definition unseen :: "'sc index_env \<Rightarrow> (doc_key, index_document) gomap \<Rightarrow> doc_key list \<Rightarrow> index_document list" where
  "unseen env existing seen = sort_key (ie_visit env) (map snd (filter (\<lambda>(k, d). k \<notin> set seen) existing))"

text \<open>A rebuild clears the index; an update reads what is there, and refuses another model.\<close>

definition open_index :: "string \<Rightarrow> reindex_mode \<Rightarrow> string \<Rightarrow> ('sc, (doc_key, index_document) gomap) xop" where
  "open_index i mode model =
     (if mode = ReindexRebuild then x_bind (x_sql (clear_instance i)) (\<lambda>u. x_return [])
      else
        x_bind (x_sql (get_meta i)) (\<lambda>m.
        x_bind (case m of Some x \<Rightarrow> if ix_embedderModel x \<noteq> model then x_fail (IxModelChanged (ix_embedderModel x) model) else x_return ()
                | None \<Rightarrow> x_return ()) (\<lambda>u.
        x_bind (x_sql (list_documents i)) (\<lambda>ds. x_return (existing_documents ds)))))"

definition missing_tool :: "'sc resolved \<Rightarrow> crawler \<Rightarrow> string option" where
  "missing_tool r cw = find (\<lambda>t. compiled_tool_named (rv_connector r) t = None \<or> t \<notin> rv_enabledTools r) (cw_required cw)"

definition effective_model :: "embedder_settings \<Rightarrow> string" where
  "effective_model st = (if es_model st = [] then default_embedder else es_model st)"

text \<open>The crawl and what follows it.\<close>

definition crawl_index :: "'sc index_env \<Rightarrow> string \<Rightarrow> reindex_mode \<Rightarrow> embedder_settings \<Rightarrow> string \<Rightarrow> target \<Rightarrow> 'sc resolved \<Rightarrow> crawl
    \<Rightarrow> (doc_key, index_document) gomap \<Rightarrow> ('sc, unit) xop" where
  "crawl_index env i mode st key tg r cr existing s =
     (case run_crawl (runtime_call env tg r) (on_document env i st key existing) cr \<lparr>rn_indexer = s, rn_seen = [], rn_dimension = 0\<rparr> of
        (Inl e, w) \<Rightarrow> (Inl (IxCrawl e), rn_indexer w)
      | (Inr truncated, w) \<Rightarrow>
          (let s1 = (if mode = ReindexUpdate \<and> \<not> truncated
                     then List.fold (prune_document i) (unseen env existing (rn_seen w)) (rn_indexer w) else rn_indexer w)
           in (Inr (), if 0 < rn_dimension w
                       then snd (x_sql (set_meta \<lparr>ix_instanceID = i, ix_embedderModel = effective_model st,
                              ix_embedderDimension = int (rn_dimension w), ix_updatedAt = now_at env s1\<rparr>) s1)
                       else s1)))"

definition reindex_body :: "'sc index_env \<Rightarrow> string \<Rightarrow> reindex_mode \<Rightarrow> ('sc, unit) xop" where
  "reindex_body env i mode s0 =
     x_bind (x_op (resolve_by_id i)) (\<lambda>r.
     x_bind (case target_of (penv_at env s0) r of Inl e \<Rightarrow> x_fail (IxDomain e) | Inr tg \<Rightarrow> x_return tg) (\<lambda>tg.
     x_bind (x_sql get_embedder_settings) (\<lambda>st.
     x_bind (if es_url st = [] then x_fail IxNoEmbedder else x_return ()) (\<lambda>u.
     x_bind (embedder_api_key env) (\<lambda>key.
     x_bind (case ie_source env (cr_id (rv_connectorRec r)) of None \<Rightarrow> x_fail IxUnsupported | Some cw \<Rightarrow> x_return cw) (\<lambda>cw.
     x_bind (case missing_tool r cw of Some t \<Rightarrow> x_fail (IxNeedsTool t) | None \<Rightarrow> x_return ()) (\<lambda>u.
     x_bind (open_index i mode (effective_model st)) (\<lambda>existing.
     crawl_index env i mode st key tg r (cw_crawl cw tg) existing)))))))) s0"

definition run_reindex :: "'sc index_env \<Rightarrow> string \<Rightarrow> reindex_mode \<Rightarrow> 'sc indexer \<Rightarrow> 'sc indexer" where
  "run_reindex env i mode s =
     (case reindex_body env i mode s of
        (Inl e, s1) \<Rightarrow> finish_run i (now_at env s1) (fail_run i e s1)
      | (Inr u, s1) \<Rightarrow> finish_run i (now_at env s1) s1)"

section \<open>Search\<close>

record search_hit =
  sh_itemKey :: string
  sh_attachmentKey :: string
  sh_chunkIndex :: int
  sh_score :: rat
  sh_text :: string

definition default_search_limit :: int where "default_search_limit = 6"
definition max_search_limit :: int where "max_search_limit = 20"
definition search_candidate_pool :: nat where "search_candidate_pool = 40"
definition max_chunk_preview_runes :: nat where "max_chunk_preview_runes = 700"
definition min_relevance_score :: rat where "min_relevance_score = rnd32 (3 / 10)"

definition truncate_runes :: "string \<Rightarrow> nat \<Rightarrow> string" where
  "truncate_runes s n = (let r = runes s in if length r \<le> n then s else encode_runes (take n r) @ encode_rune 8230)"

definition sanitize_fts_query :: "string \<Rightarrow> string" where
  "sanitize_fts_query q =
     join_str '' OR '' (map (\<lambda>f. CHR 0x22 # concat (map (\<lambda>c. if c = CHR 0x22 then [c, c] else [c]) f) @ [CHR 0x22]) (Utf8.fields q))"

text \<open>The vector half: the best candidates that clear the floor.\<close>

definition vector_ranking :: "(int \<Rightarrow> int) \<Rightarrow> rat list \<Rightarrow> index_chunk list \<Rightarrow> int list" where
  "vector_ranking tie q cs =
     (let scored = filter (\<lambda>(n, sc). \<not> sc < min_relevance_score) (map (\<lambda>c. (ic_id c, cosine q (ic_embedding c))) cs)
      in take search_candidate_pool (map fst (sort_key (\<lambda>(n, sc). (- sc, tie n)) scored)))"

definition search_hits :: "rat list \<Rightarrow> index_chunk list \<Rightarrow> int list \<Rightarrow> search_hit list" where
  "search_hits q cs ids =
     concat (map (\<lambda>n. case find (\<lambda>c. ic_id c = n) (rev cs) of
        None \<Rightarrow> []
      | Some c \<Rightarrow> [\<lparr>sh_itemKey = ic_itemKey c, sh_attachmentKey = ic_attachmentKey c, sh_chunkIndex = ic_chunkIndex c,
                    sh_score = cosine q (ic_embedding c), sh_text = truncate_runes (ic_text c) max_chunk_preview_runes\<rparr>]) ids)"

definition rank_chunks :: "'sc index_env \<Rightarrow> string \<Rightarrow> string \<Rightarrow> nat \<Rightarrow> rat list \<Rightarrow> index_chunk list \<Rightarrow> ('sc, search_hit list) xop" where
  "rank_chunks env i query n q cs s =
     (if cs = [] then (Inr [], s)
      else
        let (res, s1) = x_sql (bm25_search (ie_match env) i (sanitize_fts_query query) search_candidate_pool) s;
            keyword = (case res of Inl e \<Rightarrow> [] | Inr ids \<Rightarrow> ids)
        in (Inr (search_hits q cs (take n (fuse_rrf [vector_ranking (ie_tie env) q cs, keyword]))), s1))"

definition search :: "'sc index_env \<Rightarrow> string \<Rightarrow> string \<Rightarrow> int \<Rightarrow> ('sc, search_hit list) xop" where
  "search env i query0 limit0 =
     (let query = trim_space query0;
          limit = (if limit0 \<le> 0 \<or> max_search_limit < limit0 then default_search_limit else limit0) in
      if query = [] then x_fail (IxDomain ErrInvalidInput)
      else
        x_bind (x_op (resolve_by_id i)) (\<lambda>r.
        x_bind (x_sql get_embedder_settings) (\<lambda>st.
        x_bind (if es_url st = [] then x_fail IxNoSearch else x_return ()) (\<lambda>u.
        x_bind (embedder_api_key env) (\<lambda>key.
        x_bind (\<lambda>s. case embed_call env st key [query] s of (Inl e, s1) \<Rightarrow> (Inl (IxEmbedQuery e), s1) | (Inr vs, s1) \<Rightarrow> (Inr (hd vs), s1)) (\<lambda>q.
        x_bind (x_sql (load_all_chunks i)) (\<lambda>cs.
        rank_chunks env i query (nat limit) q cs)))))))"

end
