(* ===== verification/IndexLaws.thy ===== *)
theory IndexLaws
  imports Indexer
begin

text \<open>
  What the indexer's operations do to the rest of the system: a run changes the index of its
  own instance only, a search shows nothing of another instance, and an instance never has
  two runs.
\<close>

section \<open>Relations an operation keeps\<close>

text \<open>The state before and after an operation, whatever its result.\<close>

definition x_steps :: "('sc indexer \<Rightarrow> 'sc indexer \<Rightarrow> bool) \<Rightarrow> ('sc, 'a) xop \<Rightarrow> bool" where
  "x_steps R m = (\<forall>s. R s (snd (m s)))"

lemma x_stepsD: "x_steps R m \<Longrightarrow> R s (snd (m s))"
  by (simp add: x_steps_def)

lemma x_stepsI: "(\<And>s. R s (snd (m s))) \<Longrightarrow> x_steps R m"
  by (simp add: x_steps_def)

abbreviation the_db :: "'sc indexer \<Rightarrow> db" where "the_db s \<equiv> pf_db (xs_platform s)"

definition with_db :: "db \<Rightarrow> 'sc indexer \<Rightarrow> 'sc indexer" where
  "with_db d s = s\<lparr>xs_platform := xs_platform s\<lparr>pf_db := d\<rparr>\<rparr>"

lemma with_db_simps [simp]:
  "the_db (with_db d s) = d" "with_db d (with_db e s) = with_db d s" "with_db (the_db s) s = s"
  "xs_jobs (with_db d s) = xs_jobs s" "xs_status (with_db d s) = xs_status s" "xs_tick (with_db d s) = xs_tick s"
  by (simp_all add: with_db_def)

lemma x_sql_state: "snd (x_sql m s) = with_db (snd (m (the_db s))) s"
  by (auto simp: x_sql_def x_op_def run_sql_def with_db_def split: prod.splits sum.splits)

lemma change_status_frame [simp]:
  "xs_platform (change_status i f s) = xs_platform s" "xs_jobs (change_status i f s) = xs_jobs s"
  "xs_tick (change_status i f s) = xs_tick s"
  by (simp_all add: change_status_def split: option.splits)

lemmas status_defs = add_item_def add_chunks_def add_skipped_def add_pruned_def add_empty_text_def add_failed_def

lemma fail_run_frame [simp]:
  "xs_platform (fail_run i e s) = xs_platform s" "xs_jobs (fail_run i e s) = xs_jobs s" "xs_tick (fail_run i e s) = xs_tick s"
  by (simp_all add: fail_run_def Let_def)

text \<open>A preorder on states that the bookkeeping of a run respects.\<close>

locale run_preorder =
  fixes R :: "'sc indexer \<Rightarrow> 'sc indexer \<Rightarrow> bool"
  assumes refl: "R s s" and trans: "R s t \<Longrightarrow> R t u \<Longrightarrow> R s u"
    and quiet: "pf_db p = the_db s \<Longrightarrow> R s (s\<lparr>xs_platform := p, xs_tick := n\<rparr>)"
    and faults: "R s (with_db (the_db s\<lparr>db_faults := bs\<rparr>) s)"
    and audit: "R s (with_db (the_db s\<lparr>db_audit := rows\<rparr>) s)"
    and status: "(\<And>st. st_running (f st) = st_running st) \<Longrightarrow> R s (change_status j f s)"
    and failing: "R s (fail_run j e s)"
begin

lemma tick: "R s (s\<lparr>xs_tick := n\<rparr>)"
  using quiet[of "xs_platform s" s n] by simp

lemma counts:
  "R s (add_item j s)" "R s (add_chunks j k s)" "R s (add_skipped j s)" "R s (add_pruned j s)" "R s (add_empty_text j s)"
  "R s (add_failed j e s)"
  by (simp_all add: status_defs status)

lemma return: "x_steps R (x_return a)"
  by (simp add: x_steps_def x_return_def refl)

lemma fail: "x_steps R (x_fail e)"
  by (simp add: x_steps_def x_fail_def refl)

lemma bind:
  assumes "x_steps R m" "\<And>a. x_steps R (k a)" shows "x_steps R (x_bind m k)"
proof (rule x_stepsI)
  fix s
  obtain r s1 where m: "m s = (r, s1)" by (metis surj_pair)
  hence 1: "R s s1" using x_stepsD[OF assms(1), of s] by simp
  show "R s (snd (x_bind m k s))"
    by (cases r) (use m 1 trans[OF 1 x_stepsD[OF assms(2)]] in \<open>auto simp: x_bind_def\<close>)
qed

lemma catch:
  assumes "x_steps R m" "\<And>e. x_steps R (h e)" shows "x_steps R (x_catch m h)"
proof (rule x_stepsI)
  fix s
  obtain r s1 where m: "m s = (r, s1)" by (metis surj_pair)
  hence 1: "R s s1" using x_stepsD[OF assms(1), of s] by simp
  show "R s (snd (x_catch m h s))"
    by (cases r) (use m 1 trans[OF 1 x_stepsD[OF assms(2)]] in \<open>auto simp: x_catch_def\<close>)
qed

lemma stmt_step:
  assumes "\<And>s. R s (with_db (snd (f (the_db s))) s)" shows "R s (with_db (snd (stmt f (the_db s))) s)"
proof (cases "db_faults (the_db s)")
  case Nil thus ?thesis using assms by (simp add: stmt_def)
next
  case (Cons b bs)
  have "R s (with_db (snd (f (the_db s\<lparr>db_faults := bs\<rparr>))) s)"
    using trans[OF faults[of s bs] assms[of "with_db (the_db s\<lparr>db_faults := bs\<rparr>) s"]] by simp
  thus ?thesis using Cons faults[of s bs] by (simp add: stmt_def)
qed

lemma sql: "(\<And>s. R s (with_db (snd (m (the_db s))) s)) \<Longrightarrow> x_steps R (x_sql m)"
  by (simp add: x_steps_def x_sql_state)

lemma stmt_sql: "(\<And>s. R s (with_db (snd (f (the_db s))) s)) \<Longrightarrow> x_steps R (x_sql (stmt f))"
  by (rule sql) (rule stmt_step)

lemma selection: "x_steps R (x_sql (select f))" "x_steps R (x_sql (select_row g))"
  unfolding select_def select_row_def by (rule stmt_sql; simp add: refl)+

lemma audit_row: "R s (with_db (audit_record sv a action ttype tid res detail (the_db s)) s)"
  unfolding audit_record_def audit_append_def
  by (cases "json_marshal (VObj detail)") (auto simp: sql_fail_def refl intro!: stmt_step audit)

lemma x_audit: "x_steps R (x_audit env a action ttype tid detail)"
proof (rule x_stepsI)
  fix s
  show "R s (snd (x_audit env a action ttype tid detail s))"
    using trans[OF audit_row tick] by (simp add: x_audit_def x_op_def op_audit_def audit_success_def with_db_def Let_def)
qed

end

text \<open>An operation of the platform, step by step.\<close>

lemma x_op_bind: "x_op (op_bind m k) = x_bind (x_op m) (\<lambda>a. x_op (k a))"
  by (rule ext) (auto simp: x_op_def op_bind_def x_bind_def split: prod.splits sum.splits)

lemma x_op_return: "x_op (op_return a) = x_return a"
  by (rule ext) (simp add: x_op_def op_return_def x_return_def)

lemma x_op_sql: "x_op (run_sql m) = x_sql m"
  by (simp add: x_sql_def)

context run_preorder begin

lemma entry: "x_steps R (x_op (connector_entry i))"
  by (auto simp: x_steps_def x_op_def connector_entry_def refl split: option.splits)

lemma resolve: "x_steps R (x_op (resolve_by_id i))"
  unfolding resolve_by_id_def resolve_instance_def x_op_bind x_op_return x_op_sql instance_get_def tool_binding_list_def load_secrets_def
  by (intro bind entry selection return)

lemma key: "x_steps R (embedder_api_key env)"
  unfolding embedder_api_key_def get_embedder_key_def
  by (intro bind selection) (auto simp: x_steps_def refl split: option.splits)

lemma embedding: "R s (snd (embed_call env st key texts s))"
  by (auto simp: embed_call_def Let_def split: prod.splits intro!: quiet)

lemma embedding_spans: "x_steps R (embed_spans env st key i doc spans)"
proof -
  have "R s (snd (embed_spans env st key i doc spans s))" for s
  proof (induction env st key i doc spans s rule: embed_spans.induct)
    case (1 env st key i doc spans s)
    let ?b = "take reindex_embed_batch spans"
    obtain r s1 where e: "embed_call env st key (map sn_text ?b) s = (r, s1)" by (metis surj_pair)
    hence R: "R s s1" using embedding[of s env st key "map sn_text ?b"] by simp
    show ?case
    proof (cases "spans = []")
      case True thus ?thesis by (simp add: embed_spans.simps refl)
    next
      case False
      show ?thesis
      proof (cases r)
        case (Inl x) thus ?thesis using False e R by (subst embed_spans.simps) (simp add: Let_def)
      next
        case (Inr vs)
        have "R s1 (snd (embed_spans env st key i doc (drop reindex_embed_batch spans) s1))"
          by (rule 1[OF False HOL.refl]) (use e Inr in simp_all)
        hence "R s (snd (embed_spans env st key i doc (drop reindex_embed_batch spans) s1))"
          using R trans by blast
        thus ?thesis using False e Inr by (subst embed_spans.simps) (auto simp: Let_def split: sum.splits prod.splits)
      qed
    qed
  qed
  thus ?thesis by (simp add: x_steps_def)
qed

lemma call: "R s (snd (runtime_call env tg r name args s))"
  by (auto simp: runtime_call_def Let_def refl split: option.splits prod.splits intro!: quiet)

end

text \<open>What a run writes to the database.\<close>

locale index_writer = run_preorder R for R :: "'sc indexer \<Rightarrow> 'sc indexer \<Rightarrow> bool" +
  fixes i :: string
  assumes clear: "x_steps R (x_sql (clear_instance i))"
    and insert_rows: "x_steps R (x_sql (insert_chunks i cs))"
    and delete_rows: "x_steps R (x_sql (delete_document_chunks i item att))"
    and upsert: "id_instanceID x = i \<Longrightarrow> x_steps R (x_sql (upsert_document x))"
    and delete_doc: "x_steps R (x_sql (delete_document i item att))"
    and meta: "ix_instanceID y = i \<Longrightarrow> x_steps R (x_sql (set_meta y))"
begin

lemma counted: "x_steps R (\<lambda>s. (x, add_chunks i n s))"
  by (simp add: x_steps_def counts)

lemma document_text: "x_steps R (index_document_text env i st key doc text)"
proof -
  have "x_steps R (if chunks = [] then x_return (0, 0)
       else x_bind (x_catch (x_sql (insert_chunks i chunks)) (\<lambda>e. x_fail (f e)))
         (\<lambda>u s. (Inr (length chunks, length (ic_embedding (hd chunks))), add_chunks i (length chunks) s)))" for chunks f
  proof (cases "chunks = []")
    case False
    show ?thesis unfolding if_not_P[OF False] by (intro bind catch fail insert_rows counted)
  qed (simp add: return)
  thus ?thesis unfolding index_document_text_def by (intro bind embedding_spans)
qed

lemma rel_x: "x_steps R m \<Longrightarrow> m s = (r, s1) \<Longrightarrow> R s s1"
  by (metis x_steps_def snd_conv)

lemma stored: "R (rn_indexer w) (rn_indexer (store_document env i st key doc text w))"
proof -
  obtain r s1 where t: "index_document_text env i st key doc text (rn_indexer w) = (r, s1)" by (metis surj_pair)
  note 1 = rel_x[OF document_text t]
  have "R s1 (snd (x_sql (upsert_document x) s1))" if "id_instanceID x = i" for x
    by (rule x_stepsD[OF upsert[OF that]])
  thus ?thesis using t by (auto simp: store_document_def split: sum.splits prod.splits intro: 1 trans[OF 1] counts)
qed

lemma emitted: "R (rn_indexer w) (rn_indexer (on_document env i st key existing doc text w))"
proof -
  define w1 where "w1 = on_indexer (add_item i) (w\<lparr>rn_seen := (dc_itemKey doc, dc_attachmentKey doc) # rn_seen w\<rparr>)"
  have w1: "R (rn_indexer w) (rn_indexer w1)" by (simp add: w1_def on_indexer_def counts)
  obtain r s1 where t: "x_sql (delete_document_chunks i (dc_itemKey doc) (dc_attachmentKey doc)) (rn_indexer w1) = (r, s1)" by (metis surj_pair)
  note d = trans[OF w1 rel_x[OF delete_rows t]]
  show ?thesis unfolding on_document_def Let_def w1_def[symmetric] using t trans[OF w1 stored[of w1]] trans[OF d stored[of "w1\<lparr>rn_indexer := s1\<rparr>", simplified]]
    by (auto simp: on_indexer_def intro: trans[OF w1] trans[OF d] counts split: option.splits sum.splits)
qed

lemma crawled: "run_crawl (runtime_call env tg r) (on_document env i st key existing) cr w = (e, w')
    \<Longrightarrow> R (rn_indexer w) (rn_indexer w')"
proof (induction cr arbitrary: w)
  case (CrawlDone x) thus ?case by (simp add: refl)
next
  case (CrawlEmit doc t k)
  thus ?case using emitted trans by fastforce
next
  case (CrawlCall name args k)
  obtain res s1 where c: "runtime_call env tg r name args (rn_indexer w) = (res, s1)" by (metis surj_pair)
  have "R (rn_indexer w) s1" using call[of "rn_indexer w" env tg r name args] c by simp
  moreover have "R s1 (rn_indexer w')"
    using CrawlCall.IH[of "k res" "w\<lparr>rn_indexer := s1\<rparr>"] CrawlCall.prems c by simp
  ultimately show ?case using trans by blast
qed

lemma pruned: "R s (List.fold (prune_document i) ds s)"
proof (induction ds arbitrary: s)
  case (Cons d ds)
  obtain r s1 where t: "x_sql (delete_document_chunks i (id_itemKey d) (id_attachmentKey d)) s = (r, s1)" by (metis surj_pair)
  obtain r' s2 where t': "x_sql (delete_document i (id_itemKey d) (id_attachmentKey d)) s1 = (r', s2)" by (metis surj_pair)
  have "R s (prune_document i d s)"
    using t t' by (auto simp: prune_document_def split: sum.splits
      intro: rel_x[OF delete_rows t] trans[OF rel_x[OF delete_rows t] rel_x[OF delete_doc t']] trans[OF _ counts(4)])
  with Cons[of "prune_document i d s"] show ?case by (simp add: trans)
qed (simp add: refl)

lemma crawl_step: "x_steps R (crawl_index env i mode st key tg r cr existing)"
  unfolding x_steps_def
proof
  fix s
  obtain e w where c: "run_crawl (runtime_call env tg r) (on_document env i st key existing) cr \<lparr>rn_indexer = s, rn_seen = [], rn_dimension = 0\<rparr> = (e, w)"
    by (metis surj_pair)
  have 1: "R s (rn_indexer w)" using crawled[OF c] by simp
  have 2: "R (rn_indexer w) (List.fold (prune_document i) ds (rn_indexer w))" for ds by (rule pruned)
  have 3: "R s1 (snd (x_sql (set_meta x) s1))" if "ix_instanceID x = i" for x s1
    by (rule x_stepsD[OF meta[OF that]])
  show "R s (snd (crawl_index env i mode st key tg r cr existing s))"
    by (cases e) (use 1 2 3 in \<open>auto simp: crawl_index_def c Let_def intro: trans[OF 1] trans[OF _ 3] trans[OF trans[OF 1 2] 3]\<close>)
qed

lemma opened: "x_steps R (open_index i mode model)"
  unfolding open_index_def get_meta_def list_documents_def
  by (auto intro!: bind clear selection return fail split: option.splits)

lemma body: "x_steps R (reindex_body env i mode)"
proof (rule x_stepsI)
  fix s
  have alt: "x_steps R (case x of Inl e \<Rightarrow> x_fail (f e) | Inr a \<Rightarrow> x_return a)" "x_steps R (case y of None \<Rightarrow> x_fail e | Some c \<Rightarrow> x_return c)"
    "x_steps R (case z of None \<Rightarrow> x_return () | Some c \<Rightarrow> x_fail (g c))" "x_steps R (if b then x_fail e else x_return ())"
    for x :: "('e, 'f) result" and y :: "'g option" and z :: "'h option" and f g b e
    by (simp_all add: return fail split: sum.split option.split)
  show "R s (snd (reindex_body env i mode s))"
    unfolding reindex_body_def get_embedder_settings_def
    by (rule x_stepsD) (intro bind resolve selection crawl_step opened key alt)
qed

text \<open>Up to the deferred \<open>finish\<close>.\<close>

lemma run: "\<exists>s1 t. R s s1 \<and> run_reindex env i mode s = finish_run i t s1"
proof -
  obtain r s1 where b: "reindex_body env i mode s = (r, s1)" by (metis surj_pair)
  hence "R s s1" using x_stepsD[OF body, of s env mode] by simp
  hence "R s s1" "R s (fail_run i e s1)" for e using trans[OF _ failing] by blast+
  thus ?thesis using b by (cases r) (simp add: run_reindex_def; blast)+
qed

end

section \<open>A run changes its own index only\<close>

text \<open>All that is not the index of instance \<open>i\<close> stays; identifiers stay unique.\<close>

definition confined :: "string \<Rightarrow> db \<Rightarrow> db \<Rightarrow> bool" where
  "confined i d e =
     (chunks_wf d \<longrightarrow> chunks_wf e \<and> other_tables e = other_tables d \<and> (\<forall>j. j \<noteq> i \<longrightarrow> index_of j e = index_of j d))"

lemma frame_simps [simp]:
  "chunks_wf (d\<lparr>db_faults := bs\<rparr>) = chunks_wf d" "chunks_wf (d\<lparr>db_audit := rows\<rparr>) = chunks_wf d"
  "other_tables (d\<lparr>db_faults := bs\<rparr>) = other_tables d" "other_tables (d\<lparr>db_audit := rows\<rparr>) = other_tables d"
  "index_of j (d\<lparr>db_faults := bs\<rparr>) = index_of j d" "index_of j (d\<lparr>db_audit := rows\<rparr>) = index_of j d"
  by (simp_all add: chunks_wf_def other_tables_def index_of_def)

lemma confined_stmt: "(\<And>d. confined i d (snd (f d))) \<Longrightarrow> confined i d (snd (stmt f d))"
  unfolding stmt_def by (auto simp: confined_def Let_def split: list.splits)

lemma chunks_wf_filter:
  "chunks_wf d \<Longrightarrow> chunks_wf (d\<lparr>db_fts := filter P (db_fts d), db_chunks := filter Q (db_chunks d)\<rparr>)"
  by (auto simp: chunks_wf_def list_all_iff distinct_map_filter)

lemma index_of_other:
  assumes "chunks_wf d" "j \<noteq> i"
  shows "filter (\<lambda>r. ft_instanceID r = j) (filter (\<lambda>r. ft_chunkID r \<notin> ic_id ` {c \<in> set (db_chunks d). of_document i item att c}) (db_fts d))
      = filter (\<lambda>r. ft_instanceID r = j) (db_fts d)"
  unfolding filter_filter using assms by (intro filter_cong) (fastforce simp: chunks_wf_def of_document_def)+

lemma confined_clear: "confined i d (snd (clear_instance i d))"
  unfolding clear_instance_def
  by (rule confined_stmt)
     (auto simp: confined_def other_tables_def index_of_def chunks_wf_def list_all_iff distinct_map_filter intro!: filter_cong)

lemma confined_insert: "confined i d (snd (insert_chunks i cs d))"
proof (cases "cs = []")
  case False
  show ?thesis unfolding insert_chunks_def if_not_P[OF False]
    by (rule confined_stmt) (simp add: confined_def fold_insert_frame)
qed (simp add: insert_chunks_def sql_return_def confined_def)

lemma confined_delete_rows: "confined i d (snd (delete_document_chunks i item att d))"
  unfolding delete_document_chunks_def
proof (rule confined_stmt)
  fix d :: db
  let ?ids = "map ic_id (filter (of_document i item att) (db_chunks d))"
  let ?e = "d\<lparr>db_fts := filter (\<lambda>r. ft_chunkID r \<notin> set ?ids) (db_fts d), db_chunks := filter (\<lambda>r. \<not> of_document i item att r) (db_chunks d)\<rparr>"
  have "confined i d ?e"
    unfolding confined_def
  proof (intro impI conjI allI)
    assume wf: "chunks_wf d"
    show "chunks_wf ?e" using wf by (rule chunks_wf_filter)
    show "other_tables ?e = other_tables d" by (simp add: other_tables_def)
    fix j assume j: "j \<noteq> i"
    show "index_of j ?e = index_of j d"
      using index_of_other[OF wf j, of item att] j
      by (simp add: index_of_def of_document_def) (auto intro!: filter_cong)
  qed
  thus "confined i d (snd (let ids = ?ids in (Inr (), d\<lparr>db_fts := filter (\<lambda>r. ft_chunkID r \<notin> set ids) (db_fts d),
      db_chunks := filter (\<lambda>r. \<not> of_document i item att r) (db_chunks d)\<rparr>)))" by (simp add: Let_def)
qed

lemma updated_other: "(\<And>r. P r \<Longrightarrow> \<not> Q r) \<Longrightarrow> (\<And>r. P r \<Longrightarrow> \<not> Q (f r)) \<Longrightarrow> filter Q (updated P f rows) = filter Q rows"
  by (induction rows) (auto simp: updated_def)

lemma confined_upsert: "id_instanceID x = i \<Longrightarrow> confined i d (snd (upsert_document x d))"
  unfolding upsert_document_def
  by (rule confined_stmt)
     (auto simp: confined_def other_tables_def index_of_def chunks_wf_def same_document_def intro!: updated_other)

lemma confined_delete_doc: "confined i d (snd (delete_document i item att d))"
  unfolding delete_document_def
  by (rule confined_stmt) (auto simp: confined_def other_tables_def index_of_def chunks_wf_def intro!: filter_cong)

lemma confined_meta: "ix_instanceID x = i \<Longrightarrow> confined i d (snd (set_meta x d))"
  unfolding set_meta_def
  by (rule confined_stmt) (auto simp: confined_def other_tables_def index_of_def chunks_wf_def intro!: updated_other)

text \<open>The runs as the status table and the list of jobs show them.\<close>

definition running :: "'sc indexer \<Rightarrow> string \<Rightarrow> bool" where
  "running s j = (case map_of (xs_status s) j of Some st \<Rightarrow> st_running st | None \<Rightarrow> False)"

definition same_jobs :: "'sc indexer \<Rightarrow> 'sc indexer \<Rightarrow> bool" where
  "same_jobs s t = (xs_jobs t = xs_jobs s \<and> (\<forall>j. running t j = running s j))"

lemma running_change: "running (change_status j f s) k = (if k = j then (case map_of (xs_status s) j of None \<Rightarrow> False | Some st \<Rightarrow> st_running (f st)) else running s k)"
  by (auto simp: running_def change_status_def split: option.splits)

lemma running_simps [simp]:
  "running (with_db d s) = running s" "running (s\<lparr>xs_platform := p\<rparr>) = running s" "running (s\<lparr>xs_tick := n\<rparr>) = running s"
  "running (s\<lparr>xs_jobs := js\<rparr>) = running s"
  by (simp_all add: fun_eq_iff running_def with_db_def)

lemma running_fail [simp]: "running (fail_run j e s) k = running s k"
  by (cases "map_of (xs_status s) j") (simp_all add: running_def fail_run_def fresh_status_def Let_def)

definition own_run :: "string \<Rightarrow> 'sc indexer \<Rightarrow> 'sc indexer \<Rightarrow> bool" where
  "own_run i s t = (confined i (the_db s) (the_db t) \<and> same_jobs s t)"

lemma own_run_status: "(\<And>st. st_running (f st) = st_running st) \<Longrightarrow> own_run i s (change_status j f s)"
  by (simp add: own_run_def confined_def same_jobs_def running_change) (simp add: running_def split: option.splits)

lemma own_run_db: "confined i (the_db s) d \<Longrightarrow> own_run i s (with_db d s)"
  by (simp add: own_run_def same_jobs_def)

lemma own_run_sql: "(\<And>d. confined i d (snd (m d))) \<Longrightarrow> x_steps (own_run i) (x_sql m)"
  by (simp add: x_steps_def x_sql_state own_run_db)

interpretation own_index: index_writer "own_run i" i for i
  by unfold_locales
     (auto simp: own_run_sql confined_clear confined_insert confined_delete_rows confined_upsert confined_delete_doc confined_meta
        own_run_status intro!: own_run_db, auto simp: own_run_def confined_def same_jobs_def)

section \<open>A search reads\<close>

definition same_data :: "db \<Rightarrow> db \<Rightarrow> bool" where
  "same_data d e = (e\<lparr>db_faults := [], db_audit := []\<rparr> = d\<lparr>db_faults := [], db_audit := []\<rparr>)"

lemma same_data_tables:
  "same_data d e \<Longrightarrow> db_chunks e = db_chunks d" "same_data d e \<Longrightarrow> db_fts e = db_fts d"
  "same_data d e \<Longrightarrow> db_instances e = db_instances d" "same_data d e \<Longrightarrow> db_documents e = db_documents d"
  unfolding same_data_def
     apply (drule arg_cong[where f = db_chunks], simp)
    apply (drule arg_cong[where f = db_fts], simp)
   apply (drule arg_cong[where f = db_instances], simp)
  apply (drule arg_cong[where f = db_documents], simp)
  done

definition only_reads :: "'sc indexer \<Rightarrow> 'sc indexer \<Rightarrow> bool" where
  "only_reads s t = (same_data (the_db s) (the_db t) \<and> same_jobs s t)"

lemma only_reads_status: "(\<And>st. st_running (f st) = st_running st) \<Longrightarrow> only_reads s (change_status j f s)"
  by (simp add: only_reads_def same_data_def same_jobs_def running_change) (simp add: running_def split: option.splits)

interpretation reading: run_preorder only_reads
  by unfold_locales (auto simp: only_reads_status, auto simp: only_reads_def same_data_def same_jobs_def)

lemma x_bind_Inr: "x_bind m k s = (Inr b, s') \<longleftrightarrow> (\<exists>a s1. m s = (Inr a, s1) \<and> k a s1 = (Inr b, s'))"
  by (auto simp: x_bind_def split: sum.splits prod.splits)

lemma steps_Inr: "x_steps R m \<Longrightarrow> m s = (r, s1) \<Longrightarrow> R s s1"
  by (metis x_steps_def snd_conv)

lemma search_steps:
  assumes "search env i query0 limit0 s = (Inr hits, s')"
  obtains r st key q s1 s2 s3 s4 s5 where "trim_space query0 \<noteq> []"
    "x_op (resolve_by_id i) s = (Inr r, s1)" "x_sql get_embedder_settings s1 = (Inr st, s2)" "es_url st \<noteq> []"
    "embedder_api_key env s2 = (Inr key, s3)" "embed_call env st key [trim_space query0] s3 = (Inr [q], s4)" "only_reads s s5"
    "rank_chunks env i (trim_space query0) (if 0 < limit0 \<and> limit0 \<le> 20 then nat limit0 else 6) q (filter (\<lambda>c. ic_instanceID c = i) (db_chunks (the_db s))) s5 = (Inr hits, s')"
proof -
  let ?n = "nat (if limit0 \<le> 0 \<or> max_search_limit < limit0 then default_search_limit else limit0)"
  let ?embed = "\<lambda>st key s. case embed_call env st key [trim_space query0] s of (Inl e, s1) \<Rightarrow> (Inl (IxEmbedQuery e), s1) | (Inr vs, s1) \<Rightarrow> (Inr (hd vs), s1)"
  have "x_steps only_reads (?embed st key)" for st key
  proof (rule x_stepsI)
    fix s :: "'a indexer"
    show "only_reads s (snd (?embed st key s))"
      using reading.embedding[of s env st key "[trim_space query0]"] by (auto split: prod.splits sum.splits)
  qed
  note embed = this
  have "x_steps only_reads (if b then x_fail e else x_return ())" for b e by (simp add: reading.fail reading.return)
  note guard = this
  obtain r st key q cs s1 s2 s3 s4 s5 where query: "trim_space query0 \<noteq> []" and
    steps: "x_op (resolve_by_id i) s = (Inr r, s1)" "x_sql get_embedder_settings s1 = (Inr st, s2)"
      "(if es_url st = [] then x_fail IxNoSearch else x_return ()) s2 = (Inr (), s3)" "embedder_api_key env s3 = (Inr key, s4)"
      "?embed st key s4 = (Inr q, s5)"
    and rest: "x_bind (x_sql (load_all_chunks i)) (\<lambda>cs. rank_chunks env i (trim_space query0) ?n q cs) s5 = (Inr hits, s')"
    using assms by (auto simp: search_def Let_def x_bind_Inr x_fail_def split: if_splits)
  have url: "es_url st \<noteq> []" "s3 = s2" using steps(3) by (auto simp: x_fail_def x_return_def split: if_splits)
  obtain vs where vs: "embed_call env st key [trim_space query0] s4 = (Inr vs, s5)" "q = hd vs"
    using steps(5) by (auto split: prod.splits sum.splits)
  have "fst (embed (ie_client env) (now_at env s4) (ie_net env (xs_tick s4)) (es_url st) (es_model st) key (es_rateLimitPerMin st)
      \<lparr>allow_private_networks = True\<rparr> [trim_space query0] (ex_limiter (pf_executor (xs_platform s4)))) = Inr vs"
    using vs(1) by (auto simp: embed_call_def Let_def split: prod.splits)
  from embed_one_vector_each[OF this] have "length vs = 1" by simp
  hence one: "vs = [q]" using vs(2) by (cases vs) auto
  have "only_reads s s5"
    using steps_Inr[OF reading.resolve steps(1)] steps_Inr[OF reading.selection(1) steps(2)[unfolded get_embedder_settings_def]]
      steps_Inr[OF guard steps(3)] steps_Inr[OF reading.key steps(4)] steps_Inr[OF embed steps(5)]
    by (meson reading.trans)
  moreover obtain cs s6 where l: "x_sql (load_all_chunks i) s5 = (Inr cs, s6)"
    and rk: "rank_chunks env i (trim_space query0) ?n q cs s6 = (Inr hits, s')"
    using rest by (auto simp: x_bind_Inr)
  moreover have "only_reads s5 s6" using steps_Inr[OF reading.selection(1) l[unfolded load_all_chunks_def]] .
  moreover have "cs = filter (\<lambda>c. ic_instanceID c = i) (db_chunks (the_db s5))"
    using l by (auto simp: x_sql_def x_op_def run_sql_def load_all_chunks_def select_def stmt_def Let_def split: prod.splits sum.splits list.splits if_splits)
  moreover have "?n = (if 0 < limit0 \<and> limit0 \<le> 20 then nat limit0 else 6)" by (auto simp: max_search_limit_def default_search_limit_def)
  ultimately have a: "only_reads s s6" and b: "cs = filter (\<lambda>c. ic_instanceID c = i) (db_chunks (the_db s))" and
      c: "?n = (if 0 < limit0 \<and> limit0 \<le> 20 then nat limit0 else 6)"
    using reading.trans[of s s5 s6] same_data_tables(1)[of "the_db s" "the_db s5"] by (simp_all add: only_reads_def)
  show thesis by (rule that[OF query steps(1,2) url(1) steps(4)[unfolded url(2)] vs(1)[unfolded one] a rk[unfolded b c]])
qed

lemma find_member: "find P xs = Some x \<Longrightarrow> x \<in> set xs \<and> P x"
  by (auto simp: find_Some_iff)

lemma search_hits_from:
  "h \<in> set (search_hits q cs ids) \<Longrightarrow> \<exists>c\<in>set cs. ic_id c \<in> set ids \<and> sh_itemKey h = ic_itemKey c \<and>
      sh_attachmentKey h = ic_attachmentKey c \<and> sh_chunkIndex h = ic_chunkIndex c \<and> sh_score h = cosine q (ic_embedding c) \<and>
      sh_text h = truncate_runes (ic_text c) max_chunk_preview_runes"
proof -
  assume "h \<in> set (search_hits q cs ids)"
  then obtain n where n: "n \<in> set ids" "h \<in> set (case find (\<lambda>c. ic_id c = n) (rev cs) of None \<Rightarrow> []
      | Some c \<Rightarrow> [\<lparr>sh_itemKey = ic_itemKey c, sh_attachmentKey = ic_attachmentKey c, sh_chunkIndex = ic_chunkIndex c,
                    sh_score = cosine q (ic_embedding c), sh_text = truncate_runes (ic_text c) max_chunk_preview_runes\<rparr>])"
    unfolding search_hits_def by auto
  then obtain c where c: "find (\<lambda>c. ic_id c = n) (rev cs) = Some c" by (cases "find (\<lambda>c. ic_id c = n) (rev cs)") auto
  show ?thesis using find_member[OF c] n c by (intro bexI[of _ c]) auto
qed

lemma search_hits_length: "length (search_hits q cs ids) \<le> length ids"
  by (induction ids) (auto simp: search_hits_def split: option.splits)

lemma vector_ranking_floor: "n \<in> set (vector_ranking tie q cs) \<Longrightarrow> \<exists>c\<in>set cs. ic_id c = n \<and> min_relevance_score \<le> cosine q (ic_embedding c)"
  by (fastforce simp: vector_ranking_def Let_def not_less dest!: in_set_takeD)

lemma runes_truncate: "length (runes (truncate_runes t n)) \<le> Suc n"
proof (cases "length (runes t) \<le> n")
  case False
  have v: "list_all valid_rune (take n (runes t) @ [8230])"
    using runes_valid[of t] by (auto simp: list_all_iff valid_rune_def dest: in_set_takeD)
  have "truncate_runes t n = encode_runes (take n (runes t) @ [8230])"
    using False by (simp add: truncate_runes_def encode_runes_def)
  thus ?thesis using runes_encode_runes[OF v] by simp
qed (simp add: truncate_runes_def)

lemma bm25_from:
  "x_sql (bm25_search matches i query n) s = (Inr ids, s') \<Longrightarrow> x \<in> set ids
    \<Longrightarrow> \<exists>rows r. matches query (db_fts (the_db s)) = Some rows \<and> r \<in> set rows \<and> ft_chunkID r = x \<and> ft_instanceID r = i"
  by (simp add: x_sql_def x_op_def run_sql_def bm25_search_def sql_return_def select_def stmt_def Let_def
      split: if_splits prod.splits sum.splits list.splits option.splits) (fastforce dest!: in_set_takeD)+

lemma rank_chunks_from:
  assumes "rank_chunks env i query n q cs s = (Inr hits, s')"
  shows "length hits \<le> n" and "only_reads s s'"
    and "h \<in> set hits \<Longrightarrow> \<exists>c\<in>set cs. sh_itemKey h = ic_itemKey c \<and> sh_attachmentKey h = ic_attachmentKey c \<and> sh_chunkIndex h = ic_chunkIndex c \<and>
      sh_score h = cosine q (ic_embedding c) \<and> sh_text h = truncate_runes (ic_text c) max_chunk_preview_runes \<and>
      ((\<exists>d\<in>set cs. ic_id d = ic_id c \<and> min_relevance_score \<le> cosine q (ic_embedding d)) \<or>
       (\<exists>rows r. ie_match env (sanitize_fts_query query) (db_fts (the_db s)) = Some rows \<and> r \<in> set rows \<and> ft_chunkID r = ic_id c \<and> ft_instanceID r = i))"
proof -
  obtain res s1 where b: "x_sql (bm25_search (ie_match env) i (sanitize_fts_query query) search_candidate_pool) s = (res, s1)" by (metis surj_pair)
  define keyword where "keyword = (case res of Inl e \<Rightarrow> [] | Inr ids \<Rightarrow> ids)"
  define ids where "ids = take n (fuse_rrf [vector_ranking (ie_tie env) q cs, keyword])"
  have hits: "cs = [] \<and> hits = [] \<and> s' = s \<or> cs \<noteq> [] \<and> hits = search_hits q cs ids \<and> s' = s1"
    using assms by (auto simp: rank_chunks_def b keyword_def[symmetric] ids_def Let_def split: if_splits)
  show "length hits \<le> n" using hits search_hits_length[of q cs ids] by (auto simp: ids_def)
  have "x_steps only_reads (x_sql (bm25_search m i query' k))" for m query' k
    by (auto simp: bm25_search_def sql_return_def x_steps_def x_sql_state intro: reading.refl x_stepsD[OF reading.selection(1), unfolded x_sql_state])
  from steps_Inr[OF this b] show "only_reads s s'" using hits reading.refl by auto
  assume "h \<in> set hits"
  then obtain c where c: "c \<in> set cs" "ic_id c \<in> set ids" "sh_itemKey h = ic_itemKey c" "sh_attachmentKey h = ic_attachmentKey c"
      "sh_chunkIndex h = ic_chunkIndex c" "sh_score h = cosine q (ic_embedding c)" "sh_text h = truncate_runes (ic_text c) max_chunk_preview_runes"
    using hits search_hits_from by fastforce
  have "ic_id c \<in> set (vector_ranking (ie_tie env) q cs) \<or> ic_id c \<in> set keyword"
    using c(2) by (auto simp: ids_def fuse_rrf_set dest!: in_set_takeD)
  moreover have "\<exists>rows r. ie_match env (sanitize_fts_query query) (db_fts (the_db s)) = Some rows \<and> r \<in> set rows \<and> ft_chunkID r = ic_id c \<and> ft_instanceID r = i"
    if "ic_id c \<in> set keyword"
  proof -
    obtain ids' where r: "res = Inr ids'" "ic_id c \<in> set ids'" using \<open>ic_id c \<in> set keyword\<close> by (cases res) (auto simp: keyword_def)
    show ?thesis using bm25_from[OF b[unfolded r(1)] r(2)] .
  qed
  ultimately show "\<exists>c\<in>set cs. sh_itemKey h = ic_itemKey c \<and> sh_attachmentKey h = ic_attachmentKey c \<and> sh_chunkIndex h = ic_chunkIndex c \<and>
      sh_score h = cosine q (ic_embedding c) \<and> sh_text h = truncate_runes (ic_text c) max_chunk_preview_runes \<and>
      ((\<exists>d\<in>set cs. ic_id d = ic_id c \<and> min_relevance_score \<le> cosine q (ic_embedding d)) \<or>
       (\<exists>rows r. ie_match env (sanitize_fts_query query) (db_fts (the_db s)) = Some rows \<and> r \<in> set rows \<and> ft_chunkID r = ic_id c \<and> ft_instanceID r = i))"
    using c vector_ranking_floor[of "ic_id c" "ie_tie env" q cs] by blast
qed

section \<open>Runs as jobs\<close>

text \<open>What the server does with the indexer, one operation or one run at a time; an operation of
  another service changes the platform only.\<close>

inductive index_step :: "'sc index_env \<Rightarrow> 'sc indexer \<Rightarrow> 'sc indexer \<Rightarrow> bool" for env where
  StartRun: "reindex env a i mode s = (r, t) \<Longrightarrow> index_step env s t"
| SaveSettings: "update_embedder_settings env a url model rate s = (r, t) \<Longrightarrow> index_step env s t"
| SaveKey: "set_embedder_api_key env a key s = (r, t) \<Longrightarrow> index_step env s t"
| DropKey: "delete_embedder_api_key env a s = (r, t) \<Longrightarrow> index_step env s t"
| SearchIndex: "search env i query n s = (r, t) \<Longrightarrow> index_step env s t"
| RunJob: "xs_jobs s = js @ (i, mode) # js' \<Longrightarrow> index_step env s (run_reindex env i mode s\<lparr>xs_jobs := js @ js'\<rparr>)"
| OtherService: "index_step env s (s\<lparr>xs_platform := p, xs_tick := n\<rparr>)"

inductive index_reach :: "'sc index_env \<Rightarrow> 'sc indexer \<Rightarrow> bool" for env where
  reach_start: "xs_status s = [] \<Longrightarrow> xs_jobs s = [] \<Longrightarrow> index_reach env s"
| reach_step: "index_reach env s \<Longrightarrow> index_step env s t \<Longrightarrow> index_reach env t"

inductive_cases index_stepE: "index_step env s t"

definition jobs_ok :: "'sc indexer \<Rightarrow> bool" where
  "jobs_ok s = (distinct (map fst (xs_jobs s)) \<and> (\<forall>j. running s j \<longleftrightarrow> j \<in> fst ` set (xs_jobs s)))"

lemma jobs_ok_same: "same_jobs s t \<Longrightarrow> jobs_ok t = jobs_ok s"
  by (simp add: jobs_ok_def same_jobs_def)

text \<open>The weakest of the relations: whatever a step does to the platform.\<close>

interpretation any_db: run_preorder same_jobs
  by unfold_locales (auto simp: same_jobs_def running_change, auto simp: running_def split: option.splits)

lemma any_db_sql: "x_steps same_jobs (x_sql m)"
  by (simp add: x_steps_def x_sql_state same_jobs_def)

lemma any_db_op: "x_steps same_jobs (x_op m)"
  by (auto simp: x_steps_def x_op_def same_jobs_def split: sum.splits prod.splits)

lemma finish_run_jobs: "running (finish_run i t s) j = (running s j \<and> j \<noteq> i)" "xs_jobs (finish_run i t s) = xs_jobs s"
  by (simp_all add: finish_run_def running_change) (simp add: running_def split: option.splits)

lemma reindex_jobs:
  assumes "jobs_ok s" "reindex env a i mode s = (r, t)" shows "jobs_ok t"
proof -
  obtain x s1 where r: "x_op (resolve_by_id i) s = (x, s1)" by (metis surj_pair)
  have same: "same_jobs s s1" using steps_Inr[OF any_db_op r] .
  hence ok: "jobs_ok s1" using assms(1) by (simp add: jobs_ok_same)
  show ?thesis
  proof (cases "is_ok r")
    case False
    hence "t = s1" using assms(2) r by (auto simp: reindex_def x_bind_def Let_def split: sum.splits prod.splits if_splits)
    thus ?thesis using ok by simp
  next
    case True
    let ?s2 = "s1\<lparr>xs_status := kv_put i (fresh_status True (now_at env s1)) (xs_status s1)\<rparr>"
    from True obtain u s3 detail where a: "x_audit env a ''instance.index_reindex'' ''instance'' i detail ?s2 = (u, s3)"
      and t: "t = s3\<lparr>xs_jobs := xs_jobs s3 @ [(i, mode)]\<rparr>" and idle: "\<not> running s1 i"
      using assms(2) r by (auto simp: reindex_def x_bind_def Let_def running_def split: sum.splits prod.splits if_splits option.splits)
    have "same_jobs ?s2 s3" using steps_Inr[OF any_db.x_audit a] .
    moreover have "running ?s2 j = (j = i \<or> running s1 j)" for j by (simp add: running_def fresh_status_def)
    ultimately show ?thesis using ok idle by (auto simp: t jobs_ok_def same_jobs_def)
  qed
qed

lemma index_ready_jobs: "same_jobs s (snd (index_ready i s))"
proof -
  obtain r t where "x_sql (count_chunks i) s = (r, t)" by (metis surj_pair)
  thus ?thesis using steps_Inr[OF any_db_sql] by (auto simp: index_ready_def split: sum.splits)
qed

lemma auto_index_jobs: "jobs_ok s \<Longrightarrow> jobs_ok (auto_index env a xs s)"
proof (induction env a xs s rule: auto_index.induct)
  case (2 env a x xs s)
  obtain ready s1 where r: "index_ready (in_id (sm_instance x)) s = (ready, s1)" by (metis surj_pair)
  have 1: "jobs_ok s1" using index_ready_jobs[of s "in_id (sm_instance x)"] r 2(4) by (simp add: jobs_ok_same)
  obtain q s2 where q: "reindex env a (in_id (sm_instance x)) ReindexUpdate s1 = (q, s2)" by (metis surj_pair)
  show ?case using 2 r 1 q reindex_jobs[OF 1 q] by (auto simp: Let_def)
qed simp

lemma settings_jobs:
  assumes "jobs_ok s" "update_embedder_settings env a url model rate s = (r, t)" shows "jobs_ok t"
proof -
  have auto_ok: "jobs_ok (auto_index_existing env a s)" if "jobs_ok s" for s
  proof -
    obtain x s1 where l: "x_op list_instances s = (x, s1)" by (metis surj_pair)
    have "jobs_ok s1" using steps_Inr[OF any_db_op l] that by (simp add: jobs_ok_same)
    thus ?thesis using l auto_index_jobs by (auto simp: auto_index_existing_def split: sum.splits)
  qed
  have triple: "jobs_ok (snd (x_bind m k s))" if "jobs_ok s" "x_steps same_jobs m" "\<And>b s'. jobs_ok s' \<Longrightarrow> jobs_ok (snd (k b s'))"
    for s :: "'a indexer" and m :: "('a, 'b) xop" and k :: "'b \<Rightarrow> ('a, 'c) xop"
  proof -
    obtain b s1 where m: "m s = (b, s1)" by (metis surj_pair)
    have "jobs_ok s1" using steps_Inr[OF that(2) m] that(1) by (simp add: jobs_ok_same)
    thus ?thesis using m that(3) by (auto simp: x_bind_def split: sum.splits)
  qed
  have "jobs_ok (snd (update_embedder_settings env a url model rate s))"
    unfolding update_embedder_settings_def Let_def
    by (intro triple any_db_sql any_db.x_audit) (use assms(1) auto_ok in auto)
  thus ?thesis using assms(2) by simp
qed

lemma x_bind_jobs: "x_steps same_jobs m \<Longrightarrow> (\<And>a. x_steps same_jobs (k a)) \<Longrightarrow> x_steps same_jobs (x_bind m k)"
  by (rule any_db.bind)

lemma key_jobs: "x_steps same_jobs (set_embedder_api_key env a key)" "x_steps same_jobs (delete_embedder_api_key env a)"
proof -
  show "x_steps same_jobs (delete_embedder_api_key env a)"
    unfolding delete_embedder_api_key_def by (intro any_db.bind any_db_sql any_db.x_audit)
  show "x_steps same_jobs (set_embedder_api_key env a key)"
  proof (rule x_stepsI)
    fix s :: "'a indexer"
    have "same_jobs s (snd (x_bind (x_sql (set_embedder_key ct)) (\<lambda>u. x_audit env a x y z w) s))" for ct x y z w
      by (rule x_stepsD) (intro any_db.bind any_db_sql any_db.x_audit)
    thus "same_jobs s (snd (set_embedder_api_key env a key s))"
      by (auto simp: set_embedder_api_key_def Let_def any_db.refl split: option.splits)
  qed
qed

lemma search_jobs: "x_steps same_jobs (search env i query n)"
proof -
  have embed: "x_steps same_jobs (\<lambda>s. case embed_call env st key [q] s of (Inl e, s1) \<Rightarrow> (Inl (f e), s1) | (Inr vs, s1) \<Rightarrow> (Inr (hd vs), s1))" for st key q f
  proof (rule x_stepsI)
    fix s :: "'a indexer"
    show "same_jobs s (snd (case embed_call env st key [q] s of (Inl e, s1) \<Rightarrow> (Inl (f e), s1) | (Inr vs, s1) \<Rightarrow> (Inr (hd vs), s1)))"
      using any_db.embedding[of s env st key "[q]"] by (auto split: prod.splits sum.splits)
  qed
  have rank: "x_steps same_jobs (rank_chunks env i q k v cs)" for q k v cs
    by (auto simp: rank_chunks_def x_steps_def Let_def any_db.refl split: prod.splits intro: steps_Inr[OF any_db_sql])
  have guard: "x_steps same_jobs (if b then x_fail e else x_return ())" for b e by (simp add: any_db.fail any_db.return)
  show ?thesis unfolding search_def Let_def
    by (cases "trim_space query = []") (auto intro!: any_db.fail any_db.bind any_db_op any_db_sql any_db.key guard embed rank simp: any_db.fail)
qed

lemma run_jobs:
  assumes "jobs_ok s" "xs_jobs s = js @ (i, mode) # js'" shows "jobs_ok (run_reindex env i mode s\<lparr>xs_jobs := js @ js'\<rparr>)"
proof -
  obtain s1 t where "own_run i s s1" and f: "run_reindex env i mode s = finish_run i t s1" using own_index.run by blast
  hence "running s1 = running s" by (auto simp: own_run_def same_jobs_def)
  thus ?thesis using assms by (auto simp: f jobs_ok_def finish_run_jobs)
qed

lemma index_step_jobs: "index_step env s t \<Longrightarrow> jobs_ok s \<Longrightarrow> jobs_ok t"
proof (induction rule: index_step.induct)
  case (OtherService s p n) thus ?case by (simp add: jobs_ok_def)
qed (auto intro: reindex_jobs settings_jobs run_jobs dest!: steps_Inr[OF key_jobs(1)] steps_Inr[OF key_jobs(2)] steps_Inr[OF search_jobs] simp: jobs_ok_same)

lemma index_reach_jobs: "index_reach env s \<Longrightarrow> jobs_ok s"
  by (induction rule: index_reach.induct) (simp add: jobs_ok_def running_def, rule index_step_jobs)

section \<open>Properties\<close>

lemma chunks_wf_start: "db_chunks d = [] \<Longrightarrow> db_fts d = [] \<Longrightarrow> chunks_wf d"
  by (simp add: chunks_wf_def)

text \<open>Deleting an instance leaves its full-text rows; they match no chunk any more, and never will.\<close>

lemma instance_delete_chunks_wf: "chunks_wf d \<Longrightarrow> chunks_wf (snd (instance_delete i d))"
  by (auto simp: instance_delete_def stmt_def chunks_wf_def list_all_iff distinct_map_filter Let_def split: list.splits)

text \<open>C15: whatever a run does and however it fails, it changes the index of its own instance
  only: chunks, documents, model record and full-text rows of every other instance, every other
  table but the audit log and the status of every other run stay as they were, chunk identifiers stay unique, and
  when it is over the instance has no run any more.\<close>

theorem index_runs_isolated:
  assumes "chunks_wf (the_db s)"
  shows "chunks_wf (the_db (run_reindex env i mode s)) \<and>
    other_tables (the_db (run_reindex env i mode s)) = other_tables (the_db s) \<and>
    (\<forall>j. j \<noteq> i \<longrightarrow> index_of j (the_db (run_reindex env i mode s)) = index_of j (the_db s) \<and>
       running (run_reindex env i mode s) j = running s j) \<and>
    \<not> running (run_reindex env i mode s) i"
proof -
  obtain s1 t where r: "own_run i s s1" and f: "run_reindex env i mode s = finish_run i t s1" using own_index.run by blast
  have "the_db (run_reindex env i mode s) = the_db s1" by (simp add: f finish_run_def)
  thus ?thesis using r assms by (simp add: own_run_def confined_def same_jobs_def f finish_run_jobs)
qed

text \<open>C16: a search returns at most as many hits as were asked for (six when the number is not
  between one and twenty), and ranks against the vector the embedder of the settings, asked with
  the stored key, gave for the trimmed query.  Each hit is an excerpt of a chunk of the instance
  that was asked, cut to 700 runes and an ellipsis, scored by the similarity of that chunk's
  vector to the query's, and there for a reason: a chunk with its identifier reaches the
  similarity floor against the query's vector, or the full-text engine matched a row of the
  instance with that identifier, whatever that engine returns.  The data stays as it was.\<close>

theorem search_confined:
  assumes "search env i query limit s = (Inr hits, s')"
  shows "length hits \<le> (if 0 < limit \<and> limit \<le> 20 then nat limit else 6) \<and> same_data (the_db s) (the_db s') \<and>
    (\<exists>r st key q s1 s2 s3 s4. x_op (resolve_by_id i) s = (Inr r, s1) \<and> x_sql get_embedder_settings s1 = (Inr st, s2) \<and>
       es_url st \<noteq> [] \<and> trim_space query \<noteq> [] \<and> embedder_api_key env s2 = (Inr key, s3) \<and>
       embed_call env st key [trim_space query] s3 = (Inr [q], s4) \<and>
       (\<forall>h\<in>set hits. \<exists>c\<in>set (db_chunks (the_db s)). ic_instanceID c = i \<and>
         sh_itemKey h = ic_itemKey c \<and> sh_attachmentKey h = ic_attachmentKey c \<and> sh_chunkIndex h = ic_chunkIndex c \<and>
         sh_text h = truncate_runes (ic_text c) 700 \<and> length (runes (sh_text h)) \<le> 701 \<and>
         sh_score h = cosine q (ic_embedding c) \<and>
         ((\<exists>d\<in>set (db_chunks (the_db s)). ic_id d = ic_id c \<and> ic_instanceID d = i \<and> min_relevance_score \<le> cosine q (ic_embedding d)) \<or>
          (\<exists>rows r. ie_match env (sanitize_fts_query (trim_space query)) (db_fts (the_db s)) = Some rows \<and> r \<in> set rows \<and>
             ft_chunkID r = ic_id c \<and> ft_instanceID r = i))))"
proof -
  obtain r st key q s1 s2 s3 s4 s5 where st: "trim_space query \<noteq> []" "x_op (resolve_by_id i) s = (Inr r, s1)"
      "x_sql get_embedder_settings s1 = (Inr st, s2)" "es_url st \<noteq> []" "embedder_api_key env s2 = (Inr key, s3)"
      "embed_call env st key [trim_space query] s3 = (Inr [q], s4)" and s5: "only_reads s s5"
    and r: "rank_chunks env i (trim_space query) (if 0 < limit \<and> limit \<le> 20 then nat limit else 6) q
      (filter (\<lambda>c. ic_instanceID c = i) (db_chunks (the_db s))) s5 = (Inr hits, s')"
    by (rule search_steps[OF assms])
  note hits = rank_chunks_from[OF r]
  have fts: "db_fts (the_db s5) = db_fts (the_db s)" using s5 same_data_tables(2) by (simp add: only_reads_def)
  have "same_data (the_db s) (the_db s')" using reading.trans[OF s5 hits(2)] by (simp add: only_reads_def)
  moreover have "\<exists>c\<in>set (db_chunks (the_db s)). ic_instanceID c = i \<and>
       sh_itemKey h = ic_itemKey c \<and> sh_attachmentKey h = ic_attachmentKey c \<and> sh_chunkIndex h = ic_chunkIndex c \<and>
       sh_text h = truncate_runes (ic_text c) 700 \<and> length (runes (sh_text h)) \<le> 701 \<and> sh_score h = cosine q (ic_embedding c) \<and>
       ((\<exists>d\<in>set (db_chunks (the_db s)). ic_id d = ic_id c \<and> ic_instanceID d = i \<and> min_relevance_score \<le> cosine q (ic_embedding d)) \<or>
        (\<exists>rows r. ie_match env (sanitize_fts_query (trim_space query)) (db_fts (the_db s)) = Some rows \<and> r \<in> set rows \<and>
           ft_chunkID r = ic_id c \<and> ft_instanceID r = i))" if h: "h \<in> set hits" for h
    using hits(3)[OF h] runes_truncate[of _ 700] unfolding fts max_chunk_preview_runes_def by fastforce
  ultimately show ?thesis using hits(1) st by blast
qed

text \<open>C27: in every reachable state an instance has at most one run, its status says it is running
  exactly while that run is pending, and a second one is refused.\<close>

theorem one_run_per_instance:
  assumes "index_reach env s"
  shows "distinct (map fst (xs_jobs s)) \<and> (\<forall>j. running s j \<longleftrightarrow> j \<in> fst ` set (xs_jobs s)) \<and>
    (running s i \<longrightarrow> \<not> is_ok (fst (reindex env a i mode s)))"
proof -
  have ok: "jobs_ok s" using assms by (rule index_reach_jobs)
  obtain r s1 where r: "x_op (resolve_by_id i) s = (r, s1)" by (metis surj_pair)
  hence "running s1 i = running s i" using steps_Inr[OF any_db_op r] by (simp add: same_jobs_def)
  hence "\<not> is_ok (fst (reindex env a i mode s))" if "running s i"
    using that r by (cases r) (auto simp: reindex_def x_bind_def running_def split: option.splits)
  thus ?thesis using ok by (simp add: jobs_ok_def)
qed

text \<open>An instance without documents, and an embedder that answers.\<close>

definition demo_crawler :: crawler where
  "demo_crawler = \<lparr>cw_required = [], cw_crawl = \<lambda>tg. CrawlEmit \<lparr>dc_itemKey = ''book'', dc_attachmentKey = ''pdf'', dc_headingDialect = []\<rparr> ''hello world'' (CrawlDone (Inr False))\<rparr>"

definition demo_index_env :: "unit index_env" where
  "demo_index_env = \<lparr>ie_penv = (\<lambda>n. inst_env), ie_engine = (\<lambda>n. demo_env), ie_source = (\<lambda>c. Some demo_crawler),
     ie_client = new_client zero_options, ie_net = (\<lambda>n req. \<lparr>nw_dial = (\<lambda>u. (''tcp'', ''127.0.0.1:80'')),
        nw_answer = (\<lambda>us u. HopFinal \<lparr>rw_status = 200, rw_header = [], rw_body = ''{'' @ json_quote ''embeddings'' @ '':[[1]]}'', rw_readError = None, rw_duration = 0\<rparr>), nw_fold = id\<rparr>),
     ie_match = (\<lambda>q rows. Some rows), ie_tie = id, ie_visit = (\<lambda>d. 0)\<rparr>"

definition other_chunk :: index_chunk where
  "other_chunk = \<lparr>ic_id = 1, ic_instanceID = ''other'', ic_itemKey = ''i'', ic_attachmentKey = ''a'', ic_chunkIndex = 0, ic_charStart = 0, ic_charEnd = 6,
     ic_text = ''secret'', ic_embedding = [1]\<rparr>"

definition demo_indexer :: "unit indexer" where
  "demo_indexer = \<lparr>xs_platform = inst_p2\<lparr>pf_db := empty_db\<lparr>db_connectors := [inst_row], db_instances := [inst_rec], db_chunks := [other_chunk], db_nextChunk := 2,
       db_fts := [\<lparr>ft_chunkID = 1, ft_instanceID = ''other'', ft_text = ''secret''\<rparr>],
       db_embedder := \<lparr>es_url = ''http://e'', es_model = [], es_rateLimitPerMin = 0, es_updatedAt = 0\<rparr>\<rparr>\<rparr>,
     xs_status = [], xs_jobs = [], xs_tick = 0\<rparr>"
lemma index_runs_isolated_witness:
  "(let t = run_reindex demo_index_env inst_id ReindexRebuild demo_indexer in
     chunks_wf (the_db t) \<and> index_of ''other'' (the_db t) = index_of ''other'' (the_db demo_indexer) \<and> \<not> running t inst_id) \<and>
   map ic_text (db_chunks (the_db (run_reindex demo_index_env inst_id ReindexRebuild demo_indexer))) = [''secret'', ''hello world'']"
proof -
  have "chunks_wf (the_db demo_indexer)" by (simp add: demo_indexer_def chunks_wf_def other_chunk_def)
  from index_runs_isolated[OF this, of demo_index_env inst_id ReindexRebuild]
  have "let t = run_reindex demo_index_env inst_id ReindexRebuild demo_indexer in
     chunks_wf (the_db t) \<and> index_of ''other'' (the_db t) = index_of ''other'' (the_db demo_indexer) \<and> \<not> running t inst_id"
    by (simp add: Let_def inst_id_def)
  moreover have "map ic_text (db_chunks (the_db (run_reindex demo_index_env inst_id ReindexRebuild demo_indexer))) = [''secret'', ''hello world'']"
    by code_simp
  ultimately show ?thesis by blast
qed

text \<open>A chunk without a vector, which only the keyword search finds.\<close>

definition demo_chunk :: index_chunk where
  "demo_chunk = \<lparr>ic_id = 2, ic_instanceID = inst_id, ic_itemKey = ''book'', ic_attachmentKey = ''pdf'', ic_chunkIndex = 0, ic_charStart = 0, ic_charEnd = 11,
      ic_text = ''hello world'', ic_embedding = []\<rparr>"

definition demo_indexed :: "unit indexer" where
  "demo_indexed = demo_indexer\<lparr>xs_platform := inst_p2\<lparr>pf_db := pf_db (xs_platform demo_indexer)\<lparr>db_chunks := [other_chunk, demo_chunk],
     db_fts := [\<lparr>ft_chunkID = 1, ft_instanceID = ''other'', ft_text = ''secret''\<rparr>, \<lparr>ft_chunkID = 2, ft_instanceID = inst_id, ft_text = ''hello world''\<rparr>]\<rparr>\<rparr>\<rparr>"

lemma embed_call_db: "the_db (snd (embed_call env st key texts s)) = the_db s"
  by (simp add: embed_call_def Let_def split: prod.splits)

lemma demo_search: "\<exists>h s'. search demo_index_env inst_id ''hello'' 0 demo_indexed = (Inr [h], s')"
proof -
  have no_faults: "x_sql (select f) t = (Inr (f (the_db t)), t)" if "db_faults (the_db t) = []" for f and t :: "unit indexer"
    using that by (cases "xs_platform t") (simp add: x_sql_def x_op_def run_sql_def select_def stmt_def)
  have f: "db_faults (the_db demo_indexed) = []" by (simp add: demo_indexed_def demo_indexer_def empty_db_def)
  have 1: "\<exists>r. x_op (resolve_by_id inst_id) demo_indexed = (Inr r, demo_indexed)"
    by (simp add: x_op_def resolve_by_id_def op_bind_def run_sql_def instance_get_def select_row_def stmt_def demo_indexed_def demo_indexer_def empty_db_def
       inst_rec_def resolve_instance_def connector_entry_def inst_p2_def inst_p1_def inst_p0_def registry_get_def tool_binding_list_def load_secrets_def select_def op_return_def)
  then obtain r where r: "x_op (resolve_by_id inst_id) demo_indexed = (Inr r, demo_indexed)" by blast
  obtain vs t where e: "embed_call demo_index_env (db_embedder (the_db demo_indexed)) [] [''hello''] demo_indexed = (vs, t)" by (metis surj_pair)
  have "fst (embed_call demo_index_env (db_embedder (the_db demo_indexed)) [] [''hello''] demo_indexed) = Inr [[1]]" by code_simp
  hence vs: "vs = Inr [[1]]" using e by simp
  have t: "the_db t = the_db demo_indexed" using embed_call_db[of demo_index_env "db_embedder (the_db demo_indexed)" "[]" "[''hello'']" demo_indexed] e by simp
  have key: "db_embedderKey (the_db demo_indexed) = None" and url: "es_url (db_embedder (the_db demo_indexed)) \<noteq> []"
    by (simp_all add: demo_indexed_def demo_indexer_def empty_db_def)
  have trim: "trim_space ''hello'' = ''hello''" by code_simp
  have rank: "\<exists>h u. rank_chunks demo_index_env inst_id ''hello'' 6 [1] (filter (\<lambda>c. ic_instanceID c = inst_id) (db_chunks (the_db t))) t = (Inr [h], u)"
  proof -
    have cs: "filter (\<lambda>c. ic_instanceID c = inst_id) (db_chunks (the_db t)) = [demo_chunk]"
      by (simp add: t demo_indexed_def demo_indexer_def other_chunk_def demo_chunk_def inst_id_def)
    have "\<not> cosine [1] (ic_embedding demo_chunk) < min_relevance_score \<longleftrightarrow> False" by code_simp
    hence vr: "vector_ranking tie [1] [demo_chunk] = []" for tie by (simp add: vector_ranking_def)
    have q: "sanitize_fts_query ''hello'' \<noteq> []" by code_simp
    have kw: "x_sql (bm25_search (ie_match demo_index_env) inst_id (sanitize_fts_query ''hello'') search_candidate_pool) t = (Inr [2], t)"
      using q by (simp add: bm25_search_def no_faults f t demo_index_env_def search_candidate_pool_def)
        (simp add: demo_indexed_def demo_indexer_def inst_id_def)
    have "fuse_rrf [[], [2]] = [2]" by (simp add: fuse_rrf_def rrf_scores_def)
    thus ?thesis unfolding cs by (simp add: rank_chunks_def kw vr search_hits_def) (simp add: demo_chunk_def)
  qed
  show ?thesis using rank
    by (simp add: search_def Let_def trim x_bind_def r no_faults f get_embedder_settings_def url x_return_def embedder_api_key_def get_embedder_key_def key e vs
       load_all_chunks_def t default_search_limit_def)
qed
lemma search_confined_witness:
  "\<exists>h s'. search demo_index_env inst_id ''hello'' 0 demo_indexed = (Inr [h], s') \<and> same_data (the_db demo_indexed) (the_db s') \<and>
     (\<exists>c\<in>set (db_chunks (the_db demo_indexed)). ic_instanceID c = inst_id \<and> sh_itemKey h = ic_itemKey c)"
proof -
  obtain h s' where r: "search demo_index_env inst_id ''hello'' 0 demo_indexed = (Inr [h], s')" using demo_search by blast
  thus ?thesis using search_confined[OF r] by auto
qed

definition demo_started :: "unit indexer" where
  "demo_started = snd (reindex demo_index_env demo_actor inst_id ReindexUpdate demo_indexer)"

lemma one_run_per_instance_witness:
  "running demo_started inst_id \<and> xs_jobs demo_started = [(inst_id, ReindexUpdate)] \<and> distinct (map fst (xs_jobs demo_started)) \<and>
   \<not> is_ok (fst (reindex demo_index_env demo_actor inst_id ReindexRebuild demo_started))"
proof -
  have 0: "index_reach demo_index_env demo_indexer" by (rule reach_start) (simp_all add: demo_indexer_def)
  have "index_step demo_index_env demo_indexer demo_started"
    unfolding demo_started_def by (rule StartRun) (rule prod.collapse[symmetric])
  note reach = reach_step[OF 0 this]
  have jobs: "xs_jobs demo_started = [(inst_id, ReindexUpdate)]" by code_simp
  show ?thesis using one_run_per_instance[OF reach, of inst_id demo_actor ReindexRebuild] jobs by simp
qed

end
