(* ===== verification/Usage.thy ===== *)
theory Usage
  imports Instances
begin

text \<open>
  \<open>internal/usage/usage.go\<close> and \<open>internal/service/usage.go\<close>: the log of tool calls, a
  database of its own.  Its file size, and the pages a deletion frees, are SQLite's and
  arguments; \<open>ug_faults\<close> decides which statements fail.  Instants are compared in SQL as their
  texts.
\<close>

section \<open>The store\<close>

definition level_off :: string where "level_off = ''off''"
definition level_metadata :: string where "level_metadata = ''metadata''"
definition level_full :: string where "level_full = ''full''"

definition level_valid :: "string \<Rightarrow> bool" where
  "level_valid l = (l = level_off \<or> l = level_metadata \<or> l = level_full)"

definition default_max_bytes :: int where "default_max_bytes = 2 ^ 30"

record usage_settings =
  ul_level :: string
  ul_maxBytes :: int

record usage_entry =
  ue_id :: string
  ue_at :: int
  ue_instanceID :: string
  ue_instanceName :: string
  ue_tool :: string
  ue_actorType :: string
  ue_actorID :: string
  ue_ip :: string
  ue_success :: bool
  ue_statusCode :: int
  ue_kind :: string
  ue_durationMs :: int
  ue_args :: string
  ue_result :: string
  ue_error :: string

record usage_filter =
  uf_instanceID :: string
  uf_tool :: string
  uf_limit :: int

definition max_list_limit :: int where "max_list_limit = 500"

record usage_store =
  ug_faults :: "bool list"
  ug_settings :: usage_settings
  ug_entries :: "usage_entry list"
  ug_free :: nat

type_synonym 'a usage_sql = "usage_store \<Rightarrow> (domain_error, 'a) result \<times> usage_store"

definition usage_stmt :: "'a usage_sql \<Rightarrow> 'a usage_sql" where
  "usage_stmt f u =
     (case ug_faults u of
        [] \<Rightarrow> f u
      | b # bs \<Rightarrow> if b then (Inl ErrOther, u\<lparr>ug_faults := bs\<rparr>) else f (u\<lparr>ug_faults := bs\<rparr>))"

text \<open>The schema: one row of settings, no entries.\<close>

definition fresh_usage :: "bool list \<Rightarrow> usage_store" where
  "fresh_usage faults = \<lparr>ug_faults = faults, ug_settings = \<lparr>ul_level = level_metadata, ul_maxBytes = default_max_bytes\<rparr>, ug_entries = [], ug_free = 0\<rparr>"

definition usage_settings_get :: "usage_settings usage_sql" where
  "usage_settings_get = usage_stmt (\<lambda>u. (Inr (ug_settings u), u))"

definition usage_settings_update :: "usage_settings \<Rightarrow> unit usage_sql" where
  "usage_settings_update st u =
     (if \<not> level_valid (ul_level st) then (Inl ErrOther, u)
      else usage_stmt (\<lambda>u. (Inr (), u\<lparr>ug_settings := (if ul_maxBytes st \<le> 0 then st\<lparr>ul_maxBytes := default_max_bytes\<rparr> else st)\<rparr>)) u)"

definition usage_append :: "usage_entry \<Rightarrow> unit usage_sql" where
  "usage_append e = usage_stmt (\<lambda>u.
     if list_ex (\<lambda>r. ue_id r = ue_id e) (ug_entries u) then (Inl ErrOther, u)
     else (Inr (), u\<lparr>ug_entries := ug_entries u @ [e]\<rparr>))"

definition usage_list :: "usage_filter \<Rightarrow> usage_entry list usage_sql" where
  "usage_list f = usage_stmt (\<lambda>u.
     let n = (if uf_limit f \<le> 0 \<or> max_list_limit < uf_limit f then max_list_limit else uf_limit f);
         rows = filter (\<lambda>r. (uf_instanceID f = [] \<or> ue_instanceID r = uf_instanceID f) \<and> (uf_tool f = [] \<or> ue_tool r = uf_tool f)) (ug_entries u)
     in (Inr (take (nat n) (order_desc (\<lambda>r. format_time (ue_at r)) rows)), u))"

section \<open>Reclaiming and pruning\<close>

definition max_vacuum_steps :: nat where "max_vacuum_steps = 4096"

text \<open>One page per \<open>incremental_vacuum\<close>, at most \<open>n\<close> of them.\<close>

fun vacuum :: "nat \<Rightarrow> unit usage_sql" where
  "vacuum 0 u = (Inr (), u)"
| "vacuum (Suc n) u =
     (case usage_stmt (\<lambda>u. (Inr (ug_free u), u)) u of
        (Inl e, u1) \<Rightarrow> (Inl e, u1)
      | (Inr k, u1) \<Rightarrow>
          if k = 0 then (Inr (), u1)
          else (case usage_stmt (\<lambda>u. (Inr (), u\<lparr>ug_free := ug_free u - 1\<rparr>)) u1 of
                  (Inl e, u2) \<Rightarrow> (Inl e, u2) | (Inr x, u2) \<Rightarrow> vacuum n u2))"

definition reclaim :: "unit usage_sql" where
  "reclaim u = (case vacuum max_vacuum_steps u of (Inl e, u1) \<Rightarrow> (Inl e, u1) | (Inr x, u1) \<Rightarrow> usage_stmt (\<lambda>u. (Inr (), u)) u1)"

text \<open>\<open>freed\<close>: the pages the deletion of some entries leaves on the free list.\<close>

definition usage_clear :: "(usage_entry list \<Rightarrow> nat) \<Rightarrow> unit usage_sql" where
  "usage_clear freed u =
     (case usage_stmt (\<lambda>u. (Inr (), u\<lparr>ug_entries := [], ug_free := ug_free u + freed (ug_entries u)\<rparr>)) u of
        (Inl e, u1) \<Rightarrow> (Inl e, u1) | (Inr x, u1) \<Rightarrow> reclaim u1)"

definition prune_batch :: nat where "prune_batch = 500"

definition oldest_ids :: "nat \<Rightarrow> usage_entry list \<Rightarrow> string set" where
  "oldest_ids n es = set (map ue_id (take n (order_asc (\<lambda>r. format_time (ue_at r)) es)))"

definition delete_oldest :: "(usage_entry list \<Rightarrow> nat) \<Rightarrow> nat \<Rightarrow> nat usage_sql" where
  "delete_oldest freed n = usage_stmt (\<lambda>u.
     let ids = oldest_ids n (ug_entries u); gone = filter (\<lambda>r. ue_id r \<in> ids) (ug_entries u) in
     (Inr (length gone), u\<lparr>ug_entries := filter (\<lambda>r. ue_id r \<notin> ids) (ug_entries u), ug_free := ug_free u + freed gone\<rparr>))"

definition rows_to_delete :: "int \<Rightarrow> int \<Rightarrow> nat \<Rightarrow> nat" where
  "rows_to_delete sz maxBytes count =
     (let overage = sz - maxBytes; avg0 = sz div int count; avg = (if avg0 \<le> 0 then 1 else avg0);
          n0 = overage div avg + 1; n1 = (if int prune_batch < n0 then int prune_batch else n0)
      in if int count < n1 then count else nat n1)"

text \<open>\<open>size_at k\<close> is the file size the \<open>k\<close>-th pass sees, none when the file cannot be
  examined.  The count so far comes back with an error, as in Go.\<close>

function prune_loop :: "(nat \<Rightarrow> usage_store \<Rightarrow> int option) \<Rightarrow> (usage_entry list \<Rightarrow> nat) \<Rightarrow> int \<Rightarrow> nat \<Rightarrow> nat \<Rightarrow> usage_store
    \<Rightarrow> (nat \<times> domain_error option) \<times> usage_store" where
  "prune_loop size_at freed maxBytes k acc u =
     (case size_at k u of
        None \<Rightarrow> ((acc, Some ErrOther), u)
      | Some sz \<Rightarrow>
          if sz \<le> maxBytes then ((acc, None), u)
          else (case usage_stmt (\<lambda>u. (Inr (length (ug_entries u)), u)) u of
            (Inl e, u1) \<Rightarrow> ((acc, Some e), u1)
          | (Inr count, u1) \<Rightarrow>
              if count = 0 then ((acc, None), u1)
              else (case delete_oldest freed (rows_to_delete sz maxBytes count) u1 of
                (Inl e, u2) \<Rightarrow> ((acc, Some e), u2)
              | (Inr n, u2) \<Rightarrow>
                  if n = 0 then ((acc, None), u2)
                  else (case reclaim u2 of
                    (Inl e, u3) \<Rightarrow> ((acc + n, Some e), u3)
                  | (Inr x, u3) \<Rightarrow> prune_loop size_at freed maxBytes (Suc k) (acc + n) u3))))"
  by pat_completeness auto

lemma usage_stmt_frame:
  assumes "usage_stmt f u = (r, u')" "\<And>v. ug_entries (snd (f v)) = ug_entries v \<and> ug_settings (snd (f v)) = ug_settings v"
  shows "ug_entries u' = ug_entries u \<and> ug_settings u' = ug_settings u"
proof -
  have "ug_entries (snd (usage_stmt f u)) = ug_entries u \<and> ug_settings (snd (usage_stmt f u)) = ug_settings u"
    by (simp add: usage_stmt_def assms(2) split: list.split)
  thus ?thesis by (simp add: assms(1))
qed

lemma vacuum_frame: "vacuum n u = (r, u') \<Longrightarrow> ug_entries u' = ug_entries u \<and> ug_settings u' = ug_settings u"
proof (induction n arbitrary: u)
  case (Suc n)
  obtain a u1 where a: "usage_stmt (\<lambda>u. (Inr (ug_free u), u)) u = (a, u1)" by (rule prod.exhaust)
  obtain b u2 where b: "usage_stmt (\<lambda>u. (Inr (), u\<lparr>ug_free := ug_free u - 1\<rparr>)) u1 = (b, u2)" by (rule prod.exhaust)
  have 1: "ug_entries u1 = ug_entries u \<and> ug_settings u1 = ug_settings u" using usage_stmt_frame[OF a] by simp
  have 2: "ug_entries u2 = ug_entries u1 \<and> ug_settings u2 = ug_settings u1" using usage_stmt_frame[OF b] by simp
  consider x where "a = Inl x" | "a = Inr 0" | k where "a = Inr k" "k \<noteq> 0" by (cases a) auto
  thus ?case
  proof cases
    case 3
    show ?thesis
    proof (cases b)
      case (Inl x) thus ?thesis using Suc.prems a b 1 2 3 by simp
    next
      case (Inr x)
      hence "vacuum n u2 = (r, u')" using Suc.prems a b 3 by simp
      thus ?thesis using Suc.IH[of u2] 1 2 by simp
    qed
  qed (use Suc.prems a 1 in simp_all)
qed simp

lemma reclaim_frame:
  assumes "reclaim u = (r, u')" shows "ug_entries u' = ug_entries u \<and> ug_settings u' = ug_settings u"
proof -
  obtain a u1 where a: "vacuum max_vacuum_steps u = (a, u1)" by (rule prod.exhaust)
  note 1 = vacuum_frame[OF a]
  show ?thesis
  proof (cases a)
    case (Inl x) thus ?thesis using assms a 1 by (simp add: reclaim_def)
  next
    case (Inr x)
    hence "usage_stmt (\<lambda>u. (Inr (), u)) u1 = (r, u')" using assms a by (simp add: reclaim_def)
    from usage_stmt_frame[OF this] show ?thesis using 1 by simp
  qed
qed

lemma delete_oldest_Inr:
  "delete_oldest freed n u = (Inr k, u') \<Longrightarrow>
     ug_entries u' = filter (\<lambda>r. ue_id r \<notin> oldest_ids n (ug_entries u)) (ug_entries u) \<and>
     k = length (ug_entries u) - length (ug_entries u') \<and> length (ug_entries u') \<le> length (ug_entries u) \<and> ug_settings u' = ug_settings u"
  using sum_length_filter_compl[of "\<lambda>r. ue_id r \<in> oldest_ids n (ug_entries u)" "ug_entries u"]
  by (auto simp: delete_oldest_def usage_stmt_def Let_def split: list.splits if_splits)

termination prune_loop
proof (relation "measure (\<lambda>(size_at, freed, maxBytes, k, acc, u). length (ug_entries u))", goal_cases)
  case 2
  thus ?case by (auto dest!: usage_stmt_frame[OF sym] delete_oldest_Inr[OF sym] reclaim_frame[OF sym])
qed simp

declare prune_loop.simps [simp del]

definition usage_prune :: "(nat \<Rightarrow> usage_store \<Rightarrow> int option) \<Rightarrow> (usage_entry list \<Rightarrow> nat) \<Rightarrow> usage_store \<Rightarrow> (nat \<times> domain_error option) \<times> usage_store" where
  "usage_prune size_at freed u =
     (case usage_settings_get u of
        (Inl e, u1) \<Rightarrow> ((0, Some e), u1)
      | (Inr st, u1) \<Rightarrow> prune_loop size_at freed (if ul_maxBytes st \<le> 0 then default_max_bytes else ul_maxBytes st) 0 0 u1)"

section \<open>The service\<close>

text \<open>What \<open>Record\<close> is told of a call.  \<open>uc_error\<close>: the engine's kind, when the error has one,
  and the text; \<open>uc_result\<close>: the status and the text.\<close>

record usage_call =
  uc_actor :: actor
  uc_instance :: instance_rec
  uc_tool :: string
  uc_args :: "(string, goval) gomap option"
  uc_result :: "(int \<times> string) option"
  uc_error :: "(error_kind option \<times> string) option"
  uc_elapsed :: int

fun kind_name :: "error_kind \<Rightarrow> string" where
  "kind_name KindInvalidArguments = ''invalid_arguments''"
| "kind_name KindNotConfigured = ''not_configured''"
| "kind_name KindRateLimited = ''rate_limited''"
| "kind_name KindCircuitOpen = ''circuit_open''"
| "kind_name KindEgressBlocked = ''egress_blocked''"
| "kind_name KindTimeout = ''timeout''"
| "kind_name KindUpstreamStatus = ''upstream_status''"
| "kind_name KindUpstreamFailure = ''upstream_failure''"
| "kind_name KindResponseTooLarge = ''response_too_large''"
| "kind_name KindInternal = ''internal''"

definition max_logged_field_bytes :: nat where "max_logged_field_bytes = 32 * 1024"

definition truncate_logged_field :: "string \<Rightarrow> string" where
  "truncate_logged_field s =
     (if length s \<le> max_logged_field_bytes then s else take max_logged_field_bytes s @ newline @ ellipsis @ '' [truncated]'')"

definition logged_entry :: "string \<Rightarrow> int \<Rightarrow> string \<Rightarrow> usage_call \<Rightarrow> usage_entry" where
  "logged_entry idb now level c =
     (let full = (level = level_full) in
      \<lparr>ue_id = new_id ''use'' idb, ue_at = now, ue_instanceID = in_id (uc_instance c), ue_instanceName = in_name (uc_instance c),
       ue_tool = uc_tool c, ue_actorType = ac_type (uc_actor c), ue_actorID = ac_id (uc_actor c), ue_ip = ac_ip (uc_actor c),
       ue_success = (uc_error c = None),
       ue_statusCode = (case (uc_error c, uc_result c) of (None, Some (code, t)) \<Rightarrow> code | _ \<Rightarrow> 0),
       ue_kind = (case uc_error c of None \<Rightarrow> [] | Some (Some k, t) \<Rightarrow> kind_name k | Some (None, t) \<Rightarrow> kind_name KindInternal),
       ue_durationMs = uc_elapsed c div 1000000,
       ue_args = (if full then (case uc_args c of None \<Rightarrow> [] | Some a \<Rightarrow> if a = [] then []
                    else (case json_marshal (VObj a) of None \<Rightarrow> [] | Some t \<Rightarrow> truncate_logged_field t)) else []),
       ue_result = (if full then (case uc_result c of None \<Rightarrow> [] | Some (code, t) \<Rightarrow> truncate_logged_field t) else []),
       ue_error = (case uc_error c of None \<Rightarrow> [] | Some (k, t) \<Rightarrow> t)\<rparr>)"

text \<open>A failure to log is swallowed; without a store nothing is done.\<close>

definition record_call :: "string \<Rightarrow> int \<Rightarrow> usage_call \<Rightarrow> usage_store option \<Rightarrow> usage_store option" where
  "record_call idb now c su =
     (case su of None \<Rightarrow> None
      | Some u \<Rightarrow>
          Some (case usage_settings_get u of
                  (Inl e, u1) \<Rightarrow> u1
                | (Inr st, u1) \<Rightarrow>
                    if ul_level st = level_off then u1 else snd (usage_append (logged_entry idb now (ul_level st) c) u1)))"

definition list_usage :: "usage_filter \<Rightarrow> usage_store option \<Rightarrow> (domain_error, usage_entry list) result \<times> usage_store option" where
  "list_usage f su = (case su of None \<Rightarrow> (Inr [], None) | Some u \<Rightarrow> (let (r, u1) = usage_list f u in (r, Some u1)))"

definition get_usage_settings :: "usage_store option \<Rightarrow> (domain_error, usage_settings) result \<times> usage_store option" where
  "get_usage_settings su =
     (case su of None \<Rightarrow> (Inr \<lparr>ul_level = level_off, ul_maxBytes = 0\<rparr>, None)
      | Some u \<Rightarrow> (let (r, u1) = usage_settings_get u in (r, Some u1)))"

definition update_usage_settings :: "'sc penv \<Rightarrow> actor \<Rightarrow> string \<Rightarrow> int \<Rightarrow> usage_store option \<times> 'sc platform
    \<Rightarrow> (domain_error, unit) result \<times> (usage_store option \<times> 'sc platform)" where
  "update_usage_settings env a level mx s =
     (case fst s of None \<Rightarrow> (Inr (), s)
      | Some u \<Rightarrow>
          if \<not> level_valid level then (Inl ErrInvalidInput, s)
          else (case usage_settings_update \<lparr>ul_level = level, ul_maxBytes = mx\<rparr> u of
                  (Inl e, u1) \<Rightarrow> (Inl e, (Some u1, snd s))
                | (Inr x, u1) \<Rightarrow>
                    (let (r, p) = op_audit env a ''platform.settings_update'' ''platform'' ''usage_log''
                                    [(''level'', VStr level), (''max_bytes'', VInt64 mx)] (snd s)
                     in (r, (Some u1, p)))))"

definition clear_usage :: "'sc penv \<Rightarrow> actor \<Rightarrow> (usage_entry list \<Rightarrow> nat) \<Rightarrow> usage_store option \<times> 'sc platform
    \<Rightarrow> (domain_error, unit) result \<times> (usage_store option \<times> 'sc platform)" where
  "clear_usage env a freed s =
     (case fst s of None \<Rightarrow> (Inr (), s)
      | Some u \<Rightarrow>
          (case usage_clear freed u of
             (Inl e, u1) \<Rightarrow> (Inl e, (Some u1, snd s))
           | (Inr x, u1) \<Rightarrow>
               (let (r, p) = op_audit env a ''platform.settings_update'' ''platform'' ''usage_log'' [(''cleared'', VBool True)] (snd s)
                in (r, (Some u1, p)))))"

definition prune_usage :: "(nat \<Rightarrow> usage_store \<Rightarrow> int option) \<Rightarrow> (usage_entry list \<Rightarrow> nat) \<Rightarrow> usage_store option
    \<Rightarrow> (nat \<times> domain_error option) \<times> usage_store option" where
  "prune_usage size_at freed su =
     (case su of None \<Rightarrow> ((0, None), None) | Some u \<Rightarrow> (let (r, u1) = usage_prune size_at freed u in (r, Some u1)))"

definition usage_enabled :: "usage_store option \<Rightarrow> bool" where "usage_enabled su = (su \<noteq> None)"

section \<open>Lemmas\<close>

abbreviation stamp :: "usage_entry \<Rightarrow> string" where "stamp r \<equiv> format_time (ue_at r)"

lemma oldest_removed:
  assumes "distinct (map ue_id es)"
  shows "order_asc stamp (filter (\<lambda>r. ue_id r \<notin> oldest_ids n es) es) = drop n (order_asc stamp es)"
proof -
  let ?S = "order_asc stamp es"
  have d: "distinct (map ue_id ?S)" using assms by (simp add: order_asc_def distinct_map)
  hence "set (map ue_id (take n ?S)) \<inter> set (map ue_id (drop n ?S)) = {}"
    by (metis append_take_drop_id distinct_append map_append)
  hence "filter (\<lambda>r. ue_id r \<notin> oldest_ids n es) (drop n ?S) = drop n ?S"
    by (auto simp: filter_id_conv oldest_ids_def)
  moreover have "filter (\<lambda>r. ue_id r \<notin> oldest_ids n es) (take n ?S) = []"
    by (auto simp: filter_empty_conv oldest_ids_def)
  ultimately have "filter (\<lambda>r. ue_id r \<notin> oldest_ids n es) ?S = drop n ?S"
    by (metis append_Nil append_take_drop_id filter_append)
  thus ?thesis by (simp add: order_asc_def filter_sort)
qed

lemma rows_to_delete_bounds: "0 < count \<Longrightarrow> maxBytes < sz \<Longrightarrow> 0 < rows_to_delete sz maxBytes count \<and> rows_to_delete sz maxBytes count \<le> 500"
  by (auto simp: rows_to_delete_def Let_def prune_batch_def pos_imp_zdiv_nonneg_iff)

text \<open>The \<open>n\<close> oldest entries are gone and nothing else has changed.\<close>

definition oldest_gone :: "nat \<Rightarrow> usage_store \<Rightarrow> usage_store \<Rightarrow> bool" where
  "oldest_gone n u u' =
     (n + length (ug_entries u') = length (ug_entries u) \<and> order_asc stamp (ug_entries u') = drop n (order_asc stamp (ug_entries u)) \<and>
      ug_settings u' = ug_settings u \<and> (\<exists>P. ug_entries u' = filter P (ug_entries u)))"

lemma oldest_gone_same: "ug_entries u' = ug_entries u \<and> ug_settings u' = ug_settings u \<Longrightarrow> oldest_gone 0 u u'"
  by (auto simp: oldest_gone_def intro: exI[of _ "\<lambda>r. True"])

lemma oldest_gone_trans: "oldest_gone n u v \<Longrightarrow> oldest_gone m v w \<Longrightarrow> oldest_gone (n + m) u w"
  by (auto simp: oldest_gone_def add.commute)

lemma oldest_gone_distinct: "oldest_gone n u v \<Longrightarrow> distinct (map ue_id (ug_entries u)) \<Longrightarrow> distinct (map ue_id (ug_entries v))"
  by (auto simp: oldest_gone_def distinct_map_filter)

lemma delete_oldest_gone:
  assumes "delete_oldest freed n u = (Inr k, u')" "distinct (map ue_id (ug_entries u))"
  shows "oldest_gone k u u'"
proof -
  note d = delete_oldest_Inr[OF assms(1)]
  show ?thesis unfolding oldest_gone_def
  proof (intro conjI)
    have e: "ug_entries u' = filter (\<lambda>r. ue_id r \<notin> oldest_ids n (ug_entries u)) (ug_entries u)" using d by simp
    have "order_asc stamp (ug_entries u') = drop n (order_asc stamp (ug_entries u))"
      unfolding e by (rule oldest_removed[OF assms(2)])
    moreover have "length (order_asc stamp xs) = length xs" for xs by (simp add: order_asc_def)
    ultimately show "order_asc stamp (ug_entries u') = drop k (order_asc stamp (ug_entries u))"
      using d by (cases "n \<le> length (ug_entries u)") (auto dest: arg_cong[of _ _ length])
    show "\<exists>P. ug_entries u' = filter P (ug_entries u)" using e by blast
  qed (use d in simp_all)
qed

lemma delete_oldest_count:
  assumes "delete_oldest freed n u = (Inr k, u')" "distinct (map ue_id (ug_entries u))" "0 < n"
  shows "0 < k \<or> ug_entries u = []"
proof -
  have "ug_entries u' = filter (\<lambda>r. ue_id r \<notin> oldest_ids n (ug_entries u)) (ug_entries u)"
    using delete_oldest_Inr[OF assms(1)] by simp
  hence "order_asc stamp (ug_entries u') = drop n (order_asc stamp (ug_entries u))" by (simp add: oldest_removed[OF assms(2)])
  from arg_cong[OF this, of length] have "length (ug_entries u') = length (ug_entries u) - n" by (simp add: order_asc_def)
  thus ?thesis using delete_oldest_Inr[OF assms(1)] assms(3) by (cases "ug_entries u") auto
qed

lemma delete_oldest_Inl: "delete_oldest freed n u = (Inl x, u') \<Longrightarrow> ug_entries u' = ug_entries u \<and> ug_settings u' = ug_settings u"
  by (auto simp: delete_oldest_def usage_stmt_def Let_def split: list.splits if_splits)

text \<open>How a pass ends: the loop stops, or a pass removed something and the next follows.\<close>

abbreviation counted :: "nat usage_sql" where "counted \<equiv> usage_stmt (\<lambda>u. (Inr (length (ug_entries u)), u))"

lemma prune_loop_eqs:
  "size_at k u = None \<Longrightarrow> prune_loop size_at freed mx k acc u = ((acc, Some ErrOther), u)"
  "size_at k u = Some sz \<Longrightarrow> sz \<le> mx \<Longrightarrow> prune_loop size_at freed mx k acc u = ((acc, None), u)"
  "size_at k u = Some sz \<Longrightarrow> mx < sz \<Longrightarrow> counted u = (Inl x, u1) \<Longrightarrow> prune_loop size_at freed mx k acc u = ((acc, Some x), u1)"
  "size_at k u = Some sz \<Longrightarrow> mx < sz \<Longrightarrow> counted u = (Inr 0, u1) \<Longrightarrow> prune_loop size_at freed mx k acc u = ((acc, None), u1)"
  "size_at k u = Some sz \<Longrightarrow> mx < sz \<Longrightarrow> counted u = (Inr c, u1) \<Longrightarrow> 0 < c \<Longrightarrow> delete_oldest freed (rows_to_delete sz mx c) u1 = (Inl x, u2) \<Longrightarrow>
     prune_loop size_at freed mx k acc u = ((acc, Some x), u2)"
  "size_at k u = Some sz \<Longrightarrow> mx < sz \<Longrightarrow> counted u = (Inr c, u1) \<Longrightarrow> 0 < c \<Longrightarrow> delete_oldest freed (rows_to_delete sz mx c) u1 = (Inr 0, u2) \<Longrightarrow>
     prune_loop size_at freed mx k acc u = ((acc, None), u2)"
  "size_at k u = Some sz \<Longrightarrow> mx < sz \<Longrightarrow> counted u = (Inr c, u1) \<Longrightarrow> 0 < c \<Longrightarrow> delete_oldest freed (rows_to_delete sz mx c) u1 = (Inr m, u2) \<Longrightarrow>
     0 < m \<Longrightarrow> reclaim u2 = (Inl x, u3) \<Longrightarrow> prune_loop size_at freed mx k acc u = ((acc + m, Some x), u3)"
  "size_at k u = Some sz \<Longrightarrow> mx < sz \<Longrightarrow> counted u = (Inr c, u1) \<Longrightarrow> 0 < c \<Longrightarrow> delete_oldest freed (rows_to_delete sz mx c) u1 = (Inr m, u2) \<Longrightarrow>
     0 < m \<Longrightarrow> reclaim u2 = (Inr v, u3) \<Longrightarrow> prune_loop size_at freed mx k acc u = prune_loop size_at freed mx (Suc k) (acc + m) u3"
  by (subst prune_loop.simps; simp)+

lemma counted_frame: "counted u = (r, u') \<Longrightarrow> oldest_gone 0 u u' \<and> (\<forall>c. r = Inr c \<longrightarrow> c = length (ug_entries u))"
  using usage_stmt_frame[of "\<lambda>u. (Inr (length (ug_entries u)), u)" u r u']
  by (auto simp: oldest_gone_same usage_stmt_def split: list.splits if_splits)

lemma pass_removes:
  assumes "counted u = (Inr c, u1)" "0 < c" "mx < sz" "delete_oldest freed (rows_to_delete sz mx c) u1 = (Inr m, u2)"
    "reclaim u2 = (b, u3)" "distinct (map ue_id (ug_entries u))"
  shows "0 < m \<and> oldest_gone m u u3"
proof -
  have g1: "oldest_gone 0 u u1" and c: "c = length (ug_entries u)" using counted_frame[OF assms(1)] by simp_all
  have d1: "distinct (map ue_id (ug_entries u1))" by (rule oldest_gone_distinct[OF g1 assms(6)])
  have "ug_entries u1 \<noteq> []" using c g1 assms(2) by (auto simp: oldest_gone_def)
  hence "0 < m" using delete_oldest_count[OF assms(4) d1] rows_to_delete_bounds[OF assms(2,3)] by simp
  moreover have "oldest_gone (0 + (m + 0)) u u3"
    by (intro oldest_gone_trans[OF g1] oldest_gone_trans[OF delete_oldest_gone[OF assms(4) d1]] oldest_gone_same reclaim_frame[OF assms(5)])
  ultimately show ?thesis by simp
qed

lemma prune_loop_removes:
  assumes "prune_loop size_at freed mx k acc u = ((n, e), u')" "distinct (map ue_id (ug_entries u))"
  shows "acc \<le> n \<and> oldest_gone (n - acc) u u' \<and>
     (e = None \<longrightarrow> ug_entries u' = [] \<or> (\<exists>j sz. size_at j u' = Some sz \<and> sz \<le> mx))"
  using assms
proof (induction "length (ug_entries u)" arbitrary: k acc u rule: less_induct)
  case less
  note eqs = prune_loop_eqs[where size_at = size_at and freed = freed and mx = mx and k = k and acc = acc and u = u]
  obtain a u1 where a: "counted u = (a, u1)" by (rule prod.exhaust)
  consider (unknown) "size_at k u = None" | (fits) sz where "size_at k u = Some sz" "sz \<le> mx"
    | (failed) sz x where "size_at k u = Some sz" "mx < sz" "a = Inl x" | (empty) sz where "size_at k u = Some sz" "mx < sz" "a = Inr 0"
    | (rows) sz c where "size_at k u = Some sz" "mx < sz" "a = Inr c" "0 < c"
    by (metis not_gr_zero not_le option.exhaust sum.exhaust)
  thus ?case
  proof cases
    case unknown thus ?thesis using less.prems(1) eqs(1) by (auto simp: oldest_gone_same)
  next
    case fits thus ?thesis using less.prems(1) eqs(2)[OF fits] by (auto simp: oldest_gone_same)
  next
    case failed thus ?thesis using less.prems(1) eqs(3)[OF failed(1,2)] a counted_frame[OF a] by auto
  next
    case empty thus ?thesis using less.prems(1) eqs(4)[OF empty(1,2)] a counted_frame[OF a] by (auto simp: oldest_gone_def)
  next
    case rows
    note a = a[unfolded rows(3)]
    obtain d u2 where d: "delete_oldest freed (rows_to_delete sz mx c) u1 = (d, u2)" by (rule prod.exhaust)
    show ?thesis
    proof (cases d)
      case (Inl x)
      note d = d[unfolded this]
      show ?thesis using less.prems(1) eqs(5)[OF rows(1,2) a rows(4) d] counted_frame[OF a]
          oldest_gone_trans[OF _ oldest_gone_same[OF delete_oldest_Inl[OF d]]] by fastforce
    next
      case (Inr m)
      note d = d[unfolded this]
      obtain b u3 where b: "reclaim u2 = (b, u3)" by (rule prod.exhaust)
      have m: "0 < m" and g: "oldest_gone m u u3" using pass_removes[OF a rows(4,2) d b less.prems(2)] by simp_all
      show ?thesis
      proof (cases b)
        case (Inl x) thus ?thesis using less.prems(1) eqs(7)[OF rows(1,2) a rows(4) d m] b g by auto
      next
        case (Inr v)
        hence l: "prune_loop size_at freed mx (Suc k) (acc + m) u3 = ((n, e), u')"
          using less.prems(1) eqs(8)[OF rows(1,2) a rows(4) d m] b by simp
        have "length (ug_entries u3) < length (ug_entries u)" using g m by (simp add: oldest_gone_def)
        from less.hyps[OF this l oldest_gone_distinct[OF g less.prems(2)]]
        show ?thesis using oldest_gone_trans[OF g, of "n - (acc + m)" u'] by auto
      qed
    qed
  qed
qed

text \<open>The states the log can be in.\<close>

inductive usage_reach :: "usage_store \<Rightarrow> bool" where
  usage_opened: "usage_reach (fresh_usage faults)"
| usage_recorded: "usage_reach u \<Longrightarrow> record_call idb now c (Some u) = Some u' \<Longrightarrow> usage_reach u'"
| usage_listed: "usage_reach u \<Longrightarrow> list_usage f (Some u) = (r, Some u') \<Longrightarrow> usage_reach u'"
| usage_configured: "usage_reach u \<Longrightarrow> usage_settings_update st u = (r, u') \<Longrightarrow> usage_reach u'"
| usage_cleared: "usage_reach u \<Longrightarrow> usage_clear freed u = (r, u') \<Longrightarrow> usage_reach u'"
| usage_pruned: "usage_reach u \<Longrightarrow> prune_usage size_at freed (Some u) = (pr, Some u') \<Longrightarrow> usage_reach u'"

definition usage_ok :: "usage_store \<Rightarrow> bool" where
  "usage_ok u = (distinct (map ue_id (ug_entries u)) \<and> level_valid (ul_level (ug_settings u)) \<and> 0 < ul_maxBytes (ug_settings u))"

lemma usage_ok_same: "ug_entries u' = ug_entries u \<and> ug_settings u' = ug_settings u \<Longrightarrow> usage_ok u \<Longrightarrow> usage_ok u'"
  by (simp add: usage_ok_def)

lemma usage_settings_get_frame: "usage_settings_get u = (r, u') \<Longrightarrow> ug_entries u' = ug_entries u \<and> ug_settings u' = ug_settings u"
  by (auto simp: usage_settings_get_def dest: usage_stmt_frame)

lemma usage_settings_get_Inr: "usage_settings_get u = (Inr st, u') \<Longrightarrow> st = ug_settings u"
  by (auto simp: usage_settings_get_def usage_stmt_def split: list.splits if_splits)

lemma usage_append_cases:
  "usage_append e u = (r, u') \<Longrightarrow> ug_settings u' = ug_settings u \<and>
     (ug_entries u' = ug_entries u \<or> ue_id e \<notin> ue_id ` set (ug_entries u) \<and> ug_entries u' = ug_entries u @ [e])"
  by (auto simp: usage_append_def usage_stmt_def list_ex_iff split: list.splits if_splits)

lemma record_call_cases [consumes 1, case_names silent logged]:
  assumes "record_call idb now c (Some u) = Some u'"
  obtains "ug_entries u' = ug_entries u" "ug_settings u' = ug_settings u"
  | e where "e = logged_entry idb now (ul_level (ug_settings u)) c" "ul_level (ug_settings u) \<noteq> level_off"
      "ue_id e \<notin> ue_id ` set (ug_entries u)" "ug_entries u' = ug_entries u @ [e]" "ug_settings u' = ug_settings u"
proof -
  obtain g u1 where g: "usage_settings_get u = (g, u1)" by (rule prod.exhaust)
  note f = usage_settings_get_frame[OF g]
  show ?thesis
  proof (cases "\<exists>st. g = Inr st \<and> ul_level st \<noteq> level_off")
    case False
    hence "u' = u1" using assms g by (auto simp: record_call_def split: sum.splits if_splits)
    thus ?thesis using f that(1) by simp
  next
    case True
    then obtain st where st: "g = Inr st" "ul_level st \<noteq> level_off" by blast
    obtain r u2 where a: "usage_append (logged_entry idb now (ul_level st) c) u1 = (r, u2)" by (metis surj_pair)
    have "u' = u2" using assms g st a by (simp add: record_call_def)
    thus ?thesis using usage_append_cases[OF a] f st usage_settings_get_Inr[of u st u1] g that by auto
  qed
qed

lemma usage_reach_ok: "usage_reach u \<Longrightarrow> usage_ok u"
proof (induction rule: usage_reach.induct)
  case (usage_opened faults)
  show ?case by (simp add: fresh_usage_def usage_ok_def level_valid_def default_max_bytes_def)
next
  case (usage_recorded u idb now c u')
  from usage_recorded(2) usage_recorded(3) show ?case
    by (cases rule: record_call_cases) (auto simp: usage_ok_def)
next
  case (usage_listed u f r u')
  have "ug_entries u' = ug_entries u \<and> ug_settings u' = ug_settings u"
    using usage_listed(2) by (auto simp: list_usage_def usage_list_def Let_def split: prod.splits dest: usage_stmt_frame)
  thus ?case using usage_listed(3) by (rule usage_ok_same)
next
  case (usage_configured u st r u')
  thus ?case
    by (auto simp: usage_settings_update_def usage_stmt_def usage_ok_def default_max_bytes_def
        split: prod.splits sum.splits if_splits list.splits)
next
  case (usage_cleared u freed r u')
  hence "ug_settings u' = ug_settings u \<and> (ug_entries u' = ug_entries u \<or> ug_entries u' = [])"
    by (auto simp: usage_clear_def usage_stmt_def split: sum.splits list.splits if_splits dest: reclaim_frame)
  thus ?case using usage_cleared(3) by (auto simp: usage_ok_def)
next
  case (usage_pruned u size_at freed pr u')
  obtain n e where pr: "usage_prune size_at freed u = ((n, e), u')"
    using usage_pruned(2) by (metis (no_types, lifting) prune_usage_def old.prod.case option.case(2) prod.inject option.inject surj_pair)
  obtain g u1 where g: "usage_settings_get u = (g, u1)" by (rule prod.exhaust)
  hence ok: "usage_ok u1" using usage_settings_get_frame usage_ok_same usage_pruned(3) by blast
  show ?case
  proof (cases g)
    case (Inl x) thus ?thesis using ok pr g by (simp add: usage_prune_def)
  next
    case (Inr st)
    hence "oldest_gone n u1 u'" using prune_loop_removes ok pr g by (fastforce simp: usage_prune_def usage_ok_def)
    thus ?thesis using ok oldest_gone_distinct[of n u1 u'] by (auto simp: usage_ok_def oldest_gone_def)
  qed
qed

lemma truncate_logged_length: "length (truncate_logged_field s) \<le> 32784"
  by (auto simp: truncate_logged_field_def max_logged_field_bytes_def newline_def ellipsis_def)

lemma logged_entry_metadata:
  "level \<noteq> level_full \<Longrightarrow> logged_entry idb now level (c\<lparr>uc_args := a, uc_result := map_option (\<lambda>(code, x). (code, t)) (uc_result c)\<rparr>) =
     logged_entry idb now level c"
  by (auto simp: logged_entry_def Let_def split: option.splits)

section \<open>Properties\<close>

text \<open>C32: pruning removes exactly the oldest entries, as many as it reports, and touches
  nothing else; without an error it stops with the file within the cap or the log empty, and
  it removes nothing when the file fits.  \<open>Oldest\<close> is by the stored text of the instant.\<close>
theorem usage_prune_oldest:
  assumes "usage_reach u" "usage_prune size_at freed u = ((n, e), u')"
  shows "length (ug_entries u') + n = length (ug_entries u) \<and>
     order_asc (\<lambda>r. format_time (ue_at r)) (ug_entries u') = drop n (order_asc (\<lambda>r. format_time (ue_at r)) (ug_entries u)) \<and>
     (\<exists>P. ug_entries u' = filter P (ug_entries u)) \<and> ug_settings u' = ug_settings u \<and>
     (e = None \<longrightarrow> ug_entries u' = [] \<or> (\<exists>j sz. size_at j u' = Some sz \<and> sz \<le> ul_maxBytes (ug_settings u))) \<and>
     (ug_faults u = [] \<and> (\<exists>sz. size_at 0 u = Some sz \<and> sz \<le> ul_maxBytes (ug_settings u)) \<longrightarrow> n = 0 \<and> u' = u)"
proof -
  have ok: "usage_ok u" by (rule usage_reach_ok[OF assms(1)])
  obtain g u1 where g: "usage_settings_get u = (g, u1)" by (rule prod.exhaust)
  have u1: "oldest_gone 0 u u1" "usage_ok u1" using usage_settings_get_frame[OF g] ok usage_ok_same by (auto simp: oldest_gone_same)
  have cap: "\<not> ul_maxBytes (ug_settings u) \<le> 0" using ok by (simp add: usage_ok_def)
  have "oldest_gone n u u' \<and> (e = None \<longrightarrow> ug_entries u' = [] \<or> (\<exists>j sz. size_at j u' = Some sz \<and> sz \<le> ul_maxBytes (ug_settings u)))"
  proof (cases g)
    case (Inl x) thus ?thesis using assms(2) g u1 by (auto simp: usage_prune_def)
  next
    case (Inr st)
    hence "prune_loop size_at freed (ul_maxBytes (ug_settings u)) 0 0 u1 = ((n, e), u')"
      using assms(2) g usage_settings_get_Inr[of u st u1] cap by (simp add: usage_prune_def)
    from prune_loop_removes[OF this] show ?thesis
      using u1 oldest_gone_trans[OF u1(1), of n u'] by (simp add: usage_ok_def)
  qed
  moreover have "n = 0 \<and> u' = u" if "ug_faults u = []" "size_at 0 u = Some sz" "sz \<le> ul_maxBytes (ug_settings u)" for sz
    using assms(2) that cap by (simp add: usage_prune_def usage_settings_get_def usage_stmt_def prune_loop.simps)
  ultimately show ?thesis by (auto simp: oldest_gone_def)
qed

text \<open>The level of the log is kept.  Nothing is recorded at \<open>off\<close>; below \<open>full\<close> the log
  after a call is the same whatever the arguments and the text of the response were; at most
  one entry is added, under a new identifier, and its copies of them are at most 32,784 bytes
  long.\<close>
lemma usage_level_kept:
  assumes "record_call idb now c (Some u) = Some u'"
  shows "ug_settings u' = ug_settings u \<and>
     (ul_level (ug_settings u) = ''off'' \<longrightarrow> ug_entries u' = ug_entries u) \<and>
     (ul_level (ug_settings u) \<noteq> ''full'' \<longrightarrow>
        record_call idb now (c\<lparr>uc_args := a, uc_result := map_option (\<lambda>(code, x). (code, t)) (uc_result c)\<rparr>) (Some u) = Some u') \<and>
     (ug_entries u' = ug_entries u \<or>
        (\<exists>r. ug_entries u' = ug_entries u @ [r] \<and> ue_id r \<notin> ue_id ` set (ug_entries u) \<and> ue_tool r = uc_tool c \<and>
             ue_instanceID r = in_id (uc_instance c) \<and> ue_success r = (uc_error c = None) \<and>
             length (ue_args r) \<le> 32784 \<and> length (ue_result r) \<le> 32784))"
proof (intro conjI impI)
  show "record_call idb now (c\<lparr>uc_args := a, uc_result := map_option (\<lambda>(code, x). (code, t)) (uc_result c)\<rparr>) (Some u) = Some u'"
    if "ul_level (ug_settings u) \<noteq> ''full''"
    using assms that logged_entry_metadata[where level = "ul_level (ug_settings u)" and c = c and a = a and t = t]
    by (auto simp: record_call_def level_full_def split: prod.splits sum.splits dest: usage_settings_get_Inr)
  from assms show "ug_settings u' = ug_settings u" by (cases rule: record_call_cases) simp_all
  from assms show "ug_entries u' = ug_entries u" if "ul_level (ug_settings u) = ''off''"
    by (cases rule: record_call_cases) (use that in \<open>simp_all add: level_off_def\<close>)
  from assms show "ug_entries u' = ug_entries u \<or>
        (\<exists>r. ug_entries u' = ug_entries u @ [r] \<and> ue_id r \<notin> ue_id ` set (ug_entries u) \<and> ue_tool r = uc_tool c \<and>
             ue_instanceID r = in_id (uc_instance c) \<and> ue_success r = (uc_error c = None) \<and>
             length (ue_args r) \<le> 32784 \<and> length (ue_result r) \<le> 32784)"
  proof (cases rule: record_call_cases)
    case (logged r)
    thus ?thesis by (intro disjI2 exI[of _ r])
      (auto simp: logged_entry_def Let_def truncate_logged_length split: option.splits)
  qed simp
qed

text \<open>Three calls are logged, then the cap is lowered to 100 bytes; an entry takes 60.\<close>

definition demo_usage_call :: usage_call where
  "demo_usage_call = \<lparr>uc_actor = \<lparr>ac_type = ''token'', ac_id = ''t1'', ac_ip = ''10.0.0.1''\<rparr>,
     uc_instance = \<lparr>in_id = ''i1'', in_slug = ''lib'', in_name = ''Library'', in_description = [], in_connectorID = ''c'', in_baseURL = ''http://x'',
       in_variables = [], in_enabled = True, in_allowPrivateNetwork = False, in_hostHeaderOverride = [], in_timeoutMS = 1000,
       in_rateLimitPerMin = 0, in_maxConcurrent = 1, in_maxResponseBytes = 2048, in_createdAt = 0, in_updatedAt = 0, in_version = 1\<rparr>,
     uc_tool = ''search'', uc_args = Some [(''q'', VStr ''secret'')], uc_result = Some (200, ''body''), uc_error = None, uc_elapsed = 5000000\<rparr>"

definition demo_usage_row :: "string \<Rightarrow> int \<Rightarrow> usage_entry" where
  "demo_usage_row b t = logged_entry b t level_metadata demo_usage_call"

definition demo_usage :: usage_store where
  "demo_usage = \<lparr>ug_faults = [], ug_settings = \<lparr>ul_level = ''metadata'', ul_maxBytes = 100\<rparr>,
     ug_entries = [demo_usage_row ''b'' (2 * second), demo_usage_row ''a'' second, demo_usage_row ''c'' (3 * second)], ug_free = 0\<rparr>"

lemma demo_usage_reach: "usage_reach demo_usage"
proof -
  have 1: "record_call ''b'' (2 * second) demo_usage_call (Some (fresh_usage [])) =
      Some ((fresh_usage [])\<lparr>ug_entries := [demo_usage_row ''b'' (2 * second)]\<rparr>)" by code_simp
  have 2: "record_call ''a'' second demo_usage_call (Some ((fresh_usage [])\<lparr>ug_entries := [demo_usage_row ''b'' (2 * second)]\<rparr>)) =
      Some ((fresh_usage [])\<lparr>ug_entries := [demo_usage_row ''b'' (2 * second), demo_usage_row ''a'' second]\<rparr>)" by code_simp
  have 3: "record_call ''c'' (3 * second) demo_usage_call
      (Some ((fresh_usage [])\<lparr>ug_entries := [demo_usage_row ''b'' (2 * second), demo_usage_row ''a'' second]\<rparr>)) =
      Some (demo_usage\<lparr>ug_settings := ug_settings (fresh_usage [])\<rparr>)" by code_simp
  have "usage_reach (demo_usage\<lparr>ug_settings := ug_settings (fresh_usage [])\<rparr>)"
    by (rule usage_recorded[OF usage_recorded[OF usage_recorded[OF usage_opened 1] 2] 3])
  thus ?thesis
    by (rule usage_configured[where st = "\<lparr>ul_level = ''metadata'', ul_maxBytes = 100\<rparr>" and r = "Inr ()"])
       (simp add: demo_usage_def usage_settings_update_def usage_stmt_def level_valid_def level_metadata_def)
qed

lemma vacuum_nothing: "ug_faults u = [] \<Longrightarrow> ug_free u = 0 \<Longrightarrow> vacuum n u = (Inr (), u)"
  by (cases n) (simp_all add: usage_stmt_def)

text \<open>The two oldest go, in one pass.\<close>

lemma demo_usage_times:
  "format_time second = ''1970-01-01T00:00:01Z''" "format_time (2 * second) = ''1970-01-01T00:00:02Z''"
  "format_time (3 * second) = ''1970-01-01T00:00:03Z''"
  by code_simp+

lemma demo_usage_ids:
  "ue_id (demo_usage_row ''a'' t) = new_id ''use'' ''a''" "ue_id (demo_usage_row ''b'' t) = new_id ''use'' ''b''"
  "ue_id (demo_usage_row ''c'' t) = new_id ''use'' ''c''" "ue_at (demo_usage_row b t) = t"
  "new_id ''use'' ''a'' \<noteq> new_id ''use'' ''b''" "new_id ''use'' ''a'' \<noteq> new_id ''use'' ''c''" "new_id ''use'' ''b'' \<noteq> new_id ''use'' ''c''"
proof -
  show "new_id ''use'' ''a'' \<noteq> new_id ''use'' ''b''" by code_simp
  show "new_id ''use'' ''a'' \<noteq> new_id ''use'' ''c''" by code_simp
  show "new_id ''use'' ''b'' \<noteq> new_id ''use'' ''c''" by code_simp
qed (simp_all add: demo_usage_row_def logged_entry_def Let_def)

lemma usage_prune_oldest_witness:
  "drop 2 (order_asc (\<lambda>r. format_time (ue_at r)) (ug_entries demo_usage)) = [demo_usage_row ''c'' (3 * second)]"
proof -
  let ?size = "\<lambda>k u. Some (60 * int (length (ug_entries u)))"
  have d: "delete_oldest (\<lambda>es. 0) 2 demo_usage = (Inr 2, demo_usage\<lparr>ug_entries := [demo_usage_row ''c'' (3 * second)]\<rparr>)"
    using demo_usage_ids(5-7)
    by (simp add: delete_oldest_def usage_stmt_def demo_usage_def oldest_ids_def order_asc_def demo_usage_times demo_usage_ids(1-4) Let_def
        less_char_def numeral_2_eq_2)
  have n: "rows_to_delete 180 100 3 = 2" by code_simp
  let ?u = "demo_usage\<lparr>ug_entries := [demo_usage_row ''c'' (3 * second)]\<rparr>"
  have 2: "prune_loop ?size (\<lambda>es. 0) 100 1 2 ?u = ((2, None), ?u)" by (subst prune_loop.simps) simp
  have r: "reclaim ?u = (Inr (), ?u)" by (simp add: reclaim_def vacuum_nothing demo_usage_def usage_stmt_def)
  have f: "ug_faults demo_usage = []" "length (ug_entries demo_usage) = 3" "ug_settings demo_usage = \<lparr>ul_level = ''metadata'', ul_maxBytes = 100\<rparr>"
    by (simp_all add: demo_usage_def)
  have "prune_loop ?size (\<lambda>es. 0) 100 0 0 demo_usage = ((2, None), ?u)"
    using 2 d[unfolded numeral_2_eq_2] by (subst prune_loop.simps) (simp add: usage_stmt_def f n r numeral_2_eq_2)
  hence "usage_prune ?size (\<lambda>es. 0) demo_usage = ((2, None), ?u)"
    by (simp add: usage_prune_def usage_settings_get_def usage_stmt_def f)
  from usage_prune_oldest[OF demo_usage_reach this] show ?thesis by (simp add: order_asc_def)
qed

lemma usage_level_kept_witness:
  "record_call ''d'' 0 (demo_usage_call\<lparr>uc_args := None, uc_result := Some (200, [])\<rparr>) (Some demo_usage) =
   Some (demo_usage\<lparr>ug_entries := ug_entries demo_usage @ [demo_usage_row ''d'' 0]\<rparr>)"
proof -
  have "record_call ''d'' 0 demo_usage_call (Some demo_usage) = Some (demo_usage\<lparr>ug_entries := ug_entries demo_usage @ [demo_usage_row ''d'' 0]\<rparr>)"
    by code_simp
  from usage_level_kept[OF this, where a = None and t = "[]"] show ?thesis by (simp add: demo_usage_def demo_usage_call_def)
qed

end
