(* ===== verification/Auth.thy ===== *)
theory Auth
  imports McpHttp McpBackend
begin

text \<open>
  \<open>internal/httpx\<close> (\<open>auth.go\<close>, \<open>context.go\<close>, \<open>middleware.go\<close>): what a request carries, the
  cookie session, the anti-forgery check, the roles, the bearer tokens of the protocol
  endpoints and the throttle of the sign-in form.  A middleware is a function from the state
  to a reply or to what it attaches to the context.
\<close>

section \<open>Requests and replies\<close>

text \<open>A request as \<open>net/http\<close> has parsed it: its cookies, its query, and the values of its form
  with whether reading or parsing it failed, which keeps the values before the failure.\<close>

record inbound =
  ib_method :: string
  ib_path :: string
  ib_host :: string
  ib_headers :: header
  ib_cookies :: "(string \<times> string) list"
  ib_query :: "(string, string) gomap"
  ib_form :: "(string, string) gomap"
  ib_formFailed :: bool
  ib_body :: "string option"
  ib_remoteAddr :: string
  ib_tls :: bool

text \<open>A cookie to set; \<open>sk_maxAge\<close> in seconds, negative to expire it.\<close>

record set_cookie =
  sk_name :: string
  sk_value :: string
  sk_path :: string
  sk_httpOnly :: bool
  sk_secure :: bool
  sk_sameSiteLax :: bool
  sk_maxAge :: int

definition session_cookie_name :: string where "session_cookie_name = ''mcpaw_session''"
definition csrf_header_name :: string where "csrf_header_name = ''X-CSRF-Token''"
definition csrf_field_name :: string where "csrf_field_name = ''csrf_token''"

definition session_cookie :: "string \<Rightarrow> bool \<Rightarrow> int \<Rightarrow> set_cookie" where
  "session_cookie v secure maxAge =
     \<lparr>sk_name = session_cookie_name, sk_value = v, sk_path = ''/'', sk_httpOnly = True, sk_secure = secure, sk_sameSiteLax = True,
      sk_maxAge = maxAge div second\<rparr>"

definition cleared_cookie :: "bool \<Rightarrow> set_cookie" where
  "cleared_cookie secure =
     \<lparr>sk_name = session_cookie_name, sk_value = [], sk_path = ''/'', sk_httpOnly = True, sk_secure = secure, sk_sameSiteLax = True, sk_maxAge = - 1\<rparr>"

definition session_cookie_value :: "inbound \<Rightarrow> string" where
  "session_cookie_value r = (case map_of (ib_cookies r) session_cookie_name of None \<Rightarrow> [] | Some v \<Rightarrow> v)"

definition post_form_value :: "inbound \<Rightarrow> string \<Rightarrow> string" where
  "post_form_value r k = (case map_of (ib_form r) k of None \<Rightarrow> [] | Some v \<Rightarrow> v)"

text \<open>\<open>http.Error\<close>, on the headers set so far.\<close>

definition http_error :: "int \<Rightarrow> string \<Rightarrow> header \<Rightarrow> mcp_reply" where
  "http_error status m h =
     \<lparr>hp_status = status,
      hp_headers = header_set ''X-Content-Type-Options'' ''nosniff'' (header_set ''Content-Type'' ''text/plain; charset=utf-8'' h),
      hp_body = m @ newline\<rparr>"

section \<open>The caller's address\<close>

definition resolve_client_ip :: "bool \<Rightarrow> inbound \<Rightarrow> string" where
  "resolve_client_ip trust r =
     (let xff = header_get (ib_headers r) ''X-Forwarded-For'';
          ip = trim_space (takeWhile (\<lambda>c. c \<noteq> CHR '','') xff);
          real = trim_space (header_get (ib_headers r) ''X-Real-IP'') in
      if trust \<and> ip \<noteq> [] then ip
      else if trust \<and> real \<noteq> [] then real
      else (case split_host_port (ib_remoteAddr r) of None \<Rightarrow> ib_remoteAddr r | Some (host, port) \<Rightarrow> host))"

section \<open>Headers every reply has\<close>

definition quoted :: "string \<Rightarrow> string" where "quoted s = [CHR 0x27] @ s @ [CHR 0x27]"

definition security_headers :: "string \<Rightarrow> bool \<Rightarrow> header \<Rightarrow> header" where
  "security_headers nonce hsts h =
     (let h1 = List.fold (\<lambda>(k, v) h. header_set k v h)
        [(''Content-Security-Policy'', join_str ''; ''
           [''default-src '' @ quoted ''none'', ''base-uri '' @ quoted ''none'', ''form-action '' @ quoted ''self'',
            ''frame-ancestors '' @ quoted ''none'', ''img-src '' @ quoted ''self'' @ '' data:'',
            ''style-src '' @ quoted ''self'' @ '' '' @ quoted (''nonce-'' @ nonce), ''script-src '' @ quoted ''self'' @ '' '' @ quoted (''nonce-'' @ nonce),
            ''connect-src '' @ quoted ''self'', ''font-src '' @ quoted ''self'']),
         (''X-Content-Type-Options'', ''nosniff''), (''X-Frame-Options'', ''DENY''), (''Referrer-Policy'', ''no-referrer''),
         (''Cross-Origin-Opener-Policy'', ''same-origin''), (''Cross-Origin-Resource-Policy'', ''same-origin''),
         (''Permissions-Policy'', ''geolocation=(), camera=(), microphone=(), payment=()'')] h
      in if hsts then header_set ''Strict-Transport-Security'' ''max-age=31536000; includeSubDomains'' h1 else h1)"

definition no_store :: "header \<Rightarrow> header" where
  "no_store h = header_set ''Pragma'' ''no-cache'' (header_set ''Cache-Control'' ''no-store, max-age=0'' h)"

definition request_id :: "string \<Rightarrow> inbound \<Rightarrow> string" where
  "request_id idBytes r =
     (let v = header_get (ib_headers r) ''X-Request-Id'' in if v = [] \<or> 64 < length v then new_id ''req'' idBytes else v)"

definition body_limit :: "int \<Rightarrow> inbound \<Rightarrow> inbound" where
  "body_limit mx r =
     (case ib_body r of
        None \<Rightarrow> r
      | Some b \<Rightarrow> if mx < int (length b) then r\<lparr>ib_body := None, ib_form := [], ib_formFailed := True\<rparr> else r)"

text \<open>A reply on top of the headers set before it.\<close>

definition on_headers :: "header \<Rightarrow> mcp_reply \<Rightarrow> mcp_reply" where
  "on_headers h p = p\<lparr>hp_headers := List.fold (\<lambda>(k, v). kv_put k v) (hp_headers p) h\<rparr>"

section \<open>Cookie sessions\<close>

type_synonym signed_in = "(user \<times> web_session) option"

text \<open>Who is signed in, and whether a stale cookie is to be cleared; or an internal error.\<close>

definition optional_session :: "svc_env \<Rightarrow> session_service \<Rightarrow> inbound \<Rightarrow> 'sc system \<Rightarrow> (unit, signed_in \<times> bool) result \<times> 'sc system" where
  "optional_session env sx r s =
     (let v = session_cookie_value r in
      if v = [] then (Inr (None, False), s)
      else case sys_op (run_sql (session_validate env sx v)) s of
        (Inr us, s1) \<Rightarrow> (Inr (Some us, False), s1)
      | (Inl e, s1) \<Rightarrow> if e = ErrUnauthorized then (Inr (None, True), s1) else (Inl (), s1))"

definition safe_method :: "string \<Rightarrow> bool" where
  "safe_method m = (m = ''GET'' \<or> m = ''HEAD'' \<or> m = ''OPTIONS'' \<or> m = ''TRACE'')"

definition presented_csrf :: "inbound \<Rightarrow> string" where
  "presented_csrf r =
     (let h = header_get (ib_headers r) csrf_header_name in if h \<noteq> [] then h else if ib_formFailed r then [] else post_form_value r csrf_field_name)"

definition csrf_ok :: "inbound \<Rightarrow> signed_in \<Rightarrow> bool" where
  "csrf_ok r who =
     (safe_method (ib_method r) \<or> (case who of None \<Rightarrow> True | Some (u, ws) \<Rightarrow> presented_csrf r = ws_csrfToken ws))"

definition has_session :: "signed_in \<Rightarrow> bool" where "has_session who = (who \<noteq> None)"

definition is_admin :: "signed_in \<Rightarrow> bool" where
  "is_admin who = (case who of None \<Rightarrow> False | Some (u, ws) \<Rightarrow> us_role u = RoleAdmin)"

section \<open>Bearer tokens\<close>

text \<open>\<open>sf\<close> is Unicode's simple folding.\<close>

definition bearer_token :: "(nat \<Rightarrow> nat) \<Rightarrow> header \<Rightarrow> string option" where
  "bearer_token sf h =
     (let v = header_get h ''Authorization'' in
      if v = [] then None
      else case str_cut (CHR '' '') v of
        None \<Rightarrow> None
      | Some (scheme, rest) \<Rightarrow>
          if \<not> equal_fold sf scheme ''Bearer'' then None
          else (let t = trim_space rest in if t = [] then None else Some t))"

definition unauthorized :: "string \<Rightarrow> header \<Rightarrow> mcp_reply" where
  "unauthorized m h = http_error 401 m (header_set ''WWW-Authenticate'' (''Bearer realm='' @ [CHR 0x22] @ ''mcpaw'' @ [CHR 0x22]) h)"

definition no_endpoint :: "header \<Rightarrow> mcp_reply" where "no_endpoint = http_error 404 ''no such MCP endpoint''"
definition internal_error :: "header \<Rightarrow> mcp_reply" where "internal_error = http_error 500 ''internal server error''"

text \<open>The instance and the token, or the refusal.  \<open>others\<close> is what other requests do while the
  slug is resolved.\<close>

definition bearer_auth :: "(nat \<Rightarrow> nat) \<Rightarrow> 'sc penv \<Rightarrow> ('sc platform \<Rightarrow> 'sc platform) \<Rightarrow> header \<Rightarrow> string \<Rightarrow> inbound \<Rightarrow> 'sc system
    \<Rightarrow> (mcp_reply, string \<times> string) result \<times> 'sc system" where
  "bearer_auth sf env others h slug r s =
     (case bearer_token sf (ib_headers r) of
        None \<Rightarrow> (Inl (unauthorized ''a bearer token is required'' h), s)
      | Some presented \<Rightarrow>
          (case sys_op (run_sql (token_authenticate (pv_svc env) presented)) s of
             (Inl e, s1) \<Rightarrow> (Inl (if e = ErrUnauthorized then unauthorized ''invalid or expired token'' h else internal_error h), s1)
           | (Inr t, s1) \<Rightarrow>
               (case sys_op (resolve_by_slug env others slug) s1 of
                  (Inl e, s2) \<Rightarrow> (Inl (if e = ErrNotFound then no_endpoint h else internal_error h), s2)
                | (Inr rv, s2) \<Rightarrow>
                    if \<not> token_scopes t (in_id (rv_instance rv)) then (Inl (no_endpoint h), s2)
                    else if \<not> in_enabled (rv_instance rv) then (Inl (http_error 503 ''this MCP endpoint is disabled'' h), s2)
                    else (Inr (in_id (rv_instance rv), tk_id t), s2))))"

section \<open>The throttle of failures\<close>

record attempt_window =
  aw_count :: int
  aw_until :: int

record attempt_limiter =
  al_limit :: int
  al_window :: int
  al_counts :: "(string, attempt_window) gomap"

definition new_attempt_limiter :: "int \<Rightarrow> int \<Rightarrow> attempt_limiter" where
  "new_attempt_limiter n w =
     \<lparr>al_limit = (if n \<le> 0 then 10 else n), al_window = (if w \<le> 0 then 60 * second else w), al_counts = []\<rparr>"

definition attempt_allow :: "int \<Rightarrow> string \<Rightarrow> attempt_limiter \<Rightarrow> bool" where
  "attempt_allow now key l =
     (case map_of (al_counts l) key of
        None \<Rightarrow> True
      | Some w \<Rightarrow> aw_until w < now \<or> aw_count w < al_limit l)"

definition max_attempt_keys :: nat where "max_attempt_keys = 10000"

definition attempt_prune :: "int \<Rightarrow> attempt_limiter \<Rightarrow> attempt_limiter" where
  "attempt_prune now l =
     (if length (al_counts l) < max_attempt_keys then l
      else l\<lparr>al_counts := filter (\<lambda>(k, w). \<not> aw_until w < now) (al_counts l)\<rparr>)"

definition record_failure :: "int \<Rightarrow> string \<Rightarrow> attempt_limiter \<Rightarrow> attempt_limiter" where
  "record_failure now key l =
     (case (case map_of (al_counts l) key of Some w \<Rightarrow> if aw_until w < now then None else Some w | None \<Rightarrow> None) of
        None \<Rightarrow> (let l1 = attempt_prune now l in
                 l1\<lparr>al_counts := kv_put key \<lparr>aw_count = 1, aw_until = now + al_window l\<rparr> (al_counts l1)\<rparr>)
      | Some w \<Rightarrow> l\<lparr>al_counts := kv_put key (w\<lparr>aw_count := aw_count w + 1\<rparr>) (al_counts l)\<rparr>)"

definition record_success :: "string \<Rightarrow> attempt_limiter \<Rightarrow> attempt_limiter" where
  "record_success key l = l\<lparr>al_counts := kv_del key (al_counts l)\<rparr>"

section \<open>Lemmas\<close>

text \<open>The sign-in form asks the throttle, checks the password and then records the outcome: three
  critical sections, between which other requests run.  An event is one critical section at the
  time the clock shows in it; the state is the throttle with the addresses whose attempts were
  let through and are still being checked.  An attempt ends as a failure, a success, or an
  internal error, which records nothing.  A run of events is any interleaving of any number of
  requests.\<close>

datatype attempt_event =
    Asked (ev_time: int) (ev_key: string)
  | Failed (ev_time: int) (ev_key: string)
  | Succeeded (ev_time: int) (ev_key: string)
  | Broken (ev_time: int) (ev_key: string)

type_synonym throttle = "attempt_limiter \<times> string list"

fun throttle_step :: "attempt_event \<Rightarrow> throttle \<Rightarrow> throttle option" where
  "throttle_step (Asked now k) (l, ps) = Some (l, if attempt_allow now k l then k # ps else ps)"
| "throttle_step (Failed now k) (l, ps) = (if k \<in> set ps then Some (record_failure now k l, remove1 k ps) else None)"
| "throttle_step (Succeeded now k) (l, ps) = (if k \<in> set ps then Some (record_success k l, remove1 k ps) else None)"
| "throttle_step (Broken now k) (l, ps) = (if k \<in> set ps then Some (l, remove1 k ps) else None)"

fun throttle_run :: "attempt_event list \<Rightarrow> throttle \<Rightarrow> throttle option" where
  "throttle_run [] st = Some st"
| "throttle_run (e # es) st = Option.bind (throttle_step e st) (throttle_run es)"

text \<open>How many attempts of one address a run lets through, and how many were under way at once.\<close>

definition lets_through :: "string \<Rightarrow> attempt_event \<Rightarrow> throttle \<Rightarrow> int" where
  "lets_through key e st =
     (case e of Asked now k \<Rightarrow> if k = key \<and> attempt_allow now k (fst st) then 1 else 0 | _ \<Rightarrow> 0)"

fun admitted :: "string \<Rightarrow> attempt_event list \<Rightarrow> throttle \<Rightarrow> int" where
  "admitted key [] st = 0"
| "admitted key (e # es) st =
     lets_through key e st + (case throttle_step e st of None \<Rightarrow> 0 | Some st' \<Rightarrow> admitted key es st')"

definition under_way :: "string \<Rightarrow> throttle \<Rightarrow> int" where
  "under_way key st = int (count_list (snd st) key)"

fun peak :: "string \<Rightarrow> attempt_event list \<Rightarrow> throttle \<Rightarrow> int" where
  "peak key [] st = under_way key st"
| "peak key (e # es) st =
     max (under_way key st) (case throttle_step e st of None \<Rightarrow> 0 | Some st' \<Rightarrow> peak key es st')"

definition attempts_ok :: "attempt_limiter \<Rightarrow> bool" where
  "attempts_ok l = (0 < al_limit l \<and> 0 < al_window l \<and> kv_wf (al_counts l) \<and> (\<forall>(k, w)\<in>set (al_counts l). 0 < aw_count w))"

lemma attempts_ok_new: "attempts_ok (new_attempt_limiter n w)"
  by (simp add: attempts_ok_def new_attempt_limiter_def second_def kv_wf_Nil)

lemma attempts_ok_set:
  "attempts_ok l \<Longrightarrow> 0 < aw_count w \<Longrightarrow> attempts_ok (l\<lparr>al_counts := kv_put key w (al_counts l)\<rparr>)"
  unfolding attempts_ok_def using kv_wf_put by (auto simp: kv_all_iff map_of_kv_put split: if_splits)

lemma attempts_ok_prune: "attempts_ok l \<Longrightarrow> attempts_ok (attempt_prune now l)"
  by (auto simp: attempts_ok_def attempt_prune_def kv_wf_filter)

lemma attempts_ok_failure: "attempts_ok l \<Longrightarrow> attempts_ok (record_failure now key l)"
proof -
  assume ok: "attempts_ok l"
  have "0 < aw_count w" if "map_of (al_counts l) key = Some w" for w
    using ok map_of_SomeD[OF that] by (auto simp: attempts_ok_def)
  thus ?thesis using ok
    by (auto simp: record_failure_def Let_def split: option.splits if_splits intro!: attempts_ok_set attempts_ok_prune add_pos_pos)
qed

lemma attempts_ok_success: "attempts_ok l \<Longrightarrow> attempts_ok (record_success key l)"
  by (auto simp: attempts_ok_def record_success_def kv_wf_del) (auto simp: kv_del_def)

lemma attempt_params [simp]:
  "al_limit (record_failure now key l) = al_limit l" "al_window (record_failure now key l) = al_window l"
  "al_limit (record_success key l) = al_limit l" "al_window (record_success key l) = al_window l"
  "al_limit (attempt_prune now l) = al_limit l" "al_window (attempt_prune now l) = al_window l"
  by (simp_all add: record_failure_def record_success_def attempt_prune_def Let_def split: option.split)

lemma prune_window:
  "kv_wf (al_counts l) \<Longrightarrow> map_of (al_counts (attempt_prune now l)) key =
     (case map_of (al_counts l) key of None \<Rightarrow> None
      | Some w \<Rightarrow> if max_attempt_keys \<le> length (al_counts l) \<and> aw_until w < now then None else Some w)"
  by (auto simp: attempt_prune_def map_of_filter_wf split: option.split)

lemma failure_window:
  assumes "kv_wf (al_counts l)"
  shows "map_of (al_counts (record_failure now k l)) key =
     (if key = k then Some (case map_of (al_counts l) k of
          Some w \<Rightarrow> if aw_until w < now then \<lparr>aw_count = 1, aw_until = now + al_window l\<rparr> else w\<lparr>aw_count := aw_count w + 1\<rparr>
        | None \<Rightarrow> \<lparr>aw_count = 1, aw_until = now + al_window l\<rparr>)
      else (case (case map_of (al_counts l) k of Some w \<Rightarrow> if aw_until w < now then None else Some w | None \<Rightarrow> None) of
          None \<Rightarrow> map_of (al_counts (attempt_prune now l)) key | Some w \<Rightarrow> map_of (al_counts l) key))"
  using assms by (auto simp: record_failure_def Let_def map_of_kv_put split: option.splits)

text \<open>What is left to one address until \<open>t1\<close>, from \<open>now\<close> on, in a span that a window covers, when
  at most \<open>m\<close> of its attempts are under way at once and \<open>p\<close> are: a window that has run out or
  is missing starts over; one that lasts past the span counts to its end; one that runs out
  within the span can be followed by another.\<close>

definition window_left :: "int \<Rightarrow> int \<Rightarrow> int \<Rightarrow> int \<Rightarrow> int \<Rightarrow> attempt_window option \<Rightarrow> int" where
  "window_left n m p t1 now w =
     (case w of
        None \<Rightarrow> n - 1 + m - p
      | Some w \<Rightarrow>
          if aw_until w < now then n - 1 + m - p
          else if t1 \<le> aw_until w then (if aw_count w < n then n - 1 - aw_count w + m - p else 0)
          else (n - 1 + m - p) + (if aw_count w < n then n - 1 - aw_count w + m else p))"

definition attempts_left :: "int \<Rightarrow> int \<Rightarrow> int \<Rightarrow> string \<Rightarrow> throttle \<Rightarrow> int" where
  "attempts_left m t1 now key st =
     window_left (al_limit (fst st)) m (under_way key st) t1 now (map_of (al_counts (fst st)) key)"

lemma window_left_nonneg: "0 < n \<Longrightarrow> 0 \<le> p \<Longrightarrow> p \<le> m \<Longrightarrow> 0 \<le> window_left n m p t1 now w"
  by (auto simp: window_left_def split: option.split)

lemma window_left_later:
  "0 < n \<Longrightarrow> 0 \<le> p \<Longrightarrow> p \<le> m \<Longrightarrow> now \<le> now' \<Longrightarrow> now' \<le> t1 \<Longrightarrow> window_left n m p t1 now' w \<le> window_left n m p t1 now w"
  by (auto simp: window_left_def split: option.split)

lemma window_left_expired:
  "aw_until w < now \<Longrightarrow> window_left n m p t1 now (Some w) = window_left n m p t1 now None"
  by (simp add: window_left_def)

lemma window_left_asked:
  "(case w of None \<Rightarrow> True | Some w \<Rightarrow> aw_until w < now \<or> aw_count w < n) \<Longrightarrow>
   window_left n m (p + 1) t1 now w + 1 \<le> window_left n m p t1 now w"
  by (auto simp: window_left_def split: option.splits)

lemma window_left_failed:
  assumes "0 < n" "0 < p" "p \<le> m" "now \<le> t1" "t1 \<le> now + d"
  shows "window_left n m (p - 1) t1 now (Some (case w of
           Some w \<Rightarrow> if aw_until w < now then \<lparr>aw_count = 1, aw_until = now + d\<rparr> else w\<lparr>aw_count := aw_count w + 1\<rparr>
         | None \<Rightarrow> \<lparr>aw_count = 1, aw_until = now + d\<rparr>)) \<le> window_left n m p t1 now w"
  using assms by (cases w) (auto simp: window_left_def)

lemma count_list_remove1: "k \<in> set ps \<Longrightarrow> count_list (remove1 k ps) key = count_list ps key - (if k = key then 1 else 0)"
  by (induction ps) (auto simp: count_list_0_iff)

lemma under_way_remove1:
  "k \<in> set ps \<Longrightarrow> under_way key (l', remove1 k ps) = under_way key (l, ps) - (if k = key then 1 else 0)"
  using count_list_0_iff[of ps key] by (auto simp: under_way_def count_list_remove1 of_nat_diff)

text \<open>One event costs what it lets through.\<close>

lemma event_costs:
  assumes ok: "attempts_ok l" and step: "throttle_step e (l, ps) = Some st'"
    and room: "under_way key (l, ps) \<le> m" "under_way key st' \<le> m"
    and now: "now \<le> ev_time e" "ev_time e \<le> t1" "t1 \<le> ev_time e + al_window l"
    and own: "ev_key e = key \<Longrightarrow> is_Asked e \<or> is_Failed e"
  shows "attempts_left m t1 (ev_time e) key st' + lets_through key e (l, ps) \<le> attempts_left m t1 now key (l, ps)"
proof -
  have n: "0 < al_limit l" and wf: "kv_wf (al_counts l)" using ok by (simp_all add: attempts_ok_def)
  have p: "0 \<le> under_way key (l, ps)" by (simp add: under_way_def)
  have later: "attempts_left m t1 (ev_time e) key (l, ps) \<le> attempts_left m t1 now key (l, ps)"
    using window_left_later[OF n p room(1) now(1,2)] by (simp add: attempts_left_def)
  have "attempts_left m t1 (ev_time e) key st' + lets_through key e (l, ps) \<le> attempts_left m t1 (ev_time e) key (l, ps)"
  proof (cases e)
    case (Asked t k)
    have up: "under_way key (l, key # ps) = under_way key (l, ps) + 1" by (simp add: under_way_def)
    have other: "k \<noteq> key \<Longrightarrow> under_way key (l, k # ps) = under_way key (l, ps)" by (simp add: under_way_def)
    show ?thesis
    proof (cases "k = key \<and> attempt_allow t k l")
      case True
      thus ?thesis
        using step Asked up window_left_asked[where w = "map_of (al_counts l) key" and now = t and n = "al_limit l" and m = m
            and p = "under_way key (l, ps)" and ?t1.0 = t1]
        by (auto simp: attempts_left_def lets_through_def attempt_allow_def split: option.splits)
    next
      case False
      hence "under_way key st' = under_way key (l, ps)" "fst st' = l"
        using step Asked other by (cases "k = key"; cases "attempt_allow t k l"; simp; fastforce)+
      thus ?thesis using False Asked by (auto simp: attempts_left_def lets_through_def)
    qed
  next
    case (Failed t k)
    have k: "k \<in> set ps" and st: "st' = (record_failure t k l, remove1 k ps)" using step Failed by (auto split: if_splits)
    note uw = under_way_remove1[OF k, of key "record_failure t k l" l]
    note w = failure_window[OF wf, of t k key]
    show ?thesis
    proof (cases "k = key")
      case True
      have pos: "0 < under_way key (l, ps)" using k True count_list_0_iff[of ps key] by (auto simp: under_way_def)
      show ?thesis
        using window_left_failed[OF n pos room(1), where now = t and ?t1.0 = t1 and d = "al_window l" and w = "map_of (al_counts l) key"] now uw w True Failed
        by (simp add: attempts_left_def st lets_through_def)
    next
      case False
      have "window_left n' m p' t1 t (map_of (al_counts (record_failure t k l)) key) = window_left n' m p' t1 t (map_of (al_counts l) key)" for n' p'
        using w False prune_window[OF wf, of t key] by (auto simp: window_left_expired split: option.splits)
      thus ?thesis using uw False Failed by (simp add: attempts_left_def st lets_through_def)
    qed
  next
    case (Succeeded t k)
    hence k: "k \<in> set ps" and st: "st' = (record_success k l, remove1 k ps)" and other: "k \<noteq> key"
      using step own by (auto split: if_splits)
    show ?thesis using under_way_remove1[OF k, of key "record_success k l" l] other wf Succeeded
      by (simp add: attempts_left_def st lets_through_def record_success_def)
  next
    case (Broken t k)
    hence k: "k \<in> set ps" and st: "st' = (l, remove1 k ps)" and other: "k \<noteq> key" using step own by (auto split: if_splits)
    show ?thesis using under_way_remove1[OF k, of key l l] other Broken by (simp add: attempts_left_def st lets_through_def)
  qed
  thus ?thesis using later by linarith
qed

lemma throttle_step_ok:
  assumes "attempts_ok (fst st)" "throttle_step e st = Some st'"
  shows "attempts_ok (fst st') \<and> al_limit (fst st') = al_limit (fst st) \<and> al_window (fst st') = al_window (fst st)"
proof (cases st)
  case (Pair l ps)
  thus ?thesis using assms by (cases e) (auto simp: attempts_ok_failure attempts_ok_success split: if_splits)
qed

lemma peak_under_way: "under_way key st \<le> peak key es st"
  by (cases es) auto

lemma throttle_run_bound:
  assumes "attempts_ok (fst st)" "throttle_run es st = Some st'" "peak key es st \<le> m"
    "sorted (now # map ev_time es)" "\<forall>e\<in>set es. t0 \<le> ev_time e \<and> ev_time e \<le> t0 + al_window (fst st)"
    "\<forall>e\<in>set es. ev_key e = key \<longrightarrow> is_Asked e \<or> is_Failed e"
  shows "admitted key es st \<le> attempts_left m (t0 + al_window (fst st)) now key st \<and> attempts_ok (fst st')"
  using assms
proof (induction es arbitrary: st now)
  case Nil
  have "0 \<le> under_way key st" by (simp add: under_way_def)
  thus ?case using Nil by (auto simp: attempts_left_def attempts_ok_def intro!: window_left_nonneg)
next
  case (Cons e es)
  obtain l ps where st: "st = (l, ps)" by (rule prod.exhaust)
  obtain st1 where st1: "throttle_step e st = Some st1" "throttle_run es st1 = Some st'"
    using Cons.prems(2) by (auto simp: bind_eq_Some_conv)
  note ok1 = throttle_step_ok[OF Cons.prems(1) st1(1)]
  have pk: "peak key es st1 \<le> m" "under_way key st \<le> m" using Cons.prems(3) st1(1) by auto
  have ih: "admitted key es st1 \<le> attempts_left m (t0 + al_window (fst st)) (ev_time e) key st1 \<and> attempts_ok (fst st')"
    using Cons.IH[OF _ st1(2) pk(1), of "ev_time e"] ok1 Cons.prems(4-6) by simp
  have "attempts_left m (t0 + al_window l) (ev_time e) key st1 + lets_through key e (l, ps)
      \<le> attempts_left m (t0 + al_window l) now key (l, ps)"
    using event_costs[of l e ps st1 key m now "t0 + al_window l"] Cons.prems(1,4-6) st1(1) pk peak_under_way[of key st1 es]
    by (force simp: st)
  thus ?case using ih st1(1) by (simp add: st)
qed

section \<open>Properties\<close>

text \<open>C39: the sign-in throttle, under any interleaving.  Take a span of one window in which no
  attempt of an address succeeds or ends in an internal error, and in which the address never
  has more than \<open>m\<close> attempts under way at once.  However the critical sections of its requests
  and of any other address's interleave, and even when the table of addresses is pruned
  meanwhile, no more than the limit less one plus \<open>m\<close> of its attempts are let through when it
  starts without a window of its own, and never more than twice that, from any state the
  throttle can be in; one attempt at a time, that is the limit, and twice the limit.  The
  throttle stays in such a state.\<close>
theorem login_throttled:
  assumes "attempts_ok l" "throttle_run es (l, ps) = Some st'"
    and "sorted (map ev_time es)" "\<forall>e\<in>set es. t0 \<le> ev_time e \<and> ev_time e \<le> t0 + al_window l"
    and "\<forall>e\<in>set es. ev_key e = key \<longrightarrow> is_Asked e \<or> is_Failed e"
  shows "admitted key es (l, ps) \<le>
       (if map_of (al_counts l) key = None then 1 else 2) * (al_limit l - 1 + peak key es (l, ps)) \<and>
     attempts_ok (fst st') \<and> attempts_ok (new_attempt_limiter n w)"
proof -
  let ?m = "peak key es (l, ps)" and ?p = "under_way key (l, ps)"
  have "sorted (t0 # map ev_time es)" using assms(3,4) by simp
  hence b: "admitted key es (l, ps) \<le> attempts_left ?m (t0 + al_window l) t0 key (l, ps) \<and> attempts_ok (fst st')"
    using throttle_run_bound[of "(l, ps)" es st' key ?m t0 t0] assms by simp
  have p: "0 \<le> ?p" "?p \<le> ?m" using peak_under_way[of key "(l, ps)" es] by (simp_all add: under_way_def)
  have "0 < aw_count w" if "map_of (al_counts l) key = Some w" for w
    using assms(1) map_of_SomeD[OF that] by (auto simp: attempts_ok_def)
  moreover have "0 < al_limit l" using assms(1) by (simp add: attempts_ok_def)
  ultimately have "attempts_left ?m (t0 + al_window l) t0 key (l, ps) \<le>
      (if map_of (al_counts l) key = None then 1 else 2) * (al_limit l - 1 + ?m)"
    using p by (fastforce simp: attempts_left_def window_left_def split: option.splits)
  thus ?thesis using b by (auto simp: attempts_ok_new)
qed

text \<open>Against a limit of two: one failure, and then three attempts at once, of which the bound
  allows exactly these four; the attempt after them is refused.\<close>

definition burst :: "attempt_event list" where
  "burst = [Asked 0 ''a'', Failed 1 ''a'', Asked 2 ''a'', Asked 2 ''b'', Asked 2 ''a'', Asked 3 ''a'',
            Failed 4 ''a'', Succeeded 5 ''b'', Failed 5 ''a'', Failed 6 ''a'', Asked 7 ''a'']"

lemma login_throttled_witness:
  "admitted ''a'' burst (new_attempt_limiter 2 100, []) = 4 \<and> peak ''a'' burst (new_attempt_limiter 2 100, []) = 3 \<and>
   admitted ''a'' burst (new_attempt_limiter 2 100, []) \<le> 2 - 1 + peak ''a'' burst (new_attempt_limiter 2 100, [])"
proof -
  have ev: "admitted ''a'' burst (new_attempt_limiter 2 100, []) = 4" "peak ''a'' burst (new_attempt_limiter 2 100, []) = 3"
    "throttle_run burst (new_attempt_limiter 2 100, []) \<noteq> None" "sorted (map ev_time burst)"
    by code_simp+
  obtain st' where run: "throttle_run burst (new_attempt_limiter 2 100, []) = Some st'" using ev(3) by blast
  have "attempts_ok (new_attempt_limiter 2 100)" by (rule attempts_ok_new)
  note b = login_throttled[OF this run ev(4), of 0 "''a''"]
  have p: "al_window (new_attempt_limiter 2 100) = 100" "al_limit (new_attempt_limiter 2 100) = 2" "al_counts (new_attempt_limiter 2 100) = []"
    by (simp_all add: new_attempt_limiter_def)
  have "\<forall>e\<in>set burst. 0 \<le> ev_time e \<and> ev_time e \<le> 0 + al_window (new_attempt_limiter 2 100)"
    "\<forall>e\<in>set burst. ev_key e = ''a'' \<longrightarrow> is_Asked e \<or> is_Failed e" by (simp_all add: burst_def p)
  with b ev(1,2) p show ?thesis by simp
qed

end
