(* ===== verification/Router.thy ===== *)
theory Router
  imports Auth
begin

text \<open>
  \<open>internal/httpapi/router.go\<close>: the protocol endpoints behind their chain of middleware, and
  the probes.  An endpoint composes the authentication, the protocol's transport and the
  platform's backend.
\<close>

section \<open>The protocol endpoints\<close>

text \<open>The surroundings of a request: those of the check and of the identity attached after it,
  with what other requests do during each and in between; a nonce is none when the random
  source fails.\<close>

record 'sc server =
  sr_fold :: "nat \<Rightarrow> nat"
  sr_penv :: "'sc penv"
  sr_others :: "'sc platform \<Rightarrow> 'sc platform"
  sr_between :: "'sc platform \<Rightarrow> 'sc platform"
  sr_attachPenv :: "'sc penv"
  sr_attachOthers :: "'sc platform \<Rightarrow> 'sc platform"
  sr_backend :: "'sc backend_env"
  sr_transport :: "structured transport"
  sr_events :: "stream_event list"
  sr_trustProxy :: bool
  sr_secure :: bool
  sr_nonce :: "string option"
  sr_idBytes :: string
  sr_maxBody :: int
  sr_sessions :: session_service

definition on_platform :: "('sc platform \<Rightarrow> 'sc platform) \<Rightarrow> 'sc system \<Rightarrow> 'sc system" where
  "on_platform f s = (let ix = sy_indexer s in s\<lparr>sy_indexer := ix\<lparr>xs_platform := f (xs_platform ix)\<rparr>\<rparr>)"

definition write_text :: "int \<Rightarrow> string \<Rightarrow> header \<Rightarrow> mcp_reply" where
  "write_text status body h =
     \<lparr>hp_status = status,
      hp_headers = header_set ''X-Content-Type-Options'' ''nosniff'' (header_set ''Content-Type'' ''text/plain; charset=utf-8'' h),
      hp_body = body @ newline\<rparr>"

text \<open>The identity carried forward: the instance as it is now, when it can be resolved.\<close>

definition attach_identity :: "'sc server \<Rightarrow> string \<Rightarrow> string \<Rightarrow> 'sc system \<Rightarrow> 'sc resolved option \<times> 'sc system" where
  "attach_identity sv slug tokenID s =
     (let (rv, s1) = sys_op (resolve_by_slug (sr_attachPenv sv) (sr_attachOthers sv) slug) (on_platform (sr_between sv) s)
      in (case rv of Inr r \<Rightarrow> Some r | Inl e \<Rightarrow> None,
          on_platform (\<lambda>p. p\<lparr>pf_db := token_touch_last_used (pv_svc (sr_attachPenv sv)) tokenID (pf_db p)\<rparr>) s1))"

definition backend_for :: "'sc server \<Rightarrow> inbound \<Rightarrow> string \<Rightarrow> 'sc resolved option \<Rightarrow> ('sc system, structured) backend" where
  "backend_for sv r tokenID rv =
     mcp_backend ((sr_backend sv)\<lparr>be_resolved := rv, be_token := tokenID, be_ip := resolve_client_ip (sr_trustProxy sv) r\<rparr>)"

definition mcp_request_of :: "string \<Rightarrow> inbound \<Rightarrow> mcp_request" where
  "mcp_request_of i r = \<lparr>mq_method = ib_method r, mq_instance = Some i, mq_headers = ib_headers r, mq_body = ib_body r\<rparr>"

definition mount_mcp :: "'sc server \<Rightarrow> string \<Rightarrow> inbound \<Rightarrow> header \<Rightarrow> 'sc system \<Rightarrow> session_store
    \<Rightarrow> mcp_reply \<times> 'sc system \<times> session_store" where
  "mount_mcp sv slug r0 h0 s st =
     (if ib_method r0 \<notin> {''POST'', ''GET'', ''HEAD'', ''DELETE''}
      then (write_text 405 ''method not allowed'' (header_set ''Allow'' ''GET, POST, DELETE'' h0), s, st)
      else
        let h = no_store h0; r = body_limit (sr_maxBody sv) r0 in
        case bearer_auth (sr_fold sv) (sr_penv sv) (sr_others sv) h slug r s of
          (Inl p, s1) \<Rightarrow> (p, s1, st)
        | (Inr (i, tokenID), s1) \<Rightarrow>
            (let (rv, s2) = attach_identity sv slug tokenID s1;
                 (p, s3, st1) = serve_http (backend_for sv r tokenID rv) (sr_transport sv) (sr_events sv) (mcp_request_of i r) s2 st
             in (on_headers h p, s3, st1)))"

text \<open>The headers of the outermost chain (\<open>Middleware\<close> has the chain itself and what it does with a panic).\<close>

definition root_headers :: "'sc server \<Rightarrow> inbound \<Rightarrow> string \<Rightarrow> header" where
  "root_headers sv r nonce = security_headers nonce (sr_secure sv) (header_set ''X-Request-Id'' (request_id (sr_idBytes sv) r) [])"

definition serve_mcp :: "'sc server \<Rightarrow> string \<Rightarrow> inbound \<Rightarrow> 'sc system \<Rightarrow> session_store \<Rightarrow> mcp_reply \<times> 'sc system \<times> session_store" where
  "serve_mcp sv slug r s st =
     (case sr_nonce sv of
        None \<Rightarrow> (internal_error (header_set ''X-Request-Id'' (request_id (sr_idBytes sv) r) []), s, st)
      | Some nonce \<Rightarrow> mount_mcp sv slug r (root_headers sv r nonce) s st)"

section \<open>Probes\<close>

definition healthz :: "header \<Rightarrow> mcp_reply" where "healthz = write_text 200 ''ok''"

definition readyz :: "header \<Rightarrow> 'sc system \<Rightarrow> mcp_reply \<times> 'sc system" where
  "readyz h s =
     (case sys_op (run_sql (select (\<lambda>d. ()))) s of
        (Inl e, s1) \<Rightarrow> (write_text 503 ''database unavailable'' h, s1)
      | (Inr u, s1) \<Rightarrow> (write_text 200 ''ready'' h, s1))"

definition version_probe :: "string \<Rightarrow> header \<Rightarrow> mcp_reply" where "version_probe v = write_text 200 v"

section \<open>Lemmas\<close>

lemma sys_op_usage [simp]: "sy_usage (snd (sys_op m s)) = sy_usage s"
  by (simp add: sys_op_def Let_def split: prod.split)

lemma on_platform_usage [simp]: "sy_usage (on_platform f s) = sy_usage s"
  by (simp add: on_platform_def Let_def)

lemma token_authenticate_Inr:
  assumes "token_authenticate env presented d = (Inr t, d')"
  shows "t \<in> set (db_tokens d) \<and> tk_hash t = token_lookup_key (sv_crypto env) (sv_keyring env) (trim_space presented) \<and>
     token_usable t (sv_now env) \<and> has_prefix token_prefix (trim_space presented)"
proof -
  let ?p = "trim_space presented" and ?k = "token_lookup_key (sv_crypto env) (sv_keyring env) (trim_space presented)"
  have "\<not> (?p = [] \<or> \<not> has_prefix token_prefix ?p)"
  proof
    assume "?p = [] \<or> \<not> has_prefix token_prefix ?p"
    thus False using assms unfolding token_authenticate_def Let_def by (simp only: if_P prod.inject sum.distinct simp_thms)
  qed
  note shape = this
  have ok: "?p \<noteq> []" "has_prefix token_prefix ?p" using shape by blast+
  obtain x d1 where x: "token_by_key ?k d = (x, d1)" by (rule prod.exhaust)
  have u: "x = Inr t \<and> token_usable t (sv_now env)"
    using assms unfolding token_authenticate_def Let_def if_not_P[OF shape] x
    by (cases x) (simp_all split: if_splits)
  obtain bs xs where "filter (\<lambda>r. tk_hash r = ?k) (db_tokens (d\<lparr>db_faults := bs\<rparr>)) = t # xs"
    using select_row_Inr[OF x[unfolded token_by_key_def]] u by blast
  thus ?thesis using u ok by (simp add: filter_eq_Cons_iff) auto
qed

text \<open>An authentication that succeeds: the token, and the instance it opens.\<close>

lemma bearer_auth_Inr:
  assumes "bearer_auth sf env others h slug r s = (Inr (i, tid), s')"
  obtains presented t s1 rv where "bearer_token sf (ib_headers r) = Some presented"
    "t \<in> set (db_tokens (sys_db s))" "tk_hash t = token_lookup_key (sv_crypto (pv_svc env)) (sv_keyring (pv_svc env)) (trim_space presented)"
    "token_usable t (sv_now (pv_svc env))" "tk_id t = tid"
    "sys_op (resolve_by_slug env others slug) s1 = (Inr rv, s')" "in_id (rv_instance rv) = i" "in_enabled (rv_instance rv)" "token_scopes t i"
    "s1 = snd (sys_op (run_sql (token_authenticate (pv_svc env) presented)) s)"
proof -
  obtain presented where p: "bearer_token sf (ib_headers r) = Some presented"
    using assms by (cases "bearer_token sf (ib_headers r)") (simp_all add: bearer_auth_def)
  obtain x s1 where x: "sys_op (run_sql (token_authenticate (pv_svc env) presented)) s = (x, s1)" by (rule prod.exhaust)
  obtain t where t: "x = Inr t" using assms p x by (cases x) (simp_all add: bearer_auth_def)
  obtain y s2 where y: "sys_op (resolve_by_slug env others slug) s1 = (y, s2)" by (rule prod.exhaust)
  obtain rv where rv: "y = Inr rv" using assms p x t y by (cases y) (simp_all add: bearer_auth_def)
  have ends: "token_scopes t (in_id (rv_instance rv))" "in_enabled (rv_instance rv)" "i = in_id (rv_instance rv)" "tid = tk_id t" "s' = s2"
    using assms p x t y rv by (auto simp: bearer_auth_def split: if_splits)
  obtain d' where "token_authenticate (pv_svc env) presented (sys_db s) = (Inr t, d')"
    using x t by (auto simp: sys_op_def run_sql_def Let_def split: prod.splits)
  from token_authenticate_Inr[OF this] show ?thesis using that p x t y rv ends by auto
qed

text \<open>A refusal says one of four things.\<close>

lemma refusal_status [simp]:
  "hp_status (unauthorized m h) = 401" "hp_status (no_endpoint h) = 404" "hp_status (internal_error h) = 500" "hp_status (http_error n m h) = n"
  by (simp_all add: unauthorized_def no_endpoint_def internal_error_def http_error_def)

lemma body_limit_headers [simp]: "ib_headers (body_limit n r) = ib_headers r" "ib_method (body_limit n r) = ib_method r"
  by (simp_all add: body_limit_def split: option.split)

lemma bearer_auth_Inl:
  assumes "bearer_auth sf env others h slug r s = (Inl p, s')"
  shows "(p = no_endpoint h \<or> hp_status p \<in> {401, 500, 503}) \<and> sy_usage s' = sy_usage s"
proof (cases "bearer_token sf (ib_headers r)")
  case None thus ?thesis using assms by (auto simp: bearer_auth_def)
next
  case (Some presented)
  obtain x s1 where x: "sys_op (run_sql (token_authenticate (pv_svc env) presented)) s = (x, s1)" by (rule prod.exhaust)
  have 1: "sy_usage s1 = sy_usage s" using sys_op_usage[of "run_sql (token_authenticate (pv_svc env) presented)" s] x by simp
  show ?thesis
  proof (cases x)
    case (Inl e) thus ?thesis using assms Some x 1 by (auto simp: bearer_auth_def)
  next
    case (Inr t)
    obtain y s2 where y: "sys_op (resolve_by_slug env others slug) s1 = (y, s2)" by (rule prod.exhaust)
    have 2: "sy_usage s2 = sy_usage s" using sys_op_usage[of "resolve_by_slug env others slug" s1] y 1 by simp
    show ?thesis
      by (cases y) (use assms Some x Inr y 2 in \<open>auto simp: bearer_auth_def split: if_splits\<close>)
  qed
qed

lemma serve_http_grow:
  assumes "serve_http b tp es r s st = (p, s', st')" "mq_instance r = Some i"
  shows "sessions_grow i st st'"
proof (cases "i = []")
  case True
  have del: "sessions_grow i st (session_delete (header_get (mq_headers r) header_session_id) st)"
    unfolding sessions_grow_def by (auto intro: session_inv_step step_delete) (auto simp: session_delete_def session_inv_def split: if_splits)
  have no: "instance_id_from (mq_instance r) = None" using True assms(2) by (simp add: instance_id_from_def)
  show ?thesis using assms(1) no del
    by (auto simp: serve_http_def handle_post_def handle_get_def handle_delete_def Let_def split: if_splits prod.splits)
next
  case False
  note assms = assms False
  have inst: "instance_id_from (mq_instance r) = Some i" using assms(2,3) by (simp add: instance_id_from_def)
  have get: "sessions_grow i st (snd (handle_get tp es r st))"
    by (auto simp: handle_get_def inst Let_def split: prod.splits intro: sessions_grow_get)
  have del: "sessions_grow i st (snd (handle_delete r st))"
    unfolding sessions_grow_def handle_delete_def Let_def
    by (auto intro: session_inv_step step_delete) (auto simp: session_delete_def session_inv_def split: if_splits)
  have post: "sessions_grow i st st2" if "handle_post b tp r s st = (p2, s2, st2)" for p2 s2 st2
    using that
  proof (cases rule: handle_post_cases)
    case refused thus ?thesis using inst post_session_grow by fastforce
  next
    case (served inst reqs sess st1 rs h)
    thus ?thesis using inst \<open>instance_id_from (mq_instance r) = Some i\<close> sessions_grow_trans[OF post_session_grow post_loop_grow] by auto
  qed
  show ?thesis using assms(1) get del post
    by (auto simp: serve_http_def split: if_splits prod.splits)
qed


section \<open>Properties\<close>


text \<open>A ping with the token of the instance, and with the same token at another slug.\<close>

definition demo_structured_transport :: "structured transport" where
  "demo_structured_transport = \<lparr>tp_options = tp_options demo_transport, tp_quote = id, tp_decoder = (\<lambda>sh t. []), tp_structured = (\<lambda>u. None), tp_flusher = True,
     tp_now = 9, tp_random = (\<lambda>k. Some ''zzzzzz''), tp_clock = (\<lambda>k. 9)\<rparr>"

definition demo_server :: "unit server" where
  "demo_server = \<lparr>sr_fold = id, sr_penv = inst_env, sr_others = id, sr_between = id, sr_attachPenv = inst_env, sr_attachOthers = id,
     sr_backend = demo_backend_env, sr_transport = demo_structured_transport, sr_events = [], sr_trustProxy = False, sr_secure = True,
     sr_nonce = Some ''n'', sr_idBytes = ''b'', sr_maxBody = 1000, sr_sessions = demo_sessions\<rparr>"

definition demo_plain :: string where "demo_plain = token_prefix @ ''abc''"

definition demo_token :: token where
  "demo_token = \<lparr>tk_id = ''tok_1'', tk_name = ''ci'', tk_hash = token_lookup_key (sv_crypto (pv_svc inst_env)) (sv_keyring (pv_svc inst_env)) demo_plain,
     tk_prefix = [], tk_instanceID = inst_id, tk_createdBy = [], tk_createdAt = 0, tk_expiresAt = None, tk_lastUsedAt = None, tk_revokedAt = None\<rparr>"

definition demo_served :: "unit system" where
  "demo_served = on_platform (\<lambda>p. p\<lparr>pf_db := (pf_db p)\<lparr>db_tokens := [demo_token]\<rparr>\<rparr>) demo_system"

definition demo_ping :: inbound where
  "demo_ping = \<lparr>ib_method = ''POST'', ib_path = [], ib_host = [], ib_headers = [(''Authorization'', ''Bearer '' @ demo_plain), (''Mcp-Session-Id'', ''YWJjZGVm'')],
     ib_cookies = [], ib_query = [], ib_form = [], ib_formFailed = False, ib_body = mq_body (demo_post [] []), ib_remoteAddr = [], ib_tls = True\<rparr>"

definition demo_own_store :: session_store where
  "demo_own_store = snd (session_create (Some ''abcdef'') 5 inst_id ''2025-06-18'' ''cl'' ''1'' (new_session_store demo_config))"


end
