(* ===== verification/Web.thy ===== *)
theory Web
  imports Router
begin

text \<open>
  \<open>internal/webui\<close>: \<open>flash.go\<close> and the parts of \<open>webui.go\<close> and of the handler files that all
  pages share: one-shot messages, the state the interface keeps, what a page is rendered
  from, the reading of form fields, and the messages shown for errors.  A page is the data
  given to its template; the templates themselves are not modelled.
\<close>

section \<open>One-shot messages\<close>

datatype flash_level = FlashSuccess | FlashError | FlashInfo

record test_outcome =
  oc_ok :: bool
  oc_tool :: string
  oc_statusCode :: int
  oc_durationMS :: int
  oc_message :: test_message
  oc_hint :: test_hint
  oc_preview :: string

text \<open>\<open>fl_secret\<close> is a token in the clear, to be shown once.\<close>

record flash =
  fl_level :: flash_level
  fl_message :: string
  fl_secret :: string
  fl_details :: "string list"
  fl_test :: "test_outcome option"

record flash_entry =
  fe_flash :: flash
  fe_expires :: int

record flash_store =
  fs_ttl :: int
  fs_items :: "(string, flash_entry) gomap"

definition new_flash_store :: "int \<Rightarrow> flash_store" where
  "new_flash_store ttl = \<lparr>fs_ttl = (if ttl \<le> 0 then 2 * 60 * second else ttl), fs_items = []\<rparr>"

definition flash_prune :: "int \<Rightarrow> flash_store \<Rightarrow> flash_store" where
  "flash_prune now st = st\<lparr>fs_items := filter (\<lambda>(k, v). \<not> fe_expires v < now) (fs_items st)\<rparr>"

text \<open>The clock is read once to prune and once to date the message.\<close>

definition flash_set :: "int \<Rightarrow> int \<Rightarrow> string \<Rightarrow> flash \<Rightarrow> flash_store \<Rightarrow> flash_store" where
  "flash_set pruneNow now sid f st =
     (if sid = [] then st
      else let st1 = flash_prune pruneNow st
           in st1\<lparr>fs_items := kv_put sid \<lparr>fe_flash = f, fe_expires = now + fs_ttl st\<rparr> (fs_items st1)\<rparr>)"

definition flash_take :: "int \<Rightarrow> string \<Rightarrow> flash_store \<Rightarrow> flash option \<times> flash_store" where
  "flash_take now sid st =
     (if sid = [] then (None, st)
      else case map_of (fs_items st) sid of
        None \<Rightarrow> (None, st)
      | Some x \<Rightarrow> (if fe_expires x < now then None else Some (fe_flash x), st\<lparr>fs_items := kv_del sid (fs_items st)\<rparr>))"

section \<open>State and surroundings\<close>

record 'sc web =
  wb_system :: "'sc system"
  wb_flashes :: flash_store
  wb_limiter :: attempt_limiter

definition new_web :: "attempt_limiter option \<Rightarrow> 'sc system \<Rightarrow> 'sc web" where
  "new_web login sys =
     \<lparr>wb_system = sys, wb_flashes = new_flash_store (2 * 60 * second),
      wb_limiter = (case login of None \<Rightarrow> new_attempt_limiter 10 (60 * second) | Some l \<Rightarrow> l)\<rparr>"

definition session_max_age :: "int \<Rightarrow> int" where
  "session_max_age n = (if n \<le> 0 then 24 * 60 * 60 * second else n)"

text \<open>The surroundings of one request: \<open>we_penv n\<close> those of its \<open>n\<close>-th call of a service,
  \<open>we_validate\<close> those of the check of its cookie, \<open>we_between\<close> what other requests do to the database while a password is hashed or checked,
  \<open>we_errorText\<close> the text of an error the request meets, \<open>we_quote\<close> \<open>strconv.Quote\<close>,
  \<open>we_order\<close> the order in which a map is iterated, and the readings of the clocks of the message
  store and of the throttle.\<close>

record 'sc web_env =
  we_penv :: "nat \<Rightarrow> 'sc penv"
  we_validate :: svc_env
  we_between :: "db \<Rightarrow> db"
  we_ix :: "'sc index_env"
  we_hasIndexer :: bool
  we_engine :: "'sc environment"
  we_elapsed :: int
  we_engineText :: "engine_error \<Rightarrow> string"
  we_freed :: "usage_entry list \<Rightarrow> nat"
  we_errorText :: "domain_error \<Rightarrow> string"
  we_quote :: "string \<Rightarrow> string"
  we_order :: "(string \<times> string) list \<Rightarrow> (string \<times> string) list"
  we_sessions :: session_service
  we_publicURL :: string
  we_version :: string
  we_secure :: bool
  we_trustProxy :: bool
  we_maxAge :: int
  we_maxBody :: int
  we_nonce :: "string option"
  we_idBytes :: string
  we_takeNow :: int
  we_setNow :: "int \<times> int"
  we_allowNow :: int
  we_failNow :: int

type_synonym ('sc, 'a) wop = "'sc web \<Rightarrow> (domain_error, 'a) result \<times> 'sc web"

definition w_op :: "('sc, 'a) op \<Rightarrow> ('sc, 'a) wop" where
  "w_op m s = (let (r, y) = sys_op m (wb_system s) in (r, s\<lparr>wb_system := y\<rparr>))"

definition w_sql :: "'a sql \<Rightarrow> ('sc, 'a) wop" where "w_sql m = w_op (run_sql m)"

text \<open>The sentinel an error of the indexer wraps.\<close>

fun index_sentinel :: "index_error \<Rightarrow> domain_error" where
  "index_sentinel (IxDomain e) = e"
| "index_sentinel (IxModelChanged a b) = ErrInvalidInput"
| "index_sentinel (IxStoring a e) = e"
| "index_sentinel (IxClearing a e) = e"
| "index_sentinel _ = ErrOther"

definition w_index :: "('sc, 'a) xop \<Rightarrow> ('sc, 'a) wop" where
  "w_index m s =
     (let y = wb_system s; (r, ix) = m (sy_indexer y)
      in (case r of Inl e \<Rightarrow> Inl (index_sentinel e) | Inr a \<Rightarrow> Inr a, s\<lparr>wb_system := y\<lparr>sy_indexer := ix\<rparr>\<rparr>))"

definition w_usage :: "(usage_store option \<Rightarrow> (domain_error, 'a) result \<times> usage_store option) \<Rightarrow> ('sc, 'a) wop" where
  "w_usage m s = (let y = wb_system s; (r, u) = m (sy_usage y) in (r, s\<lparr>wb_system := y\<lparr>sy_usage := u\<rparr>\<rparr>))"

text \<open>An operation on the usage log that is audited.\<close>

definition w_usage_audited :: "(usage_store option \<times> 'sc platform \<Rightarrow> (domain_error, 'a) result \<times> (usage_store option \<times> 'sc platform))
    \<Rightarrow> ('sc, 'a) wop" where
  "w_usage_audited m s =
     (let y = wb_system s; ix = sy_indexer y; (r, u, p) = m (sy_usage y, xs_platform ix)
      in (r, s\<lparr>wb_system := y\<lparr>sy_usage := u, sy_indexer := ix\<lparr>xs_platform := p\<rparr>\<rparr>\<rparr>))"

definition web_registry :: "'sc web \<Rightarrow> 'sc registry" where
  "web_registry s = pf_registry (xs_platform (sy_indexer (wb_system s)))"

section \<open>Pages\<close>

record palette_item =
  pi_first :: bool
  pi_group :: string
  pi_search :: string
  pi_href :: string
  pi_label :: string
  pi_hint :: string

record instance_form =
  fm_name :: string
  fm_slug :: string
  fm_description :: string
  fm_baseURL :: string
  fm_variables :: "(string, string) gomap"
  fm_enabled :: bool
  fm_allowPrivateNetwork :: bool
  fm_hostHeaderOverride :: string

record token_row =
  tw_token :: token
  tw_scopeLabel :: string
  tw_revoked :: bool

record audit_view =
  av_event :: audit_event
  av_actorLabel :: string
  av_detailLabel :: string

text \<open>What each template gets beside the frame.\<close>

datatype 'sc page_data =
    NoData
  | UsersData "user list"
  | InstancesData "summary list"
  | NewInstanceData "'sc reg_entry list" string "'sc reg_entry option" instance_form
  | DetailData "'sc instance_detail" "(index_status \<times> nat) option"
  | ConnectorsData "'sc reg_entry list"
  | TokensData "token_row list" "summary list" string
  | AuditData "audit_view list" string
  | SearchData embedder_settings bool bool
  | UsageData "usage_entry list" "summary list" string string string
  | UsageSettingsData string int

record 'sc page =
  pg_title :: string
  pg_nonce :: string
  pg_user :: "user option"
  pg_csrf :: string
  pg_flash :: "flash option"
  pg_nav :: string
  pg_publicURL :: string
  pg_version :: string
  pg_palette :: "palette_item list"
  pg_data :: "'sc page_data"

text \<open>What is written: a redirect after a form, a page under the name of its template, or a
  line of text.\<close>

datatype 'sc view = Redirect string | Page int string "'sc page" | Plain int string

type_synonym 'sc answer = "set_cookie list \<times> 'sc view"

definition palette_section :: "bool \<Rightarrow> string \<Rightarrow> string \<Rightarrow> string \<Rightarrow> palette_item" where
  "palette_section opens label keywords href =
     \<lparr>pi_first = opens, pi_group = ''Sections'', pi_search = keywords, pi_href = href, pi_label = label, pi_hint = []\<rparr>"

definition palette_sections :: "palette_item list" where
  "palette_sections =
     [palette_section True ''Instances'' ''instances home'' ''/'',
      palette_section False ''New instance'' ''new instance create'' ''/instances/new'',
      palette_section False ''Connectors'' ''connectors'' ''/connectors'',
      palette_section False ''Semantic search'' ''semantic search embedder settings'' ''/settings/semantic-search'',
      palette_section False ''Tokens'' ''tokens access bearer'' ''/tokens'',
      palette_section False ''Usage log'' ''usage log requests tool calls'' ''/usage'',
      palette_section False ''Audit log'' ''audit log events'' ''/audit'',
      palette_section False ''Account'' ''account password'' ''/account'']"

definition palette_instance :: "nat \<Rightarrow> summary \<Rightarrow> palette_item" where
  "palette_instance k x =
     (let i = sm_instance x in
      \<lparr>pi_first = (k = 0), pi_group = ''Instances'', pi_search = in_name i @ '' '' @ in_slug i @ '' '' @ sm_connectorName x,
       pi_href = ''/instances/'' @ in_id i, pi_label = in_name i, pi_hint = ''/mcp/'' @ in_slug i\<rparr>)"

definition build_palette :: "'sc web \<Rightarrow> palette_item list \<times> 'sc web" where
  "build_palette s =
     (case w_op list_instances s of
        (Inl e, s1) \<Rightarrow> (palette_sections, s1)
      | (Inr xs, s1) \<Rightarrow> (palette_sections @ map (\<lambda>(k, x). palette_instance k x) (zip [0..<length xs] xs), s1))"

definition base_url :: "'sc web_env \<Rightarrow> inbound \<Rightarrow> string" where
  "base_url env r =
     (if we_publicURL env \<noteq> [] then we_publicURL env
      else (if ib_tls r then ''https'' else ''http'') @ ''://'' @ ib_host r)"

text \<open>Building the frame reads the instances for a signed-in visitor, and takes the visitor's
  message out of the store.\<close>

definition build_page :: "'sc web_env \<Rightarrow> inbound \<Rightarrow> signed_in \<Rightarrow> string \<Rightarrow> string \<Rightarrow> 'sc page_data \<Rightarrow> 'sc web \<Rightarrow> 'sc page \<times> 'sc web" where
  "build_page env r who title nav data s =
     (let p = \<lparr>pg_title = title, pg_nonce = (case we_nonce env of None \<Rightarrow> [] | Some n \<Rightarrow> n), pg_user = None, pg_csrf = [], pg_flash = None,
               pg_nav = nav, pg_publicURL = base_url env r, pg_version = we_version env, pg_palette = [], pg_data = data\<rparr>
      in case who of
           None \<Rightarrow> (p, s)
         | Some (u, ws) \<Rightarrow>
             (let (items, s1) = build_palette s; (f, st) = flash_take (we_takeNow env) (ws_id ws) (wb_flashes s1)
              in (p\<lparr>pg_user := Some u, pg_palette := items, pg_csrf := ws_csrfToken ws, pg_flash := f\<rparr>, s1\<lparr>wb_flashes := st\<rparr>)))"

definition render_page :: "'sc web_env \<Rightarrow> inbound \<Rightarrow> signed_in \<Rightarrow> int \<Rightarrow> string \<Rightarrow> string \<Rightarrow> string \<Rightarrow> 'sc page_data
    \<Rightarrow> 'sc web \<Rightarrow> 'sc answer \<times> 'sc web" where
  "render_page env r who status name title nav data s =
     (let (p, s1) = build_page env r who title nav data s in (([], Page status name p), s1))"

definition redirect :: "string \<Rightarrow> 'sc answer" where "redirect path = ([], Redirect path)"

definition web_internal_error :: "'sc web \<Rightarrow> 'sc answer \<times> 'sc web" where
  "web_internal_error s = (([], Plain 500 ''internal server error''), s)"

section \<open>Messages\<close>

definition web_flash :: "'sc web_env \<Rightarrow> signed_in \<Rightarrow> flash \<Rightarrow> 'sc web \<Rightarrow> 'sc web" where
  "web_flash env who f s =
     (case who of
        None \<Rightarrow> s
      | Some (u, ws) \<Rightarrow> s\<lparr>wb_flashes := flash_set (fst (we_setNow env)) (snd (we_setNow env)) (ws_id ws) f (wb_flashes s)\<rparr>)"

definition plain_flash :: "flash_level \<Rightarrow> string \<Rightarrow> flash" where
  "plain_flash l m = \<lparr>fl_level = l, fl_message = m, fl_secret = [], fl_details = [], fl_test = None\<rparr>"

definition flash_error :: "'sc web_env \<Rightarrow> signed_in \<Rightarrow> string \<Rightarrow> 'sc web \<Rightarrow> 'sc web" where
  "flash_error env who m = web_flash env who (plain_flash FlashError m)"

definition flash_success :: "'sc web_env \<Rightarrow> signed_in \<Rightarrow> string \<Rightarrow> 'sc web \<Rightarrow> 'sc web" where
  "flash_success env who m = web_flash env who (plain_flash FlashSuccess m)"

text \<open>\<open>strings.ToUpper\<close> of a single byte; one that is no character becomes the replacement
  character.\<close>

definition upper_byte :: "char \<Rightarrow> string" where
  "upper_byte c =
     (if 97 \<le> byte c \<and> byte c \<le> 122 then [char_of (byte c - 32)]
      else if byte c < 128 then [c] else [CHR 0xEF, CHR 0xBF, CHR 0xBD])"

definition cleanup_error :: "string \<Rightarrow> string" where
  "cleanup_error msg =
     (let m1 = List.fold trim_prefix [''invalid input: '', ''conflict: '', ''forbidden: ''] msg;
          m2 = (case str_index '': invalid input'' m1 of Some i \<Rightarrow> if 0 < i then take i m1 else m1 | None \<Rightarrow> m1)
      in case m2 of [] \<Rightarrow> ''The request was rejected.'' | c # cs \<Rightarrow> upper_byte c @ cs)"

definition error_message :: "'sc web_env \<Rightarrow> domain_error \<Rightarrow> string" where
  "error_message env e =
     (if e = ErrNotFound then ''That item no longer exists.''
      else if e = ErrConflict \<or> e = ErrInvalidInput \<or> e = ErrForbidden then cleanup_error (we_errorText env e)
      else if e = ErrUnauthorized then ''You are not authorised to do that.''
      else ''Something went wrong. Check the server logs for details.'')"

text \<open>The end of most forms: the outcome as a message, and a redirect.\<close>

definition report :: "'sc web_env \<Rightarrow> signed_in \<Rightarrow> string \<Rightarrow> string \<Rightarrow> (domain_error, 'a) result \<times> 'sc web \<Rightarrow> 'sc answer \<times> 'sc web" where
  "report env who msg path rs =
     (redirect path, case fst rs of Inl e \<Rightarrow> flash_error env who (error_message env e) (snd rs) | Inr x \<Rightarrow> flash_success env who msg (snd rs))"

definition not_found :: "'sc web_env \<Rightarrow> signed_in \<Rightarrow> domain_error \<Rightarrow> 'sc web \<Rightarrow> 'sc answer \<times> 'sc web" where
  "not_found env who e s = (redirect ''/'', flash_error env who (error_message env e) s)"

section \<open>Form fields\<close>

text \<open>\<open>strconv.Atoi\<close> and \<open>ParseInt\<close> base 10 with the fallback; both are 64 bits wide.\<close>

definition parse_int_field :: "inbound \<Rightarrow> string \<Rightarrow> int \<Rightarrow> int" where
  "parse_int_field r name fallback =
     (let v = trim_space (post_form_value r name) in
      if v = [] then fallback else (case atoi v of None \<Rightarrow> fallback | Some n \<Rightarrow> n))"

text \<open>The value \<open>strconv.Atoi\<close> returns beside an error: zero for what is no number, the nearest
  bound for what is out of range.\<close>

definition atoi_value :: "string \<Rightarrow> int" where
  "atoi_value s =
     (case atoi s of
        Some n \<Rightarrow> n
      | None \<Rightarrow>
          (let neg = (case s of c # cs \<Rightarrow> c = CHR ''-'' | [] \<Rightarrow> False); ds = (case s of c # cs \<Rightarrow> if c = CHR ''-'' \<or> c = CHR ''+'' then cs else s | [] \<Rightarrow> [])
           in if ds = [] \<or> \<not> list_all is_digit ds then 0 else if neg then - (2 ^ 63) else 2 ^ 63 - 1))"

definition checkbox :: "inbound \<Rightarrow> string \<Rightarrow> bool" where
  "checkbox r name = (let v = post_form_value r name in v = ''on'' \<or> v = ''true'' \<or> v = ''1'')"

text \<open>Only what the manifest declares is read.\<close>

definition collect_variables :: "inbound \<Rightarrow> 'sc reg_entry \<Rightarrow> (string, string) gomap" where
  "collect_variables r e =
     List.fold (\<lambda>v out. let x = trim_space (post_form_value r (''var_'' @ va_name v)) in if x = [] then out else kv_put (va_name v) x out)
       (sp_variables (mf_spec (cc_manifest (rg_compiled e)))) []"

definition collect_secrets :: "inbound \<Rightarrow> 'sc reg_entry \<Rightarrow> (string, string) gomap" where
  "collect_secrets r e =
     List.fold (\<lambda>sec out. let x = post_form_value r (''secret_'' @ se_name sec) in if x = [] then out else kv_put (se_name sec) x out)
       (sp_secrets (mf_spec (cc_manifest (rg_compiled e)))) []"

section \<open>Who acts\<close>

definition client_ip :: "'sc web_env \<Rightarrow> inbound \<Rightarrow> string" where "client_ip env r = resolve_client_ip (we_trustProxy env) r"

definition web_actor :: "'sc web_env \<Rightarrow> inbound \<Rightarrow> signed_in \<Rightarrow> actor" where
  "web_actor env r who =
     \<lparr>ac_type = ''user'', ac_id = (case who of None \<Rightarrow> [] | Some (u, ws) \<Rightarrow> us_id u), ac_ip = client_ip env r\<rparr>"

end
