(* ===== verification/WebHandlers.thy ===== *)
theory WebHandlers
  imports Web
begin

text \<open>
  \<open>internal/webui\<close>, the handlers: \<open>handlers_auth.go\<close>, \<open>handlers_instances.go\<close>,
  \<open>handlers_misc.go\<close>, \<open>handlers_settings.go\<close> and \<open>handlers_usage.go\<close>.  A handler gets the
  request, who is signed in and the identifier in the path, and returns what is written and the
  state after it.
\<close>

type_synonym 'sc handler = "'sc web_env \<Rightarrow> inbound \<Rightarrow> signed_in \<Rightarrow> string \<Rightarrow> 'sc web \<Rightarrow> 'sc answer \<times> 'sc web"

section \<open>Sign-in, set-up, account\<close>

definition render_auth_error :: "'sc web_env \<Rightarrow> inbound \<Rightarrow> signed_in \<Rightarrow> int \<Rightarrow> string \<Rightarrow> string \<Rightarrow> string \<Rightarrow> 'sc web \<Rightarrow> 'sc answer \<times> 'sc web" where
  "render_auth_error env r who status name title m s =
     (let (p, s1) = build_page env r who title [] NoData s
      in (([], Page status name (p\<lparr>pg_flash := Some (plain_flash FlashError m)\<rparr>)), s1))"

definition start_session :: "'sc web_env \<Rightarrow> inbound \<Rightarrow> user \<Rightarrow> string \<Rightarrow> 'sc web \<Rightarrow> 'sc answer \<times> 'sc web" where
  "start_session env r u target s =
     (case w_sql (session_issue (pv_svc (we_penv env 1)) (we_sessions env) u (client_ip env r) (header_get (ib_headers r) ''User-Agent'')) s of
        (Inl e, s1) \<Rightarrow> web_internal_error s1
      | (Inr (cookie, ws), s1) \<Rightarrow> (([session_cookie cookie (we_secure env) (we_maxAge env)], Redirect target), s1))"

definition get_setup :: "'sc handler" where
  "get_setup env r who i s =
     (case w_sql needs_setup s of
        (Inl e, s1) \<Rightarrow> web_internal_error s1
      | (Inr needs, s1) \<Rightarrow> if \<not> needs then (redirect ''/login'', s1) else render_page env r who 200 ''setup'' ''Setup'' [] NoData s1)"

definition post_setup :: "'sc handler" where
  "post_setup env r who i s =
     (let password = post_form_value r ''password'' in
      if password \<noteq> post_form_value r ''password_confirm''
      then render_auth_error env r who 400 ''setup'' ''Setup'' ''The two passwords do not match.'' s
      else case w_sql (users_setup (pv_svc (we_penv env 0)) \<lparr>ac_type = ''system'', ac_id = ''setup'', ac_ip = client_ip env r\<rparr> (we_between env)
                         (post_form_value r ''email'') password) s of
        (Inl e, s1) \<Rightarrow> render_auth_error env r who 400 ''setup'' ''Setup'' (error_message env e) s1
      | (Inr u, s1) \<Rightarrow> start_session env r u ''/'' s1)"

definition get_login :: "'sc handler" where
  "get_login env r who i s =
     (if has_session who then (redirect ''/'', s)
      else case w_sql needs_setup s of
        (Inl e, s1) \<Rightarrow> web_internal_error s1
      | (Inr needs, s1) \<Rightarrow> if needs then (redirect ''/setup'', s1) else render_page env r who 200 ''login'' ''Sign in'' [] NoData s1)"

definition post_login :: "'sc handler" where
  "post_login env r who i s =
     (let ip = client_ip env r in
      if \<not> attempt_allow (we_allowNow env) ip (wb_limiter s)
      then render_auth_error env r who 429 ''login'' ''Sign in'' ''Too many sign-in attempts. Wait a minute and try again.'' s
      else case w_sql (authenticate (pv_svc (we_penv env 0)) \<lparr>ac_type = ''user'', ac_id = [], ac_ip = ip\<rparr> (we_between env)
                         (post_form_value r ''email'') (post_form_value r ''password'')) s of
        (Inl e, s1) \<Rightarrow>
          if e = ErrUnauthorized
          then render_auth_error env r who 401 ''login'' ''Sign in'' ''Incorrect email or password.''
                 (s1\<lparr>wb_limiter := record_failure (we_failNow env) ip (wb_limiter s1)\<rparr>)
          else web_internal_error s1
      | (Inr u, s1) \<Rightarrow> start_session env r u ''/'' (s1\<lparr>wb_limiter := record_success ip (wb_limiter s1)\<rparr>))"

definition post_logout :: "'sc handler" where
  "post_logout env r who i s =
     (let s1 = snd (w_sql (session_revoke (pv_svc (we_penv env 0)) (session_cookie_value r)) s);
          s2 = (case who of
                  None \<Rightarrow> s1
                | Some (u, ws) \<Rightarrow>
                    snd (w_op (op_audit (we_penv env 1) (web_actor env r who) ''auth.logout'' ''user'' (us_id u) []) s1))
      in (([cleared_cookie (we_secure env)], Redirect ''/login''), s2))"

definition get_account :: "'sc handler" where
  "get_account env r who i s =
     (case w_sql user_list s of
        (Inl e, s1) \<Rightarrow> web_internal_error s1
      | (Inr us, s1) \<Rightarrow> render_page env r who 200 ''account'' ''Account'' ''account'' (UsersData us) s1)"

definition post_change_password :: "'sc handler" where
  "post_change_password env r who i s =
     (case who of
        None \<Rightarrow> (redirect ''/login'', s)
      | Some (u, ws) \<Rightarrow>
          (let new = post_form_value r ''new_password'' in
           if new \<noteq> post_form_value r ''confirm_password''
           then (redirect ''/account'', flash_error env who ''The two new passwords do not match.'' s)
           else case w_sql (change_password (pv_svc (we_penv env 0)) (web_actor env r who) (us_id u) (post_form_value r ''current_password'') new) s of
             (Inl e, s1) \<Rightarrow>
               (redirect ''/account'',
                flash_error env who (if e = ErrUnauthorized then ''The current password is incorrect.'' else error_message env e) s1)
           | (Inr x, s1) \<Rightarrow> (([cleared_cookie (we_secure env)], Redirect ''/login''), s1)))"

section \<open>Instances\<close>

definition get_instances :: "'sc handler" where
  "get_instances env r who i s =
     (case w_op list_instances s of
        (Inl e, s1) \<Rightarrow> web_internal_error s1
      | (Inr xs, s1) \<Rightarrow> render_page env r who 200 ''instances'' ''Instances'' ''instances'' (InstancesData xs) s1)"

definition url_hostname :: "url \<Rightarrow> string" where
  "url_hostname u =
     (let h = u_host u; after = takeWhile (\<lambda>c. c \<noteq> CHR '':'') (rev h);
          host = (if CHR '':'' \<in> set h \<and> list_all is_digit after then take (length h - length after - 1) h else h)
      in if has_prefix ''['' host \<and> has_suffix '']'' host then drop 1 (butlast host) else host)"

definition suggest_host_header_override :: "string \<Rightarrow> string" where
  "suggest_host_header_override base =
     (case url_parse base of
        None \<Rightarrow> []
      | Some u \<Rightarrow> if url_hostname u \<noteq> ''host.docker.internal'' then []
                  else if url_port u \<noteq> [] then ''127.0.0.1:'' @ url_port u else ''127.0.0.1'')"

definition empty_form :: instance_form where
  "empty_form = \<lparr>fm_name = [], fm_slug = [], fm_description = [], fm_baseURL = [], fm_variables = [], fm_enabled = True,
     fm_allowPrivateNetwork = True, fm_hostHeaderOverride = []\<rparr>"

definition default_form :: "'sc reg_entry option \<Rightarrow> instance_form" where
  "default_form selected =
     (case selected of
        None \<Rightarrow> empty_form
      | Some e \<Rightarrow>
          (let sp = mf_spec (cc_manifest (rg_compiled e)); bu = sp_baseURL sp in
           empty_form\<lparr>fm_name := cr_name (rg_record e), fm_baseURL := bu_default bu,
             fm_variables := List.fold (\<lambda>v. kv_put (va_name v) (va_default v)) (sp_variables sp) [],
             fm_hostHeaderOverride := (if bu_suggestHostHeaderOverride bu then suggest_host_header_override (bu_default bu) else [])\<rparr>))"

definition render_new_instance :: "'sc web_env \<Rightarrow> inbound \<Rightarrow> signed_in \<Rightarrow> int \<Rightarrow> string \<Rightarrow> instance_form option \<Rightarrow> 'sc web \<Rightarrow> 'sc answer \<times> 'sc web" where
  "render_new_instance env r who status cid0 form s =
     (let entries = registry_list (web_registry s);
          cid = (if cid0 = [] \<and> entries \<noteq> [] then cr_id (rg_record (hd entries)) else cid0);
          selected = find (\<lambda>e. cr_id (rg_record e) = cid) entries;
          f = (case form of Some f \<Rightarrow> f | None \<Rightarrow> default_form selected)
      in render_page env r who status ''instance_new'' ''New instance'' ''instances'' (NewInstanceData entries cid selected f) s)"

definition query_value :: "inbound \<Rightarrow> string \<Rightarrow> string" where
  "query_value r k = (case map_of (ib_query r) k of None \<Rightarrow> [] | Some v \<Rightarrow> v)"

definition get_new_instance :: "'sc handler" where
  "get_new_instance env r who i s = render_new_instance env r who 200 (query_value r ''connector'') None s"

definition form_of :: "inbound \<Rightarrow> 'sc reg_entry \<Rightarrow> instance_form" where
  "form_of r e =
     \<lparr>fm_name = post_form_value r ''name'', fm_slug = post_form_value r ''slug'', fm_description = post_form_value r ''description'',
      fm_baseURL = post_form_value r ''base_url'', fm_variables = collect_variables r e, fm_enabled = checkbox r ''enabled'',
      fm_allowPrivateNetwork = checkbox r ''allow_private_network'',
      fm_hostHeaderOverride = trim_space (post_form_value r ''host_header_override'')\<rparr>"

definition create_input_of :: "string \<Rightarrow> instance_form \<Rightarrow> create_input" where
  "create_input_of cid f =
     \<lparr>cn_name = fm_name f, cn_slug = fm_slug f, cn_description = fm_description f, cn_connectorID = cid, cn_baseURL = fm_baseURL f,
      cn_variables = fm_variables f, cn_enabled = fm_enabled f, cn_allowPrivateNetwork = fm_allowPrivateNetwork f,
      cn_hostHeaderOverride = fm_hostHeaderOverride f, cn_timeoutMS = 0, cn_rateLimitPerMin = 0, cn_maxConcurrent = 0, cn_maxResponseBytes = 0\<rparr>"

text \<open>The credentials entered with the form, in the order of the map; the names that could not be
  stored.\<close>

fun save_secrets :: "'sc web_env \<Rightarrow> actor \<Rightarrow> string \<Rightarrow> nat \<Rightarrow> (string \<times> string) list \<Rightarrow> 'sc web \<Rightarrow> string list \<times> 'sc web" where
  "save_secrets env a iid k [] s = ([], s)"
| "save_secrets env a iid k ((name, v) # xs) s =
     (let (x, s1) = w_op (set_secret (we_penv env k) a iid name v) s; (failed, s2) = save_secrets env a iid (Suc k) xs s1
      in (case x of Inl e \<Rightarrow> name # failed | Inr u \<Rightarrow> failed, s2))"

definition outcome_of :: "test_result \<Rightarrow> test_outcome" where
  "outcome_of t =
     \<lparr>oc_ok = tr_ok t, oc_tool = tr_tool t, oc_statusCode = tr_statusCode t, oc_durationMS = tr_durationMS t, oc_message = tr_message t,
      oc_hint = tr_hint t, oc_preview = tr_preview t\<rparr>"

definition test_instance :: "'sc web_env \<Rightarrow> nat \<Rightarrow> actor \<Rightarrow> string \<Rightarrow> string \<Rightarrow> ('sc, test_result) wop" where
  "test_instance env k a iid tname = w_op (test_connection (we_penv env k) (we_engine env) (we_elapsed env) (we_engineText env) a iid tname)"

text \<open>The index of a new instance is built at once when it can be.\<close>

definition index_created :: "'sc web_env \<Rightarrow> actor \<Rightarrow> string \<Rightarrow> string \<Rightarrow> 'sc web \<Rightarrow> 'sc web" where
  "index_created env a cid iid s =
     (if \<not> (we_hasIndexer env \<and> supported (we_ix env) cid) then s
      else case w_index embedder_settings_set s of
        (Inl e, s1) \<Rightarrow> s1
      | (Inr (st, k), s1) \<Rightarrow> if es_url st = [] then s1 else snd (w_index (reindex (we_ix env) a iid ReindexUpdate) s1))"

definition created_flash :: "instance_rec \<Rightarrow> string list \<Rightarrow> flash" where
  "created_flash inst failed =
     (let m = ''Instance created. Issue a token, then point your MCP client at /mcp/'' @ in_slug inst @ ''.'' in
      if failed = [] then plain_flash FlashSuccess m
      else plain_flash FlashError (m @ '' Could not save: '' @ join_str '', '' failed @ '' '' @ em_dash @ '' set them below.''))"

definition post_instances :: "'sc handler" where
  "post_instances env r who i s =
     (let cid = post_form_value r ''connector_id'' in
      if post_form_value r ''action'' \<noteq> ''create'' then render_new_instance env r who 200 cid None s
      else case registry_get (web_registry s) cid of
        None \<Rightarrow> (redirect ''/instances/new'', flash_error env who (error_message env ErrNotFound) s)
      | Some e \<Rightarrow>
          (let f = form_of r e; a = web_actor env r who in
           case w_op (create_instance (we_penv env 0) a (create_input_of cid f)) s of
             (Inl err, s1) \<Rightarrow>
               (let (p, s2) = build_page env r who ''New instance'' ''instances'' NoData s1
                in (([], Page 400 ''instance_new''
                       (p\<lparr>pg_flash := Some (plain_flash FlashError (error_message env err)),
                          pg_data := NewInstanceData (registry_list (web_registry s2)) cid (Some e) f\<rparr>)), s2))
           | (Inr inst, s1) \<Rightarrow>
               (let (failed, s2) = save_secrets env a (in_id inst) 2 (we_order env (collect_secrets r e)) s1;
                    (t, s3) = test_instance env 1 a (in_id inst) [] s2;
                    fl = created_flash inst failed; fl1 = (case t of Inl e \<Rightarrow> fl | Inr x \<Rightarrow> fl\<lparr>fl_test := Some (outcome_of x)\<rparr>);
                    s4 = index_created env a cid (in_id inst) s3
                in (redirect (''/instances/'' @ in_id inst), web_flash env who fl1 s4))))"

definition get_instance :: "'sc handler" where
  "get_instance env r who i s =
     (case w_op (detail_instance i) s of
        (Inl e, s1) \<Rightarrow> not_found env who e s1
      | (Inr d, s1) \<Rightarrow>
          (let iid = in_id (sm_instance (dt_summary d)); name = in_name (sm_instance (dt_summary d));
               (ixs, s2) = (case dt_connector d of
                    None \<Rightarrow> (None, s1)
                  | Some e \<Rightarrow>
                      if we_hasIndexer env \<and> supported (we_ix env) (cr_id (rg_record e))
                      then (case w_index (status_of iid) s1 of (Inl err, s2) \<Rightarrow> (None, s2) | (Inr x, s2) \<Rightarrow> (Some x, s2))
                      else (None, s1))
           in render_page env r who 200 ''instance_detail'' name ''instances'' (DetailData d ixs) s2))"

definition instance_path :: "string \<Rightarrow> string" where "instance_path i = ''/instances/'' @ i"

definition start_reindex :: "reindex_mode \<Rightarrow> string \<Rightarrow> 'sc handler" where
  "start_reindex mode msg env r who i s =
     (if \<not> we_hasIndexer env
      then (redirect (instance_path i), flash_error env who ''Semantic search is not available on this deployment.'' s)
      else report env who msg (instance_path i) (w_index (reindex (we_ix env) (web_actor env r who) i mode) s))"

definition post_instance_reindex :: "'sc handler" where
  "post_instance_reindex =
     start_reindex ReindexUpdate ''Update started. This can take a while for a large library; refresh this page to check progress.''"

definition post_instance_reindex_rebuild :: "'sc handler" where
  "post_instance_reindex_rebuild =
     start_reindex ReindexRebuild ''Rebuild started. This can take a while for a large library; refresh this page to check progress.''"

definition update_input_of :: "inbound \<Rightarrow> 'sc instance_detail \<Rightarrow> update_input" where
  "update_input_of r d =
     (let inst = sm_instance (dt_summary d) in
      \<lparr>up_name = Some (post_form_value r ''name''), up_description = Some (post_form_value r ''description''),
       up_baseURL = Some (post_form_value r ''base_url''),
       up_variables = (case dt_connector d of None \<Rightarrow> None | Some e \<Rightarrow> Some (collect_variables r e)),
       up_enabled = Some (checkbox r ''enabled''), up_allowPrivateNetwork = Some (checkbox r ''allow_private_network''),
       up_hostHeaderOverride = Some (trim_space (post_form_value r ''host_header_override'')),
       up_timeoutMS = Some (parse_int_field r ''timeout_ms'' (in_timeoutMS inst)),
       up_rateLimitPerMin = Some (parse_int_field r ''rate_limit_per_min'' (in_rateLimitPerMin inst)),
       up_maxConcurrent = Some (parse_int_field r ''max_concurrent'' (in_maxConcurrent inst)),
       up_maxResponseBytes = Some (parse_int_field r ''max_response_bytes'' (in_maxResponseBytes inst))\<rparr>)"

definition post_instance :: "'sc handler" where
  "post_instance env r who i s =
     (case w_op (detail_instance i) s of
        (Inl e, s1) \<Rightarrow> not_found env who e s1
      | (Inr d, s1) \<Rightarrow>
          report env who ''Configuration saved.'' (instance_path i)
            (w_op (update_instance (we_penv env 0) (web_actor env r who) i (update_input_of r d)) s1))"

definition post_instance_secret :: "'sc handler" where
  "post_instance_secret env r who i s =
     (let name = post_form_value r ''name''; v = post_form_value r ''value'' in
      if trim_space v = []
      then (redirect (instance_path i), flash_error env who (''Enter a value for '' @ name @ '', or use Remove to clear it.'') s)
      else report env who (''Saved '' @ name @ ''. The value is encrypted and will not be shown again.'') (instance_path i)
             (w_op (set_secret (we_penv env 0) (web_actor env r who) i name v) s))"

definition post_instance_secret_delete :: "'sc handler" where
  "post_instance_secret_delete env r who i s =
     (let name = post_form_value r ''name'' in
      report env who (''Removed '' @ name @ ''.'') (instance_path i) (w_op (delete_secret (we_penv env 0) (web_actor env r who) i name) s))"

definition post_instance_tool :: "'sc handler" where
  "post_instance_tool env r who i s =
     (let name = post_form_value r ''tool''; on = (post_form_value r ''enabled'' = ''true'') in
      report env who (if on then ''Enabled '' @ name @ ''.'' else ''Disabled '' @ name @ ''. It is no longer advertised to clients.'')
        (instance_path i) (w_op (set_tool_enabled (we_penv env 0) (web_actor env r who) i name on) s))"

definition post_instance_test :: "'sc handler" where
  "post_instance_test env r who i s =
     (case test_instance env 0 (web_actor env r who) i (post_form_value r ''tool'') s of
        (Inl e, s1) \<Rightarrow> (redirect (instance_path i), flash_error env who (error_message env e) s1)
      | (Inr t, s1) \<Rightarrow>
          (redirect (instance_path i),
           web_flash env who
             ((if tr_ok t then plain_flash FlashSuccess ''Connection test succeeded.'' else plain_flash FlashError ''Connection test failed.'')
              \<lparr>fl_test := Some (outcome_of t)\<rparr>) s1))"

definition post_instance_delete :: "'sc handler" where
  "post_instance_delete env r who i s =
     (case w_sql (instance_get i) s of
        (Inl e, s1) \<Rightarrow> not_found env who e s1
      | (Inr inst, s1) \<Rightarrow>
          if post_form_value r ''confirm_slug'' \<noteq> in_slug inst
          then (redirect (instance_path i),
                flash_error env who (''Type the slug '' @ we_quote env (in_slug inst) @ '' exactly to confirm deletion.'') s1)
          else (case w_op (delete_instance (we_penv env 0) (web_actor env r who) i) s1 of
                  (Inl e, s2) \<Rightarrow> (redirect (instance_path i), flash_error env who (error_message env e) s2)
                | (Inr u, s2) \<Rightarrow> (redirect ''/'', flash_success env who (''Deleted '' @ in_name inst @ ''.'') s2)))"

section \<open>Connectors\<close>

definition get_connectors :: "'sc handler" where
  "get_connectors env r who i s =
     render_page env r who 200 ''connectors'' ''Connectors'' ''connectors'' (ConnectorsData (registry_list (web_registry s))) s"

text \<open>The service formats a validation error into the text of its own, so no error it returns is
  one, and there is a single line to show.\<close>

definition validation_details :: "'sc web_env \<Rightarrow> domain_error \<Rightarrow> string list" where
  "validation_details env e = [error_message env e]"

definition post_import_connector :: "'sc handler" where
  "post_import_connector env r who i s =
     (let m = trim_space (post_form_value r ''manifest'') in
      if m = [] then (redirect ''/connectors'', flash_error env who ''Paste a connector manifest to import.'' s)
      else case w_op (import_manifest (we_penv env 0) (web_actor env r who) m ''manifest'') s of
        (Inl e, s1) \<Rightarrow>
          (redirect ''/connectors'',
           web_flash env who ((plain_flash FlashError ''The manifest was rejected.'')\<lparr>fl_details := validation_details env e\<rparr>) s1)
      | (Inr e, s1) \<Rightarrow>
          (redirect ''/connectors'',
           flash_success env who (''Imported '' @ cr_name (rg_record e) @ '' '' @ cr_version (rg_record e) @ '' with ''
             @ nat_dec (length (cc_tools (rg_compiled e))) @ '' tools.'') s1))"

definition post_delete_connector :: "'sc handler" where
  "post_delete_connector env r who i s =
     report env who ''Connector deleted.'' ''/connectors'' (w_op (delete_connector (we_penv env 0) (web_actor env r who) i) s)"

section \<open>Tokens\<close>

definition scope_label :: "summary list \<Rightarrow> token \<Rightarrow> string" where
  "scope_label xs t =
     (if tk_instanceID t = [] then ''All instances''
      else case map_of (rev (map (\<lambda>x. (in_id (sm_instance x), in_name (sm_instance x))) xs)) (tk_instanceID t) of
        Some n \<Rightarrow> n | None \<Rightarrow> ''(deleted instance)'')"

definition get_tokens :: "'sc handler" where
  "get_tokens env r who i s =
     (case w_sql token_list s of
        (Inl e, s1) \<Rightarrow> web_internal_error s1
      | (Inr ts, s1) \<Rightarrow>
          (case w_op list_instances s1 of
             (Inl e, s2) \<Rightarrow> web_internal_error s2
           | (Inr xs, s2) \<Rightarrow>
               render_page env r who 200 ''tokens'' ''Tokens'' ''tokens''
                 (TokensData (map (\<lambda>t. \<lparr>tw_token = t, tw_scopeLabel = scope_label xs t, tw_revoked = (tk_revokedAt t \<noteq> None)\<rparr>) ts) xs
                    (query_value r ''instance'')) s2))"

text \<open>\<open>time.Duration(ttlDays) * 24 * time.Hour\<close>, in 64 bits.\<close>

definition token_ttl :: "int \<Rightarrow> int" where
  "token_ttl days = (if 0 < days then int64_wrap (int64_wrap (days * 24) * (60 * 60 * second)) else 0)"

definition minted_flash :: "'sc web_env \<Rightarrow> token \<Rightarrow> string \<Rightarrow> flash" where
  "minted_flash env t plain =
     \<lparr>fl_level = FlashSuccess, fl_message = ''Token '' @ we_quote env (tk_name t) @ '' issued.'', fl_secret = plain,
      fl_details = [''Send it as: Authorization: Bearer <token>'', ''Only a keyed digest is stored, so this value cannot be recovered later.''],
      fl_test = None\<rparr>"

definition post_tokens :: "'sc handler" where
  "post_tokens env r who i s =
     (case w_sql (token_mint (pv_svc (we_penv env 0)) (web_actor env r who)
                    \<lparr>ci_name = post_form_value r ''name'', ci_instanceID = post_form_value r ''instance_id'',
                     ci_ttl = token_ttl (atoi_value (post_form_value r ''ttl_days''))\<rparr>) s of
        (Inl e, s1) \<Rightarrow> (redirect ''/tokens'', flash_error env who (error_message env e) s1)
      | (Inr (t, plain), s1) \<Rightarrow> (redirect ''/tokens'', web_flash env who (minted_flash env t plain) s1))"

definition post_revoke_token :: "'sc handler" where
  "post_revoke_token env r who i s =
     report env who ''Token revoked. It stops working immediately.'' ''/tokens''
       (w_sql (token_revoke_by (pv_svc (we_penv env 0)) (web_actor env r who) i) s)"

section \<open>Audit log\<close>

definition audit_actions :: "string list" where
  "audit_actions =
     [''auth.login'', ''auth.login_failed'', ''auth.logout'', ''user.create'', ''user.update'', ''instance.create'', ''instance.update'',
      ''instance.delete'', ''instance.secret_set'', ''instance.egress_private_enabled'', ''instance.test'', ''connector.import'',
      ''connector.delete'', ''token.create'', ''token.revoke'', ''tool.call'']"

definition actor_label :: "audit_event \<Rightarrow> string" where
  "actor_label e =
     (if ae_actorID e = [] then ae_actorType e
      else ae_actorType e @ '' '' @ ae_actorID e @ (if ae_ip e = [] then [] else '' ('' @ ae_ip e @ '')''))"

definition trim_quotes :: "string \<Rightarrow> string" where
  "trim_quotes s = rev (dropWhile (\<lambda>c. c = CHR 0x22) (rev (dropWhile (\<lambda>c. c = CHR 0x22) s)))"

definition detail_label :: "(string, goval) gomap \<Rightarrow> string" where
  "detail_label d =
     join_str '' '' (map (\<lambda>(k, v). case json_marshal v of None \<Rightarrow> k | Some t \<Rightarrow> k @ ''='' @ trim_quotes t) (sort_key fst d))"

definition get_audit :: "'sc handler" where
  "get_audit env r who i s =
     (let action0 = query_value r ''action''; action = (if action0 \<in> set audit_actions then action0 else []) in
      case w_sql (audit_events \<lparr>af_action = action, af_actorID = [], af_targetID = [], af_limit = 200, af_before = None\<rparr>) s of
        (Inl e, s1) \<Rightarrow> web_internal_error s1
      | (Inr es, s1) \<Rightarrow>
          render_page env r who 200 ''audit'' ''Audit log'' ''audit''
            (AuditData (map (\<lambda>e. \<lparr>av_event = e, av_actorLabel = actor_label e, av_detailLabel = detail_label (ae_detail e)\<rparr>) es) action) s1)"

section \<open>Settings of the search\<close>

definition default_embedder_url :: string where "default_embedder_url = ''http://host.docker.internal:11434''"

definition no_search :: "'sc web_env \<Rightarrow> signed_in \<Rightarrow> 'sc web \<Rightarrow> 'sc answer \<times> 'sc web" where
  "no_search env who s = (redirect ''/'', flash_error env who ''Semantic search is not available on this deployment.'' s)"

definition get_settings_search :: "'sc handler" where
  "get_settings_search env r who i s =
     (if \<not> we_hasIndexer env then no_search env who s
      else case w_index embedder_settings_set s of
        (Inl e, s1) \<Rightarrow> web_internal_error s1
      | (Inr (st, k), s1) \<Rightarrow>
          (let configured = (es_url st \<noteq> []); st1 = (if configured then st else st\<lparr>es_url := default_embedder_url, es_model := default_embedder\<rparr>)
           in render_page env r who 200 ''settings_search'' ''Semantic search'' ''settings-search'' (SearchData st1 k configured) s1))"

definition post_settings_search :: "'sc handler" where
  "post_settings_search env r who i s =
     (if \<not> we_hasIndexer env then no_search env who s
      else report env who ''Semantic search settings saved.'' ''/settings/semantic-search''
        (w_index (update_embedder_settings (we_ix env) (web_actor env r who) (trim_space (post_form_value r ''embedder_url''))
           (trim_space (post_form_value r ''embedder_model'')) (parse_int_field r ''rate_limit_per_min'' 60)) s))"

text \<open>These two do not ask whether there is an indexer; without one they panic, which the outermost
  chain turns into an internal error, unless the value is refused before.\<close>

definition post_settings_search_secret :: "'sc handler" where
  "post_settings_search_secret env r who i s =
     (let v = post_form_value r ''value'' in
      if trim_space v = [] then (redirect ''/settings/semantic-search'', flash_error env who ''Enter a value, or use Remove to clear it.'' s)
      else if \<not> we_hasIndexer env \<and> length v \<le> 8192 then web_internal_error s
      else report env who ''Saved. The value is encrypted and will not be shown again.'' ''/settings/semantic-search''
        (w_index (set_embedder_api_key (we_ix env) (web_actor env r who) v) s))"

definition post_settings_search_secret_delete :: "'sc handler" where
  "post_settings_search_secret_delete env r who i s =
     (if \<not> we_hasIndexer env then web_internal_error s
      else report env who ''Removed.'' ''/settings/semantic-search'' (w_index (delete_embedder_api_key (we_ix env) (web_actor env r who)) s))"

section \<open>Usage log\<close>

definition usage_levels :: "string list" where "usage_levels = [level_off, level_metadata, level_full]"

definition no_usage :: "'sc web_env \<Rightarrow> signed_in \<Rightarrow> 'sc web \<Rightarrow> 'sc answer \<times> 'sc web" where
  "no_usage env who s = (redirect ''/'', flash_error env who ''The usage log is not available on this deployment.'' s)"

definition get_usage :: "'sc handler" where
  "get_usage env r who i s =
     (if \<not> usage_enabled (sy_usage (wb_system s)) then no_usage env who s
      else let inst = query_value r ''instance''; name = trim_space (query_value r ''tool'') in
        case w_usage (list_usage \<lparr>uf_instanceID = inst, uf_tool = name, uf_limit = 0\<rparr>) s of
          (Inl e, s1) \<Rightarrow> web_internal_error s1
        | (Inr es, s1) \<Rightarrow>
            (case w_op list_instances s1 of
               (Inl e, s2) \<Rightarrow> web_internal_error s2
             | (Inr xs, s2) \<Rightarrow>
                 (case w_usage get_usage_settings s2 of
                    (Inl e, s3) \<Rightarrow> web_internal_error s3
                  | (Inr st, s3) \<Rightarrow>
                      render_page env r who 200 ''usage'' ''Usage log'' ''usage'' (UsageData es xs (ul_level st) inst name) s3)))"

definition default_usage_max_mb :: int where "default_usage_max_mb = default_max_bytes div 2 ^ 20"

definition get_settings_usage :: "'sc handler" where
  "get_settings_usage env r who i s =
     (if \<not> usage_enabled (sy_usage (wb_system s)) then no_usage env who s
      else case w_usage get_usage_settings s of
        (Inl e, s1) \<Rightarrow> web_internal_error s1
      | (Inr st, s1) \<Rightarrow>
          (let mb = ul_maxBytes st div 2 ^ 20
           in render_page env r who 200 ''settings_usage'' ''Usage log settings'' ''settings-usage''
                (UsageSettingsData (ul_level st) (if mb \<le> 0 then default_usage_max_mb else mb)) s1))"

definition post_settings_usage :: "'sc handler" where
  "post_settings_usage env r who i s =
     (let mb0 = parse_int_field r ''max_mb'' default_usage_max_mb; mb = (if mb0 \<le> 0 then default_usage_max_mb else mb0) in
      report env who ''Usage log settings saved.'' ''/settings/usage''
        (w_usage_audited (update_usage_settings (we_penv env 0) (web_actor env r who) (post_form_value r ''level'') (int64_wrap (mb * 2 ^ 20))) s))"

definition post_usage_clear :: "'sc handler" where
  "post_usage_clear env r who i s =
     report env who ''Usage log cleared.'' ''/usage'' (w_usage_audited (clear_usage (we_penv env 0) (web_actor env r who) (we_freed env)) s)"

end
