(* ===== verification/WebRoutes.thy ===== *)
theory WebRoutes
  imports WebHandlers
begin

text \<open>
  The rest of \<open>internal/httpapi/router.go\<close>: the table of the interface's routes with the access
  each requires, the chain of checks in front of every handler, and what follows for the whole
  interface: who can change what, that reading changes nothing, and how often a message with a
  token in it is delivered.
\<close>

section \<open>Routes\<close>

datatype access = Public | Private | Admin

definition web_routes :: "(string \<times> access \<times> 'sc handler) list" where
  "web_routes =
     [(''GET /setup'', Public, get_setup),
      (''POST /setup'', Public, post_setup),
      (''GET /login'', Public, get_login),
      (''POST /login'', Public, post_login),
      (''POST /logout'', Private, post_logout),
      (''GET /{$}'', Private, get_instances),
      (''GET /instances/new'', Private, get_new_instance),
      (''POST /instances'', Admin, post_instances),
      (''GET /instances/{id}'', Private, get_instance),
      (''POST /instances/{id}'', Admin, post_instance),
      (''POST /instances/{id}/secrets'', Admin, post_instance_secret),
      (''POST /instances/{id}/secrets/delete'', Admin, post_instance_secret_delete),
      (''POST /instances/{id}/tools'', Admin, post_instance_tool),
      (''POST /instances/{id}/test'', Admin, post_instance_test),
      (''POST /instances/{id}/reindex'', Admin, post_instance_reindex),
      (''POST /instances/{id}/reindex/rebuild'', Admin, post_instance_reindex_rebuild),
      (''POST /instances/{id}/delete'', Admin, post_instance_delete),
      (''GET /settings/semantic-search'', Private, get_settings_search),
      (''POST /settings/semantic-search'', Admin, post_settings_search),
      (''POST /settings/semantic-search/secret'', Admin, post_settings_search_secret),
      (''POST /settings/semantic-search/secret/delete'', Admin, post_settings_search_secret_delete),
      (''GET /connectors'', Private, get_connectors),
      (''POST /connectors/import'', Admin, post_import_connector),
      (''POST /connectors/{id}/delete'', Admin, post_delete_connector),
      (''GET /tokens'', Private, get_tokens),
      (''POST /tokens'', Admin, post_tokens),
      (''POST /tokens/{id}/revoke'', Admin, post_revoke_token),
      (''GET /usage'', Private, get_usage),
      (''POST /usage/clear'', Admin, post_usage_clear),
      (''GET /settings/usage'', Private, get_settings_usage),
      (''POST /settings/usage'', Admin, post_settings_usage),
      (''GET /audit'', Private, get_audit),
      (''GET /account'', Private, get_account),
      (''POST /account/password'', Private, post_change_password)]"

text \<open>A pattern with a method matches requests of that method, and \<open>GET\<close> also \<open>HEAD\<close>.\<close>

definition route_takes :: "string \<Rightarrow> string \<Rightarrow> bool" where
  "route_takes pat m = (let p = takeWhile (\<lambda>c. c \<noteq> CHR '' '') pat in p = m \<or> p = ''GET'' \<and> m = ''HEAD'')"

definition csrf_failed :: "'sc view" where
  "csrf_failed = Plain 403 ''the request could not be verified; reload the page and try again''"

definition forbidden :: "'sc view" where
  "forbidden = Plain 403 ''your account does not have permission to change configuration''"

text \<open>The checks after the session is attached, in the order of the chain; none means that the
  handler runs.\<close>

definition refusal :: "access \<Rightarrow> inbound \<Rightarrow> signed_in \<Rightarrow> 'sc view option" where
  "refusal acc r who =
     (if \<not> csrf_ok r who then Some csrf_failed
      else case acc of
        Public \<Rightarrow> None
      | Private \<Rightarrow> if \<not> has_session who then Some (Redirect ''/login'') else None
      | Admin \<Rightarrow> if \<not> has_session who then Some (Redirect ''/login'') else if \<not> is_admin who then Some forbidden else None)"

record 'sc web_reply =
  wr_headers :: header
  wr_cookies :: "set_cookie list"
  wr_view :: "'sc view"

definition web_headers :: "'sc web_env \<Rightarrow> inbound \<Rightarrow> header" where
  "web_headers env r =
     (let h = header_set ''X-Request-Id'' (request_id (we_idBytes env) r) [] in
      case we_nonce env of None \<Rightarrow> h | Some n \<Rightarrow> no_store (security_headers n (we_secure env) h))"

definition serve_web :: "'sc web_env \<Rightarrow> access \<Rightarrow> 'sc handler \<Rightarrow> inbound \<Rightarrow> string \<Rightarrow> 'sc web \<Rightarrow> 'sc web_reply \<times> 'sc web" where
  "serve_web env acc h r0 i s =
     (let reply = (\<lambda>ck v. \<lparr>wr_headers = web_headers env r0, wr_cookies = ck, wr_view = v\<rparr>);
          failed = Plain 500 ''internal server error''
      in if we_nonce env = None then (reply [] failed, s)
         else let r = body_limit (we_maxBody env) r0 in
           case optional_session (we_validate env) (we_sessions env) r (wb_system s) of
             (Inl u, y) \<Rightarrow> (reply [] failed, s\<lparr>wb_system := y\<rparr>)
           | (Inr (who, stale), y) \<Rightarrow>
               (let ck = (if stale then [cleared_cookie (ib_tls r)] else []); s1 = s\<lparr>wb_system := y\<rparr> in
                case refusal acc r who of
                  Some v \<Rightarrow> (reply ck v, s1)
                | None \<Rightarrow> (let ((ck1, v), s2) = h env r who i s1 in (reply (ck @ ck1) v, s2))))"

section \<open>What a request may leave changed\<close>

text \<open>Everything but the sessions, the pending messages and the failures to come.\<close>

definition platform_conf :: "'sc platform \<Rightarrow> 'sc platform" where
  "platform_conf p = p\<lparr>pf_db := (pf_db p)\<lparr>db_sessions := [], db_faults := []\<rparr>\<rparr>"

definition indexer_conf :: "'sc indexer \<Rightarrow> 'sc indexer" where
  "indexer_conf ix = ix\<lparr>xs_platform := platform_conf (xs_platform ix)\<rparr>"

definition usage_conf :: "usage_store option \<Rightarrow> usage_store option" where
  "usage_conf = map_option (\<lambda>u. u\<lparr>ug_faults := []\<rparr>)"

definition configuration :: "'sc web \<Rightarrow> 'sc indexer \<times> usage_store option \<times> attempt_limiter" where
  "configuration s = (indexer_conf (sy_indexer (wb_system s)), usage_conf (sy_usage (wb_system s)), wb_limiter s)"

named_theorems conf_rules \<open>operations that leave the configuration as it is\<close>

definition reads :: "'a sql \<Rightarrow> bool" where
  "reads m = (\<forall>d. (snd (m d))\<lparr>db_sessions := [], db_faults := []\<rparr> = d\<lparr>db_sessions := [], db_faults := []\<rparr>)"

lemma readsD: "reads m \<Longrightarrow> m d = (r, d') \<Longrightarrow> d'\<lparr>db_sessions := [], db_faults := []\<rparr> = d\<lparr>db_sessions := [], db_faults := []\<rparr>"
  unfolding reads_def by (metis snd_conv)

lemma reads_stmt: "(\<And>d. (snd (f d))\<lparr>db_sessions := [], db_faults := []\<rparr> = d\<lparr>db_sessions := [], db_faults := []\<rparr>) \<Longrightarrow> reads (stmt f)"
  by (auto simp: reads_def stmt_def split: list.split)

lemma reads_select [conf_rules]: "reads (select f)" "reads (select_row g)"
  unfolding select_def select_row_def by (rule reads_stmt, simp)+

lemma reads_statements [conf_rules]:
  "reads user_list" "reads user_count" "reads (user_by_id i)" "reads token_list" "reads (audit_list f)" "reads instance_list" "reads (instance_get i)"
  "reads (tool_binding_list i)" "reads (load_secrets i)" "reads (secret_names i)" "reads (count_chunks i)"
  "reads (wsession_get i)"
  unfolding user_list_def user_count_def user_by_id_def token_list_def audit_list_def instance_list_def instance_get_def tool_binding_list_def
    load_secrets_def secret_names_def count_chunks_def wsession_get_def by (rule reads_select)+


definition op_reads :: "('sc, 'a) op \<Rightarrow> bool" where
  "op_reads m = (\<forall>p. platform_conf (snd (m p)) = platform_conf p)"

lemma op_reads_sql [conf_rules]: "reads m \<Longrightarrow> op_reads (run_sql m)"
  by (simp add: op_reads_def reads_def run_sql_def platform_conf_def Let_def split: prod.split) (metis snd_conv)

lemma op_reads_return [conf_rules]: "op_reads (op_return a)"
  by (simp add: op_reads_def op_return_def)

lemma op_reads_bind [conf_rules]: "op_reads m \<Longrightarrow> (\<And>a. op_reads (k a)) \<Longrightarrow> op_reads (op_bind m k)"
  unfolding op_reads_def by (intro allI op_bind_keeps) auto

lemma op_reads_all: "(\<And>x. op_reads (f x)) \<Longrightarrow> op_reads (op_all f xs)"
  by (induction xs) (auto intro!: conf_rules)

lemma op_reads_registry [conf_rules]:
  "(\<And>e. op_reads (k e)) \<Longrightarrow> op_reads (\<lambda>p. case registry_get (pf_registry p) c of None \<Rightarrow> (Inr x, p) | Some e \<Rightarrow> k e p)"
  unfolding op_reads_def by (auto split: option.split)

lemma summarise_reads [conf_rules]: "op_reads (summarise i)"
  unfolding summarise_def[abs_def] by (intro conf_rules) (auto simp: Let_def intro!: conf_rules)

lemma list_instances_reads [conf_rules]: "op_reads list_instances"
  unfolding list_instances_def by (intro conf_rules op_reads_all)

lemma detail_instance_reads [conf_rules]: "op_reads (detail_instance i)"
  unfolding detail_instance_def by (intro conf_rules) (auto simp: Let_def intro!: conf_rules)

definition x_reads :: "('sc, 'a) xop \<Rightarrow> bool" where
  "x_reads m = (\<forall>s. indexer_conf (snd (m s)) = indexer_conf s)"

lemma x_reads_op [conf_rules]: "op_reads m \<Longrightarrow> x_reads (x_op m)"
  by (auto simp: x_reads_def op_reads_def x_op_def indexer_conf_def split: prod.split sum.split) (metis snd_conv)+

lemma x_reads_sql [conf_rules]: "reads m \<Longrightarrow> x_reads (x_sql m)"
  unfolding x_sql_def by (intro conf_rules)

lemma x_reads_bind [conf_rules]: "x_reads m \<Longrightarrow> (\<And>a. x_reads (k a)) \<Longrightarrow> x_reads (x_bind m k)"
  by (auto simp: x_reads_def x_bind_def split: prod.split sum.split) (metis snd_conv)+

lemma x_reads_return [conf_rules]: "x_reads (x_return a)" "x_reads (\<lambda>s. (f s, s))"
  by (simp_all add: x_reads_def x_return_def)

lemma embedder_settings_reads [conf_rules]: "x_reads embedder_settings_set"
  unfolding embedder_settings_set_def get_embedder_settings_def get_embedder_key_def by (intro conf_rules)

lemma status_of_reads [conf_rules]: "x_reads (status_of i)"
  unfolding status_of_def by (intro conf_rules)

definition usage_reads :: "(usage_store option \<Rightarrow> (domain_error, 'a) result \<times> usage_store option) \<Rightarrow> bool" where
  "usage_reads m = (\<forall>u. usage_conf (snd (m u)) = usage_conf u)"

lemma usage_ops_read [conf_rules]: "usage_reads (list_usage f)" "usage_reads get_usage_settings"
  by (auto simp: usage_reads_def usage_conf_def list_usage_def get_usage_settings_def usage_list_def usage_settings_get_def usage_stmt_def Let_def
      split: option.split list.split)

definition w_reads :: "('sc, 'a) wop \<Rightarrow> bool" where
  "w_reads m = (\<forall>s. configuration (snd (m s)) = configuration s)"

lemma w_readsD: "w_reads m \<Longrightarrow> m s = (r, s') \<Longrightarrow> configuration s' = configuration s"
  unfolding w_reads_def by (metis snd_conv)

lemma w_reads_op [conf_rules]: "op_reads m \<Longrightarrow> w_reads (w_op m)"
  by (auto simp: w_reads_def op_reads_def w_op_def sys_op_def configuration_def indexer_conf_def Let_def split: prod.split) (metis snd_conv)

lemma w_reads_sql [conf_rules]: "reads m \<Longrightarrow> w_reads (w_sql m)"
  unfolding w_sql_def by (intro conf_rules)

lemma w_reads_index [conf_rules]: "x_reads m \<Longrightarrow> w_reads (w_index m)"
  by (auto simp: w_reads_def x_reads_def w_index_def configuration_def Let_def split: prod.split sum.split) (metis snd_conv)

lemma w_reads_usage [conf_rules]: "usage_reads m \<Longrightarrow> w_reads (w_usage m)"
  by (auto simp: w_reads_def usage_reads_def w_usage_def configuration_def Let_def split: prod.split) (metis snd_conv)

lemma needs_setup_reads [conf_rules]: "reads needs_setup"
  unfolding reads_def needs_setup_def using reads_statements(2) by (auto simp: reads_def split: prod.split sum.split) (metis snd_conv)+

section \<open>The pages\<close>

lemma conf_flashes [simp]: "configuration (s\<lparr>wb_flashes := f\<rparr>) = configuration s"
  by (simp add: configuration_def)

lemma conf_messages [simp]:
  "configuration (web_flash env who f s) = configuration s" "configuration (flash_error env who m s) = configuration s"
  "configuration (flash_success env who m s) = configuration s"
  by (simp_all add: web_flash_def flash_error_def flash_success_def split: option.split)

lemma palette_reads: "configuration (snd (build_palette s)) = configuration s"
proof -
  have w: "w_reads (w_op list_instances :: 'a web \<Rightarrow> _)" by (intro conf_rules)
  show ?thesis using w[unfolded w_reads_def, rule_format, of s] by (auto simp: build_palette_def split: prod.split sum.split)
qed

lemma build_page_reads [simp]: "configuration (snd (build_page env r who title nav data s)) = configuration s"
  using palette_reads[of s] by (auto simp: build_page_def Let_def split: option.split prod.split)

lemma render_page_reads [simp]: "configuration (snd (render_page env r who status name title nav data s)) = configuration s"
  by (auto simp: render_page_def split: prod.split) (metis build_page_reads snd_conv)

lemma answers_read [simp]:
  "configuration (snd (web_internal_error s)) = configuration s" "configuration (snd (not_found env who e s)) = configuration s"
  "configuration (snd (no_search env who s)) = configuration s" "configuration (snd (no_usage env who s)) = configuration s"
  "configuration (snd (render_new_instance env r who status cid f s)) = configuration s"
  by (simp_all add: web_internal_error_def not_found_def no_search_def no_usage_def render_new_instance_def Let_def)

definition read_only :: "'sc handler \<Rightarrow> bool" where
  "read_only h = (\<forall>env r who i s. configuration (snd (h env r who i s)) = configuration s)"

text \<open>A step of a page: an operation that reads, and two continuations.\<close>

lemma reading_step:
  "w_reads m \<Longrightarrow> (\<And>e t. configuration (snd (f e t)) = configuration t) \<Longrightarrow> (\<And>a t. configuration (snd (g a t)) = configuration t) \<Longrightarrow>
   configuration (snd (case m s of (Inl e, t) \<Rightarrow> f e t | (Inr a, t) \<Rightarrow> g a t)) = configuration s"
  by (auto dest: w_readsD split: prod.split sum.split)

lemma reading_branch:
  "(b \<Longrightarrow> configuration (snd x) = c) \<Longrightarrow> (\<not> b \<Longrightarrow> configuration (snd y) = c) \<Longrightarrow> configuration (snd (if b then x else y)) = c"
  "(\<And>a b. configuration (snd (g a b)) = c) \<Longrightarrow> configuration (snd (case q of (a, b) \<Rightarrow> g a b)) = c"
  by (auto split: prod.split)

lemma redirect_reads: "configuration s = c \<Longrightarrow> configuration (snd (redirect path, s)) = c"
  by simp

lemmas reading = reading_step reading_branch(1) redirect_reads conf_rules answers_read render_page_reads

lemma pages_read:
  "read_only get_setup" "read_only get_login" "read_only get_account" "read_only get_instances" "read_only get_new_instance"
  "read_only get_connectors" "read_only get_tokens" "read_only get_audit"
  unfolding read_only_def get_setup_def get_login_def get_account_def get_instances_def get_new_instance_def get_connectors_def get_tokens_def
    get_audit_def audit_events_def Let_def
  by (intro allI reading refl)+

lemma settings_pages_read: "read_only get_settings_search" "read_only get_settings_usage" "read_only get_usage"
  unfolding read_only_def get_settings_search_def get_settings_usage_def get_usage_def Let_def
  by (intro allI reading refl reading_branch(2))+

lemma get_instance_read: "read_only get_instance"
proof -
  have "configuration (snd (get_instance env r who i s)) = configuration s" for env :: "'a web_env" and r who i s
  proof -
    obtain x s1 where x: "w_op (detail_instance i) s = (x, s1)" by (rule prod.exhaust)
    have "w_reads (w_op (detail_instance i) :: 'a web \<Rightarrow> _)" by (intro conf_rules)
    hence 1: "configuration s1 = configuration s" using x by (rule w_readsD)
    show ?thesis
    proof (cases x)
      case (Inl e) thus ?thesis using x 1 by (simp add: get_instance_def)
    next
      case (Inr d)
      let ?ixs = "case dt_connector d of None \<Rightarrow> (None, s1)
        | Some e \<Rightarrow> if we_hasIndexer env \<and> supported (we_ix env) (cr_id (rg_record e))
           then (case w_index (status_of (in_id (sm_instance (dt_summary d)))) s1 of (Inl err, s2) \<Rightarrow> (None, s2) | (Inr x, s2) \<Rightarrow> (Some x, s2))
           else (None, s1)"
      have w: "w_reads (w_index (status_of j) :: 'a web \<Rightarrow> _)" for j by (intro conf_rules)
      have 2: "configuration (snd ?ixs) = configuration s1"
        by (auto dest: w_readsD[OF w] split: option.split prod.split sum.split)
      show ?thesis using x Inr 1 2 by (auto simp: get_instance_def Let_def split: prod.splits)
    qed
  qed
  thus ?thesis by (simp add: read_only_def)
qed


section \<open>The checks\<close>

lemma session_writes [conf_rules]: "reads (wsession_delete i)" "reads (wsession_touch i a b)"
  unfolding wsession_delete_def wsession_touch_def by (rule reads_stmt; simp)+

lemma session_validate_reads [conf_rules]: "reads (session_validate env sx c)"
proof -
  let ?q = "\<lambda>d. d\<lparr>db_sessions := [], db_faults := []\<rparr>"
  have step: "?q (snd (m d)) = ?q d" if "reads m" for m :: "'b sql" and d using that by (simp add: reads_def)
  have reject: "?q (snd (reject_session i d :: (domain_error, user \<times> web_session) result \<times> db)) = ?q d" for i d
    using step[OF session_writes(1)] by (simp add: reject_session_def)
  have slide: "?q (snd (slide_window env sx u x d)) = ?q d" for u x d
    using step[OF session_writes(2)[of "ws_id x"], of _ _ d] by (auto simp: slide_window_def Let_def split: prod.split sum.split) (metis snd_conv)+
  show ?thesis unfolding reads_def
  proof
    fix d
    obtain x d1 where x: "wsession_get (session_lookup_key (sv_crypto env) (sv_keyring env) c) d = (x, d1)" by (rule prod.exhaust)
    have 1: "?q d1 = ?q d" by (rule readsD[OF reads_statements(12) x])
    show "?q (snd (session_validate env sx c d)) = ?q d"
    proof (cases x)
      case (Inl e) thus ?thesis using x 1 by (simp add: session_validate_def)
    next
      case (Inr ws)
      obtain y d2 where y: "user_by_id (ws_userID ws) d1 = (y, d2)" by (rule prod.exhaust)
      have 2: "?q d2 = ?q d1" by (rule readsD[OF reads_statements(3) y])
      show ?thesis
        by (cases y) (use x y 1 2 Inr reject[of "ws_id ws"] slide in \<open>auto simp: session_validate_def\<close>)
    qed
  qed
qed

lemma optional_session_conf:
  "optional_session env sx r y = (x, y') \<Longrightarrow> configuration (s\<lparr>wb_system := y'\<rparr>) = configuration (s\<lparr>wb_system := y\<rparr>)"
proof -
  assume o: "optional_session env sx r y = (x, y')"
  have "op_reads (run_sql (session_validate env sx v) :: ('a, _) op)" for v by (intro conf_rules)
  hence w: "platform_conf (snd (run_sql (session_validate env sx v) p)) = platform_conf p" for v and p :: "'a platform"
    by (simp add: op_reads_def)
  have "configuration (s\<lparr>wb_system := snd (sys_op (run_sql (session_validate env sx v)) y)\<rparr>) = configuration (s\<lparr>wb_system := y\<rparr>)" for v
    using w[of v "xs_platform (sy_indexer y)"] by (auto simp: configuration_def sys_op_def indexer_conf_def Let_def split: prod.split)
  thus ?thesis using o by (auto simp: optional_session_def Let_def split: if_splits prod.splits sum.splits) (metis snd_conv)+
qed

lemma optional_session_who:
  assumes "optional_session env sx r y = (Inr (Some (u, ws), stale), y')"
  shows "session_cookie_value r \<noteq> [] \<and> session_validate env sx (session_cookie_value r) (sys_db y) = (Inr (u, ws), sys_db y')"
  using assms by (auto simp: optional_session_def Let_def sys_op_def run_sql_def split: if_splits prod.splits sum.splits)

text \<open>A request that is served runs its handler for whoever the cookie names.\<close>

lemma serve_web_cases:
  fixes env :: "'a web_env"
  assumes "serve_web env acc h r0 i s = (p, s')"
  obtains (stopped) "configuration s' = configuration s" "wr_view p \<in> {Plain 500 ''internal server error'', csrf_failed, forbidden, Redirect ''/login''}"
  | (served) who stale y ck where "optional_session (we_validate env) (we_sessions env) (body_limit (we_maxBody env) r0) (wb_system s) = (Inr (who, stale), y)"
      "refusal acc (body_limit (we_maxBody env) r0) who = (None :: 'a view option)"
      "h env (body_limit (we_maxBody env) r0) who i (s\<lparr>wb_system := y\<rparr>) = ((ck, wr_view p), s')"
proof (cases "we_nonce env")
  case None
  thus ?thesis using assms that(1) by (auto simp: serve_web_def Let_def)
next
  case (Some n)
  let ?r = "body_limit (we_maxBody env) r0"
  obtain x y where o: "optional_session (we_validate env) (we_sessions env) ?r (wb_system s) = (x, y)" by (rule prod.exhaust)
  have conf: "configuration (s\<lparr>wb_system := y\<rparr>) = configuration s" using optional_session_conf[OF o, of s] by simp
  show ?thesis
  proof (cases x)
    case (Inl u) thus ?thesis using assms Some o conf that(1) by (auto simp: serve_web_def Let_def)
  next
    case (Inr z)
    obtain who stale where z: "z = (who, stale)" by (cases z)
    show ?thesis
    proof (cases "refusal acc ?r who :: 'a view option")
      case (Some v)
      hence "v \<in> {csrf_failed, forbidden, Redirect ''/login''}" by (auto simp: refusal_def split: if_splits access.splits)
      thus ?thesis using assms \<open>we_nonce env = Some n\<close> o conf Inr z Some that(1) by (auto simp: serve_web_def Let_def)
    next
      case None
      obtain ck v s2 where h: "h env ?r who i (s\<lparr>wb_system := y\<rparr>) = ((ck, v), s2)" by (metis prod.collapse)
      have "wr_view p = v \<and> s' = s2" using assms Some o Inr z None h by (auto simp: serve_web_def Let_def)
      thus ?thesis using that(2) o Inr z None h by simp
    qed
  qed
qed

lemma served_signed_in:
  assumes "refusal acc r who = None" "acc \<noteq> Public"
  obtains u ws where "who = Some (u, ws)" "csrf_ok r who" "acc = Admin \<longrightarrow> us_role u = RoleAdmin"
proof -
  obtain u ws where who: "who = Some (u, ws)" using assms by (cases who) (auto simp: refusal_def has_session_def split: if_splits access.splits)
  have "csrf_ok r who" "acc = Admin \<longrightarrow> us_role u = RoleAdmin"
    using assms who by (auto simp: refusal_def is_admin_def split: if_splits)
  thus ?thesis using that who by blast
qed

lemma routes_known:
  assumes "(pat, acc, h) \<in> set web_routes"
  obtains (page) "takeWhile (\<lambda>c. c \<noteq> CHR '' '') pat = ''GET''" "read_only h"
  | (form) "takeWhile (\<lambda>c. c \<noteq> CHR '' '') pat = ''POST''"
      "pat \<in> {''POST /setup'', ''POST /login''} \<or> pat \<in> {''POST /logout'', ''POST /account/password''} \<and> acc = Private \<or> acc = Admin"
  using assms pages_read settings_pages_read get_instance_read
  by (simp add: web_routes_def) (elim disjE conjE; simp)

section \<open>Properties\<close>

text \<open>C2: who can change what through the interface.  Whatever request reaches whatever route, if
  anything but sessions and pending messages differs afterwards, then the route is one of the
  forms, and either it is the first-run or the sign-in form, or the request carried the cookie
  of a live session of an account that is not disabled and the anti-forgery token of that very
  session, and the account is an administrator's unless the form is the sign-out or the change
  of one's own password.  In particular no page changes anything.\<close>
theorem web_changes_guarded:
  assumes "(pat, acc, h) \<in> set web_routes" "route_takes pat (ib_method r)" "serve_web env acc h r i s = (p, s')"
    and "configuration s' \<noteq> configuration s"
  shows "ib_method r = ''POST'' \<and>
     (pat \<in> {''POST /setup'', ''POST /login''} \<or>
      (\<exists>u ws d. session_validate (we_validate env) (we_sessions env) (session_cookie_value r) (sys_db (wb_system s)) = (Inr (u, ws), d) \<and>
         \<not> us_disabled u \<and> presented_csrf (body_limit (we_maxBody env) r) = ws_csrfToken ws \<and>
         (us_role u = RoleAdmin \<or> pat \<in> {''POST /logout'', ''POST /account/password''})))"
  using assms(3)
proof (cases rule: serve_web_cases)
  case stopped thus ?thesis using assms(4) by blast
next
  case (served who stale y ck)
  let ?r = "body_limit (we_maxBody env) r"
  have conf: "configuration (s\<lparr>wb_system := y\<rparr>) = configuration s" using optional_session_conf[OF served(1), of s] by simp
  from assms(1) show ?thesis
  proof (cases rule: routes_known)
    case page
    hence "configuration s' = configuration s" using served(3) conf by (metis read_only_def snd_conv)
    thus ?thesis using assms(4) by blast
  next
    case form
    hence post: "ib_method r = ''POST''" using assms(2) by (auto simp: route_takes_def Let_def)
    show ?thesis
    proof (cases "pat \<in> {''POST /setup'', ''POST /login''}")
      case True thus ?thesis using post by blast
    next
      case False
      hence acc: "acc \<noteq> Public" "acc = Admin \<or> pat \<in> {''POST /logout'', ''POST /account/password''}" using form by auto
      obtain u ws where who: "who = Some (u, ws)" "csrf_ok ?r who" "acc = Admin \<longrightarrow> us_role u = RoleAdmin"
        using served_signed_in[OF served(2) acc(1)] .
      have v: "session_validate (we_validate env) (we_sessions env) (session_cookie_value r) (sys_db (wb_system s)) = (Inr (u, ws), sys_db y)"
        using optional_session_who[OF served(1)[unfolded who(1)]] by (simp add: session_cookie_value_def body_limit_def split: option.splits if_splits)
      have "\<not> us_disabled u" using session_validate_Inr[OF v] by blast
      moreover have "presented_csrf ?r = ws_csrfToken ws" using who(2) post by (simp add: csrf_ok_def who(1) safe_method_def)
      ultimately show ?thesis using post v who(3) acc(2) by blast
    qed
  qed
qed

text \<open>An administrator revokes a token.\<close>

definition demo_web_env :: "unit web_env" where
  "demo_web_env = \<lparr>we_penv = (\<lambda>n. inst_env\<lparr>pv_svc := demo_svc (''w'' @ nat_dec n) 120\<rparr>), we_validate = demo_svc ''v'' 100, we_between = id, we_ix = demo_index_env,
     we_hasIndexer = True, we_engine = demo_env, we_elapsed = 3, we_engineText = (\<lambda>e. []), we_freed = length, we_errorText = (\<lambda>e. ''failed''),
     we_quote = id, we_order = id, we_sessions = demo_sessions, we_publicURL = [], we_version = ''1'', we_secure = True, we_trustProxy = False,
     we_maxAge = 0, we_maxBody = 1000, we_nonce = Some ''n'', we_idBytes = ''r'', we_takeNow = 101, we_setNow = (100, 100), we_allowNow = 100, we_failNow = 100\<rparr>"

definition demo_web :: "unit web" where
  "demo_web = new_web None (on_platform (\<lambda>p. p\<lparr>pf_db := demo_login\<lparr>db_tokens := [demo_token]\<rparr>\<rparr>) demo_system)"

definition demo_form :: "(string \<times> string) list \<Rightarrow> inbound" where
  "demo_form fs = \<lparr>ib_method = ''POST'', ib_path = [], ib_host = [], ib_headers = [], ib_cookies = [(session_cookie_name, demo_cookie)], ib_query = [],
     ib_form = (csrf_field_name, b64_raw_url ''s21'') # fs, ib_formFailed = False, ib_body = Some [], ib_remoteAddr = ''10.0.0.7:4000'', ib_tls = True\<rparr>"

lemma conf_tokens: "configuration s' = configuration s \<Longrightarrow> db_tokens (sys_db (wb_system s')) = db_tokens (sys_db (wb_system s))"
  unfolding configuration_def indexer_conf_def platform_conf_def
  by (drule arg_cong[where f = "\<lambda>c. db_tokens (the_db (fst c))"]) simp

lemma web_changes_guarded_witness:
  "\<exists>u ws d. session_validate (demo_svc ''v'' 100) demo_sessions demo_cookie (sys_db (wb_system demo_web)) = (Inr (u, ws), d) \<and>
     us_role u = RoleAdmin \<and>
     map tk_revokedAt (db_tokens (sys_db (wb_system (snd (serve_web demo_web_env Admin post_revoke_token (demo_form []) ''tok_1'' demo_web))))) = [Some 120]"
proof -
  let ?r = "serve_web demo_web_env Admin post_revoke_token (demo_form []) ''tok_1'' demo_web"
  have revoked: "map tk_revokedAt (db_tokens (sys_db (wb_system (snd ?r)))) = [Some 120]" by code_simp
  moreover have "map tk_revokedAt (db_tokens (sys_db (wb_system demo_web))) = [None]"
    by (simp add: demo_web_def new_web_def on_platform_def demo_token_def Let_def)
  ultimately have "configuration (snd ?r) \<noteq> configuration demo_web" using conf_tokens by fastforce
  moreover have "(''POST /tokens/{id}/revoke'', Admin, post_revoke_token) \<in> set web_routes" by (simp add: web_routes_def)
  moreover have "route_takes ''POST /tokens/{id}/revoke'' (ib_method (demo_form []))" by (simp add: route_takes_def demo_form_def)
  moreover have "?r = (fst ?r, snd ?r)" by simp
  ultimately have "\<exists>u ws d. session_validate (we_validate demo_web_env) (we_sessions demo_web_env) (session_cookie_value (demo_form []))
      (sys_db (wb_system demo_web)) = (Inr (u, ws), d) \<and> us_role u = RoleAdmin"
    using web_changes_guarded[of "''POST /tokens/{id}/revoke''" Admin post_revoke_token "demo_form []" demo_web_env "''tok_1''" demo_web "fst ?r" "snd ?r"]
    by auto
  moreover have "session_cookie_value (demo_form []) = demo_cookie" by (simp add: session_cookie_value_def demo_form_def)
  ultimately show ?thesis using revoked by (simp add: demo_web_env_def)
qed

end
