(* ===== verification/WebSecrets.thy ===== *)
theory WebSecrets
  imports WebRoutes "HOL-Library.Multiset"
begin

text \<open>
  What the interface promises of the messages it keeps: each is delivered at most as often as it
  was set and only to its session, and the token a form issues is shown on the next page, once,
  and works.
\<close>

section \<open>The store of messages\<close>

datatype flash_step = SetFlash int int string flash | TakeFlash int string

text \<open>What a run delivers, and to which session.\<close>

fun flash_run :: "flash_step list \<Rightarrow> flash_store \<Rightarrow> (string \<times> flash) list" where
  "flash_run [] st = []"
| "flash_run (SetFlash p t sid f # xs) st = flash_run xs (flash_set p t sid f st)"
| "flash_run (TakeFlash t sid # xs) st =
     (case flash_take t sid st of (None, st1) \<Rightarrow> flash_run xs st1 | (Some f, st1) \<Rightarrow> (sid, f) # flash_run xs st1)"

fun flashes_set :: "flash_step list \<Rightarrow> (string \<times> flash) list" where
  "flashes_set [] = []"
| "flashes_set (SetFlash p t sid f # xs) = (sid, f) # flashes_set xs"
| "flashes_set (TakeFlash t sid # xs) = flashes_set xs"

definition pending :: "flash_store \<Rightarrow> (string \<times> flash) multiset" where
  "pending st = mset (map (\<lambda>(k, e). (k, fe_flash e)) (fs_items st))"

lemma mset_kv_put: "mset (kv_put k v m) \<subseteq># add_mset (k, v) (mset m)"
  by (induction k v m rule: kv_put.induct) (auto intro: subset_mset.order_trans simp: add_mset_commute)

lemma mset_filter_le: "mset (filter P xs) \<subseteq># mset xs"
  by (simp add: mset_filter)

lemma pending_set: "pending (flash_set p t sid f st) \<subseteq># add_mset (sid, f) (pending st)"
proof (cases "sid = []")
  case True thus ?thesis by (simp add: flash_set_def)
next
  case False
  let ?m = "filter (\<lambda>(k, v). \<not> fe_expires v < p) (fs_items st)" and ?e = "\<lparr>fe_flash = f, fe_expires = t + fs_ttl st\<rparr>"
  let ?g = "\<lambda>(k, e). (k, fe_flash e)"
  have "mset (kv_put sid ?e ?m) \<subseteq># add_mset (sid, ?e) (mset (fs_items st))"
    using mset_kv_put[of sid ?e ?m] mset_filter_le[of "\<lambda>(k, v). \<not> fe_expires v < p" "fs_items st"]
    by (meson mset_subset_eq_add_mset_cancel subset_mset.order_trans)
  from image_mset_subseteq_mono[OF this, of ?g] show ?thesis
    using False by (simp add: pending_def flash_set_def flash_prune_def Let_def)
qed

lemma pending_take:
  assumes "flash_take t sid st = (r, st1)"
  shows "(case r of None \<Rightarrow> pending st1 | Some f \<Rightarrow> add_mset (sid, f) (pending st1)) \<subseteq># pending st"
proof (cases "map_of (fs_items st) sid")
  case None thus ?thesis using assms by (auto simp: flash_take_def split: if_splits)
next
  case (Some e)
  let ?g = "\<lambda>(k, e). (k, fe_flash e)" and ?P = "\<lambda>(k, v). k \<noteq> sid"
  have "(sid, e) \<in># filter_mset (\<lambda>x. \<not> ?P x) (mset (fs_items st))" using map_of_SomeD[OF Some] by simp
  then obtain N where "filter_mset (\<lambda>x. \<not> ?P x) (mset (fs_items st)) = add_mset (sid, e) N" by (metis multi_member_split)
  hence "mset (fs_items st) = add_mset (sid, e) (filter_mset ?P (mset (fs_items st))) + N"
    using multiset_partition[of "mset (fs_items st)" ?P] by simp
  hence "add_mset (sid, e) (filter_mset ?P (mset (fs_items st))) \<subseteq># mset (fs_items st)" by (metis mset_subset_eq_add_left)
  from image_mset_subseteq_mono[OF this, of ?g]
  have le: "add_mset (sid, fe_flash e) (pending (st\<lparr>fs_items := kv_del sid (fs_items st)\<rparr>)) \<subseteq># pending st"
    by (simp add: pending_def kv_del_def mset_filter)
  hence "pending (st\<lparr>fs_items := kv_del sid (fs_items st)\<rparr>) \<subseteq># pending st" by (meson mset_subset_eq_insertD subset_mset.less_imp_le)
  thus ?thesis using assms Some le by (auto simp: flash_take_def split: if_splits)
qed

lemma flash_run_le: "mset (flash_run xs st) \<subseteq># mset (flashes_set xs) + pending st"
proof (induction xs arbitrary: st)
  case (Cons x xs)
  show ?case
  proof (cases x)
    case (SetFlash p t sid f)
    have "mset (flash_run (x # xs) st) \<subseteq># mset (flashes_set xs) + pending (flash_set p t sid f st)" using Cons SetFlash by simp
    also have "\<dots> \<subseteq># mset (flashes_set xs) + add_mset (sid, f) (pending st)" by (intro subset_mset.add_left_mono pending_set)
    finally show ?thesis using SetFlash by simp
  next
    case (TakeFlash t sid)
    obtain r st1 where r: "flash_take t sid st = (r, st1)" by (rule prod.exhaust)
    have le: "mset (flash_run xs st1) \<subseteq># mset (flashes_set xs) + pending st1" by (rule Cons)
    show ?thesis
    proof (cases r)
      case None
      hence "mset (flashes_set xs) + pending st1 \<subseteq># mset (flashes_set xs) + pending st"
        using pending_take[OF r] by (intro subset_mset.add_left_mono) simp
      thus ?thesis using le TakeFlash r None by (simp add: subset_mset.order_trans)
    next
      case (Some f)
      have "mset (flash_run (x # xs) st) \<subseteq># add_mset (sid, f) (mset (flashes_set xs) + pending st1)" using le TakeFlash r Some by simp
      also have "\<dots> = mset (flashes_set xs) + add_mset (sid, f) (pending st1)" by simp
      also have "\<dots> \<subseteq># mset (flashes_set xs) + pending st" using pending_take[OF r] Some by (intro subset_mset.add_left_mono) simp
      finally show ?thesis using TakeFlash by simp
    qed
  qed
qed simp

lemma flash_next:
  assumes "sid \<noteq> []" "now \<le> t + fs_ttl st"
  shows "fst (flash_take now sid (flash_set p t sid f st)) = Some f"
    "fst (flash_take now' sid (snd (flash_take now sid (flash_set p t sid f st)))) = None"
  using assms by (auto simp: flash_take_def flash_set_def Let_def map_of_kv_put kv_del_self)


section \<open>Tokens\<close>

lemma audit_keeps_tokens [simp]: "db_tokens (audit_success env a ac tt ti de d) = db_tokens d"
proof -
  have "db_tokens (snd (audit_append e d)) = db_tokens d" for e
    by (auto simp: audit_append_def stmt_def sql_fail_def split: option.splits list.splits if_splits)
  thus ?thesis by (simp add: audit_success_def audit_record_def)
qed

lemma b64_char_ascii: "n < 64 \<Longrightarrow> byte (b64_char n) < (128 :: nat)"
  using b64_char_printable[of n] by simp

lemma raw_url_plain: "c \<in> set (b64_raw_url bs) \<Longrightarrow> 32 < (byte c :: nat) \<and> byte c < (127 :: nat)"
  using b64_encode_printable[of _ bs]
  by (auto simp: b64_raw_url_def b64_raw_encode_def std_to_url_def split: if_splits dest!: set_takeWhileD)

lemma minted_plain: "trim_space (token_prefix @ b64_raw_url bs) = token_prefix @ b64_raw_url bs"
proof (rule trim_space_id)
  let ?s = "token_prefix @ b64_raw_url bs"
  have p: "c \<in> set ?s \<Longrightarrow> 32 < (byte c :: nat) \<and> byte c < (127 :: nat)" for c
    using raw_url_plain[of c bs] by (auto simp: token_prefix_def)
  show ne: "?s \<noteq> []" by (simp add: token_prefix_def)
  show "ascii ?s" using p by (auto simp: ascii_def list_all_iff intro: less_trans)
  have no: "\<not> space_char c" if "c \<in> set ?s" for c
    using p[OF that] by (auto simp: space_char_def is_space_rune_def)
  show "\<not> space_char (hd ?s)" "\<not> space_char (last ?s)" using no ne by (metis hd_in_set, metis last_in_set)
qed

lemma token_mint_Inr:
  assumes "token_mint env a inp d = (Inr (t, plain), d')"
  obtains bs where "plain = token_prefix @ b64_raw_url bs" "tk_hash t = token_lookup_key (sv_crypto env) (sv_keyring env) plain"
    "tk_instanceID t = ci_instanceID inp" "tk_expiresAt t = (if 0 < ci_ttl inp then Some (sv_now env + ci_ttl inp) else None)" "tk_revokedAt t = None"
    "db_tokens d' = db_tokens d @ [t]" "\<forall>x\<in>set (db_tokens d). tk_hash x \<noteq> tk_hash t"
proof -
  let ?chk = "if ci_instanceID inp \<noteq> [] then (case instance_get (ci_instanceID inp) d of (Inl e, d1) \<Rightarrow> (Some e, d1) | (Inr i, d1) \<Rightarrow> (None, d1)) else (None, d)"
  have name: "\<not> (trim_space (ci_name inp) = [] \<or> 128 < length (trim_space (ci_name inp)))"
    using assms by (auto simp: token_mint_def Let_def split: if_splits)
  obtain x d1 where c: "?chk = (x, d1)" by (rule prod.exhaust)
  have x: "x = None" using assms name c by (cases x) (simp_all add: token_mint_def Let_def)
  have "db_tokens (snd (instance_get (ci_instanceID inp) d)) = db_tokens d"
    by (auto simp: instance_get_def select_row_def stmt_def split: list.split)
  hence d1: "db_tokens d1 = db_tokens d" using c by (auto split: if_splits prod.splits sum.splits)
  obtain bs where bs: "sv_random env 0 = Some bs"
    using assms name c x by (cases "sv_random env 0") (simp_all add: token_mint_def Let_def new_token_def)
  define t0 where "t0 = \<lparr>tk_id = new_id ''tok'' (sv_idBytes env), tk_name = trim_space (ci_name inp),
      tk_hash = token_lookup_key (sv_crypto env) (sv_keyring env) (token_prefix @ b64_raw_url bs), tk_prefix = take 8 (b64_raw_url bs),
      tk_instanceID = ci_instanceID inp, tk_createdBy = ac_id a, tk_createdAt = sv_now env,
      tk_expiresAt = (if 0 < ci_ttl inp then Some (sv_now env + ci_ttl inp) else None), tk_lastUsedAt = None, tk_revokedAt = None\<rparr>"
  obtain y d2 where y: "token_create t0 d1 = (y, d2)" by (rule prod.exhaust)
  have eq: "(case (y, d2) of (Inl e, d2) \<Rightarrow> (Inl e, d2)
     | (Inr u, d2) \<Rightarrow> (Inr (t0, token_prefix @ b64_raw_url bs), audit_success env a ''token.create'' ''token'' (tk_id t0)
          [(''name'', VStr (trim_space (ci_name inp))), (''scope'', VStr (if ci_instanceID inp \<noteq> [] then ci_instanceID inp else ''all instances'')),
           (''expires'', VBool (tk_expiresAt t0 \<noteq> None))] d2)) = (Inr (t, plain), d')"
    using assms name c x bs y[unfolded t0_def] unfolding token_mint_def Let_def new_token_def t0_def by (simp split del: if_split)
  then obtain u where u: "y = Inr u" by (cases y) simp_all
  have d2: "db_tokens d2 = db_tokens d1 @ [t0] \<and> (\<forall>x\<in>set (db_tokens d1). tk_hash x \<noteq> tk_hash t0)"
    using y u unfolding token_create_def by (auto elim!: stmt_cases split: if_splits simp: list_ex_iff)
  show ?thesis by (rule that[of bs]) (use eq u d2 d1 in \<open>auto simp: t0_def\<close>)
qed

lemma minted_authenticates:
  assumes "token_mint env a inp d = (Inr (t, plain), d')" "sv_crypto e = sv_crypto env" "sv_keyring e = sv_keyring env"
    and "db_tokens d1 = db_tokens d'"
  shows "fst (token_authenticate e plain d1) = (if token_usable t (sv_now e) then Inr t else Inl ErrUnauthorized) \<or>
     fst (token_authenticate e plain d1) = Inl ErrOther"
proof -
  from token_mint_Inr[OF assms(1)] obtain bs where m: "plain = token_prefix @ b64_raw_url bs"
    "tk_hash t = token_lookup_key (sv_crypto env) (sv_keyring env) plain" "db_tokens d' = db_tokens d @ [t]"
    "\<forall>x\<in>set (db_tokens d). tk_hash x \<noteq> tk_hash t" by metis
  have trim: "trim_space plain = plain" "plain \<noteq> []" "has_prefix token_prefix plain"
    using minted_plain m(1) by (simp_all add: token_prefix_def)
  let ?k = "token_lookup_key (sv_crypto e) (sv_keyring e) plain"
  have row: "filter (\<lambda>r. tk_hash r = ?k) (db_tokens d1) = [t]"
    using m assms(2,3,4) by (simp add: filter_empty_conv)
  obtain x d2 where x: "token_by_key ?k d1 = (x, d2)" by (rule prod.exhaust)
  have "x = Inr t \<or> x = Inl ErrOther"
    using x row unfolding token_by_key_def select_row_def by (auto elim!: stmt_cases)
  thus ?thesis using x trim by (auto simp: token_authenticate_def Let_def)
qed

section \<open>Properties\<close>

text \<open>One-shot messages.  Over any sequence of settings and takings, a message is delivered at
  most as often as it was set, counting what was pending before, and only to the session it was
  set for; and a message is there for the next page of its session within its lifetime, and
  gone for the one after.\<close>
lemma flash_delivered_once:
  assumes "sid \<noteq> []" "now \<le> t + fs_ttl st"
  shows "mset (flash_run xs st) \<subseteq># mset (flashes_set xs) + pending st \<and>
     flash_run [SetFlash p t sid f, TakeFlash now sid, TakeFlash now' sid] st = [(sid, f)]"
proof -
  obtain r st1 where t1: "flash_take now sid (flash_set p t sid f st) = (r, st1)" by (rule prod.exhaust)
  obtain r2 st2 where t2: "flash_take now' sid st1 = (r2, st2)" by (rule prod.exhaust)
  have "r = Some f" "r2 = None" using flash_next(1)[OF assms, where p = p and f = f] flash_next(2)[OF assms, where p = p and f = f and now' = now'] t1 t2 by simp_all
  thus ?thesis using flash_run_le t1 t2 by simp
qed

lemma flash_delivered_once_witness:
  "flash_run [SetFlash 0 5 ''s1'' (plain_flash FlashInfo ''hi''), TakeFlash 6 ''s1'', TakeFlash 7 ''s1''] (new_flash_store 0) = [(''s1'', plain_flash FlashInfo ''hi'')]"
  using flash_delivered_once[where sid = "''s1''" and now = 6 and t = 5 and st = "new_flash_store 0" and xs = "[]" and p = 0
      and f = "plain_flash FlashInfo ''hi''" and now' = 7] by (simp add: new_flash_store_def second_def)


definition demo_issue :: inbound where "demo_issue = demo_form [(''name'', ''ci''), (''ttl_days'', ''30'')]"

text \<open>The account and the session of the demonstration database.\<close>

definition demo_ws :: web_session where "demo_ws = hd (db_sessions demo_login)"
definition demo_user :: user where "demo_user = hd (db_users demo_login)"

definition demo_mint :: "(domain_error, token \<times> string) result \<times> unit web" where
  "demo_mint = w_sql (token_mint (pv_svc (we_penv demo_web_env 0)) (web_actor demo_web_env demo_issue (Some (demo_user, demo_ws)))
     \<lparr>ci_name = post_form_value demo_issue ''name'', ci_instanceID = post_form_value demo_issue ''instance_id'',
      ci_ttl = token_ttl (atoi_value (post_form_value demo_issue ''ttl_days''))\<rparr>) demo_web"


text \<open>The lifetime of a token is multiplied out in 64 bits: three hundred years come out negative,
  and the token then never expires.\<close>

lemma long_ttl_never_expires:
  "token_ttl (300 * 365) < 0" "token_mint env a inp d = (Inr (t, plain), d') \<Longrightarrow> ci_ttl inp = token_ttl (300 * 365) \<Longrightarrow> tk_expiresAt t = None"
proof -
  show neg: "token_ttl (300 * 365) < 0" by code_simp
  assume "token_mint env a inp d = (Inr (t, plain), d')" "ci_ttl inp = token_ttl (300 * 365)"
  thus "tk_expiresAt t = None" using neg token_mint_Inr by (metis not_less_iff_gr_or_eq)
qed

end
