(* ===== verification/HtmlText.thy ===== *)
theory HtmlText
  imports Store
begin

text \<open>
  \<open>internal/index/htmltext.go\<close>: the text of an archived page.  The scanner is a function on the
  rest of the document; the replacement of entities and the lower-case mapping of Unicode are
  arguments.  Slicing past the end panics in Go, so the scanner may return nothing.
\<close>

definition block_tags :: "string list" where
  "block_tags = [''p'', ''div'', ''br'', ''hr'', ''h1'', ''h2'', ''h3'', ''h4'', ''h5'', ''h6'', ''li'', ''tr'', ''td'', ''th'',
     ''blockquote'', ''pre'', ''section'', ''article'', ''header'', ''footer'', ''nav'', ''table'', ''ul'', ''ol'']"

definition skipped_tags :: "string list" where
  "skipped_tags = [''script'', ''style'', ''noscript'', ''template'']"

definition tag_byte :: "char \<Rightarrow> bool" where
  "tag_byte c = (97 \<le> byte c \<and> byte c \<le> (122 :: nat) \<or> 65 \<le> byte c \<and> byte c \<le> (90 :: nat) \<or> is_digit c \<or> c = CHR ''-'')"

text \<open>What follows the closing bracket of a tag, outside quotes.\<close>

function scan_close :: "string \<Rightarrow> string option" where
  "scan_close [] = None"
| "scan_close (c # cs) =
     (if c = CHR ''>'' then Some cs
      else if c = CHR 0x22 \<or> c = CHR 0x27 then scan_close (drop 1 (dropWhile (\<lambda>x. x \<noteq> c) cs))
      else scan_close cs)"
  by pat_completeness auto
termination
  by (relation "measure length") (auto simp: less_Suc_eq_le intro: le_trans[OF diff_le_self length_dropWhile_le])

text \<open>The name of the tag whose bracket was just read, and what follows it.\<close>

definition scan_tag :: "string \<Rightarrow> string \<times> string option" where
  "scan_tag cs =
     (let r = (case cs of c # t \<Rightarrow> if c = CHR ''/'' then t else cs | [] \<Rightarrow> [])
      in (to_lower (takeWhile tag_byte r), scan_close (dropWhile tag_byte r)))"

text \<open>The position is found in the text in lower case and used in the text as it is.\<close>

definition skip_to_closing :: "(nat \<Rightarrow> nat) \<Rightarrow> string \<Rightarrow> string \<Rightarrow> string option" where
  "skip_to_closing lower body name =
     (case str_index (go_lower lower (''</'' @ name)) (go_lower lower body) of
        None \<Rightarrow> Some []
      | Some i \<Rightarrow>
          if length body < i then None
          else (case str_index ''>'' (drop i body) of None \<Rightarrow> Some [] | Some j \<Rightarrow> Some (drop (i + j + 1) body)))"

lemma scan_close_length: "scan_close s = Some b \<Longrightarrow> length b < length s"
proof (induction s rule: scan_close.induct)
  case (2 c cs)
  have "length (dropWhile (\<lambda>x. x \<noteq> c) cs) - 1 \<le> length cs" using length_dropWhile_le[of "\<lambda>x. x \<noteq> c" cs] by simp
  thus ?case using 2 by (fastforce split: if_splits)
qed simp

lemma scan_tag_length: "scan_tag cs = (name, Some b) \<Longrightarrow> length b < length cs"
proof -
  assume s: "scan_tag cs = (name, Some b)"
  define r where "r = (case cs of c # t \<Rightarrow> if c = CHR ''/'' then t else cs | [] \<Rightarrow> [])"
  have "length b < length (dropWhile tag_byte r)" using s by (auto simp: scan_tag_def Let_def r_def intro: scan_close_length)
  also have "\<dots> \<le> length r" by (rule length_dropWhile_le)
  also have "\<dots> \<le> length cs" by (auto simp: r_def split: list.split)
  finally show ?thesis .
qed

lemma skip_length: "skip_to_closing lower body name = Some b \<Longrightarrow> length b \<le> length body"
  by (auto simp: skip_to_closing_def split: option.splits if_splits)

function strip_scan :: "(nat \<Rightarrow> nat) \<Rightarrow> string \<Rightarrow> string option" where
  "strip_scan lower [] = Some []"
| "strip_scan lower (c # cs) =
     (if c \<noteq> CHR ''<'' then map_option ((#) c) (strip_scan lower cs)
      else if has_prefix ''!--'' cs
      then (case str_index ''-->'' (drop 3 cs) of None \<Rightarrow> Some [] | Some i \<Rightarrow> strip_scan lower (drop (3 + i + 3) cs))
      else case scan_tag cs of
        (name, None) \<Rightarrow> Some []
      | (name, Some body) \<Rightarrow>
          if name \<in> set skipped_tags
          then (case skip_to_closing lower body name of None \<Rightarrow> None | Some rest \<Rightarrow> strip_scan lower rest)
          else map_option (\<lambda>t. (if name \<in> set block_tags then newline else []) @ t) (strip_scan lower body))"
  by pat_completeness auto
termination
  by (relation "measure (\<lambda>(lower, s). length s)") (auto dest!: scan_tag_length[OF sym] skip_length)

fun keep_lines :: "nat \<Rightarrow> string list \<Rightarrow> string list" where
  "keep_lines blank [] = []"
| "keep_lines blank (l # ls) =
     (let x = join_str '' '' (Utf8.fields l) in
      if x = [] then (if 1 < blank + 1 then keep_lines (blank + 1) ls else x # keep_lines (blank + 1) ls)
      else x # keep_lines 0 ls)"

definition collapse_html_whitespace :: "string \<Rightarrow> string" where
  "collapse_html_whitespace s = trim_space (join_str newline (keep_lines 0 (split_on CHR 0x0A s)))"

definition strip_html :: "(string \<Rightarrow> string) \<Rightarrow> (nat \<Rightarrow> nat) \<Rightarrow> string \<Rightarrow> string option" where
  "strip_html unescape lower raw = map_option (\<lambda>t. collapse_html_whitespace (unescape t)) (strip_scan lower raw)"

section \<open>Lemmas\<close>

lemma skip_total: "ascii body \<Longrightarrow> \<exists>b. skip_to_closing lower body name = Some b"
proof -
  assume a: "ascii body"
  have "length (go_lower lower body) = length body" using a by (simp add: go_lower_def to_lower_def)
  hence "i \<le> length body" if "str_index (go_lower lower (''</'' @ name)) (go_lower lower body) = Some i" for i
    using str_index_bound[OF that] by simp
  thus ?thesis by (auto simp: skip_to_closing_def split: option.split)
qed

lemma ascii_drop: "ascii s \<Longrightarrow> ascii (drop n s)"
  by (auto simp: ascii_def list_all_iff dest: in_set_dropD)

lemma scan_close_suffix: "scan_close s = Some b \<Longrightarrow> set b \<subseteq> set s"
proof (induction s rule: scan_close.induct)
  case (2 c cs)
  have "set (drop 1 (dropWhile (\<lambda>x. x \<noteq> c) cs)) \<subseteq> set cs" by (meson order_trans set_drop_subset set_dropWhile_subset)
  thus ?case using 2 by (fastforce split: if_splits)
qed simp

lemma scan_tag_suffix: "scan_tag cs = (name, Some b) \<Longrightarrow> set b \<subseteq> set cs"
proof -
  assume s: "scan_tag cs = (name, Some b)"
  define r where "r = (case cs of c # t \<Rightarrow> if c = CHR ''/'' then t else cs | [] \<Rightarrow> [])"
  have "set b \<subseteq> set (dropWhile tag_byte r)" using s by (simp add: scan_tag_def Let_def r_def scan_close_suffix)
  also have "\<dots> \<subseteq> set r" by (rule set_dropWhile_subset)
  also have "\<dots> \<subseteq> set cs" by (auto simp: r_def split: list.split)
  finally show ?thesis .
qed

lemma skip_suffix: "skip_to_closing lower body name = Some b \<Longrightarrow> set b \<subseteq> set body"
  by (auto simp: skip_to_closing_def dest: in_set_dropD split: option.splits if_splits)

lemma ascii_subset: "ascii s \<Longrightarrow> set t \<subseteq> set s \<Longrightarrow> ascii t"
  by (auto simp: ascii_def list_all_iff)

lemma strip_scan_clean: "strip_scan lower s = Some t \<Longrightarrow> CHR ''<'' \<notin> set t \<and> length t \<le> length s"
proof (induction lower s arbitrary: t rule: strip_scan.induct)
  case (2 lower c cs)
  show ?case
  proof (cases "c = CHR ''<''")
    case False thus ?thesis using 2 by (auto split: if_splits)
  next
    case lt: True
    show ?thesis
    proof (cases "has_prefix ''!--'' cs")
      case True
      show ?thesis
      proof (cases "str_index ''-->'' (drop 3 cs)")
        case None thus ?thesis using 2(5) lt True by simp
      next
        case (Some i)
        have "strip_scan lower (drop (3 + i + 3) cs) = Some t" using 2(5) lt True Some by simp
        from 2(2)[OF _ True Some this] lt show ?thesis by auto
      qed
    next
      case no: False
      obtain name b where s: "scan_tag cs = (name, b)" by (rule prod.exhaust)
      show ?thesis
      proof (cases b)
        case None thus ?thesis using 2(5) lt no s by simp
      next
        case (Some body)
        note len = scan_tag_length[OF s[unfolded Some]]
        show ?thesis
        proof (cases "name \<in> set skipped_tags")
          case True
          then obtain rest where r: "skip_to_closing lower body name = Some rest" "strip_scan lower rest = Some t"
            using 2(5) lt no s Some by (auto split: option.splits)
          from 2(3)[OF _ no s[symmetric] Some True r(1) r(2)] lt len skip_length[OF r(1)] show ?thesis by simp
        next
          case False
          then obtain u where u: "strip_scan lower body = Some u" "t = (if name \<in> set block_tags then newline else []) @ u"
            using 2(5) lt no s Some by (auto split: if_splits)
          from 2(4)[OF _ no s[symmetric] Some False u(1)] lt len u(2) show ?thesis by (simp add: newline_def)
        qed
      qed
    qed
  qed
qed simp

lemma strip_scan_total: "ascii s \<Longrightarrow> strip_scan lower s \<noteq> None"
proof (induction lower s rule: strip_scan.induct)
  case (2 lower c cs)
  have a: "ascii cs" using 2(5) by simp
  obtain name b where s: "scan_tag cs = (name, b)" by (rule prod.exhaust)
  have body: "ascii x" if "b = Some x" for x using ascii_subset[OF a scan_tag_suffix] s that by simp
  show ?case
  proof (cases "c = CHR ''<'' \<and> \<not> has_prefix ''!--'' cs \<and> b \<noteq> None \<and> name \<in> set skipped_tags")
    case True
    then obtain x where x: "b = Some x" by blast
    obtain rest where r: "skip_to_closing lower x name = Some rest" using skip_total[OF body[OF x]] by blast
    have "strip_scan lower rest \<noteq> None"
      using 2(3)[OF _ _ s[symmetric] x _ r] True ascii_subset[OF body[OF x] skip_suffix[OF r]] by blast
    thus ?thesis using True s x r by simp
  next
    case False
    thus ?thesis using 2(1,2,4) a s body ascii_drop[OF a] by (auto split: option.split)
  qed
qed simp

section \<open>Properties\<close>

text \<open>No markup survives.  Whenever the scanner returns, no opening bracket of a tag is left and
  the text is no longer than the page; and it always returns on a page of ASCII characters,
  whatever its tags, comments and quotes look like.\<close>
theorem stripped_text_clean:
  "(case strip_scan lower raw of None \<Rightarrow> True | Some t \<Rightarrow> CHR ''<'' \<notin> set t \<and> length t \<le> length raw) \<and>
   (ascii raw \<longrightarrow> strip_html unescape lower raw \<noteq> None)"
  using strip_scan_clean strip_scan_total by (auto simp: strip_html_def split: option.split)

lemma stripped_text_clean_witness:
  "strip_html id id ''<p title='' = Some [] \<and>
   strip_html id id (''a <b>bold</b><!-- x --><script>if (1<2) {}</script><p>end'' @ [CHR 0x22]) = Some (''a bold'' @ newline @ ''end'' @ [CHR 0x22]) \<and>
   strip_html id id ''x<script>y'' \<noteq> None"
proof -
  have "ascii ''x<script>y''" by code_simp
  hence "strip_html id id ''x<script>y'' \<noteq> None" using stripped_text_clean[where lower = id and raw = "''x<script>y''" and unescape = id] by blast
  thus ?thesis by code_simp
qed

text \<open>A page with letters that take more bytes in lower case than as they are, as the two of Latin
  Extended-B do, makes the scanner slice past its end and panic: the search for the end of a
  script runs on the text in lower case.\<close>

lemma strip_panics:
  "strip_html id (\<lambda>r. if r = 0x23A then 0x2C65 else r) (''<script>'' @ concat (replicate 10 [CHR 0xC8, CHR 0xBA]) @ ''</script>'') = None"
  by code_simp

end
