(* ===== verification/Crawlers.thy ===== *)
theory Crawlers
  imports Indexer HtmlText Base64
begin

text \<open>
  \<open>internal/index/source/{zotero,linkding,gitea}\<close>: the three crawlers, as trees of tool calls and
  emitted documents.  The text of a failed call, the value of a float out of the range of
  \<open>int\<close>, the entities of HTML and the lower-case mapping are arguments.  A listing that never
  ends makes the Go loop run for ever: the loops here have fuel, and end with an error of their
  own when it is used up.
\<close>

section \<open>Reading a decoded body\<close>

text \<open>Go's type assertions with the second result ignored: the zero value when the type differs.\<close>

definition as_map :: "goval option \<Rightarrow> (string, goval) gomap option" where
  "as_map v = (case v of Some (VObj kvs) \<Rightarrow> Some kvs | _ \<Rightarrow> None)"

definition as_list :: "goval option \<Rightarrow> goval list" where
  "as_list v = (case v of Some (VArr xs) \<Rightarrow> xs | _ \<Rightarrow> [])"

definition as_str :: "goval option \<Rightarrow> string" where
  "as_str v = (case v of Some (VStr s) \<Rightarrow> s | _ \<Rightarrow> [])"

definition as_bool :: "goval option \<Rightarrow> bool" where
  "as_bool v = (case v of Some (VBool b) \<Rightarrow> b | _ \<Rightarrow> False)"

definition field :: "goval option \<Rightarrow> string \<Rightarrow> goval option" where
  "field v k = (case as_map v of None \<Rightarrow> None | Some kvs \<Rightarrow> map_of kvs k)"

definition out_of_fuel :: string where "out_of_fuel = ''out of fuel''"

section \<open>Paged listings\<close>

definition crawl_page_size :: nat where "crawl_page_size = 100"
definition crawl_max_items :: nat where "crawl_max_items = 2000"

text \<open>The rows of one page: a row that is visited counts, whatever its visit emits.\<close>

fun walk_rows :: "(goval \<Rightarrow> (crawl \<Rightarrow> crawl) option) \<Rightarrow> goval list \<Rightarrow> nat \<Rightarrow> (nat \<Rightarrow> crawl) \<Rightarrow> crawl" where
  "walk_rows visit [] processed k = k processed"
| "walk_rows visit (raw # rows) processed k =
     (case visit raw of
        None \<Rightarrow> walk_rows visit rows processed k
      | Some v \<Rightarrow> v (walk_rows visit rows (processed + 1) k))"

text \<open>The loop of \<open>Crawl\<close> in Zotero and Linkding: the tool, the name of its offset argument, the
  rows of its result and the visit of one row differ.\<close>

fun walk_pages :: "(call_error \<Rightarrow> string) \<Rightarrow> string \<Rightarrow> string \<Rightarrow> (goval option \<Rightarrow> goval list)
    \<Rightarrow> (goval \<Rightarrow> (crawl \<Rightarrow> crawl) option) \<Rightarrow> nat \<Rightarrow> nat \<Rightarrow> nat \<Rightarrow> crawl" where
  "walk_pages ef tool offset rows visit 0 start processed = CrawlDone (Inl out_of_fuel)"
| "walk_pages ef tool offset rows visit (Suc fuel) start processed =
     (if crawl_max_items \<le> processed then CrawlDone (Inr True)
      else CrawlCall tool [(''limit'', VInt (int crawl_page_size)), (offset, VInt (int start))]
        (\<lambda>res. case res of Inl e \<Rightarrow> CrawlDone (Inl (ef e))
         | Inr r \<Rightarrow>
             let items = rows (re_data r) in
             if items = [] then CrawlDone (Inr False)
             else walk_rows visit items processed (\<lambda>p.
               if length items < crawl_page_size then CrawlDone (Inr False)
               else walk_pages ef tool offset rows visit fuel (start + crawl_page_size) p)))"

section \<open>Zotero\<close>

definition plain_document :: "string \<Rightarrow> string \<Rightarrow> document" where
  "plain_document item att = \<lparr>dc_itemKey = item, dc_attachmentKey = att, dc_headingDialect = []\<rparr>"

definition zotero_attachment :: "string \<Rightarrow> string \<Rightarrow> crawl \<Rightarrow> crawl" where
  "zotero_attachment item att k =
     CrawlCall ''zotero_get_item_fulltext'' [(''itemKey'', VStr att)]
       (\<lambda>res. case res of Inl e \<Rightarrow> CrawlEmit (plain_document item att) [] k
        | Inr r \<Rightarrow> CrawlEmit (plain_document item att) (as_str (field (re_data r) ''content'')) k)"

text \<open>The key of a child that is a PDF or a snapshot.\<close>

definition zotero_child :: "goval \<Rightarrow> string option" where
  "zotero_child raw =
     (let d = field (Some raw) ''data'' in
      if as_map d = None then None
      else if as_str (field d ''itemType'') \<noteq> ''attachment'' then None
      else if as_str (field d ''contentType'') \<notin> {''application/pdf'', ''text/html''} then None
      else if as_str (field (Some raw) ''key'') = [] then None
      else Some (as_str (field (Some raw) ''key'')))"

fun zotero_children :: "string \<Rightarrow> goval list \<Rightarrow> bool \<Rightarrow> crawl \<Rightarrow> crawl" where
  "zotero_children item [] visited k = (if visited then k else CrawlEmit (plain_document item item) [] k)"
| "zotero_children item (raw # rows) visited k =
     (case zotero_child raw of
        None \<Rightarrow> zotero_children item rows visited k
      | Some att \<Rightarrow> zotero_attachment item att (zotero_children item rows True k))"

definition children_limit :: int where "children_limit = 50"

definition zotero_item :: "string \<Rightarrow> crawl \<Rightarrow> crawl" where
  "zotero_item item k =
     CrawlCall ''zotero_get_item_children'' [(''itemKey'', VStr item), (''limit'', VInt children_limit)]
       (\<lambda>res. case res of Inl e \<Rightarrow> CrawlEmit (plain_document item item) [] k
        | Inr r \<Rightarrow> zotero_children item (as_list (re_data r)) False k)"

definition zotero_row :: "goval \<Rightarrow> (crawl \<Rightarrow> crawl) option" where
  "zotero_row raw = (let key = as_str (field (Some raw) ''key'') in if key = [] then None else Some (zotero_item key))"

definition zotero_crawl :: "(call_error \<Rightarrow> string) \<Rightarrow> nat \<Rightarrow> crawl" where
  "zotero_crawl ef fuel = walk_pages ef ''zotero_list_top_items'' ''start'' as_list zotero_row fuel 0 0"

definition zotero_crawler :: "(call_error \<Rightarrow> string) \<Rightarrow> nat \<Rightarrow> crawler" where
  "zotero_crawler ef fuel =
     \<lparr>cw_required = [''zotero_list_top_items'', ''zotero_get_item_children'', ''zotero_get_item_fulltext''],
      cw_crawl = (\<lambda>tg. zotero_crawl ef fuel)\<rparr>"

section \<open>Linkding\<close>

definition numeric_id :: "(rat \<Rightarrow> int) \<Rightarrow> goval option \<Rightarrow> int option" where
  "numeric_id oor v = (case v of Some (VFloat f) \<Rightarrow> Some (int64_of_f64 oor f) | _ \<Rightarrow> None)"

text \<open>The panic of the scanner ends the process; here it ends the crawl.\<close>

definition strip_panic :: string where "strip_panic = ''slice bounds out of range''"

definition linkding_asset :: "(string \<Rightarrow> string option) \<Rightarrow> int \<Rightarrow> int \<Rightarrow> string \<Rightarrow> crawl \<Rightarrow> crawl" where
  "linkding_asset strip bookmark asset item k =
     CrawlCall ''linkding_get_asset_content'' [(''bookmarkId'', VInt bookmark), (''assetId'', VInt asset)]
       (\<lambda>res. case res of Inl e \<Rightarrow> CrawlEmit (plain_document item (itoa asset)) [] k
        | Inr r \<Rightarrow> (case strip (re_text r) of None \<Rightarrow> CrawlDone (Inl strip_panic)
                    | Some t \<Rightarrow> CrawlEmit (plain_document item (itoa asset)) t k))"

definition linkding_snapshot :: "(rat \<Rightarrow> int) \<Rightarrow> goval \<Rightarrow> int option" where
  "linkding_snapshot oor raw =
     (if as_str (field (Some raw) ''asset_type'') \<noteq> ''snapshot'' \<or> as_str (field (Some raw) ''status'') \<noteq> ''complete'' then None
      else numeric_id oor (field (Some raw) ''id''))"

fun linkding_assets :: "(string \<Rightarrow> string option) \<Rightarrow> (rat \<Rightarrow> int) \<Rightarrow> int \<Rightarrow> string \<Rightarrow> goval list \<Rightarrow> bool \<Rightarrow> crawl \<Rightarrow> crawl" where
  "linkding_assets strip oor bookmark item [] visited k = (if visited then k else CrawlEmit (plain_document item item) [] k)"
| "linkding_assets strip oor bookmark item (raw # rows) visited k =
     (case linkding_snapshot oor raw of
        None \<Rightarrow> linkding_assets strip oor bookmark item rows visited k
      | Some asset \<Rightarrow> linkding_asset strip bookmark asset item (linkding_assets strip oor bookmark item rows True k))"

definition linkding_bookmark :: "(string \<Rightarrow> string option) \<Rightarrow> (rat \<Rightarrow> int) \<Rightarrow> int \<Rightarrow> crawl \<Rightarrow> crawl" where
  "linkding_bookmark strip oor bookmark k =
     CrawlCall ''linkding_list_assets'' [(''bookmarkId'', VInt bookmark)]
       (\<lambda>res. case res of Inl e \<Rightarrow> CrawlEmit (plain_document (itoa bookmark) (itoa bookmark)) [] k
        | Inr r \<Rightarrow> linkding_assets strip oor bookmark (itoa bookmark) (as_list (field (re_data r) ''results'')) False k)"

definition linkding_row :: "(string \<Rightarrow> string option) \<Rightarrow> (rat \<Rightarrow> int) \<Rightarrow> goval \<Rightarrow> (crawl \<Rightarrow> crawl) option" where
  "linkding_row strip oor raw = map_option (linkding_bookmark strip oor) (numeric_id oor (field (Some raw) ''id''))"

definition linkding_crawl :: "(call_error \<Rightarrow> string) \<Rightarrow> (string \<Rightarrow> string option) \<Rightarrow> (rat \<Rightarrow> int) \<Rightarrow> nat \<Rightarrow> crawl" where
  "linkding_crawl ef strip oor fuel =
     walk_pages ef ''linkding_list_bookmarks'' ''offset'' (\<lambda>d. as_list (field d ''results'')) (linkding_row strip oor) fuel 0 0"

definition linkding_crawler :: "(call_error \<Rightarrow> string) \<Rightarrow> (string \<Rightarrow> string option) \<Rightarrow> (rat \<Rightarrow> int) \<Rightarrow> nat \<Rightarrow> crawler" where
  "linkding_crawler ef strip oor fuel =
     \<lparr>cw_required = [''linkding_list_bookmarks'', ''linkding_list_assets'', ''linkding_get_asset_content''],
      cw_crawl = (\<lambda>tg. linkding_crawl ef strip oor fuel)\<rparr>"

section \<open>Gitea\<close>

record repo_ref =
  rr_owner :: string
  rr_name :: string
  rr_ref :: string

definition gitea_max_files :: nat where "gitea_max_files = 2000"
definition gitea_max_repos :: nat where "gitea_max_repos = 500"
definition gitea_page_size :: nat where "gitea_page_size = 50"

definition extension_of :: "(nat \<Rightarrow> nat) \<Rightarrow> string \<Rightarrow> string" where
  "extension_of lower path = (case Chunk.last_index path ''.'' of None \<Rightarrow> [] | Some i \<Rightarrow> go_lower lower (drop i path))"

definition dialect_by_extension :: "string \<Rightarrow> string option" where
  "dialect_by_extension = map_of [(''.md'', ''markdown''), (''.markdown'', ''markdown''), (''.typ'', ''typst'')]"

definition strip_whitespace :: "string \<Rightarrow> string" where
  "strip_whitespace s = join_str [] (Utf8.fields s)"

definition file_key :: "repo_ref \<Rightarrow> string \<Rightarrow> string" where
  "file_key repo path = rr_owner repo @ ''/'' @ rr_name repo @ '':'' @ path"

definition gitea_file :: "repo_ref \<Rightarrow> string \<Rightarrow> string \<Rightarrow> string \<Rightarrow> crawl \<Rightarrow> crawl" where
  "gitea_file repo path sha dialect k =
     (let doc = \<lparr>dc_itemKey = file_key repo path, dc_attachmentKey = file_key repo path, dc_headingDialect = dialect\<rparr> in
      CrawlCall ''gitea_get_file'' [(''owner'', VStr (rr_owner repo)), (''repo'', VStr (rr_name repo)), (''sha'', VStr sha)]
        (\<lambda>res. case res of Inl e \<Rightarrow> CrawlEmit doc [] k
         | Inr r \<Rightarrow> CrawlEmit doc (case b64_decode (strip_whitespace (as_str (field (re_data r) ''content''))) of None \<Rightarrow> [] | Some t \<Rightarrow> t) k))"

text \<open>Path, hash and dialect of an entry that is a candidate.\<close>

definition gitea_candidate :: "(nat \<Rightarrow> nat) \<Rightarrow> goval \<Rightarrow> (string \<times> string \<times> string) option" where
  "gitea_candidate lower raw =
     (let entry = Some raw; path = as_str (field entry ''path''); sha = as_str (field entry ''sha'') in
      if as_str (field entry ''type'') \<noteq> ''blob'' then None
      else if path = [] \<or> sha = [] then None
      else map_option (\<lambda>d. (path, sha, d)) (dialect_by_extension (extension_of lower path)))"

fun gitea_entries :: "(nat \<Rightarrow> nat) \<Rightarrow> repo_ref \<Rightarrow> bool \<Rightarrow> goval list \<Rightarrow> nat \<Rightarrow> (bool \<Rightarrow> nat \<Rightarrow> crawl) \<Rightarrow> crawl" where
  "gitea_entries lower repo truncated [] fetched k = k truncated fetched"
| "gitea_entries lower repo truncated (raw # rows) fetched k =
     (if gitea_max_files \<le> fetched then k True fetched
      else case gitea_candidate lower raw of
        None \<Rightarrow> gitea_entries lower repo truncated rows fetched k
      | Some (path, sha, dialect) \<Rightarrow>
          gitea_file repo path sha dialect (gitea_entries lower repo truncated rows (fetched + 1) k))"

definition gitea_repo :: "(call_error \<Rightarrow> string) \<Rightarrow> (nat \<Rightarrow> nat) \<Rightarrow> repo_ref \<Rightarrow> nat \<Rightarrow> (bool \<Rightarrow> nat \<Rightarrow> crawl) \<Rightarrow> crawl" where
  "gitea_repo ef lower repo fetched k =
     CrawlCall ''gitea_list_tree'' [(''owner'', VStr (rr_owner repo)), (''repo'', VStr (rr_name repo)), (''ref'', VStr (rr_ref repo))]
       (\<lambda>res. case res of Inl e \<Rightarrow> CrawlDone (Inl (ef e))
        | Inr r \<Rightarrow> gitea_entries lower repo (as_bool (field (re_data r) ''truncated'')) (as_list (field (re_data r) ''tree'')) fetched k)"

fun gitea_repos :: "(call_error \<Rightarrow> string) \<Rightarrow> (nat \<Rightarrow> nat) \<Rightarrow> repo_ref list \<Rightarrow> bool \<Rightarrow> nat \<Rightarrow> crawl" where
  "gitea_repos ef lower [] truncated fetched = CrawlDone (Inr truncated)"
| "gitea_repos ef lower (repo # repos) truncated fetched =
     gitea_repo ef lower repo fetched (\<lambda>t n.
       if gitea_max_files \<le> n then CrawlDone (Inr True) else gitea_repos ef lower repos (truncated \<or> t) n)"

definition gitea_listed :: "goval \<Rightarrow> repo_ref option" where
  "gitea_listed raw =
     (let entry = Some raw; login = as_str (field (field entry ''owner'') ''login''); name = as_str (field entry ''name'');
          branch = as_str (field entry ''default_branch'') in
      if as_bool (field entry ''empty'') then None
      else if login = [] \<or> name = [] \<or> branch = [] then None
      else Some \<lparr>rr_owner = login, rr_name = name, rr_ref = branch\<rparr>)"

text \<open>The repositories of one page, after those found before; whether the limit was reached.\<close>

fun gitea_page :: "goval list \<Rightarrow> repo_ref list \<Rightarrow> repo_ref list \<times> bool" where
  "gitea_page [] repos = (repos, False)"
| "gitea_page (raw # rows) repos =
     (case gitea_listed raw of
        None \<Rightarrow> gitea_page rows repos
      | Some r \<Rightarrow> if gitea_max_repos \<le> length (repos @ [r]) then (repos @ [r], True) else gitea_page rows (repos @ [r]))"

fun gitea_discover :: "(call_error \<Rightarrow> string) \<Rightarrow> nat \<Rightarrow> nat \<Rightarrow> repo_ref list \<Rightarrow> (repo_ref list \<Rightarrow> bool \<Rightarrow> crawl) \<Rightarrow> crawl" where
  "gitea_discover ef 0 page repos k = CrawlDone (Inl out_of_fuel)"
| "gitea_discover ef (Suc fuel) page repos k =
     CrawlCall ''gitea_list_repos'' [(''page'', VInt (int page)), (''limit'', VInt (int gitea_page_size))]
       (\<lambda>res. case res of Inl e \<Rightarrow> CrawlDone (Inl (ef e))
        | Inr r \<Rightarrow>
            let entries = as_list (re_data r) in
            case gitea_page entries repos of
              (repos', True) \<Rightarrow> k repos' True
            | (repos', False) \<Rightarrow>
                if length entries < gitea_page_size then k repos' False else gitea_discover ef fuel (page + 1) repos' k)"

definition tg_var :: "target \<Rightarrow> string \<Rightarrow> string" where
  "tg_var tg k = (case map_of (tg_vars tg) k of None \<Rightarrow> [] | Some v \<Rightarrow> v)"

definition gitea_crawl :: "(call_error \<Rightarrow> string) \<Rightarrow> (nat \<Rightarrow> nat) \<Rightarrow> nat \<Rightarrow> target \<Rightarrow> crawl" where
  "gitea_crawl ef lower fuel tg =
     (let owner = tg_var tg ''owner''; name = tg_var tg ''repo''; ref = tg_var tg ''ref'';
          walk = (\<lambda>repos truncated. gitea_repos ef lower repos truncated 0);
          pinned = (\<lambda>r. walk [\<lparr>rr_owner = owner, rr_name = name, rr_ref = r\<rparr>] False) in
      if owner \<noteq> [] \<and> name \<noteq> [] then
        (if ref \<noteq> [] then pinned ref
         else CrawlCall ''gitea_get_repo'' [(''owner'', VStr owner), (''repo'', VStr name)]
           (\<lambda>res. case res of Inl e \<Rightarrow> CrawlDone (Inl (ef e))
            | Inr r \<Rightarrow> let branch = as_str (field (re_data r) ''default_branch'') in
                pinned (if branch \<noteq> [] then branch else ''main'')))
      else gitea_discover ef fuel 1 [] walk)"

definition gitea_crawler :: "(call_error \<Rightarrow> string) \<Rightarrow> (nat \<Rightarrow> nat) \<Rightarrow> nat \<Rightarrow> crawler" where
  "gitea_crawler ef lower fuel =
     \<lparr>cw_required = [''gitea_list_repos'', ''gitea_list_tree'', ''gitea_get_file''], cw_crawl = gitea_crawl ef lower fuel\<rparr>"

text \<open>\<open>source.Get\<close> on what the three packages register when the program starts.\<close>

definition source_get :: "(call_error \<Rightarrow> string) \<Rightarrow> (string \<Rightarrow> string) \<Rightarrow> (nat \<Rightarrow> nat) \<Rightarrow> (rat \<Rightarrow> int) \<Rightarrow> nat \<Rightarrow> string \<Rightarrow> crawler option" where
  "source_get ef unescape lower oor fuel = map_of
     [(''zotero-local'', zotero_crawler ef fuel), (''linkding'', linkding_crawler ef (strip_html unescape lower) oor fuel),
      (''gitea'', gitea_crawler ef lower fuel)]"

section \<open>What a crawl emits\<close>

type_synonym caller = "string \<Rightarrow> (string, goval) gomap \<Rightarrow> (call_error, tool_result) result"

text \<open>A crawl against an upstream that always answers a call the same way: its end and the
  documents it emitted, in order.\<close>

primrec crawl_run :: "caller \<Rightarrow> crawl \<Rightarrow> (string, bool) result \<times> (document \<times> string) list" where
  "crawl_run call (CrawlDone r) = (r, [])"
| "crawl_run call (CrawlEmit doc t k) = apsnd ((#) (doc, t)) (crawl_run call k)"
| "crawl_run call (CrawlCall name args k) = crawl_run call (k (call name args))"

definition listed_docs :: "(goval \<Rightarrow> (crawl \<Rightarrow> crawl) option) \<Rightarrow> (goval \<Rightarrow> (document \<times> string) list) \<Rightarrow> goval list \<Rightarrow> (document \<times> string) list" where
  "listed_docs visit docs items = concat (map docs (filter (\<lambda>raw. visit raw \<noteq> None) items))"

definition listed_count :: "(goval \<Rightarrow> (crawl \<Rightarrow> crawl) option) \<Rightarrow> goval list \<Rightarrow> nat" where
  "listed_count visit items = length (filter (\<lambda>raw. visit raw \<noteq> None) items)"

text \<open>A listing tool that pages through one list.\<close>

definition lists_library :: "caller \<Rightarrow> string \<Rightarrow> string \<Rightarrow> (goval option \<Rightarrow> goval list) \<Rightarrow> goval list \<Rightarrow> bool" where
  "lists_library call tool offset rows items \<longleftrightarrow>
     (\<forall>start :: nat. case call tool [(''limit'', VInt (int crawl_page_size)), (offset, VInt (int start))] of
        Inl e \<Rightarrow> False | Inr r \<Rightarrow> rows (re_data r) = take crawl_page_size (drop start items))"

text \<open>A listing tool that, whatever it answers, never fills a page with rows that are not visited.\<close>

definition pages_useful :: "caller \<Rightarrow> string \<Rightarrow> string \<Rightarrow> (goval option \<Rightarrow> goval list) \<Rightarrow> (goval \<Rightarrow> (crawl \<Rightarrow> crawl) option) \<Rightarrow> bool" where
  "pages_useful call tool offset rows visit \<longleftrightarrow>
     (\<forall>start :: nat. case call tool [(''limit'', VInt (int crawl_page_size)), (offset, VInt (int start))] of
        Inl e \<Rightarrow> True | Inr r \<Rightarrow> length (rows (re_data r)) < crawl_page_size \<or> 0 < listed_count visit (rows (re_data r)))"

text \<open>The crawl emitted the library from its beginning, all of it when it says so, and it says so
  unless the limit was reached.\<close>

definition covers :: "nat \<Rightarrow> (document \<times> string) list \<Rightarrow> (string, bool) result \<times> (document \<times> string) list \<Rightarrow> bool" where
  "covers n library out \<longleftrightarrow>
     (\<exists>truncated more. fst out = Inr truncated \<and> library = snd out @ more \<and> (truncated \<or> more = []) \<and> (n < crawl_max_items \<longrightarrow> \<not> truncated))"

definition zotero_docs :: "caller \<Rightarrow> goval \<Rightarrow> (document \<times> string) list" where
  "zotero_docs call raw =
     (let item = as_str (field (Some raw) ''key'');
          atts = (case call ''zotero_get_item_children'' [(''itemKey'', VStr item), (''limit'', VInt children_limit)] of
                    Inl e \<Rightarrow> [] | Inr r \<Rightarrow> List.map_filter zotero_child (as_list (re_data r)))
      in if atts = [] then [(plain_document item item, [])]
         else map (\<lambda>att. (plain_document item att,
           case call ''zotero_get_item_fulltext'' [(''itemKey'', VStr att)] of
             Inl e \<Rightarrow> [] | Inr r \<Rightarrow> as_str (field (re_data r) ''content''))) atts)"

definition linkding_docs :: "caller \<Rightarrow> (string \<Rightarrow> string) \<Rightarrow> (rat \<Rightarrow> int) \<Rightarrow> goval \<Rightarrow> (document \<times> string) list" where
  "linkding_docs call strip oor raw =
     (let bookmark = the (numeric_id oor (field (Some raw) ''id''));
          assets = (case call ''linkding_list_assets'' [(''bookmarkId'', VInt bookmark)] of
                      Inl e \<Rightarrow> [] | Inr r \<Rightarrow> List.map_filter (linkding_snapshot oor) (as_list (field (re_data r) ''results'')))
      in if assets = [] then [(plain_document (itoa bookmark) (itoa bookmark), [])]
         else map (\<lambda>a. (plain_document (itoa bookmark) (itoa a),
           case call ''linkding_get_asset_content'' [(''bookmarkId'', VInt bookmark), (''assetId'', VInt a)] of
             Inl e \<Rightarrow> [] | Inr r \<Rightarrow> strip (re_text r))) assets)"

lemma covers_all: "covers n ds (Inr False, ds)"
  unfolding covers_def by (intro exI[of _ False] exI[of _ "[]"]) simp

lemma covers_limit: "crawl_max_items \<le> n \<Longrightarrow> covers n ds (Inr True, [])"
  unfolding covers_def by (intro exI[of _ True] exI[of _ ds]) simp

lemma covers_append: "covers n ds out \<Longrightarrow> covers n (xs @ ds) (apsnd ((@) xs) out)"
  by (cases out) (auto simp: covers_def)

section \<open>Paged sources\<close>

text \<open>What the loop asks of the visit of a row: it emits the row's documents, at least one, and
  goes on.\<close>

locale paged_source =
  fixes call :: caller and visit :: "goval \<Rightarrow> (crawl \<Rightarrow> crawl) option" and docs :: "goval \<Rightarrow> (document \<times> string) list"
  assumes visited: "visit raw = Some v \<Longrightarrow> crawl_run call (v k) = apsnd ((@) (docs raw)) (crawl_run call k)"
begin

lemma rows_run: "crawl_run call (walk_rows visit rows p k) =
    apsnd ((@) (listed_docs visit docs rows)) (crawl_run call (k (p + listed_count visit rows)))"
  by (induction rows arbitrary: p)
    (auto simp: listed_docs_def listed_count_def visited apsnd_def map_prod_def split: option.splits prod.splits)

lemma pages_run:
  assumes lib: "lists_library call tool offset rows items"
  shows "(length items - start) div crawl_page_size < fuel \<Longrightarrow>
    covers (p + listed_count visit (drop start items)) (listed_docs visit docs (drop start items))
      (crawl_run call (walk_pages ef tool offset rows visit fuel start p))"
proof (induction fuel arbitrary: start p)
  case (Suc fuel)
  define page where "page = take crawl_page_size (drop start items)"
  obtain r where r: "call tool [(''limit'', VInt (int crawl_page_size)), (offset, VInt (int start))] = Inr r"
      "rows (re_data r) = page"
    using lib[unfolded lists_library_def, rule_format, of start] that unfolding page_def
    by (cases "call tool [(''limit'', VInt (int crawl_page_size)), (offset, VInt (int start))]") auto
  have split: "drop start items = page @ drop (start + crawl_page_size) items"
    unfolding page_def by (metis append_take_drop_id drop_drop add.commute)
  have docs: "listed_docs visit docs (drop start items) = listed_docs visit docs page @ listed_docs visit docs (drop (start + crawl_page_size) items)"
    "listed_count visit (drop start items) = listed_count visit page + listed_count visit (drop (start + crawl_page_size) items)"
    unfolding listed_docs_def listed_count_def by (subst split, simp)+
  have "length page \<le> crawl_page_size" by (simp add: page_def)
  then consider "crawl_max_items \<le> p" | "p < crawl_max_items" "length page < crawl_page_size"
    | "p < crawl_max_items" "length page = crawl_page_size"
    by linarith
  thus ?case
  proof cases
    case 1 thus ?thesis by (simp add: covers_limit)
  next
    case 2
    hence none: "drop (start + crawl_page_size) items = []" by (simp add: page_def)
    have "crawl_run call (walk_pages ef tool offset rows visit (Suc fuel) start p) = (Inr False, listed_docs visit docs page)"
      using 2 r by (cases "page = []") (simp_all add: rows_run Let_def listed_docs_def)
    thus ?thesis using docs(1) none covers_all by (simp add: listed_docs_def)
  next
    case 3
    hence len: "start + crawl_page_size \<le> length items" "page \<noteq> []" by (auto simp: page_def crawl_page_size_def)
    have "length items - start = (length items - (start + crawl_page_size)) + crawl_page_size" using len(1) by linarith
    hence "(length items - start) div crawl_page_size = ((length items - (start + crawl_page_size)) + crawl_page_size) div crawl_page_size"
      by (rule arg_cong)
    also have "\<dots> = (length items - (start + crawl_page_size)) div crawl_page_size + 1"
      by (rule div_add_self2) (simp add: crawl_page_size_def)
    finally have "(length items - start) div crawl_page_size = (length items - (start + crawl_page_size)) div crawl_page_size + 1" .
    hence "(length items - (start + crawl_page_size)) div crawl_page_size < fuel" using Suc.prems by linarith
    from covers_append[OF Suc.IH[OF this, of "p + listed_count visit page"], of "listed_docs visit docs page"] show ?thesis
      using 3 r len docs by (simp add: rows_run Let_def add.assoc)
  qed
qed simp

lemma fuel_enough:
  assumes useful: "pages_useful call tool offset rows visit"
  shows "crawl_max_items - p < fuel \<Longrightarrow> crawl_max_items - p < fuel' \<Longrightarrow>
    crawl_run call (walk_pages ef tool offset rows visit fuel start p) = crawl_run call (walk_pages ef tool offset rows visit fuel' start p)"
proof (induction fuel arbitrary: start p fuel')
  case (Suc fuel)
  then obtain f where f: "fuel' = Suc f" by (cases fuel') auto
  show ?case
  proof (cases "call tool [(''limit'', VInt (int crawl_page_size)), (offset, VInt (int start))]")
    case (Inr r)
    show ?thesis
    proof (cases "crawl_max_items \<le> p \<or> length (rows (re_data r)) < crawl_page_size")
      case True thus ?thesis using f Inr by (auto simp: Let_def rows_run)
    next
      case False
      have "0 < listed_count visit (rows (re_data r))"
        using useful False unfolding pages_useful_def by (drule_tac x = start in spec) (simp add: Inr)
      hence "crawl_max_items - (p + listed_count visit (rows (re_data r))) < fuel" "crawl_max_items - (p + listed_count visit (rows (re_data r))) < f"
        using Suc.prems False f by auto
      from Suc.IH[OF this] show ?thesis using False f Inr by (simp add: Let_def rows_run)
    qed
  qed (use f in auto)
qed simp

lemma fuel_left:
  assumes useful: "pages_useful call tool offset rows visit" and ef: "\<And>e. ef e \<noteq> out_of_fuel"
  shows "crawl_max_items - p < fuel \<Longrightarrow> fst (crawl_run call (walk_pages ef tool offset rows visit fuel start p)) \<noteq> Inl out_of_fuel"
proof (induction fuel arbitrary: start p)
  case (Suc fuel)
  show ?case
  proof (cases "call tool [(''limit'', VInt (int crawl_page_size)), (offset, VInt (int start))]")
    case (Inr r)
    show ?thesis
    proof (cases "crawl_max_items \<le> p \<or> length (rows (re_data r)) < crawl_page_size")
      case True thus ?thesis using Inr by (auto simp: Let_def rows_run)
    next
      case False
      have "0 < listed_count visit (rows (re_data r))"
        using useful False unfolding pages_useful_def by (drule_tac x = start in spec) (simp add: Inr)
      hence "crawl_max_items - (p + listed_count visit (rows (re_data r))) < fuel" using Suc.prems False by auto
      from Suc.IH[OF this] show ?thesis using False Inr by (simp add: Let_def rows_run)
    qed
  qed (use ef in auto)
qed simp

lemma ends:
  assumes "\<And>e. ef e \<noteq> out_of_fuel" "crawl_max_items < fuel" "pages_useful call tool offset rows visit"
  shows "fst (crawl_run call (walk_pages ef tool offset rows visit fuel 0 0)) \<noteq> Inl out_of_fuel \<and>
    crawl_run call (walk_pages ef tool offset rows visit fuel 0 0) = crawl_run call (walk_pages ef tool offset rows visit (Suc crawl_max_items) 0 0)"
  using fuel_left[where ef = ef and p = 0 and fuel = fuel and start = 0, OF assms(3,1)]
    fuel_enough[where ef = ef and p = 0 and fuel = fuel and fuel' = "Suc crawl_max_items" and start = 0, OF assms(3)] assms(2)
  by (simp del: walk_pages.simps)

end

text \<open>Zotero and Linkding are such sources; Linkding as long as the scanner does not panic.\<close>

lemma zotero_children_run:
  "crawl_run call (zotero_children item rows visited k) =
     apsnd ((@) (let atts = List.map_filter zotero_child rows in
       if atts = [] then (if visited then [] else [(plain_document item item, [])])
       else map (\<lambda>att. (plain_document item att,
           case call ''zotero_get_item_fulltext'' [(''itemKey'', VStr att)] of
             Inl e \<Rightarrow> [] | Inr r \<Rightarrow> as_str (field (re_data r) ''content''))) atts)) (crawl_run call k)"
  by (induction rows arbitrary: visited)
    (auto simp: List.map_filter_simps zotero_attachment_def Let_def apsnd_def map_prod_def split: option.splits prod.splits sum.splits)

lemma linkding_assets_run:
  "crawl_run call (linkding_assets (\<lambda>t. Some (strip t)) oor b item rows visited k) =
     apsnd ((@) (let assets = List.map_filter (linkding_snapshot oor) rows in
       if assets = [] then (if visited then [] else [(plain_document item item, [])])
       else map (\<lambda>a. (plain_document item (itoa a),
           case call ''linkding_get_asset_content'' [(''bookmarkId'', VInt b), (''assetId'', VInt a)] of
             Inl e \<Rightarrow> [] | Inr r \<Rightarrow> strip (re_text r))) assets)) (crawl_run call k)"
  by (induction rows arbitrary: visited)
    (auto simp: List.map_filter_simps linkding_asset_def Let_def apsnd_def map_prod_def split: option.splits prod.splits sum.splits)

interpretation zotero: paged_source call zotero_row "zotero_docs call" for call
  by unfold_locales
    (auto simp: zotero_row_def zotero_item_def zotero_docs_def zotero_children_run Let_def apsnd_def map_prod_def List.map_filter_simps
       split: if_splits sum.splits prod.splits)

interpretation linkding: paged_source call "linkding_row (\<lambda>t. Some (strip t)) oor" "linkding_docs call strip oor" for call strip oor
  by unfold_locales
    (auto simp: linkding_row_def linkding_bookmark_def linkding_docs_def linkding_assets_run Let_def apsnd_def map_prod_def List.map_filter_simps
       split: if_splits sum.splits prod.splits)

text \<open>What a Gitea crawl emits from one repository, and which of its files it saw.\<close>

definition file_document :: "document \<Rightarrow> bool" where
  "file_document d \<longleftrightarrow> dc_itemKey d = dc_attachmentKey d \<and> dc_headingDialect d \<in> {''markdown'', ''typst''}"

definition file_text :: "caller \<Rightarrow> repo_ref \<Rightarrow> string \<Rightarrow> string" where
  "file_text call repo sha =
     (case call ''gitea_get_file'' [(''owner'', VStr (rr_owner repo)), (''repo'', VStr (rr_name repo)), (''sha'', VStr sha)] of
        Inl e \<Rightarrow> []
      | Inr r \<Rightarrow> (case b64_decode (strip_whitespace (as_str (field (re_data r) ''content''))) of None \<Rightarrow> [] | Some t \<Rightarrow> t))"

definition rows_seen :: "caller \<Rightarrow> (nat \<Rightarrow> nat) \<Rightarrow> repo_ref \<Rightarrow> goval list \<Rightarrow> (document \<times> string) list \<Rightarrow> bool" where
  "rows_seen call lower repo rows ds \<longleftrightarrow>
     (\<forall>raw\<in>set rows. case gitea_candidate lower raw of None \<Rightarrow> True
        | Some (path, sha, dialect) \<Rightarrow>
            (\<lparr>dc_itemKey = file_key repo path, dc_attachmentKey = file_key repo path, dc_headingDialect = dialect\<rparr>,
             file_text call repo sha) \<in> set ds)"

definition repo_seen :: "caller \<Rightarrow> (nat \<Rightarrow> nat) \<Rightarrow> repo_ref \<Rightarrow> (document \<times> string) list \<Rightarrow> bool" where
  "repo_seen call lower repo ds \<longleftrightarrow>
     (case call ''gitea_list_tree'' [(''owner'', VStr (rr_owner repo)), (''repo'', VStr (rr_name repo)), (''ref'', VStr (rr_ref repo))] of
        Inl e \<Rightarrow> False
      | Inr r \<Rightarrow> \<not> as_bool (field (re_data r) ''truncated'') \<and> rows_seen call lower repo (as_list (field (re_data r) ''tree'')) ds)"

lemma rows_seen_mono: "rows_seen call lower repo rows ds \<Longrightarrow> set ds \<subseteq> set ds' \<Longrightarrow> rows_seen call lower repo rows ds'"
  unfolding rows_seen_def by (force split: option.splits)

lemma repo_seen_mono: "repo_seen call lower repo ds \<Longrightarrow> set ds \<subseteq> set ds' \<Longrightarrow> repo_seen call lower repo ds'"
  unfolding repo_seen_def by (auto intro: rows_seen_mono split: sum.splits)

lemma gitea_candidate_dialect: "gitea_candidate lower raw = Some (path, sha, d) \<Longrightarrow> d \<in> {''markdown'', ''typst''}"
  by (auto simp: gitea_candidate_def dialect_by_extension_def Let_def split: if_splits dest: map_of_SomeD)

lemma gitea_file_run: "crawl_run call (gitea_file repo path sha dialect k) =
    apsnd ((#) (\<lparr>dc_itemKey = file_key repo path, dc_attachmentKey = file_key repo path, dc_headingDialect = dialect\<rparr>, file_text call repo sha))
      (crawl_run call k)"
  by (auto simp: gitea_file_def file_text_def Let_def split: sum.split)

lemma gitea_entries_run:
  "fetched \<le> gitea_max_files \<Longrightarrow> \<exists>t n ds. crawl_run call (gitea_entries lower repo tr rows fetched k) = apsnd ((@) ds) (crawl_run call (k t n)) \<and>
     n = fetched + length ds \<and> n \<le> gitea_max_files \<and> (\<forall>d\<in>set ds. file_document (fst d)) \<and>
     (t = tr \<and> rows_seen call lower repo rows ds \<or> t \<and> n = gitea_max_files)"
proof (induction rows arbitrary: fetched)
  case Nil
  thus ?case by (intro exI[of _ tr] exI[of _ fetched] exI[of _ "[]"]) (cases "crawl_run call (k tr fetched)"; simp add: rows_seen_def)
next
  case (Cons raw rows)
  show ?case
  proof (cases "gitea_max_files \<le> fetched")
    case True
    thus ?thesis using Cons.prems by (intro exI[of _ True] exI[of _ fetched] exI[of _ "[]"]) (cases "crawl_run call (k True fetched)"; simp)
  next
    case less: False
    show ?thesis
    proof (cases "gitea_candidate lower raw")
      case None
      with less Cons.IH[OF Cons.prems] show ?thesis by (auto simp: rows_seen_def)
    next
      case (Some c)
      obtain path sha dialect where c: "c = (path, sha, dialect)" by (rule prod_cases3)
      let ?doc = "\<lparr>dc_itemKey = file_key repo path, dc_attachmentKey = file_key repo path, dc_headingDialect = dialect\<rparr>"
      let ?rest = "gitea_entries lower repo tr rows (fetched + 1) k"
      let ?x = "file_text call repo sha"
      note x = gitea_file_run[of call repo path sha dialect ?rest]
      have "fetched + 1 \<le> gitea_max_files" using less by simp
      from Cons.IH[OF this] obtain t n ds where ds: "crawl_run call ?rest = apsnd ((@) ds) (crawl_run call (k t n))"
          "n = fetched + 1 + length ds" "n \<le> gitea_max_files" "\<forall>d\<in>set ds. file_document (fst d)"
          "t = tr \<and> rows_seen call lower repo rows ds \<or> t \<and> n = gitea_max_files" by blast
      have "rows_seen call lower repo (raw # rows) ((?doc, ?x) # ds)" if "rows_seen call lower repo rows ds"
        using rows_seen_mono[OF that, of "(?doc, ?x) # ds"] Some c by (auto simp: rows_seen_def)
      thus ?thesis using less Some c x ds gitea_candidate_dialect[OF Some[unfolded c]]
        by (intro exI[of _ t] exI[of _ n] exI[of _ "(?doc, ?x) # ds"]) (auto simp: file_document_def apsnd_def map_prod_def split: prod.splits)
    qed
  qed
qed

lemma gitea_repos_run:
  "fetched \<le> gitea_max_files \<Longrightarrow> crawl_run call (gitea_repos ef lower repos tr fetched) = (e, ds) \<Longrightarrow>
     fetched + length ds \<le> gitea_max_files \<and> (\<forall>d\<in>set ds. file_document (fst d)) \<and>
     (e = Inr False \<longrightarrow> \<not> tr \<and> (\<forall>repo\<in>set repos. repo_seen call lower repo ds))"
proof (induction repos arbitrary: tr fetched e ds)
  case (Cons repo repos)
  let ?call = "call ''gitea_list_tree'' [(''owner'', VStr (rr_owner repo)), (''repo'', VStr (rr_name repo)), (''ref'', VStr (rr_ref repo))]"
  show ?case
  proof (cases ?call)
    case (Inl x) thus ?thesis using Cons.prems by (auto simp: gitea_repo_def)
  next
    case (Inr r)
    let ?tr = "as_bool (field (re_data r) ''truncated'')" and ?rows = "as_list (field (re_data r) ''tree'')"
    let ?k = "\<lambda>t n. if gitea_max_files \<le> n then CrawlDone (Inr True) else gitea_repos ef lower repos (tr \<or> t) n"
    obtain t n es where es: "crawl_run call (gitea_entries lower repo ?tr ?rows fetched ?k) = apsnd ((@) es) (crawl_run call (?k t n))"
        "n = fetched + length es" "n \<le> gitea_max_files" "\<forall>d\<in>set es. file_document (fst d)"
        "t = ?tr \<and> rows_seen call lower repo ?rows es \<or> t \<and> n = gitea_max_files"
      using gitea_entries_run[OF Cons.prems(1)] by blast
    have run: "apsnd ((@) es) (crawl_run call (?k t n)) = (e, ds)"
      using Cons.prems(2) Inr es(1) by (simp add: gitea_repo_def)
    show ?thesis
    proof (cases "gitea_max_files \<le> n")
      case True thus ?thesis using run es by auto
    next
      case False
      obtain e' ds' where k: "crawl_run call (gitea_repos ef lower repos (tr \<or> t) n) = (e', ds')" by (rule prod.exhaust)
      have d: "e = e'" "ds = es @ ds'" using run k False by auto
      have here: "repo_seen call lower repo es" if "\<not> t" using that es(5) Inr by (simp add: repo_seen_def)
      have "repo_seen call lower repo' ds" if "e = Inr False" "repo' \<in> set (repo # repos)" for repo'
      proof -
        from Cons.IH[OF es(3) k] that(1) d have n: "\<not> (tr \<or> t)" "\<forall>x\<in>set repos. repo_seen call lower x ds'" by simp_all
        have "repo_seen call lower repo' (if repo' = repo then es else ds')" using that(2) here n by auto
        thus ?thesis by (rule repo_seen_mono) (simp add: d)
      qed
      with Cons.IH[OF es(3) k] es d show ?thesis by auto
    qed
  qed
qed auto

text \<open>A fact about every way on is a fact about the discovery of the repositories.\<close>

lemma gitea_discover_run:
  assumes "\<And>e. P (Inl e, [])" "\<And>repos t. P (crawl_run call (k repos t))"
  shows "P (crawl_run call (gitea_discover ef fuel page repos k))"
  by (induction fuel arbitrary: page repos) (auto simp: assms Let_def split: sum.split prod.split bool.split)

text \<open>What Gitea lists on a page, and the branch of a pinned repository.\<close>

definition listed_page :: "caller \<Rightarrow> nat \<Rightarrow> goval list option" where
  "listed_page call page =
     (case call ''gitea_list_repos'' [(''page'', VInt (int page)), (''limit'', VInt 50)] of
        Inl e \<Rightarrow> None | Inr r \<Rightarrow> Some (as_list (re_data r)))"

definition pinned_branch :: "caller \<Rightarrow> string \<Rightarrow> string \<Rightarrow> string \<Rightarrow> string option" where
  "pinned_branch call owner name ref =
     (if ref \<noteq> [] then Some ref
      else case call ''gitea_get_repo'' [(''owner'', VStr owner), (''repo'', VStr name)] of
        Inl e \<Rightarrow> None
      | Inr r \<Rightarrow> Some (let branch = as_str (field (re_data r) ''default_branch'') in if branch \<noteq> [] then branch else ''main''))"

definition page_in :: "goval list \<Rightarrow> repo_ref list \<Rightarrow> bool" where
  "page_in rows repos \<longleftrightarrow> (\<forall>raw\<in>set rows. case gitea_listed raw of None \<Rightarrow> True | Some r \<Rightarrow> r \<in> set repos)"

lemma gitea_page_all: "gitea_page rows repos = (repos', False) \<Longrightarrow> set repos \<subseteq> set repos' \<and> page_in rows repos'"
proof (induction rows repos arbitrary: repos' rule: gitea_page.induct)
  case (2 raw rows repos)
  show ?case
  proof (cases "gitea_listed raw")
    case None
    thus ?thesis using 2 by (auto simp: page_in_def)
  next
    case (Some r)
    hence "gitea_page rows (repos @ [r]) = (repos', False)" "\<not> gitea_max_repos \<le> length (repos @ [r])"
      using "2.prems" by (auto split: if_splits)
    from "2.IH"(2)[OF Some this(2,1)] show ?thesis using Some by (simp add: page_in_def)
  qed
qed (simp add: page_in_def)

lemma page_in_mono: "page_in rows repos \<Longrightarrow> set repos \<subseteq> set repos' \<Longrightarrow> page_in rows repos'"
  unfolding page_in_def by (fastforce split: option.splits)

text \<open>A discovery that does not say it was cut short read every page, up to the first short one.\<close>

lemma gitea_discover_complete:
  assumes "\<And>repos. fst (crawl_run call (k repos True)) \<noteq> Inr False"
    and "fst (crawl_run call (gitea_discover ef fuel page repos k)) = Inr False"
  shows "\<exists>n\<ge>page. \<exists>found. crawl_run call (gitea_discover ef fuel page repos k) = crawl_run call (k found False) \<and> set repos \<subseteq> set found \<and>
    (\<forall>p\<in>{page..n}. \<exists>rows. listed_page call p = Some rows \<and> (length rows < 50 \<longleftrightarrow> p = n) \<and> page_in rows found)"
  using assms(2)
proof (induction fuel arbitrary: page repos)
  case (Suc fuel)
  obtain r where r: "call ''gitea_list_repos'' [(''page'', VInt (int page)), (''limit'', VInt (int gitea_page_size))] = Inr r"
    using Suc.prems by (cases "call ''gitea_list_repos'' [(''page'', VInt (int page)), (''limit'', VInt (int gitea_page_size))]") auto
  let ?rows = "as_list (re_data r)"
  have listed: "listed_page call page = Some ?rows" using r by (simp add: listed_page_def gitea_page_size_def)
  obtain repos' full where pg: "gitea_page ?rows repos = (repos', full)" by (rule prod.exhaust)
  have "\<not> full" using Suc.prems assms(1)[of repos'] r pg by (cases full) (simp_all add: Let_def)
  note here = gitea_page_all[OF pg[unfolded eq_False[THEN iffD2, OF this]]]
  have step: "crawl_run call (gitea_discover ef (Suc fuel) page repos k) =
      (if length ?rows < 50 then crawl_run call (k repos' False) else crawl_run call (gitea_discover ef fuel (page + 1) repos' k))"
    using r pg \<open>\<not> full\<close> by (simp add: Let_def gitea_page_size_def)
  show ?case
  proof (cases "length ?rows < 50")
    case True
    thus ?thesis using step here listed by (intro exI[of _ page] conjI exI[of _ repos']) simp_all
  next
    case False
    then obtain n found where n: "page + 1 \<le> n" "crawl_run call (gitea_discover ef fuel (page + 1) repos' k) = crawl_run call (k found False)"
      "set repos' \<subseteq> set found"
      "\<forall>p\<in>{page + 1..n}. \<exists>rows. listed_page call p = Some rows \<and> (length rows < 50 \<longleftrightarrow> p = n) \<and> page_in rows found"
      using Suc.IH[of "page + 1" repos'] Suc.prems step by auto
    have "\<exists>rows. listed_page call p = Some rows \<and> (length rows < 50 \<longleftrightarrow> p = n) \<and> page_in rows found" if "p \<in> {page..n}" for p
    proof (cases "p = page")
      case True
      thus ?thesis using listed False n(1,3) here page_in_mono by (intro exI[of _ ?rows]) auto
    qed (use that n(4) in auto)
    thus ?thesis using n step False here by (intro exI[of _ n] conjI exI[of _ found]) auto
  qed
qed simp

section \<open>Properties\<close>

text \<open>A paged crawl misses nothing.  Against an upstream that pages through one list, the loop
  of Zotero, and the one of Linkding as long as the scanner of pages does not panic, emits the
  documents of the list's items from its beginning, in order: all of them when it reports that
  the listing was complete, which it does unless two thousand items were visited.\<close>
theorem paged_crawls_complete:
  "(lists_library call ''zotero_list_top_items'' ''start'' as_list items \<and> length items div crawl_page_size < fuel \<longrightarrow>
      covers (listed_count zotero_row items) (listed_docs zotero_row (zotero_docs call) items) (crawl_run call (zotero_crawl ef fuel))) \<and>
   (lists_library call ''linkding_list_bookmarks'' ''offset'' (\<lambda>d. as_list (field d ''results'')) items \<and> length items div crawl_page_size < fuel \<longrightarrow>
      covers (listed_count (linkding_row (\<lambda>t. Some (strip t)) oor) items)
        (listed_docs (linkding_row (\<lambda>t. Some (strip t)) oor) (linkding_docs call strip oor) items)
        (crawl_run call (linkding_crawl ef (\<lambda>t. Some (strip t)) oor fuel)))"
  using zotero.pages_run[where start = 0 and p = 0] linkding.pages_run[where start = 0 and p = 0]
  by (auto simp: zotero_crawl_def linkding_crawl_def simp del: walk_pages.simps)

text \<open>An item with two attachments, of which one is a PDF, and a row without a key.\<close>

definition demo_library :: "goval list" where
  "demo_library = [VObj [(''key'', VStr ''A'')], VObj [(''title'', VStr ''x'')]]"

definition demo_children :: "goval list" where
  "demo_children = [VObj [(''key'', VStr ''P''), (''data'', VObj [(''itemType'', VStr ''attachment''), (''contentType'', VStr ''application/pdf'')])],
     VObj [(''key'', VStr ''N''), (''data'', VObj [(''itemType'', VStr ''note'')])]]"

definition answered :: "goval \<Rightarrow> (call_error, tool_result) result" where
  "answered v = Inr \<lparr>re_statusCode = 200, re_text = [], re_data = Some v, re_isJSON = True, re_headers = None, re_duration = 0\<rparr>"

definition demo_zotero :: caller where
  "demo_zotero tool args =
     (if tool = ''zotero_list_top_items'' then
        (case map_of args ''start'' of Some (VInt n) \<Rightarrow> answered (VArr (take crawl_page_size (drop (nat n) demo_library))) | _ \<Rightarrow> Inl (CallNotEnabled tool))
      else if tool = ''zotero_get_item_children'' then answered (VArr demo_children)
      else answered (VObj [(''content'', VStr ''hello'')]))"

lemma demo_zotero_lists: "lists_library demo_zotero ''zotero_list_top_items'' ''start'' as_list demo_library"
  by (simp add: lists_library_def demo_zotero_def answered_def as_list_def)

lemma paged_crawls_complete_witness:
  "crawl_run demo_zotero (zotero_crawl (\<lambda>e. []) 1) = (Inr False, [(plain_document ''A'' ''P'', ''hello'')]) \<and>
   listed_docs zotero_row (zotero_docs demo_zotero) demo_library = [(plain_document ''A'' ''P'', ''hello'')] \<and>
   covers 1 [(plain_document ''A'' ''P'', ''hello'')] (crawl_run demo_zotero (zotero_crawl (\<lambda>e. []) 1))"
proof -
  have len: "length demo_library div crawl_page_size < 1" by (simp add: demo_library_def crawl_page_size_def)
  have docs: "listed_docs zotero_row (zotero_docs demo_zotero) demo_library = [(plain_document ''A'' ''P'', ''hello'')] \<and>
      listed_count zotero_row demo_library = 1 \<and>
      crawl_run demo_zotero (zotero_crawl (\<lambda>e. []) 1) = (Inr False, [(plain_document ''A'' ''P'', ''hello'')])" by code_simp
  show ?thesis
    using paged_crawls_complete[where call = demo_zotero and items = demo_library and fuel = 1 and ef = "\<lambda>e. []" and strip = id and oor = "\<lambda>x. 0"]
      demo_zotero_lists len docs by simp
qed

text \<open>A paged crawl ends.  Whatever the upstream answers, if it fills no page with rows the
  crawler passes over, two thousand and one rounds of the loop are enough: it never runs out
  of them, and more would change nothing.\<close>
theorem paged_crawls_end:
  assumes "\<And>e. ef e \<noteq> out_of_fuel" "crawl_max_items < fuel"
  shows "(pages_useful call ''zotero_list_top_items'' ''start'' as_list zotero_row \<longrightarrow>
      fst (crawl_run call (zotero_crawl ef fuel)) \<noteq> Inl out_of_fuel \<and>
      crawl_run call (zotero_crawl ef fuel) = crawl_run call (zotero_crawl ef (Suc crawl_max_items))) \<and>
    (pages_useful call ''linkding_list_bookmarks'' ''offset'' (\<lambda>d. as_list (field d ''results'')) (linkding_row (\<lambda>t. Some (strip t)) oor) \<longrightarrow>
      fst (crawl_run call (linkding_crawl ef (\<lambda>t. Some (strip t)) oor fuel)) \<noteq> Inl out_of_fuel \<and>
      crawl_run call (linkding_crawl ef (\<lambda>t. Some (strip t)) oor fuel) = crawl_run call (linkding_crawl ef (\<lambda>t. Some (strip t)) oor (Suc crawl_max_items)))"
  unfolding zotero_crawl_def linkding_crawl_def
  by (intro conjI[OF impI impI]) (rule zotero.ends[OF assms] linkding.ends[OF assms], assumption)+

lemma paged_crawls_end_witness:
  "fst (crawl_run demo_zotero (zotero_crawl (\<lambda>e. []) 3000)) \<noteq> Inl out_of_fuel"
proof -
  have "pages_useful demo_zotero ''zotero_list_top_items'' ''start'' as_list zotero_row"
    by (auto simp: pages_useful_def demo_zotero_def answered_def as_list_def demo_library_def crawl_page_size_def)
  moreover have "[] \<noteq> out_of_fuel" "crawl_max_items < 3000" by (simp_all add: out_of_fuel_def crawl_max_items_def)
  ultimately show ?thesis
    using paged_crawls_end[where ef = "\<lambda>e. []" and fuel = 3000 and call = demo_zotero and strip = id and oor = "\<lambda>x. 0"] by blast
qed

text \<open>Without that the loop need not end: an upstream that fills every page with rows that have no
  key is asked for ever.\<close>

lemma keyless_pages_never_end:
  assumes "\<And>start. call ''zotero_list_top_items'' [(''limit'', VInt (int crawl_page_size)), (''start'', VInt (int start))] = answered (VArr (replicate 100 (VObj [])))"
  shows "crawl_run call (zotero_crawl ef fuel) = (Inl out_of_fuel, [])"
proof -
  have none: "zotero_row (VObj []) = None" by (simp add: zotero_row_def field_def as_map_def as_str_def Let_def)
  have rows: "walk_rows zotero_row (replicate n (VObj [])) p k = k p" for n p k by (induction n) (simp_all add: none)
  have bounds: "\<not> 100 < crawl_page_size" "0 < crawl_max_items" by (simp_all add: crawl_max_items_def crawl_page_size_def)
  have "crawl_run call (walk_pages ef ''zotero_list_top_items'' ''start'' as_list zotero_row fuel start 0) = (Inl out_of_fuel, [])" for start
    by (induction fuel arbitrary: start) (simp_all add: assms[unfolded answered_def] as_list_def rows Let_def bounds)
  thus ?thesis by (simp add: zotero_crawl_def)
qed

text \<open>An item whose children cannot be listed is reported as one document of its own, and the
  crawl as complete: the attachments that were indexed before are then pruned as unseen.\<close>

lemma failed_children_look_deleted:
  "crawl_run (\<lambda>tool args. if tool = ''zotero_get_item_children'' then Inl (CallNotEnabled tool) else demo_zotero tool args) (zotero_crawl (\<lambda>e. []) 1) =
     (Inr False, [(plain_document ''A'' ''A'', [])])"
  by code_simp

text \<open>C34: a Gitea crawl is bounded and knows what it saw.  Whatever the upstream answers, at most
  two thousand documents are emitted, each of them a file in one of the two dialects; and a
  crawl that reports a complete listing has seen everything: the pinned repository of the
  instance at its branch, or every repository of every page Gitea lists, from the first page to
  the first one with fewer than fifty rows.  To have seen a repository is to have got its tree
  untruncated and to have emitted every candidate file of it, with the text its blob decodes to.\<close>
theorem gitea_crawl_bounded:
  "let out = crawl_run call (gitea_crawl ef lower fuel tg) in
   length (snd out) \<le> 2000 \<and> (\<forall>d\<in>set (snd out). file_document (fst d)) \<and>
   (fst out = Inr False \<longrightarrow>
      (if tg_var tg ''owner'' \<noteq> [] \<and> tg_var tg ''repo'' \<noteq> []
       then \<exists>branch. pinned_branch call (tg_var tg ''owner'') (tg_var tg ''repo'') (tg_var tg ''ref'') = Some branch \<and>
              repo_seen call lower \<lparr>rr_owner = tg_var tg ''owner'', rr_name = tg_var tg ''repo'', rr_ref = branch\<rparr> (snd out)
       else \<exists>n\<ge>1. \<forall>p\<in>{1..n}. \<exists>rows. listed_page call p = Some rows \<and> (length rows < 50 \<longleftrightarrow> p = n) \<and>
              (\<forall>raw\<in>set rows. case gitea_listed raw of None \<Rightarrow> True | Some repo \<Rightarrow> repo_seen call lower repo (snd out))))"
proof -
  define out where "out = crawl_run call (gitea_crawl ef lower fuel tg)"
  define P :: "(string, bool) result \<times> (document \<times> string) list \<Rightarrow> bool"
    where "P out \<longleftrightarrow> length (snd out) \<le> gitea_max_files \<and> (\<forall>d\<in>set (snd out). file_document (fst d))" for out
  let ?walk = "\<lambda>rs tr. gitea_repos ef lower rs tr 0"
  have walk: "P (crawl_run call (?walk rs tr))" for rs tr
    using gitea_repos_run[of 0 call ef lower rs tr] by (cases "crawl_run call (?walk rs tr)") (simp add: P_def)
  have complete: "\<not> tr \<and> (\<forall>repo\<in>set rs. repo_seen call lower repo (snd (crawl_run call (?walk rs tr))))"
    if "fst (crawl_run call (?walk rs tr)) = Inr False" for rs tr
    using gitea_repos_run[of 0 call ef lower rs tr] that by (cases "crawl_run call (?walk rs tr)") simp
  have err: "P (Inl e, [])" for e by (simp add: P_def)
  have "P out" unfolding out_def
    using gitea_discover_run[of P call ?walk ef fuel 1 "[]", OF err walk]
    by (auto simp: gitea_crawl_def Let_def walk err simp del: gitea_repos.simps split: sum.split)
  moreover have "\<exists>branch. pinned_branch call (tg_var tg ''owner'') (tg_var tg ''repo'') (tg_var tg ''ref'') = Some branch \<and>
      repo_seen call lower \<lparr>rr_owner = tg_var tg ''owner'', rr_name = tg_var tg ''repo'', rr_ref = branch\<rparr> (snd out)"
    if c: "fst out = Inr False" "tg_var tg ''owner'' \<noteq> [] \<and> tg_var tg ''repo'' \<noteq> []"
  proof -
    obtain branch where b: "pinned_branch call (tg_var tg ''owner'') (tg_var tg ''repo'') (tg_var tg ''ref'') = Some branch"
      "out = crawl_run call (?walk [\<lparr>rr_owner = tg_var tg ''owner'', rr_name = tg_var tg ''repo'', rr_ref = branch\<rparr>] False)"
    proof (cases "tg_var tg ''ref'' = []")
      case True
      obtain r where "call ''gitea_get_repo'' [(''owner'', VStr (tg_var tg ''owner'')), (''repo'', VStr (tg_var tg ''repo''))] = Inr r"
        using c True by (cases "call ''gitea_get_repo'' [(''owner'', VStr (tg_var tg ''owner'')), (''repo'', VStr (tg_var tg ''repo''))]")
          (simp_all add: out_def gitea_crawl_def Let_def)
      thus ?thesis using c True that by (simp add: out_def gitea_crawl_def pinned_branch_def Let_def del: gitea_repos.simps)
    qed (use c that in \<open>simp add: out_def gitea_crawl_def pinned_branch_def Let_def del: gitea_repos.simps\<close>)
    thus ?thesis using complete[of "[\<lparr>rr_owner = tg_var tg ''owner'', rr_name = tg_var tg ''repo'', rr_ref = branch\<rparr>]" False] c(1) by (simp del: gitea_repos.simps)
  qed
  moreover have "\<exists>n\<ge>1. \<forall>p\<in>{1..n}. \<exists>rows. listed_page call p = Some rows \<and> (length rows < 50 \<longleftrightarrow> p = n) \<and>
      (\<forall>raw\<in>set rows. case gitea_listed raw of None \<Rightarrow> True | Some repo \<Rightarrow> repo_seen call lower repo (snd out))"
    if c: "fst out = Inr False" "\<not> (tg_var tg ''owner'' \<noteq> [] \<and> tg_var tg ''repo'' \<noteq> [])"
  proof -
    have d: "out = crawl_run call (gitea_discover ef fuel 1 [] ?walk)" 
      unfolding out_def gitea_crawl_def Let_def using c(2) by (simp only: if_False)
    have "fst (crawl_run call (?walk rs True)) \<noteq> Inr False" for rs using complete by blast
    from gitea_discover_complete[OF this c(1)[unfolded d]] obtain n found where n: "1 \<le> n" "out = crawl_run call (?walk found False)"
      "\<forall>p\<in>{1..n}. \<exists>rows. listed_page call p = Some rows \<and> (length rows < 50 \<longleftrightarrow> p = n) \<and> page_in rows found"
      unfolding d by blast
    have "\<forall>repo\<in>set found. repo_seen call lower repo (snd out)" using complete c(1) n(2) by simp
    hence "page_in rows found \<Longrightarrow> \<forall>raw\<in>set rows. case gitea_listed raw of None \<Rightarrow> True | Some repo \<Rightarrow> repo_seen call lower repo (snd out)" for rows
      unfolding page_in_def by (fastforce split: option.splits)
    thus ?thesis using n(1,3) by (intro exI[of _ n]) blast
  qed
  ultimately show ?thesis unfolding P_def gitea_max_files_def Let_def out_def[symmetric] by (simp only: if_bool_eq_conj) blast
qed

text \<open>An upstream with one repository, which is found when the instance pins none.\<close>

definition demo_gitea :: caller where
  "demo_gitea tool args =
     (if tool = ''gitea_list_tree'' then answered (VObj [(''tree'', VArr
        [VObj [(''type'', VStr ''blob''), (''path'', VStr ''a/README.MD''), (''sha'', VStr ''1'')],
         VObj [(''type'', VStr ''blob''), (''path'', VStr ''logo.png''), (''sha'', VStr ''2'')]])])
      else if tool = ''gitea_list_repos'' then answered (VArr
        [VObj [(''name'', VStr ''r''), (''default_branch'', VStr ''main''), (''owner'', VObj [(''login'', VStr ''o'')])]])
      else answered (VObj [(''content'', VStr ''aGVs bG8='')]))"

definition demo_repo :: repo_ref where "demo_repo = \<lparr>rr_owner = ''o'', rr_name = ''r'', rr_ref = ''main''\<rparr>"

definition unpinned :: target where
  "unpinned = demo_target\<lparr>tg_vars := []\<rparr>"

lemma gitea_crawl_bounded_witness:
  "crawl_run demo_gitea (gitea_crawl (\<lambda>e. []) id 1 unpinned) =
     (Inr False, [(\<lparr>dc_itemKey = ''o/r:a/README.MD'', dc_attachmentKey = ''o/r:a/README.MD'', dc_headingDialect = ''markdown''\<rparr>, ''hello'')]) \<and>
   repo_seen demo_gitea id demo_repo (snd (crawl_run demo_gitea (gitea_crawl (\<lambda>e. []) id 1 unpinned)))"
proof -
  have run: "crawl_run demo_gitea (gitea_crawl (\<lambda>e. []) id 1 unpinned) =
      (Inr False, [(\<lparr>dc_itemKey = ''o/r:a/README.MD'', dc_attachmentKey = ''o/r:a/README.MD'', dc_headingDialect = ''markdown''\<rparr>, ''hello'')])"
    "tg_var unpinned ''owner'' = []"
    "(case listed_page demo_gitea 1 of None \<Rightarrow> [] | Some rows \<Rightarrow> map gitea_listed rows) = [Some demo_repo]" by code_simp+
  have "fst (crawl_run demo_gitea (gitea_crawl (\<lambda>e. []) id 1 unpinned)) = Inr False" by (simp only: run(1) fst_conv)
  with gitea_crawl_bounded[of demo_gitea "\<lambda>e. []" id 1 unpinned] obtain n where n: "1 \<le> n"
    "\<forall>p\<in>{1..n}. \<exists>rows. listed_page demo_gitea p = Some rows \<and> (length rows < 50 \<longleftrightarrow> p = n) \<and>
       (\<forall>raw\<in>set rows. case gitea_listed raw of None \<Rightarrow> True
          | Some repo \<Rightarrow> repo_seen demo_gitea id repo (snd (crawl_run demo_gitea (gitea_crawl (\<lambda>e. []) id 1 unpinned))))"
    using run(2) unfolding Let_def by (simp only: simp_thms if_False) blast
  then obtain rows where rows: "listed_page demo_gitea 1 = Some rows"
    "\<forall>raw\<in>set rows. case gitea_listed raw of None \<Rightarrow> True
       | Some repo \<Rightarrow> repo_seen demo_gitea id repo (snd (crawl_run demo_gitea (gitea_crawl (\<lambda>e. []) id 1 unpinned)))"
    by (metis atLeastAtMost_iff order_refl)
  obtain raw where "raw \<in> set rows" "gitea_listed raw = Some demo_repo" using run(3) rows(1) by (cases rows) auto
  with rows(2) run(1) show ?thesis by fastforce
qed

end
