(* ===== verification/Startup.thy ===== *)
theory Startup
  imports Usage Auth Url
begin

text \<open>
  From the environment to a running platform: \<open>internal/platform/config\<close>, the migrations and
  the error vocabulary of \<open>sqlitestore.go\<close>, the redaction of \<open>internal/platform/logging\<close>, and
  \<open>cmd/mcpaw\<close>.  What SQLite does with a migration, the file system and the lower-case mapping
  of Unicode are arguments.
\<close>

section \<open>Numbers and durations\<close>

text \<open>\<open>strconv.ParseBool\<close>.\<close>

definition parse_bool :: "string \<Rightarrow> bool option" where
  "parse_bool v =
     (if v \<in> set [''1'', ''t'', ''T'', ''TRUE'', ''true'', ''True''] then Some True
      else if v \<in> set [''0'', ''f'', ''F'', ''FALSE'', ''false'', ''False''] then Some False else None)"

text \<open>\<open>leadingInt\<close> and \<open>leadingFraction\<close> of \<open>time\<close>: the digits at the front, with the overflow
  rules of each.\<close>

definition digit_value :: "char \<Rightarrow> nat" where "digit_value c = byte c - 48"

fun leading_int :: "nat \<Rightarrow> string \<Rightarrow> (nat \<times> string) option" where
  "leading_int x [] = Some (x, [])"
| "leading_int x (c # cs) =
     (if \<not> is_digit c then Some (x, c # cs)
      else if 2 ^ 63 div 10 < x then None
      else let y = x * 10 + digit_value c in if 2 ^ 63 < y then None else leading_int y cs)"

fun leading_fraction :: "nat \<Rightarrow> rat \<Rightarrow> bool \<Rightarrow> string \<Rightarrow> nat \<times> rat \<times> string" where
  "leading_fraction x scale over [] = (x, scale, [])"
| "leading_fraction x scale over (c # cs) =
     (if \<not> is_digit c then (x, scale, c # cs)
      else if over \<or> (2 ^ 63 - 1) div 10 < x then leading_fraction x scale True cs
      else let y = x * 10 + digit_value c in
        if 2 ^ 63 < y then leading_fraction x scale True cs else leading_fraction y (rnd (scale * 10)) False cs)"

definition duration_unit :: "string \<Rightarrow> nat option" where
  "duration_unit = map_of [(''ns'', 1), (''us'', 1000), ([CHR 0xC2, CHR 0xB5, CHR ''s''], 1000), ([CHR 0xCE, CHR 0xBC, CHR ''s''], 1000),
     (''ms'', 1000000), (''s'', 1000000000), (''m'', 60000000000), (''h'', 3600000000000)]"

definition digit_or_dot :: "char \<Rightarrow> bool" where "digit_or_dot c = (c = CHR ''.'' \<or> is_digit c)"

text \<open>One number and its unit: the nanoseconds, and what follows.\<close>

definition duration_part :: "string \<Rightarrow> (nat \<times> string) option" where
  "duration_part s =
     (if s = [] \<or> \<not> digit_or_dot (hd s) then None
      else case leading_int 0 s of
        None \<Rightarrow> None
      | Some (v, r) \<Rightarrow>
          let pre = (length r \<noteq> length s); dot = (r \<noteq> [] \<and> hd r = CHR ''.'');
              (f, scale, r2) = (if dot then leading_fraction 0 1 False (drop 1 r) else (0, 1, r));
              post = (dot \<and> length r2 \<noteq> length r - 1);
              u = takeWhile (\<lambda>c. \<not> digit_or_dot c) r2; r3 = dropWhile (\<lambda>c. \<not> digit_or_dot c) r2
          in if \<not> pre \<and> \<not> post then None
             else if u = [] then None
             else case duration_unit u of
               None \<Rightarrow> None
             | Some unit \<Rightarrow>
                 if 2 ^ 63 div unit < v then None
                 else let n = v * unit + (if 0 < f then nat (trunc_rat (rnd (rnd (of_nat f) * rnd (of_nat unit / scale)))) else 0)
                      in if 2 ^ 63 < n then None else Some (n, r3))"

lemma leading_int_length: "leading_int x s = Some (v, r) \<Longrightarrow> length r \<le> length s"
  by (induction x s rule: leading_int.induct) (auto simp: Let_def split: if_splits)

lemma leading_fraction_length: "leading_fraction x sc ov s = (f, sc', r) \<Longrightarrow> length r \<le> length s"
  by (induction x sc ov s rule: leading_fraction.induct) (auto simp: Let_def split: if_splits)

lemma duration_part_length: "duration_part s = Some (n, r) \<Longrightarrow> length r < length s"
proof -
  assume d: "duration_part s = Some (n, r)"
  then obtain v q where q: "leading_int 0 s = Some (v, q)" by (auto simp: duration_part_def split: if_splits option.splits)
  obtain f sc r2 where r2: "(if q \<noteq> [] \<and> hd q = CHR ''.'' then leading_fraction 0 1 False (drop 1 q) else (0, 1, q)) = (f, sc, r2)"
    by (rule prod_cases3)
  have 1: "length r2 \<le> length q"
  proof (cases "q \<noteq> [] \<and> hd q = CHR ''.''")
    case True
    hence "leading_fraction 0 1 False (drop 1 q) = (f, sc, r2)" using r2 by simp
    from leading_fraction_length[OF this] show ?thesis by simp
  qed (use r2 in auto)
  have 2: "r = dropWhile (\<lambda>c. \<not> digit_or_dot c) r2" "takeWhile (\<lambda>c. \<not> digit_or_dot c) r2 \<noteq> []"
    using d q r2 by (auto simp: duration_part_def Let_def split: if_splits option.splits prod.splits)
  have "length r2 = length (takeWhile (\<lambda>c. \<not> digit_or_dot c) r2) + length (dropWhile (\<lambda>c. \<not> digit_or_dot c) r2)"
    by (metis length_append takeWhile_dropWhile_id)
  moreover have "0 < length (takeWhile (\<lambda>c. \<not> digit_or_dot c) r2)" using 2(2) by (rule length_greater_0_conv[THEN iffD2])
  ultimately show ?thesis unfolding 2(1) using leading_int_length[OF q] 1 by linarith
qed

function duration_sum :: "nat \<Rightarrow> string \<Rightarrow> nat option" where
  "duration_sum d s =
     (if s = [] then Some d
      else case duration_part s of None \<Rightarrow> None
        | Some (n, r) \<Rightarrow> let t = (d + n) mod 2 ^ 64 in if 2 ^ 63 < t then None else duration_sum t r)"
  by pat_completeness auto
termination
  by (relation "measure (\<lambda>(d, s). length s)") (auto dest!: duration_part_length)

declare duration_sum.simps [simp del]

text \<open>\<open>time.ParseDuration\<close>, in nanoseconds.\<close>

definition parse_duration :: "string \<Rightarrow> int option" where
  "parse_duration s0 =
     (let neg = (take 1 s0 = ''-''); s = (if take 1 s0 \<in> {''-'', ''+''} then drop 1 s0 else s0) in
      if s = ''0'' then Some 0
      else if s = [] then None
      else case duration_sum 0 s of
        None \<Rightarrow> None
      | Some d \<Rightarrow> if neg then Some (- int d) else if 2 ^ 63 - 1 < d then None else Some (int d))"

section \<open>The configuration\<close>

record config =
  cf_addr :: string
  cf_dataDir :: string
  cf_publicURL :: string
  cf_masterKey :: string
  cf_trustProxy :: bool
  cf_secureCookies :: bool
  cf_logLevel :: string
  cf_logFormat :: string
  cf_readHeaderTimeout :: int
  cf_readTimeout :: int
  cf_writeTimeout :: int
  cf_idleTimeout :: int
  cf_shutdownTimeout :: int
  cf_maxRequestBytes :: int
  cf_sessionIdle :: int
  cf_sessionAbsolute :: int
  cf_loginRate :: int
  cf_metrics :: bool

datatype config_error =
    NotBoolean string | NotInteger string | NotDuration string | NotPositive string
  | NoAddr | NoDataDir | BadPublicURL | BadLogLevel string | BadLogFormat string | SmallRequests | ShortAbsolute | SmallLoginRate

type_synonym environ = "string \<Rightarrow> string option"

definition trim_right_slash :: "string \<Rightarrow> string" where
  "trim_right_slash s = rev (dropWhile (\<lambda>c. c = CHR ''/'') (rev s))"

definition env_or :: "environ \<Rightarrow> string \<Rightarrow> string \<Rightarrow> string" where
  "env_or ev k def = (case ev k of None \<Rightarrow> def | Some v \<Rightarrow> if trim_space v \<noteq> [] then trim_space v else def)"

definition env_bool :: "environ \<Rightarrow> string \<Rightarrow> bool \<Rightarrow> (config_error, bool) result" where
  "env_bool ev k def =
     (case ev k of None \<Rightarrow> Inr def
      | Some v \<Rightarrow> if v = [] then Inr def else (case parse_bool v of None \<Rightarrow> Inl (NotBoolean k) | Some b \<Rightarrow> Inr b))"

definition env_int64 :: "environ \<Rightarrow> string \<Rightarrow> int \<Rightarrow> (config_error, int) result" where
  "env_int64 ev k def =
     (case ev k of None \<Rightarrow> Inr def
      | Some v \<Rightarrow> if v = [] then Inr def else (case atoi v of None \<Rightarrow> Inl (NotInteger k) | Some n \<Rightarrow> Inr n))"

definition env_duration :: "environ \<Rightarrow> string \<Rightarrow> int \<Rightarrow> (config_error, int) result" where
  "env_duration ev k def =
     (case ev k of None \<Rightarrow> Inr def
      | Some v \<Rightarrow> if v = [] then Inr def
                  else (case parse_duration v of None \<Rightarrow> Inl (NotDuration k)
                        | Some d \<Rightarrow> if d \<le> 0 then Inl (NotPositive k) else Inr d))"

definition validate_config :: "config \<Rightarrow> config_error option" where
  "validate_config c =
     (if cf_addr c = [] then Some NoAddr
      else if cf_dataDir c = [] then Some NoDataDir
      else if cf_publicURL c \<noteq> [] \<and> (case url_parse (cf_publicURL c) of None \<Rightarrow> True
           | Some u \<Rightarrow> u_scheme u \<notin> {''http'', ''https''} \<or> u_host u = []) then Some BadPublicURL
      else if cf_logLevel c \<notin> set [''debug'', ''info'', ''warn'', ''error''] then Some (BadLogLevel (cf_logLevel c))
      else if cf_logFormat c \<notin> set [''json'', ''text''] then Some (BadLogFormat (cf_logFormat c))
      else if cf_maxRequestBytes c < 4096 then Some SmallRequests
      else if cf_sessionAbsolute c < cf_sessionIdle c then Some ShortAbsolute
      else if cf_loginRate c < 1 then Some SmallLoginRate else None)"

definition minute :: int where "minute = 60 * second"
definition hour :: int where "hour = 3600 * second"

definition base_config :: "(nat \<Rightarrow> nat) \<Rightarrow> environ \<Rightarrow> config" where
  "base_config lower ev =
     \<lparr>cf_addr = env_or ev ''MCPAW_ADDR'' '':8080'', cf_dataDir = env_or ev ''MCPAW_DATA_DIR'' ''/data'',
      cf_publicURL = trim_right_slash (env_or ev ''MCPAW_PUBLIC_URL'' []), cf_masterKey = env_or ev ''MCPAW_MASTER_KEY'' [],
      cf_trustProxy = False, cf_secureCookies = False,
      cf_logLevel = go_lower lower (env_or ev ''MCPAW_LOG_LEVEL'' ''info''), cf_logFormat = go_lower lower (env_or ev ''MCPAW_LOG_FORMAT'' ''json''),
      cf_readHeaderTimeout = 5 * second, cf_readTimeout = 30 * second, cf_writeTimeout = 120 * second,
      cf_idleTimeout = 90 * second, cf_shutdownTimeout = 20 * second, cf_maxRequestBytes = 2 ^ 20,
      cf_sessionIdle = 2 * hour, cf_sessionAbsolute = 24 * hour, cf_loginRate = 10, cf_metrics = True\<rparr>"

definition load_config :: "(nat \<Rightarrow> nat) \<Rightarrow> environ \<Rightarrow> (config_error, config) result" where
  "load_config lower ev =
     (let c = base_config lower ev in
      case env_bool ev ''MCPAW_TRUST_PROXY_HEADERS'' False of Inl e \<Rightarrow> Inl e | Inr trust \<Rightarrow>
      (case env_bool ev ''MCPAW_METRICS_ENABLED'' True of Inl e \<Rightarrow> Inl e | Inr metrics \<Rightarrow>
      (case env_int64 ev ''MCPAW_MAX_REQUEST_BYTES'' (cf_maxRequestBytes c) of Inl e \<Rightarrow> Inl e | Inr bytes \<Rightarrow>
      (case env_int64 ev ''MCPAW_LOGIN_RATE_LIMIT_PER_MIN'' (cf_loginRate c) of Inl e \<Rightarrow> Inl e | Inr rate \<Rightarrow>
      (case env_duration ev ''MCPAW_SESSION_IDLE_TIMEOUT'' (cf_sessionIdle c) of Inl e \<Rightarrow> Inl e | Inr idle \<Rightarrow>
      (case env_duration ev ''MCPAW_SESSION_ABSOLUTE_TIMEOUT'' (cf_sessionAbsolute c) of Inl e \<Rightarrow> Inl e | Inr absolute \<Rightarrow>
      (case env_bool ev ''MCPAW_SECURE_COOKIES'' (has_prefix ''https://'' (cf_publicURL c)) of Inl e \<Rightarrow> Inl e | Inr secure \<Rightarrow>
        let c1 = c\<lparr>cf_trustProxy := trust, cf_metrics := metrics, cf_maxRequestBytes := bytes, cf_loginRate := rate,
                   cf_sessionIdle := idle, cf_sessionAbsolute := absolute, cf_secureCookies := secure\<rparr>
        in case validate_config c1 of Some e \<Rightarrow> Inl e | None \<Rightarrow> Inr c1)))))))"

section \<open>Migrations\<close>

text \<open>The recorded migrations, what they made of the database, and for each statement to come
  whether it fails.\<close>

record 'd migrated =
  md_applied :: "string list"
  md_data :: 'd
  md_faults :: "bool list"

datatype migration_error = MigrationTable | MigrationFailed string

definition take_fault :: "'d migrated \<Rightarrow> bool \<times> 'd migrated" where
  "take_fault m = (case md_faults m of [] \<Rightarrow> (False, m) | b # bs \<Rightarrow> (b, m\<lparr>md_faults := bs\<rparr>))"

text \<open>One transaction: the script, the record, the commit.  A failure of any of the three leaves
  what was there.\<close>

definition apply_migration :: "(string \<Rightarrow> 'd \<Rightarrow> 'd option) \<Rightarrow> string \<Rightarrow> 'd migrated \<Rightarrow> (migration_error, unit) result \<times> 'd migrated" where
  "apply_migration exec name m0 =
     (let (broken, m) = take_fault m0 in
      case exec name (md_data m) of
        None \<Rightarrow> (Inl (MigrationFailed name), m)
      | Some d \<Rightarrow> if broken \<or> name \<in> set (md_applied m) then (Inl (MigrationFailed name), m)
                  else (Inr (), m\<lparr>md_applied := md_applied m @ [name], md_data := d\<rparr>))"

fun apply_pending :: "(string \<Rightarrow> 'd \<Rightarrow> 'd option) \<Rightarrow> string list \<Rightarrow> string list \<Rightarrow> 'd migrated \<Rightarrow> (migration_error, unit) result \<times> 'd migrated" where
  "apply_pending exec applied [] m = (Inr (), m)"
| "apply_pending exec applied (name # names) m =
     (if name \<in> set applied then apply_pending exec applied names m
      else case apply_migration exec name m of
        (Inl e, m1) \<Rightarrow> (Inl e, m1)
      | (Inr u, m1) \<Rightarrow> apply_pending exec applied names m1)"

text \<open>The embedded directory: names, and whether each is a directory.\<close>

definition migration_names :: "(string \<times> bool) list \<Rightarrow> string list" where
  "migration_names entries = sort (map fst (filter (\<lambda>(n, isdir). \<not> isdir \<and> has_suffix ''.sql'' n) entries))"

definition migrate :: "(string \<times> bool) list \<Rightarrow> (string \<Rightarrow> 'd \<Rightarrow> 'd option) \<Rightarrow> 'd migrated \<Rightarrow> (migration_error, unit) result \<times> 'd migrated" where
  "migrate entries exec m0 =
     (let (broken, m) = take_fault m0 in
      if broken then (Inl MigrationTable, m)
      else apply_pending exec (md_applied m) (migration_names entries) m)"

text \<open>\<open>translate\<close>: the driver's errors as the domain's.\<close>

definition translate_error :: "bool \<Rightarrow> string \<Rightarrow> domain_error" where
  "translate_error noRows msg =
     (if noRows then ErrNotFound
      else if contains msg ''UNIQUE constraint failed'' then ErrConflict
      else if contains msg ''FOREIGN KEY constraint failed'' then ErrConflict
      else if contains msg ''CHECK constraint failed'' then ErrInvalidInput else ErrOther)"

section \<open>Logging and the command line\<close>

definition sensitive_keys :: "string list" where
  "sensitive_keys = [''password'', ''secret'', ''token'', ''authorization'', ''apikey'', ''api_key'', ''cookie'', ''credential'', ''key'', ''csrf'']"

definition redact :: "(nat \<Rightarrow> nat) \<Rightarrow> string \<Rightarrow> goval \<Rightarrow> goval" where
  "redact lower k v = (if list_ex (contains (go_lower lower k)) sensitive_keys then VStr ''[redacted]'' else v)"

datatype log_level = LevelDebug | LevelInfo | LevelWarn | LevelError

definition logging_level :: "(nat \<Rightarrow> nat) \<Rightarrow> string \<Rightarrow> log_level" where
  "logging_level lower l =
     (let x = go_lower lower l in if x = ''debug'' then LevelDebug else if x = ''warn'' then LevelWarn else if x = ''error'' then LevelError else LevelInfo)"

definition resolve_host :: "string \<Rightarrow> string" where
  "resolve_host addr =
     (if has_prefix '':'' addr then ''localhost'' @ addr
      else if has_prefix ''0.0.0.0:'' addr then ''localhost'' @ trim_prefix ''0.0.0.0'' addr else addr)"

definition plain_env_or :: "environ \<Rightarrow> string \<Rightarrow> string \<Rightarrow> string" where
  "plain_env_or ev k def = (case ev k of None \<Rightarrow> def | Some v \<Rightarrow> if v \<noteq> [] then v else def)"

text \<open>The address the health check asks, without flags.\<close>

definition healthcheck_url :: "environ \<Rightarrow> string" where
  "healthcheck_url ev = ''http://'' @ resolve_host (plain_env_or ev ''MCPAW_ADDR'' '':8080'') @ ''/healthz''"

datatype subcommand = CmdServe "string list" | CmdKeygen "string list" | CmdHealthcheck "string list" | CmdHelp | CmdUnknown string

definition is_flag :: "string \<Rightarrow> bool" where "is_flag s = (take 1 s = ''-'')"

definition main_command :: "string list \<Rightarrow> subcommand" where
  "main_command argv =
     (let (cmd, rest) = (case argv of a # as \<Rightarrow> if \<not> is_flag a then (a, as) else (''serve'', argv) | [] \<Rightarrow> (''serve'', argv)) in
      if cmd = ''serve'' then CmdServe rest else if cmd = ''keygen'' then CmdKeygen rest
      else if cmd = ''healthcheck'' then CmdHealthcheck rest else if cmd \<in> set [''-h'', ''--help'', ''help''] then CmdHelp else CmdUnknown cmd)"

section \<open>Serving\<close>

text \<open>The surroundings of a start: the environment, the key file, the migrations, the built-in
  manifests, and those of the services, which depend on the keyring.\<close>

record 'sc boot_env =
  bt_lower :: "nat \<Rightarrow> nat"
  bt_environ :: environ
  bt_crypto :: crypto
  bt_keyEnv :: key_env
  bt_keyFile :: key_file
  bt_keyRaces :: "key_file list"
  bt_migrations :: "(string \<times> bool) list"
  bt_exec :: "string \<Rightarrow> db \<Rightarrow> db option"
  bt_penv :: "keyring \<Rightarrow> 'sc penv"
  bt_builtins :: "string list"

datatype boot_error = BootConfig config_error | BootKey | BootKeyring | BootMigration migration_error | BootConnectors domain_error

record 'sc running =
  rs_config :: config
  rs_keyring :: keyring
  rs_sessions :: session_service
  rs_loginLimiter :: attempt_limiter
  rs_platform :: "'sc platform"

definition fresh_platform :: "db \<Rightarrow> 'sc platform" where
  "fresh_platform d = \<lparr>pf_db = d, pf_registry = [], pf_cache = [], pf_executor = \<lparr>ex_limiter = [], ex_breaker = [], ex_gate = new_gate\<rparr>\<rparr>"

definition loaded_key :: "key_result \<Rightarrow> string option" where
  "loaded_key r = (case r of KeyError \<Rightarrow> None | KeyLoaded k \<Rightarrow> Some k | KeyGenerated k \<Rightarrow> Some k)"

definition run_serve :: "'sc boot_env \<Rightarrow> db migrated \<Rightarrow> (boot_error, 'sc running) result \<times> db migrated" where
  "run_serve be m0 =
     (case load_config (bt_lower be) (bt_environ be) of
        Inl e \<Rightarrow> (Inl (BootConfig e), m0)
      | Inr cfg \<Rightarrow>
          (case loaded_key (fst (load_or_create_master_key (cf_masterKey cfg) (bt_keyEnv be) (bt_keyFile be) (bt_keyRaces be))) of
             None \<Rightarrow> (Inl BootKey, m0)
           | Some master \<Rightarrow>
               (case new_keyring (bt_crypto be) master of
                  None \<Rightarrow> (Inl BootKeyring, m0)
                | Some kr \<Rightarrow>
                    (case migrate (bt_migrations be) (bt_exec be) m0 of
                       (Inl e, m1) \<Rightarrow> (Inl (BootMigration e), m1)
                     | (Inr u, m1) \<Rightarrow>
                         (case op_bind (sync_builtins (bt_penv be kr) (bt_builtins be)) (\<lambda>u. load_all_connectors (bt_penv be kr)) (fresh_platform (md_data m1)) of
                            (Inl e, p) \<Rightarrow> (Inl (BootConnectors e), m1\<lparr>md_data := pf_db p\<rparr>)
                          | (Inr u, p) \<Rightarrow>
                              (Inr \<lparr>rs_config = cfg, rs_keyring = kr, rs_sessions = new_sessions (cf_sessionIdle cfg) (cf_sessionAbsolute cfg),
                                    rs_loginLimiter = new_attempt_limiter (cf_loginRate cfg) minute, rs_platform = p\<rparr>,
                               m1\<lparr>md_data := pf_db p\<rparr>))))))"

definition audit_retention :: int where "audit_retention = 90 * 24 * hour"

text \<open>One tick of \<open>pruneLoop\<close>: each sweep runs whatever the one before did.\<close>

definition prune_tick :: "svc_env \<Rightarrow> (nat \<Rightarrow> usage_store \<Rightarrow> int option) \<Rightarrow> (usage_entry list \<Rightarrow> nat) \<Rightarrow> db \<times> usage_store option \<Rightarrow> db \<times> usage_store option" where
  "prune_tick env size_at freed s =
     (let d1 = snd (prune_expired env (fst s)); d2 = snd (audit_prune_old env audit_retention d1)
      in (d2, snd (prune_usage size_at freed (snd s))))"

section \<open>A valid configuration\<close>

definition config_valid :: "config \<Rightarrow> bool" where
  "config_valid c \<longleftrightarrow> cf_addr c \<noteq> [] \<and> cf_dataDir c \<noteq> [] \<and>
     (cf_publicURL c = [] \<or> (\<exists>u. url_parse (cf_publicURL c) = Some u \<and> u_scheme u \<in> {''http'', ''https''} \<and> u_host u \<noteq> [])) \<and>
     cf_logLevel c \<in> set [''debug'', ''info'', ''warn'', ''error''] \<and> cf_logFormat c \<in> set [''json'', ''text''] \<and>
     4096 \<le> cf_maxRequestBytes c \<and> 0 < cf_sessionIdle c \<and> cf_sessionIdle c \<le> cf_sessionAbsolute c \<and> 1 \<le> cf_loginRate c"

lemma env_duration_pos: "env_duration ev k def = Inr d \<Longrightarrow> 0 < def \<Longrightarrow> 0 < d"
  by (auto simp: env_duration_def split: option.splits if_splits)

lemma validate_config_None: "validate_config c = None \<Longrightarrow> 0 < cf_sessionIdle c \<Longrightarrow> config_valid c"
  unfolding validate_config_def config_valid_def by (auto split: if_splits option.splits)

lemma load_config_valid:
  assumes "load_config lower ev = Inr c"
  shows "config_valid c" "ev ''MCPAW_SECURE_COOKIES'' = None \<Longrightarrow> cf_secureCookies c = has_prefix ''https://'' (cf_publicURL c)"
proof -
  from assms obtain trust metrics bytes rate idle absolute secure where
    idle: "env_duration ev ''MCPAW_SESSION_IDLE_TIMEOUT'' (2 * hour) = Inr idle" and
    secure: "env_bool ev ''MCPAW_SECURE_COOKIES'' (has_prefix ''https://'' (cf_publicURL (base_config lower ev))) = Inr secure" and
    ok: "validate_config c = None" and
    c: "c = (base_config lower ev)\<lparr>cf_trustProxy := trust, cf_metrics := metrics, cf_maxRequestBytes := bytes, cf_loginRate := rate,
                   cf_sessionIdle := idle, cf_sessionAbsolute := absolute, cf_secureCookies := secure\<rparr>"
    unfolding load_config_def Let_def by (auto simp: base_config_def split: sum.splits option.splits)
  show "config_valid c" using validate_config_None[OF ok] env_duration_pos[OF idle] by (simp add: c hour_def second_def)
  show "cf_secureCookies c = has_prefix ''https://'' (cf_publicURL c)" if "ev ''MCPAW_SECURE_COOKIES'' = None"
    using secure that by (simp add: c env_bool_def)
qed

section \<open>Migrations in order\<close>

fun run_scripts :: "(string \<Rightarrow> 'd \<Rightarrow> 'd option) \<Rightarrow> string list \<Rightarrow> 'd \<Rightarrow> 'd option" where
  "run_scripts exec [] d = Some d"
| "run_scripts exec (n # ns) d = Option.bind (exec n d) (run_scripts exec ns)"

text \<open>The databases that starts of the program reach, however often they fail.\<close>

inductive migration_reach :: "(string \<times> bool) list \<Rightarrow> (string \<Rightarrow> 'd \<Rightarrow> 'd option) \<Rightarrow> 'd \<Rightarrow> 'd migrated \<Rightarrow> bool"
  for entries exec d0 where
  Fresh: "migration_reach entries exec d0 \<lparr>md_applied = [], md_data = d0, md_faults = fs\<rparr>"
| Restart: "migration_reach entries exec d0 m \<Longrightarrow> migrate entries exec (m\<lparr>md_faults := fs\<rparr>) = (r, m') \<Longrightarrow> migration_reach entries exec d0 m'"

definition migrated_to :: "(string \<times> bool) list \<Rightarrow> (string \<Rightarrow> 'd \<Rightarrow> 'd option) \<Rightarrow> 'd \<Rightarrow> nat \<Rightarrow> 'd migrated \<Rightarrow> bool" where
  "migrated_to entries exec d0 k m \<longleftrightarrow>
     md_applied m = take k (migration_names entries) \<and> run_scripts exec (md_applied m) d0 = Some (md_data m)"

lemma run_scripts_append: "run_scripts exec (xs @ ys) d = Option.bind (run_scripts exec xs d) (run_scripts exec ys)"
  by (induction xs arbitrary: d) (auto split: Option.bind_splits)

lemma take_fault_same [simp]: "md_applied (snd (take_fault m)) = md_applied m" "md_data (snd (take_fault m)) = md_data m"
  by (simp_all add: take_fault_def split: list.split)

lemma migrated_same: "migrated_to entries exec d0 k m \<Longrightarrow> md_applied m' = md_applied m \<Longrightarrow> md_data m' = md_data m \<Longrightarrow> migrated_to entries exec d0 k m'"
  unfolding migrated_to_def by metis

lemma apply_pending_done: "set ns \<subseteq> set applied \<Longrightarrow> apply_pending exec applied (ns @ rest) m = apply_pending exec applied rest m"
  by (induction ns) auto

lemma apply_pending_run:
  "migrated_to entries exec d0 k m \<Longrightarrow> drop k (migration_names entries) = rest \<Longrightarrow> distinct (migration_names entries) \<Longrightarrow>
   set applied \<inter> set rest = {} \<Longrightarrow> apply_pending exec applied rest m = (r, m') \<Longrightarrow>
   \<exists>j \<ge> k. migrated_to entries exec d0 j m' \<and> (r = Inr () \<longrightarrow> md_applied m' = migration_names entries)"
proof (induction rest arbitrary: k m)
  case Nil
  hence "md_applied m = migration_names entries" by (simp add: migrated_to_def)
  thus ?case using Nil by auto
next
  case (Cons n rest)
  have k: "k < length (migration_names entries)" using Cons.prems(2) by (metis drop_eq_Nil list.distinct(1) not_le)
  have n: "migration_names entries ! k = n" "drop (Suc k) (migration_names entries) = rest"
    using Cons.prems(2) k by (metis Cons_nth_drop_Suc list.inject)+
  have new: "n \<notin> set applied" using Cons.prems(4) by simp
  obtain ra m1 where a: "apply_migration exec n m = (ra, m1)" by (rule prod.exhaust)
  show ?case
  proof (cases ra)
    case (Inl e)
    hence "md_applied m1 = md_applied m" "md_data m1 = md_data m" "m' = m1" "r \<noteq> Inr ()"
      using a new Cons.prems(5) by (auto simp: apply_migration_def Let_def split: prod.splits option.splits if_splits dest: arg_cong[where f = snd])
        (metis take_fault_same snd_conv)+
    thus ?thesis using migrated_same[OF Cons.prems(1)] by blast
  next
    case (Inr u)
    then obtain d where d: "exec n (md_data m) = Some d" "md_applied m1 = md_applied m @ [n]" "md_data m1 = d"
      using a by (auto simp: apply_migration_def Let_def split: prod.splits option.splits if_splits) (metis take_fault_same snd_conv)+
    have m: "md_applied m = take k (migration_names entries)" "run_scripts exec (md_applied m) d0 = Some (md_data m)"
      using Cons.prems(1) unfolding migrated_to_def by blast+
    have "md_applied m1 = take (Suc k) (migration_names entries)" using d(2) m(1) k n(1) by (simp add: take_Suc_conv_app_nth)
    moreover have "run_scripts exec (md_applied m1) d0 = Some (md_data m1)" unfolding d(2,3) run_scripts_append m(2) using d(1) by simp
    ultimately have "migrated_to entries exec d0 (Suc k) m1" unfolding migrated_to_def by blast
    from Cons.IH[OF this n(2) Cons.prems(3)] obtain j where "Suc k \<le> j" "migrated_to entries exec d0 j m'" "r = Inr () \<longrightarrow> md_applied m' = migration_names entries"
      using Cons.prems(4,5) a Inr new by auto
    thus ?thesis using Suc_leD by blast
  qed
qed

lemma migrate_run:
  assumes "migrated_to entries exec d0 k m" "distinct (migration_names entries)" "migrate entries exec m = (r, m')"
  shows "\<exists>j \<ge> k. migrated_to entries exec d0 j m' \<and> (r = Inr () \<longrightarrow> md_applied m' = migration_names entries)"
proof -
  obtain broken m1 where f: "take_fault m = (broken, m1)" by (rule prod.exhaust)
  have same: "md_applied m1 = md_applied m" "md_data m1 = md_data m" using take_fault_same[of m] by (simp_all add: f)
  note m1 = migrated_same[OF assms(1) same]
  show ?thesis
  proof (cases broken)
    case True thus ?thesis using assms(3) f m1 by (auto simp: migrate_def)
  next
    case False
    have app: "md_applied m1 = take k (migration_names entries)" using m1 by (simp add: migrated_to_def)
    have "apply_pending exec (md_applied m1) (take k (migration_names entries) @ drop k (migration_names entries)) m1 = (r, m')"
      using assms(3) f False by (simp add: migrate_def)
    hence run: "apply_pending exec (md_applied m1) (drop k (migration_names entries)) m1 = (r, m')"
      by (subst (asm) apply_pending_done) (simp_all add: app)
    have "set (md_applied m1) \<inter> set (drop k (migration_names entries)) = {}"
      unfolding app using assms(2) by (rule set_take_disj_set_drop_if_distinct) simp
    from apply_pending_run[OF m1 refl assms(2) this run] show ?thesis .
  qed
qed

lemma pending_records_all:
  "apply_pending exec applied ns m = (Inr (), m') \<Longrightarrow> set ns - set applied \<subseteq> set (md_applied m') \<and> set (md_applied m) \<subseteq> set (md_applied m')"
proof (induction ns arbitrary: m)
  case (Cons n ns)
  show ?case
  proof (cases "n \<in> set applied")
    case False
    obtain ra m1 where a: "apply_migration exec n m = (ra, m1)" by (rule prod.exhaust)
    have "ra = Inr ()" using Cons.prems False a by (cases ra) auto
    hence "md_applied m1 = md_applied m @ [n]"
      using a by (auto simp: apply_migration_def Let_def split: prod.splits option.splits if_splits) (metis take_fault_same(1) snd_conv)+
    moreover have "apply_pending exec applied ns m1 = (Inr (), m')" using Cons.prems False a \<open>ra = Inr ()\<close> by simp
    ultimately show ?thesis using Cons.IH[of m1] by auto
  qed (use Cons in auto)
qed simp

lemma migrate_records_all:
  assumes "migrate entries exec m = (Inr (), m')" shows "set (migration_names entries) \<subseteq> set (md_applied m')"
proof -
  obtain b m1 where f: "take_fault m = (b, m1)" by (rule prod.exhaust)
  have "apply_pending exec (md_applied m1) (migration_names entries) m1 = (Inr (), m')"
    using assms f by (auto simp: migrate_def split: if_splits)
  from pending_records_all[OF this] show ?thesis by blast
qed

lemma migration_reach_prefix:
  assumes "migration_reach entries exec d0 m" "distinct (migration_names entries)"
  shows "\<exists>k. migrated_to entries exec d0 k m"
  using assms(1)
proof induction
  case (Fresh fs)
  show ?case by (rule exI[of _ 0]) (simp add: migrated_to_def)
next
  case (Restart m fs r m')
  then obtain k where "migrated_to entries exec d0 k (m\<lparr>md_faults := fs\<rparr>)" by (auto simp: migrated_to_def)
  from migrate_run[OF this assms(2) Restart.hyps(2)] show ?case by blast
qed

section \<open>Built-in connectors and the registry\<close>

lemma connector_upsert_done:
  "connector_upsert c d = (Inr u, d') \<Longrightarrow> db_connectors d' =
     (if list_ex (\<lambda>r. cr_id r = cr_id c) (db_connectors d)
      then updated (\<lambda>x. cr_id x = cr_id c) (\<lambda>x. c\<lparr>cr_createdAt := cr_createdAt x\<rparr>) (db_connectors d)
      else db_connectors d @ [c])"
  unfolding connector_upsert_def by (erule stmt_cases) (auto split: if_splits)

text \<open>The rows after one upsert: one per identifier, the new one among them, the others as they were.\<close>

lemma upsert_rows:
  assumes "connector_upsert c d = (Inr u, d')" "distinct (map cr_id (db_connectors d))"
  shows "distinct (map cr_id (db_connectors d'))"
    "\<exists>x\<in>set (db_connectors d'). cr_id x = cr_id c \<and> cr_checksum x = cr_checksum c"
    "cr_id x \<noteq> cr_id c \<Longrightarrow> x \<in> set (db_connectors d') \<longleftrightarrow> x \<in> set (db_connectors d)"
proof -
  have "map cr_id (updated (\<lambda>x. cr_id x = cr_id c) (\<lambda>x. c\<lparr>cr_createdAt := cr_createdAt x\<rparr>) (db_connectors d)) = map cr_id (db_connectors d)"
    by (rule map_key_updated) simp
  thus "distinct (map cr_id (db_connectors d'))"
    using assms(2) unfolding connector_upsert_done[OF assms(1)] by (auto simp: list_ex_iff)
  show "\<exists>x\<in>set (db_connectors d'). cr_id x = cr_id c \<and> cr_checksum x = cr_checksum c"
  proof (cases "list_ex (\<lambda>r. cr_id r = cr_id c) (db_connectors d)")
    case True
    then obtain y where "y \<in> set (db_connectors d)" "cr_id y = cr_id c" by (auto simp: list_ex_iff)
    hence "c\<lparr>cr_createdAt := cr_createdAt y\<rparr> \<in> set (db_connectors d')"
      unfolding connector_upsert_done[OF assms(1)] using True by (auto simp: set_updated)
    thus ?thesis by (rule rev_bexI) simp
  qed (simp add: connector_upsert_done[OF assms(1)])
  show "x \<in> set (db_connectors d') \<longleftrightarrow> x \<in> set (db_connectors d)" if "cr_id x \<noteq> cr_id c"
    unfolding connector_upsert_done[OF assms(1)] using that by (auto simp: updated_def)
qed

lemma sync_records_frame: "sync_records env recs p = (r, p') \<Longrightarrow> \<exists>d. p' = p\<lparr>pf_db := d\<rparr>"
proof (induction recs arbitrary: p)
  case Nil
  have "p' = p\<lparr>pf_db := pf_db p\<rparr>" using Nil by (cases p) simp
  thus ?case ..
next
  case (Cons rec recs)
  obtain r1 d1 where 1: "connector_get (cr_id rec) (pf_db p) = (r1, d1)" by (rule prod.exhaust)
  have up: "\<exists>d. p' = p\<lparr>pf_db := d\<rparr>"
    if "op_bind (run_sql (connector_upsert rec')) (\<lambda>u. sync_records env recs) (p\<lparr>pf_db := d1\<rparr>) = (r, p')" for rec'
  proof -
    obtain r2 d2 where 2: "connector_upsert rec' d1 = (r2, d2)" by (rule prod.exhaust)
    show ?thesis
    proof (cases r2)
      case (Inl e) thus ?thesis using that 2 by (auto simp: op_bind_def run_sql_def)
    next
      case (Inr u)
      hence "sync_records env recs (p\<lparr>pf_db := d2\<rparr>) = (r, p')" using that 2 by (simp add: op_bind_def run_sql_def)
      from Cons.IH[OF this] show ?thesis by auto
    qed
  qed
  show ?case
  proof (cases r1)
    case (Inl e)
    show ?thesis using Cons.prems 1 Inl up by (auto simp: run_sql_def split: if_splits)
  next
    case (Inr old)
    show ?thesis
    proof (cases "cr_checksum old = cr_checksum rec")
      case True
      hence "sync_records env recs (p\<lparr>pf_db := d1\<rparr>) = (r, p')" using Cons.prems 1 Inr by (simp add: run_sql_def)
      from Cons.IH[OF this] show ?thesis by auto
    qed (use Cons.prems 1 Inr up in \<open>auto simp: run_sql_def\<close>)
  qed
qed

definition stored :: "connector_record list \<Rightarrow> connector_record \<Rightarrow> bool" where
  "stored rows rec \<longleftrightarrow> (\<exists>x\<in>set rows. cr_id x = cr_id rec \<and> cr_checksum x = cr_checksum rec)"

lemma stored_cong: "(\<And>x. cr_id x = cr_id rec \<Longrightarrow> x \<in> set rows' \<longleftrightarrow> x \<in> set rows) \<Longrightarrow> stored rows' rec = stored rows rec"
  unfolding stored_def by blast

text \<open>One record of the list: the database before the rest.\<close>

lemma sync_record_step:
  assumes "sync_records env (rec # recs) p = (Inr u, p')" "distinct (map cr_id (db_connectors (pf_db p)))"
  obtains d where "sync_records env recs (p\<lparr>pf_db := d\<rparr>) = (Inr u, p')" "distinct (map cr_id (db_connectors d))"
    "stored (db_connectors d) rec" "\<And>x. cr_id x \<noteq> cr_id rec \<Longrightarrow> x \<in> set (db_connectors d) \<longleftrightarrow> x \<in> set (db_connectors (pf_db p))"
proof -
  note found = that
  obtain r1 d1 where 1: "connector_get (cr_id rec) (pf_db p) = (r1, d1)" by (rule prod.exhaust)
  have f1: "db_connectors d1 = db_connectors (pf_db p)" using connector_get_frame(1)[OF 1] .
  have up: thesis
    if s: "op_bind (run_sql (connector_upsert rec')) (\<lambda>u. sync_records env recs) (p\<lparr>pf_db := d1\<rparr>) = (Inr u, p')"
      and k: "cr_id rec' = cr_id rec" "cr_checksum rec' = cr_checksum rec" for rec'
  proof -
    obtain r2 d2 where 2: "connector_upsert rec' d1 = (r2, d2)" by (rule prod.exhaust)
    obtain v where v: "r2 = Inr v" using s 2 by (cases r2) (auto simp: op_bind_def run_sql_def)
    have 3: "sync_records env recs (p\<lparr>pf_db := d2\<rparr>) = (Inr u, p')" using s 2 v by (simp add: op_bind_def run_sql_def)
    note rows = upsert_rows[OF 2[unfolded v], unfolded f1, OF assms(2)]
    have "stored (db_connectors d2) rec" using rows(2) by (simp add: stored_def k)
    from found[OF 3 rows(1) this] show thesis using rows(3) k(1) by simp
  qed
  show thesis
  proof (cases r1)
    case (Inl e)
    show thesis by (rule up[of "rec\<lparr>cr_updatedAt := sv_now (pv_svc env)\<rparr>"]) (use assms(1) 1 Inl in \<open>auto simp: run_sql_def split: if_splits\<close>)
  next
    case (Inr old)
    show thesis
    proof (cases "cr_checksum old = cr_checksum rec")
      case True
      hence "sync_records env recs (p\<lparr>pf_db := d1\<rparr>) = (Inr u, p')" using assms(1) 1 Inr by (simp add: run_sql_def)
      moreover have "stored (db_connectors d1) rec"
        using connector_get_frame(2)[OF 1 Inr] True f1 by (auto simp: stored_def)
      ultimately show thesis using found[of d1] f1 assms(2) by simp
    next
      case False
      show thesis by (rule up[of "rec\<lparr>cr_createdAt := cr_createdAt old, cr_updatedAt := sv_now (pv_svc env)\<rparr>"])
          (use assms(1) 1 Inr False in \<open>auto simp: run_sql_def\<close>)
    qed
  qed
qed

lemma sync_records_rows:
  "sync_records env recs p = (Inr u, p') \<Longrightarrow> distinct (map cr_id (db_connectors (pf_db p))) \<Longrightarrow>
   distinct (map cr_id (db_connectors (pf_db p'))) \<and>
   (\<forall>x. cr_id x \<notin> cr_id ` set recs \<longrightarrow> (x \<in> set (db_connectors (pf_db p')) \<longleftrightarrow> x \<in> set (db_connectors (pf_db p)))) \<and>
   (distinct (map cr_id recs) \<longrightarrow> (\<forall>rec\<in>set recs. stored (db_connectors (pf_db p')) rec))"
proof (induction recs arbitrary: p)
  case (Cons rec recs)
  from Cons.prems obtain d where d: "sync_records env recs (p\<lparr>pf_db := d\<rparr>) = (Inr u, p')" "distinct (map cr_id (db_connectors d))"
    "stored (db_connectors d) rec" "\<And>x. cr_id x \<noteq> cr_id rec \<Longrightarrow> x \<in> set (db_connectors d) \<longleftrightarrow> x \<in> set (db_connectors (pf_db p))"
    by (rule sync_record_step) blast
  note IH = Cons.IH[OF d(1), simplified, OF d(2)]
  have "stored (db_connectors (pf_db p')) rec" if "cr_id rec \<notin> cr_id ` set recs"
    using d(3) IH that by (subst stored_cong[of rec _ "db_connectors d"]) auto
  thus ?case using IH d(4) by auto
qed simp

text \<open>What the registry makes of a row.\<close>

definition served :: "'sc penv \<Rightarrow> connector_record \<Rightarrow> 'sc reg_entry option" where
  "served env c = (case fst (registry_put (pv_libs env) (pv_yaml env) c []) of Inl e \<Rightarrow> None | Inr e \<Rightarrow> Some e)"

lemma served_iff: "served env c = Some e \<longleftrightarrow> fst (registry_put (pv_libs env) (pv_yaml env) c []) = Inr e"
  by (auto simp: served_def split: sum.splits)

lemma put_quietly_get:
  "registry_get (put_quietly env c reg) i =
     (if i = cr_id c \<and> served env c \<noteq> None then served env c else registry_get reg i)"
  by (auto simp: put_quietly_def served_def registry_get_def registry_put_def Let_def split: sum.splits)

lemma load_rows_get:
  "distinct (map cr_id rows) \<Longrightarrow> registry_get (List.fold (put_quietly env) rows reg) i = Some e \<longleftrightarrow>
     (\<exists>c\<in>set rows. cr_id c = i \<and> served env c = Some e) \<or>
     (\<forall>c\<in>set rows. cr_id c = i \<longrightarrow> served env c = None) \<and> registry_get reg i = Some e"
proof (induction rows arbitrary: reg)
  case (Cons c rows)
  have "cr_id x \<noteq> cr_id c" if "x \<in> set rows" for x using Cons.prems that by (auto simp: image_iff)
  thus ?case using Cons by (auto simp: put_quietly_get)
qed simp

section \<open>What the operator is not told\<close>

text \<open>The warning about a generated key names the file under \<open>key_file\<close>.\<close>

lemma key_file_redacted: "redact id ''key_file'' v = VStr ''[redacted]''"
proof -
  have "list_ex (contains (go_lower id ''key_file'')) sensitive_keys" by code_simp
  thus ?thesis by (simp add: redact_def)
qed

text \<open>An address with a trailing newline: the server listens, the health check asks elsewhere.\<close>

lemma healthcheck_not_trimmed:
  "let ev = map_of [(''MCPAW_ADDR'', '':9000'' @ [CHR 0x0A])] in
   cf_addr (base_config id ev) = '':9000'' \<and> healthcheck_url ev = ''http://localhost:9000'' @ [CHR 0x0A] @ ''/healthz''"
  by code_simp

section \<open>The stages of a start\<close>

lemma run_serve_stages:
  assumes "run_serve be m0 = (Inr rs, m1)"
  obtains m where "load_config (bt_lower be) (bt_environ be) = Inr (rs_config rs)"
    "migrate (bt_migrations be) (bt_exec be) m0 = (Inr (), m)"
    "op_bind (sync_builtins (bt_penv be (rs_keyring rs)) (bt_builtins be)) (\<lambda>u. load_all_connectors (bt_penv be (rs_keyring rs)))
       (fresh_platform (md_data m)) = (Inr (), rs_platform rs)"
    "rs_sessions rs = new_sessions (cf_sessionIdle (rs_config rs)) (cf_sessionAbsolute (rs_config rs))"
    "rs_loginLimiter rs = new_attempt_limiter (cf_loginRate (rs_config rs)) minute" "m1 = m\<lparr>md_data := pf_db (rs_platform rs)\<rparr>"
proof -
  obtain cfg where cfg: "load_config (bt_lower be) (bt_environ be) = Inr cfg"
    using assms by (cases "load_config (bt_lower be) (bt_environ be)") (auto simp: run_serve_def)
  obtain master where ma: "loaded_key (fst (load_or_create_master_key (cf_masterKey cfg) (bt_keyEnv be) (bt_keyFile be) (bt_keyRaces be))) = Some master"
    using assms cfg by (auto simp: run_serve_def split: option.splits)
  obtain kr where kr: "new_keyring (bt_crypto be) master = Some kr"
    using assms cfg ma by (auto simp: run_serve_def split: option.splits)
  obtain rm m where mig: "migrate (bt_migrations be) (bt_exec be) m0 = (rm, m)" by (rule prod.exhaust)
  have rm: "rm = Inr ()" using assms mig cfg ma kr by (cases rm) (auto simp: run_serve_def)
  obtain r p where run: "op_bind (sync_builtins (bt_penv be kr) (bt_builtins be)) (\<lambda>u. load_all_connectors (bt_penv be kr)) (fresh_platform (md_data m)) = (r, p)"
    by (rule prod.exhaust)
  have "r = Inr ()" "rs_config rs = cfg" "rs_keyring rs = kr" "rs_platform rs = p" "rs_sessions rs = new_sessions (cf_sessionIdle cfg) (cf_sessionAbsolute cfg)"
      "rs_loginLimiter rs = new_attempt_limiter (cf_loginRate cfg) minute" "m1 = m\<lparr>md_data := pf_db p\<rparr>"
    using assms cfg ma kr mig rm run by (cases r; auto simp: run_serve_def)+
  with that[of m] show thesis using cfg mig rm run by simp
qed

lemma load_all_serves:
  assumes "load_all_connectors env p1 = (Inr (), p)" "pf_registry p1 = []" "distinct (map cr_id (db_connectors (pf_db p1)))"
  shows "db_connectors (pf_db p) = db_connectors (pf_db p1)"
    "registry_get (pf_registry p) i = Some e \<longleftrightarrow> (\<exists>c\<in>set (db_connectors (pf_db p1)). cr_id c = i \<and> served env c = Some e)"
proof -
  obtain listed d where list: "connector_list (pf_db p1) = (listed, d)" by (rule prod.exhaust)
  obtain rws where rws: "listed = Inr rws" and p: "p = p1\<lparr>pf_db := d, pf_registry := List.fold (put_quietly env) rws []\<rparr>"
    using assms(1,2) list by (cases listed) (auto simp: load_all_connectors_def op_bind_def run_sql_def)
  show "db_connectors (pf_db p) = db_connectors (pf_db p1)" using connector_list_frame[OF list] by (simp add: p)
  have rws2: "rws = sort_key cr_name (db_connectors (pf_db p1))"
    using list unfolding rws connector_list_def select_def order_asc_def by (auto elim!: stmt_cases)
  have "distinct (map cr_id rws)" using assms(3) unfolding rws2 by (metis distinct_map distinct_sort set_sort)
  from load_rows_get[OF this, of env "[]" i e]
  show "registry_get (pf_registry p) i = Some e \<longleftrightarrow> (\<exists>c\<in>set (db_connectors (pf_db p1)). cr_id c = i \<and> served env c = Some e)"
    by (simp add: p rws2) (simp add: registry_get_def)
qed

lemma enforced_as_configured:
  assumes "config_valid cfg"
  shows "new_sessions (cf_sessionIdle cfg) (cf_sessionAbsolute cfg) = \<lparr>sx_idleTimeout = cf_sessionIdle cfg, sx_absoluteTimeout = cf_sessionAbsolute cfg\<rparr>"
    "al_limit (new_attempt_limiter (cf_loginRate cfg) minute) = cf_loginRate cfg" "al_window (new_attempt_limiter (cf_loginRate cfg) minute) = minute"
  using assms by (simp_all add: config_valid_def new_sessions_def new_attempt_limiter_def minute_def second_def)

section \<open>Properties\<close>

text \<open>C31: a migration is applied once, in the order of the names, whatever fails and however often
  the program is started again: the recorded migrations are always the first ones of the
  directory, the database is what exactly those scripts made of the original one, and a start
  that gets past its migrations has applied all of them.\<close>
theorem migrations_in_order:
  assumes "migration_reach entries exec d0 m" "distinct (map fst entries)"
  shows "(\<exists>k. md_applied m = take k (migration_names entries)) \<and>
    run_scripts exec (md_applied m) d0 = Some (md_data m) \<and>
    (\<forall>m'. migrate entries exec m = (Inr (), m') \<longrightarrow>
       md_applied m' = migration_names entries \<and> run_scripts exec (migration_names entries) d0 = Some (md_data m'))"
proof -
  have d: "distinct (migration_names entries)" using assms(2) by (simp add: migration_names_def distinct_map_filter)
  obtain k where k: "migrated_to entries exec d0 k m" using migration_reach_prefix[OF assms(1) d] by blast
  have "md_applied m' = migration_names entries \<and> run_scripts exec (migration_names entries) d0 = Some (md_data m')"
    if "migrate entries exec m = (Inr (), m')" for m'
    using migrate_run[OF k d that] unfolding migrated_to_def by auto
  thus ?thesis using k unfolding migrated_to_def by blast
qed

definition demo_scripts :: "(string \<times> bool) list" where
  "demo_scripts = [(''b.sql'', False), (''a.sql'', False), (''x'', True)]"

definition demo_exec :: "string \<Rightarrow> string list \<Rightarrow> string list option" where
  "demo_exec n d = Some (d @ [n])"

lemma migrations_in_order_witness:
  "md_applied (snd (migrate demo_scripts demo_exec \<lparr>md_applied = [''a.sql''], md_data = [''a.sql''], md_faults = []\<rparr>)) = [''a.sql'', ''b.sql'']"
proof -
  let ?m = "\<lparr>md_applied = [''a.sql''], md_data = [''a.sql''], md_faults = []\<rparr>"
  have "migrate demo_scripts demo_exec (\<lparr>md_applied = [], md_data = [], md_faults = []\<rparr>\<lparr>md_faults := [False, False, True]\<rparr>) = (Inl (MigrationFailed ''b.sql''), ?m)"
    by code_simp
  from migration_reach.Restart[OF migration_reach.Fresh this] have reach: "migration_reach demo_scripts demo_exec [] ?m" .
  have "is_ok (fst (migrate demo_scripts demo_exec ?m)) \<and> distinct (map fst demo_scripts) \<and> migration_names demo_scripts = [''a.sql'', ''b.sql'']"
    by code_simp
  thus ?thesis using migrations_in_order[OF reach] by (cases "migrate demo_scripts demo_exec ?m") (auto simp: is_ok_iff)
qed

text \<open>C23: a platform that serves was put together as configured.  The settings are valid and are
  those the session service and the sign-in limiter enforce; every migration of the program has
  been recorded; the registry serves exactly the stored connectors that compile, each with its
  own record; every built-in connector is stored in the version the program carries; and a
  stored connector that is not built in is left as it was.\<close>
theorem boot_assembles:
  assumes "run_serve be m0 = (Inr rs, m1)"
    and "migrate (bt_migrations be) (bt_exec be) m0 = (rm, m)" "distinct (map cr_id (db_connectors (md_data m)))"
  shows "config_valid (rs_config rs) \<and> load_config (bt_lower be) (bt_environ be) = Inr (rs_config rs) \<and>
    sx_idleTimeout (rs_sessions rs) = cf_sessionIdle (rs_config rs) \<and> sx_absoluteTimeout (rs_sessions rs) = cf_sessionAbsolute (rs_config rs) \<and>
    al_limit (rs_loginLimiter rs) = cf_loginRate (rs_config rs) \<and> al_window (rs_loginLimiter rs) = minute \<and>
    set (migration_names (bt_migrations be)) \<subseteq> set (md_applied m1) \<and>
    (let env = bt_penv be (rs_keyring rs); rows = db_connectors (pf_db (rs_platform rs)) in
     md_data m1 = pf_db (rs_platform rs) \<and>
     (\<forall>i e. registry_get (pf_registry (rs_platform rs)) i = Some e \<longleftrightarrow>
        (\<exists>c\<in>set rows. cr_id c = i \<and> fst (registry_put (pv_libs env) (pv_yaml env) c []) = Inr e)) \<and>
     (\<exists>recs. builtins env (sv_now (pv_svc env)) (bt_builtins be) = Some recs \<and>
        (distinct (map cr_id recs) \<longrightarrow> (\<forall>rec\<in>set recs. \<exists>c\<in>set rows. cr_id c = cr_id rec \<and> cr_checksum c = cr_checksum rec)) \<and>
        (\<forall>c. cr_id c \<notin> cr_id ` set recs \<longrightarrow> (c \<in> set rows \<longleftrightarrow> c \<in> set (db_connectors (md_data m))))))"
proof -
  let ?env = "bt_penv be (rs_keyring rs)" and ?p = "rs_platform rs"
  from assms(1) obtain m' where cfg: "load_config (bt_lower be) (bt_environ be) = Inr (rs_config rs)"
    and mig': "migrate (bt_migrations be) (bt_exec be) m0 = (Inr (), m')"
    and run': "op_bind (sync_builtins ?env (bt_builtins be)) (\<lambda>u. load_all_connectors ?env) (fresh_platform (md_data m')) = (Inr (), ?p)"
    and rs: "rs_sessions rs = new_sessions (cf_sessionIdle (rs_config rs)) (cf_sessionAbsolute (rs_config rs))"
      "rs_loginLimiter rs = new_attempt_limiter (cf_loginRate (rs_config rs)) minute"
    and m1': "m1 = m'\<lparr>md_data := pf_db ?p\<rparr>" by (rule run_serve_stages)
  have "m' = m" using mig' assms(2) by simp
  note mig = mig'[unfolded this] and run = run'[unfolded this] and m1 = m1'[unfolded this]
  obtain recs where recs: "builtins ?env (sv_now (pv_svc ?env)) (bt_builtins be) = Some recs"
    using run by (cases "builtins ?env (sv_now (pv_svc ?env)) (bt_builtins be)") (auto simp: sync_builtins_def op_bind_def op_fail_def)
  obtain r1 p1 where sync: "sync_records ?env recs (fresh_platform (md_data m)) = (r1, p1)" by (rule prod.exhaust)
  have r1: "r1 = Inr ()" and load: "load_all_connectors ?env p1 = (Inr (), ?p)"
    using run recs sync by (cases r1; auto simp: sync_builtins_def op_bind_def)+
  have rows: "distinct (map cr_id (db_connectors (pf_db p1)))"
      "\<And>x. cr_id x \<notin> cr_id ` set recs \<Longrightarrow> x \<in> set (db_connectors (pf_db p1)) \<longleftrightarrow> x \<in> set (db_connectors (md_data m))"
      "distinct (map cr_id recs) \<Longrightarrow> rec \<in> set recs \<Longrightarrow> stored (db_connectors (pf_db p1)) rec" for rec
    using sync_records_rows[OF sync[unfolded r1]] assms(3) by (auto simp: fresh_platform_def)
  have "pf_registry p1 = []" using sync_records_frame[OF sync] by (auto simp: fresh_platform_def)
  note reg = load_all_serves[OF load this rows(1)]
  have valid: "config_valid (rs_config rs)" by (rule load_config_valid(1)[OF cfg])
  have "set (migration_names (bt_migrations be)) \<subseteq> set (md_applied m1)" using migrate_records_all[OF mig] by (simp add: m1)
  thus ?thesis using valid cfg recs rows(2,3) enforced_as_configured[OF valid]
    by (simp add: rs m1 reg Let_def served_iff) (simp add: stored_def)
qed

text \<open>A first start on an empty database, with the key in the environment and a shorter session.\<close>

definition demo_boot :: "unit boot_env" where
  "demo_boot = \<lparr>bt_lower = id,
     bt_environ = map_of [(''MCPAW_MASTER_KEY'', ''a2tra2tra2tra2tra2tra2tra2tra2tra2tra2tra2s=''), (''MCPAW_SESSION_IDLE_TIMEOUT'', ''90m'')],
     bt_crypto = toy_crypto, bt_keyEnv = \<lparr>ke_random = None, ke_mkdir = True, ke_write = KeyWritten\<rparr>, bt_keyFile = KeyAbsent, bt_keyRaces = [],
     bt_migrations = demo_scripts, bt_exec = (\<lambda>n d. Some d), bt_penv = (\<lambda>kr. demo_penv), bt_builtins = [''m'']\<rparr>"

lemma boot_assembles_witness:
  "case run_serve demo_boot \<lparr>md_applied = [], md_data = empty_db, md_faults = []\<rparr> of
     (Inl e, m1) \<Rightarrow> False
   | (Inr rs, m1) \<Rightarrow> sx_idleTimeout (rs_sessions rs) = 5400000000000 \<and> set (md_applied m1) \<supseteq> {''a.sql'', ''b.sql''}"
proof -
  let ?m0 = "\<lparr>md_applied = [], md_data = empty_db, md_faults = []\<rparr>"
  have ev: "(case run_serve demo_boot ?m0 of (Inl e, m1) \<Rightarrow> False | (Inr rs, m1) \<Rightarrow> cf_sessionIdle (rs_config rs) = 5400000000000) \<and>
      db_connectors (md_data (snd (migrate demo_scripts (\<lambda>n d. Some d) ?m0))) = [] \<and> migration_names demo_scripts = [''a.sql'', ''b.sql'']"
    by code_simp
  then obtain rs m1 where run: "run_serve demo_boot ?m0 = (Inr rs, m1)" and idle: "cf_sessionIdle (rs_config rs) = 5400000000000"
    by (auto split: prod.splits sum.splits)
  obtain rm m where m: "migrate (bt_migrations demo_boot) (bt_exec demo_boot) ?m0 = (rm, m)" by (rule prod.exhaust)
  have "distinct (map cr_id (db_connectors (md_data m)))" using ev m by (simp add: demo_boot_def)
  note b = boot_assembles[OF run m this]
  have "bt_migrations demo_boot = demo_scripts" by (simp add: demo_boot_def)
  hence "sx_idleTimeout (rs_sessions rs) = 5400000000000 \<and> set (md_applied m1) \<supseteq> {''a.sql'', ''b.sql''}" using b ev idle by auto
  thus ?thesis by (simp add: run)
qed

end
