(* ===== verification/Metrics.thy ===== *)
theory Metrics
  imports Limiter JsonEnc "HOL-Library.Word"
begin

text \<open>
  \<open>internal/platform/metrics\<close> and the access log of \<open>internal/httpx/middleware.go\<close>: instruments
  by name and label values, counted in 64-bit words, and their text for the scraper.  Which
  characters beyond ASCII Go prints as they are is an argument.
\<close>

section \<open>Instruments\<close>

type_synonym word64 = "64 word"

record metric_hist =
  mh_counts :: "word64 list"
  mh_sum :: rat
  mh_total :: word64

record metric_family =
  mt_name :: string
  mt_help :: string
  mt_typ :: string
  mt_keys :: "string list"
  mt_buckets :: "rat list"
  mt_counters :: "(string, word64) gomap"
  mt_gauges :: "(string, word64) gomap"
  mt_hists :: "(string, metric_hist) gomap"
  mt_labels :: "(string, string list) gomap"

type_synonym metrics = "(string, metric_family) gomap"

definition default_buckets :: "rat list" where
  "default_buckets = map rnd [5 / 1000, 1 / 100, 25 / 1000, 5 / 100, 1 / 10, 25 / 100, 5 / 10, 1, 25 / 10, 5, 10, 30]"

definition new_metrics :: metrics where "new_metrics = []"

text \<open>A family keeps the type, labels and buckets it was first asked for with.\<close>

definition metric_family_of :: "metrics \<Rightarrow> string \<Rightarrow> string \<Rightarrow> string \<Rightarrow> string list \<Rightarrow> rat list \<Rightarrow> metric_family" where
  "metric_family_of reg name help typ ks buckets =
     (case map_of reg name of
        Some f \<Rightarrow> f
      | None \<Rightarrow> \<lparr>mt_name = name, mt_help = help, mt_typ = typ, mt_keys = ks, mt_buckets = buckets,
                 mt_counters = [], mt_gauges = [], mt_hists = [], mt_labels = []\<rparr>)"

definition signature :: "string list \<Rightarrow> string" where
  "signature vs = join_str [CHR 0x00] vs"

text \<open>An instrument is the name of its family and its signature.\<close>

type_synonym instrument = "string \<times> string"

definition new_counter :: "string \<Rightarrow> string \<Rightarrow> string list \<Rightarrow> string list \<Rightarrow> metrics \<Rightarrow> instrument \<times> metrics" where
  "new_counter name help ks vs reg =
     (let f = metric_family_of reg name help ''counter'' ks []; sg = signature vs in
      ((name, sg), kv_put name (if map_of (mt_counters f) sg = None
         then f\<lparr>mt_counters := kv_put sg 0 (mt_counters f), mt_labels := kv_put sg vs (mt_labels f)\<rparr> else f) reg))"

definition counter_add :: "word64 \<Rightarrow> instrument \<Rightarrow> metrics \<Rightarrow> metrics" where
  "counter_add n c reg =
     (case map_of reg (fst c) of
        None \<Rightarrow> reg
      | Some f \<Rightarrow> (case map_of (mt_counters f) (snd c) of
          None \<Rightarrow> reg | Some v \<Rightarrow> kv_put (fst c) (f\<lparr>mt_counters := kv_put (snd c) (v + n) (mt_counters f)\<rparr>) reg))"

definition counter_inc :: "instrument \<Rightarrow> metrics \<Rightarrow> metrics" where "counter_inc = counter_add 1"

definition new_gauge :: "string \<Rightarrow> string \<Rightarrow> string list \<Rightarrow> string list \<Rightarrow> metrics \<Rightarrow> instrument \<times> metrics" where
  "new_gauge name help ks vs reg =
     (let f = metric_family_of reg name help ''gauge'' ks []; sg = signature vs in
      ((name, sg), kv_put name (if map_of (mt_gauges f) sg = None
         then f\<lparr>mt_gauges := kv_put sg 0 (mt_gauges f), mt_labels := kv_put sg vs (mt_labels f)\<rparr> else f) reg))"

definition change_gauge :: "(word64 \<Rightarrow> word64) \<Rightarrow> instrument \<Rightarrow> metrics \<Rightarrow> metrics" where
  "change_gauge g c reg =
     (case map_of reg (fst c) of
        None \<Rightarrow> reg
      | Some f \<Rightarrow> (case map_of (mt_gauges f) (snd c) of
          None \<Rightarrow> reg | Some v \<Rightarrow> kv_put (fst c) (f\<lparr>mt_gauges := kv_put (snd c) (g v) (mt_gauges f)\<rparr>) reg))"

definition gauge_set :: "word64 \<Rightarrow> instrument \<Rightarrow> metrics \<Rightarrow> metrics" where "gauge_set v = change_gauge (\<lambda>x. v)"
definition gauge_add :: "word64 \<Rightarrow> instrument \<Rightarrow> metrics \<Rightarrow> metrics" where "gauge_add d = change_gauge (\<lambda>x. x + d)"

definition new_histogram :: "string \<Rightarrow> string \<Rightarrow> rat list \<Rightarrow> string list \<Rightarrow> string list \<Rightarrow> metrics \<Rightarrow> instrument \<times> metrics" where
  "new_histogram name help buckets ks vs reg =
     (let f = metric_family_of reg name help ''histogram'' ks (if buckets = [] then default_buckets else buckets); sg = signature vs in
      ((name, sg), kv_put name (if map_of (mt_hists f) sg = None
         then f\<lparr>mt_hists := kv_put sg \<lparr>mh_counts = replicate (length (mt_buckets f)) 0, mh_sum = 0, mh_total = 0\<rparr> (mt_hists f),
                mt_labels := kv_put sg vs (mt_labels f)\<rparr> else f) reg))"

definition observe_hist :: "rat list \<Rightarrow> rat \<Rightarrow> metric_hist \<Rightarrow> metric_hist" where
  "observe_hist buckets v h =
     \<lparr>mh_counts = map (\<lambda>(b, n). if v \<le> b then n + 1 else n) (zip buckets (mh_counts h)),
      mh_sum = rnd (mh_sum h + v), mh_total = mh_total h + 1\<rparr>"

definition observe :: "rat \<Rightarrow> instrument \<Rightarrow> metrics \<Rightarrow> metrics" where
  "observe v c reg =
     (case map_of reg (fst c) of
        None \<Rightarrow> reg
      | Some f \<Rightarrow> (case map_of (mt_hists f) (snd c) of
          None \<Rightarrow> reg
        | Some h \<Rightarrow> kv_put (fst c) (f\<lparr>mt_hists := kv_put (snd c) (observe_hist (mt_buckets f) v h) (mt_hists f)\<rparr>) reg))"

section \<open>The access log\<close>

definition status_class :: "int \<Rightarrow> string" where
  "status_class s = (if s < 200 then ''1xx'' else if s < 300 then ''2xx'' else if s < 400 then ''3xx'' else if s < 500 then ''4xx'' else ''5xx'')"

definition requests_name :: string where "requests_name = ''mcpaw_http_requests_total''"
definition latency_name :: string where "latency_name = ''mcpaw_http_request_duration_seconds''"

text \<open>What \<open>AccessLog\<close> does when a chain is built, and what it does after a request.\<close>

definition access_log :: "string \<Rightarrow> metrics \<Rightarrow> instrument \<times> metrics" where
  "access_log route reg = new_histogram latency_name ''HTTP request latency in seconds.'' [] [''route''] [route] reg"

definition access_logged :: "string \<Rightarrow> instrument \<Rightarrow> string \<Rightarrow> int \<Rightarrow> int \<Rightarrow> metrics \<Rightarrow> metrics" where
  "access_logged route latency meth status0 elapsed reg =
     (let status = (if status0 = 0 then 200 else status0);
          (requests, r) = new_counter requests_name ''Total HTTP requests handled.'' [''route'', ''method'', ''status'']
                            [route, meth, status_class status] reg
      in observe (dur_seconds elapsed) latency (counter_inc requests r))"

text \<open>The registry when the two chains of the router are built, and the requests that follow.\<close>

definition mounted :: metrics where
  "mounted = snd (access_log ''web'' (snd (access_log ''mcp'' new_metrics)))"

record access_event =
  av_route :: string
  av_method :: string
  av_status :: int
  av_elapsed :: int

definition log_event :: "access_event \<Rightarrow> metrics \<Rightarrow> metrics" where
  "log_event e reg = access_logged (av_route e) (latency_name, signature [av_route e]) (av_method e) (av_status e) (av_elapsed e) reg"

definition traffic :: "access_event list \<Rightarrow> metrics" where
  "traffic es = List.fold log_event es mounted"

section \<open>The text for the scraper\<close>

text \<open>\<open>strconv.Quote\<close>; \<open>printable\<close> says which runes beyond ASCII are printed as they are.\<close>

definition hex_of :: "nat \<Rightarrow> nat \<Rightarrow> string" where
  "hex_of w n = map (\<lambda>i. json_hex (n div 16 ^ (w - 1 - i) mod 16)) [0..<w]"

definition quote_chunk :: "(nat \<Rightarrow> bool) \<Rightarrow> nat \<times> string \<Rightarrow> string" where
  "quote_chunk printable rb =
     (let r = fst rb in
      if r = 34 \<or> r = 92 then [CHR 0x5C, char_of r]
      else if r = rune_error \<and> length (snd rb) = 1 then CHR 0x5C # ''x'' @ hex_of 2 (byte (hd (snd rb)))
      else if (if r < 128 then 32 \<le> r \<and> r < 127 else printable r) then snd rb
      else if r = 7 then CHR 0x5C # ''a'' else if r = 8 then CHR 0x5C # ''b'' else if r = 12 then CHR 0x5C # ''f''
      else if r = 10 then CHR 0x5C # ''n'' else if r = 13 then CHR 0x5C # ''r'' else if r = 9 then CHR 0x5C # ''t''
      else if r = 11 then CHR 0x5C # ''v''
      else if r < 32 \<or> r = 127 then CHR 0x5C # ''x'' @ hex_of 2 r
      else if r < 65536 then CHR 0x5C # ''u'' @ hex_of 4 r else CHR 0x5C # ''U'' @ hex_of 8 r)"

definition go_quote :: "(nat \<Rightarrow> bool) \<Rightarrow> string \<Rightarrow> string" where
  "go_quote printable s = CHR 0x22 # concat (map (quote_chunk printable) (utf8_chunks s)) @ [CHR 0x22]"

definition escape_label :: "string \<Rightarrow> string" where
  "escape_label v = concat (map (\<lambda>c. if c = CHR 0x5C then [CHR 0x5C, CHR 0x5C] else if c = CHR 0x0A then CHR 0x5C # ''n''
     else if c = CHR 0x22 then [CHR 0x5C, CHR 0x22] else [c]) v)"

definition render_labels :: "(nat \<Rightarrow> bool) \<Rightarrow> string list \<Rightarrow> string list \<Rightarrow> string" where
  "render_labels printable ks vs =
     (if ks = [] then []
      else ''{'' @ join_str '','' (map (\<lambda>(i, k). k @ ''='' @ go_quote printable (escape_label (if i < length vs then vs ! i else []))) (enumerate 0 ks)) @ ''}'')"

definition with_label :: "(nat \<Rightarrow> bool) \<Rightarrow> string list \<Rightarrow> string list \<Rightarrow> string \<Rightarrow> string \<Rightarrow> string" where
  "with_label printable ks vs k v = render_labels printable (ks @ [k]) (vs @ [v])"

text \<open>\<open>strconv.FormatFloat(x, 'g', -1, 64)\<close>: the exponent form below 0.0001 and from 1e6 on is
  taken by the decimal exponent.\<close>

definition format_float_g :: "rat \<Rightarrow> string" where
  "format_float_g x =
     (if x = 0 then ''0''
      else let (c, e) = first_candidate \<bar>x\<bar> [1..<18]; ds = nat_dec c; p = e + int (length ds) - 1;
               sd = rev (dropWhile (\<lambda>d. d = CHR ''0'') (rev ds)); ex = nat_dec (nat \<bar>p\<bar>)
           in if p < - 4 \<or> 6 \<le> p
              then (if x < 0 then ''-'' else []) @ take 1 sd @ (if length sd = 1 then [] else ''.'' @ drop 1 sd)
                   @ ''e'' @ (if p < 0 then ''-'' else ''+'') @ (if length ex = 1 then ''0'' @ ex else ex)
              else format_float_f x)"

definition metric_line :: "string \<Rightarrow> string \<Rightarrow> string \<Rightarrow> string" where
  "metric_line name labels val = name @ labels @ '' '' @ val @ newline"

definition write_hist :: "(nat \<Rightarrow> bool) \<Rightarrow> metric_family \<Rightarrow> string list \<Rightarrow> metric_hist \<Rightarrow> string" where
  "write_hist printable f vs h =
     concat (map (\<lambda>(b, n). metric_line (mt_name f @ ''_bucket'') (with_label printable (mt_keys f) vs ''le'' (format_float_g b)) (nat_dec (unat n)))
       (zip (mt_buckets f) (mh_counts h)))
     @ metric_line (mt_name f @ ''_bucket'') (with_label printable (mt_keys f) vs ''le'' ''+Inf'') (nat_dec (unat (mh_total h)))
     @ metric_line (mt_name f @ ''_sum'') (render_labels printable (mt_keys f) vs) (format_float_g (mh_sum h))
     @ metric_line (mt_name f @ ''_count'') (render_labels printable (mt_keys f) vs) (nat_dec (unat (mh_total h)))"

definition write_series :: "(nat \<Rightarrow> bool) \<Rightarrow> metric_family \<Rightarrow> string \<Rightarrow> string" where
  "write_series printable f sg =
     (let vs = (case map_of (mt_labels f) sg of None \<Rightarrow> [] | Some x \<Rightarrow> x); lbl = render_labels printable (mt_keys f) vs in
      if mt_typ f = ''counter'' then (case map_of (mt_counters f) sg of None \<Rightarrow> [] | Some n \<Rightarrow> metric_line (mt_name f) lbl (nat_dec (unat n)))
      else if mt_typ f = ''gauge'' then (case map_of (mt_gauges f) sg of None \<Rightarrow> [] | Some n \<Rightarrow> metric_line (mt_name f) lbl (itoa (sint n)))
      else if mt_typ f = ''histogram'' then (case map_of (mt_hists f) sg of None \<Rightarrow> [] | Some h \<Rightarrow> write_hist printable f vs h)
      else [])"

definition write_family :: "(nat \<Rightarrow> bool) \<Rightarrow> metric_family \<Rightarrow> string" where
  "write_family printable f =
     ''# HELP '' @ mt_name f @ '' '' @ mt_help f @ newline @ ''# TYPE '' @ mt_name f @ '' '' @ mt_typ f @ newline
     @ concat (map (write_series printable f) (sort (map fst (mt_labels f))))"

definition write_metrics :: "(nat \<Rightarrow> bool) \<Rightarrow> metrics \<Rightarrow> string" where
  "write_metrics printable reg = concat (map (\<lambda>n. case map_of reg n of None \<Rightarrow> [] | Some f \<Rightarrow> write_family printable f) (sort (map fst reg)))"

section \<open>What is counted\<close>

definition counter_of :: "metrics \<Rightarrow> instrument \<Rightarrow> word64 option" where
  "counter_of reg c = Option.bind (map_of reg (fst c)) (\<lambda>f. map_of (mt_counters f) (snd c))"

definition hist_of :: "metrics \<Rightarrow> instrument \<Rightarrow> (rat list \<times> metric_hist) option" where
  "hist_of reg c = Option.bind (map_of reg (fst c)) (\<lambda>f. map_option (Pair (mt_buckets f)) (map_of (mt_hists f) (snd c)))"

definition counted :: "metrics \<Rightarrow> instrument \<Rightarrow> word64" where
  "counted reg c = (case counter_of reg c of None \<Rightarrow> 0 | Some n \<Rightarrow> n)"

definition event_class :: "access_event \<Rightarrow> string" where
  "event_class e = status_class (if av_status e = 0 then 200 else av_status e)"

text \<open>The histogram of a list of durations.\<close>

definition hist_spec :: "rat list \<Rightarrow> rat list \<Rightarrow> metric_hist" where
  "hist_spec buckets vs =
     \<lparr>mh_counts = map (\<lambda>b. of_nat (length (filter (\<lambda>v. v \<le> b) vs))) buckets, mh_sum = foldl (\<lambda>s v. rnd (s + v)) 0 vs,
      mh_total = of_nat (length vs)\<rparr>"

lemma counted_new: "counted (snd (new_counter name help ks vs reg)) c = counted reg c"
  by (auto simp: counted_def counter_of_def new_counter_def metric_family_of_def Let_def split: option.splits)

lemma counter_new: "counter_of (snd (new_counter name help ks vs reg)) (name, signature vs) \<noteq> None"
  by (auto simp: counter_of_def new_counter_def metric_family_of_def Let_def split: option.splits)

lemma hist_new_counter: "hist_of (snd (new_counter name help ks vs reg)) c = hist_of reg c"
  by (auto simp: hist_of_def new_counter_def metric_family_of_def Let_def split: option.splits)

lemma counted_add: "counter_of reg c \<noteq> None \<Longrightarrow> counted (counter_add n c reg) c' = (if c = c' then counted reg c + n else counted reg c')"
  by (cases c; cases c') (auto simp: counted_def counter_of_def counter_add_def split: option.splits)

lemma hist_add: "hist_of (counter_add n c reg) c' = hist_of reg c'"
  by (auto simp: hist_of_def counter_add_def split: option.splits)

lemma counted_observe: "counted (observe v c reg) c' = counted reg c'"
  by (auto simp: counted_def counter_of_def observe_def split: option.splits)

lemma hist_observe: "hist_of (observe v c reg) c' =
    (if c = c' then map_option (\<lambda>(b, h). (b, observe_hist b v h)) (hist_of reg c') else hist_of reg c')"
  by (cases c; cases c') (auto simp: hist_of_def observe_def split: option.splits)

lemma hist_new: "hist_of (snd (new_histogram name help buckets ks vs reg)) c =
    (if c = (name, signature vs) \<and> hist_of reg c = None
     then (let f = metric_family_of reg name help ''histogram'' ks (if buckets = [] then default_buckets else buckets)
           in Some (mt_buckets f, hist_spec (mt_buckets f) []))
     else hist_of reg c)"
  by (cases c) (auto simp: hist_of_def new_histogram_def metric_family_of_def Let_def hist_spec_def map_replicate_const split: option.splits)

lemma observe_spec: "observe_hist b v (hist_spec b vs) = hist_spec b (vs @ [v])"
proof -
  have "map (\<lambda>(x, n). if v \<le> x then n + 1 else n) (zip b (map (\<lambda>x. of_nat (length (filter (\<lambda>v. v \<le> x) vs))) b)) =
      map (\<lambda>x. of_nat (length (filter (\<lambda>v. v \<le> x) (vs @ [v]))) :: word64) b"
    by (induction b) simp_all
  thus ?thesis by (simp add: observe_hist_def hist_spec_def)
qed

lemma signature_inj: "\<forall>x\<in>set xs \<union> set ys. CHR 0x00 \<notin> set x \<Longrightarrow> xs \<noteq> [] \<Longrightarrow> ys \<noteq> [] \<Longrightarrow> signature xs = signature ys \<longleftrightarrow> xs = ys"
  unfolding signature_def by (metis UnCI split_join)

lemma class_no_nul: "CHR 0x00 \<notin> set (status_class s)"
  by (simp add: status_class_def)

lemma log_event_counted:
  "counted (log_event e reg) c = counted reg c + (if c = (requests_name, signature [av_route e, av_method e, event_class e]) then 1 else 0)"
proof -
  obtain rq r where n: "new_counter requests_name ''Total HTTP requests handled.'' [''route'', ''method'', ''status'']
      [av_route e, av_method e, event_class e] reg = (rq, r)" by (rule prod.exhaust)
  have rq: "rq = (requests_name, signature [av_route e, av_method e, event_class e])" using n by (simp add: new_counter_def Let_def)
  have "counter_of r rq \<noteq> None" "counted r c = counted reg c"
    using counter_new[of requests_name "''Total HTTP requests handled.''" "[''route'', ''method'', ''status'']" "[av_route e, av_method e, event_class e]" reg]
      counted_new[of requests_name "''Total HTTP requests handled.''" "[''route'', ''method'', ''status'']" "[av_route e, av_method e, event_class e]" reg c]
    by (simp_all add: n rq)
  thus ?thesis using n rq by (simp add: log_event_def access_logged_def event_class_def[symmetric] Let_def counter_inc_def counted_observe counted_add)
qed

lemma log_event_hist:
  "hist_of (log_event e reg) c = (if c = (latency_name, signature [av_route e])
     then map_option (\<lambda>(b, h). (b, observe_hist b (dur_seconds (av_elapsed e)) h)) (hist_of reg c) else hist_of reg c)"
proof -
  obtain rq r where n: "new_counter requests_name ''Total HTTP requests handled.'' [''route'', ''method'', ''status'']
      [av_route e, av_method e, event_class e] reg = (rq, r)" by (rule prod.exhaust)
  have "hist_of r x = hist_of reg x" for x
    using hist_new_counter[of requests_name "''Total HTTP requests handled.''" "[''route'', ''method'', ''status'']" "[av_route e, av_method e, event_class e]" reg x]
    by (simp add: n)
  thus ?thesis using n by (auto simp: log_event_def access_logged_def event_class_def[symmetric] Let_def counter_inc_def hist_observe hist_add)
qed

text \<open>The text of a label is escaped twice, once for the format and once more by \<open>%q\<close>, so the
  scraper reads another value than was recorded.\<close>

lemma label_escaped_twice:
  "render_labels p [''route''] [[CHR 0x22]] = ''{route='' @ [CHR 0x22, CHR 0x5C, CHR 0x5C, CHR 0x5C, CHR 0x22, CHR 0x22] @ ''}''"
  by (simp add: render_labels_def escape_label_def go_quote_def quote_chunk_def) code_simp

text \<open>The metrics say what happened.  After any sequence of requests, in any interleaving of the
  two routes, the counter of a route, method and status class holds the number of such requests,
  and the histogram of a route is the one of its requests' durations: each bucket the number
  of those no longer than its bound, all in 64 bits.\<close>
theorem traffic_counted:
  assumes "\<forall>e\<in>set es. av_route e \<in> {''mcp'', ''web''} \<and> CHR 0x00 \<notin> set (av_method e)" "r \<in> {''mcp'', ''web''}" "CHR 0x00 \<notin> set m" "CHR 0x00 \<notin> set c"
  shows "counted (traffic es) (requests_name, signature [r, m, c]) =
      of_nat (length (filter (\<lambda>e. av_route e = r \<and> av_method e = m \<and> event_class e = c) es)) \<and>
    hist_of (traffic es) (latency_name, signature [r]) =
      Some (default_buckets, hist_spec default_buckets (map (\<lambda>e. dur_seconds (av_elapsed e)) (filter (\<lambda>e. av_route e = r) es)))"
  using assms(1)
proof (induction es rule: rev_induct)
  case Nil
  have "counted mounted x = 0" for x
    by (simp add: mounted_def access_log_def new_histogram_def metric_family_of_def new_metrics_def counted_def counter_of_def Let_def)
  moreover have "hist_of mounted (latency_name, signature [r]) = Some (default_buckets, hist_spec default_buckets [])"
    using assms(2) by (auto simp: mounted_def access_log_def hist_new metric_family_of_def new_metrics_def hist_of_def Let_def new_histogram_def signature_def hist_spec_def map_replicate_const)
  ultimately show ?case by (simp add: traffic_def)
next
  case (snoc e es)
  have e: "av_route e \<in> {''mcp'', ''web''}" "CHR 0x00 \<notin> set (av_method e)" using snoc.prems by simp_all
  have nul: "CHR 0x00 \<notin> set (event_class e)" by (simp add: event_class_def class_no_nul)
  have "signature [r, m, c] = signature [av_route e, av_method e, event_class e] \<longleftrightarrow> r = av_route e \<and> m = av_method e \<and> c = event_class e"
    using e assms(2,3,4) nul by (subst signature_inj) auto
  moreover have "signature [r] = signature [av_route e] \<longleftrightarrow> r = av_route e" by (simp add: signature_def)
  ultimately show ?case using snoc
    by (auto simp: traffic_def log_event_counted log_event_hist observe_spec)
qed

definition demo_traffic :: "access_event list" where
  "demo_traffic = [\<lparr>av_route = ''mcp'', av_method = ''POST'', av_status = 200, av_elapsed = 2000000\<rparr>,
     \<lparr>av_route = ''web'', av_method = ''GET'', av_status = 302, av_elapsed = 1000\<rparr>,
     \<lparr>av_route = ''mcp'', av_method = ''POST'', av_status = 0, av_elapsed = 40000000000\<rparr>]"

lemma traffic_counted_witness: "counted (traffic demo_traffic) (requests_name, signature [''mcp'', ''POST'', ''2xx'']) = 2"
  using traffic_counted[of demo_traffic "''mcp''" "''POST''" "''2xx''"]
  by (simp add: demo_traffic_def event_class_def status_class_def)

end
