(* ===== verification/Middleware.thy ===== *)
theory Middleware
  imports Router Metrics
begin

text \<open>
  The layers of \<open>internal/httpx/middleware.go\<close> around a handler that may panic: a handler is the
  list of what it does to its response writer, how it ends, and what it does to the state; a
  middleware transforms handlers.  The writer is that of \<open>net/http\<close>, which sends the headers as
  they are at the first write and ignores a second status.
\<close>

section \<open>The response writer\<close>

datatype response_action = EditHeader "header \<Rightarrow> header" | WriteHeader int | WriteBody string | FlushNow

datatype handler_end = Returned | Panicked | Aborted

record wire =
  wi_header :: header
  wi_sent :: "(int \<times> header) option"
  wi_body :: string

definition send_status :: "int \<Rightarrow> wire \<Rightarrow> wire" where
  "send_status s w = (if wi_sent w = None then w\<lparr>wi_sent := Some (s, wi_header w)\<rparr> else w)"

text \<open>A status between 100 and 199, except 101, is sent at once and is not the final one.\<close>

definition informational :: "int \<Rightarrow> bool" where "informational s = (100 \<le> s \<and> s \<le> 199 \<and> s \<noteq> 101)"

fun on_wire :: "response_action \<Rightarrow> wire \<Rightarrow> wire" where
  "on_wire (EditHeader f) w = w\<lparr>wi_header := f (wi_header w)\<rparr>"
| "on_wire (WriteHeader s) w = (if informational s then w else send_status s w)"
| "on_wire (WriteBody b) w = (let w1 = send_status 200 w in w1\<lparr>wi_body := wi_body w1 @ b\<rparr>)"
| "on_wire FlushNow w = send_status 200 w"

definition on_writer :: "response_action list \<Rightarrow> wire \<Rightarrow> wire" where "on_writer as = List.fold on_wire as"

definition fresh_wire :: wire where "fresh_wire = \<lparr>wi_header = [], wi_sent = None, wi_body = []\<rparr>"

text \<open>What the client gets when the handler has returned.\<close>

definition delivered :: "response_action list \<Rightarrow> mcp_reply" where
  "delivered as =
     (let w = on_writer as fresh_wire; (s, h) = (case wi_sent w of None \<Rightarrow> (200, wi_header w) | Some sh \<Rightarrow> sh)
      in \<lparr>hp_status = s, hp_headers = h, hp_body = wi_body w\<rparr>)"

section \<open>The recorder\<close>

record response_recorder =
  rc_status :: int
  rc_bytes :: nat

definition default_status :: "response_recorder \<Rightarrow> response_recorder" where
  "default_status r = (if rc_status r = 0 then r\<lparr>rc_status := 200\<rparr> else r)"

text \<open>What \<open>responseRecorder\<close> forwards of an action.\<close>

fun recorder_step :: "response_action \<Rightarrow> response_recorder \<Rightarrow> response_action list \<times> response_recorder" where
  "recorder_step (WriteHeader s) r = (if rc_status r = 0 then ([WriteHeader s], r\<lparr>rc_status := s\<rparr>) else ([], r))"
| "recorder_step (WriteBody b) r = (let r1 = default_status r in ([WriteBody b], r1\<lparr>rc_bytes := rc_bytes r1 + length b\<rparr>))"
| "recorder_step FlushNow r = ([FlushNow], default_status r)"
| "recorder_step (EditHeader f) r = ([EditHeader f], r)"

fun recorder_run :: "response_action list \<Rightarrow> response_recorder \<Rightarrow> response_action list \<times> response_recorder" where
  "recorder_run [] r = ([], r)"
| "recorder_run (a # as) r = (let (f, r1) = recorder_step a r; (fs, r2) = recorder_run as r1 in (f @ fs, r2))"

definition new_recorder :: response_recorder where "new_recorder = \<lparr>rc_status = 0, rc_bytes = 0\<rparr>"

section \<open>The layers\<close>

type_synonym 's handler = "inbound \<Rightarrow> metrics \<times> 's \<Rightarrow> response_action list \<times> handler_end \<times> (metrics \<times> 's)"

definition chain :: "('s handler \<Rightarrow> 's handler) list \<Rightarrow> 's handler \<Rightarrow> 's handler" where
  "chain ms h = foldr (\<lambda>m. m) ms h"

definition error_actions :: "int \<Rightarrow> string \<Rightarrow> response_action list" where
  "error_actions status m =
     [EditHeader (kv_del (canonical_key ''Content-Length'')),
      EditHeader (header_set ''Content-Type'' ''text/plain; charset=utf-8''), EditHeader (header_set ''X-Content-Type-Options'' ''nosniff''),
      WriteHeader status, WriteBody (m @ newline)]"

definition request_context :: "string \<Rightarrow> 's handler \<Rightarrow> 's handler" where
  "request_context idBytes h r st =
     (let (as, e, st1) = h r st in (EditHeader (header_set ''X-Request-Id'' (request_id idBytes r)) # as, e, st1))"

definition recover :: "'s handler \<Rightarrow> 's handler" where
  "recover h r st =
     (let (as, e, st1) = h r st in
      if e = Panicked then (as @ error_actions 500 ''internal server error'', Returned, st1) else (as, e, st1))"

definition security_layer :: "string option \<Rightarrow> bool \<Rightarrow> 's handler \<Rightarrow> 's handler" where
  "security_layer nonce hsts h r st =
     (case nonce of
        None \<Rightarrow> (error_actions 500 ''internal server error'', Returned, st)
      | Some n \<Rightarrow> (let (as, e, st1) = h r st in (EditHeader (security_headers n hsts) # as, e, st1)))"

text \<open>The line and the counters come after the handler has returned, and only then.\<close>

definition access_layer :: "string \<Rightarrow> int \<Rightarrow> 's handler \<Rightarrow> 's handler" where
  "access_layer route elapsed h r st =
     (let (as, e, mx, s) = h r st; (fs, rc) = recorder_run as new_recorder in
      (fs, e, (if e = Returned then access_logged route (latency_name, signature [route]) (ib_method r) (rc_status rc) elapsed mx else mx), s))"

definition root_chain :: "string \<Rightarrow> string option \<Rightarrow> bool \<Rightarrow> 's handler \<Rightarrow> 's handler" where
  "root_chain idBytes nonce hsts = chain [request_context idBytes, recover, security_layer nonce hsts]"

text \<open>\<open>GET /metrics\<close>.\<close>

definition metrics_probe :: "(nat \<Rightarrow> bool) \<Rightarrow> 's handler" where
  "metrics_probe shown r st =
     ([EditHeader (header_set ''Content-Type'' ''text/plain; version=0.0.4; charset=utf-8''), WriteBody (write_metrics shown (fst st))], Returned, st)"

section \<open>The recorder changes nothing\<close>

text \<open>Whatever a handler does with final statuses, the client gets what it would get without the
  recorder, and the recorder knows its status and size.\<close>

definition final_statuses :: "response_action list \<Rightarrow> bool" where
  "final_statuses as = list_all (\<lambda>a. case a of WriteHeader s \<Rightarrow> \<not> informational s \<and> s \<noteq> 0 | _ \<Rightarrow> True) as"

definition in_step :: "response_recorder \<Rightarrow> wire \<Rightarrow> bool" where
  "in_step rc w \<longleftrightarrow> (case wi_sent w of None \<Rightarrow> rc_status rc = 0 | Some (s, h) \<Rightarrow> rc_status rc = s \<and> s \<noteq> 0) \<and> rc_bytes rc = length (wi_body w)"

lemma recorder_run_transparent:
  "final_statuses as \<Longrightarrow> in_step rc w \<Longrightarrow>
   on_writer (fst (recorder_run as rc)) w = on_writer as w \<and> in_step (snd (recorder_run as rc)) (on_writer as w)"
proof (induction as arbitrary: rc w)
  case (Cons a as)
  obtain f rc1 where s: "recorder_step a rc = (f, rc1)" by (rule prod.exhaust)
  have 1: "on_writer f w = on_wire a w" "in_step rc1 (on_wire a w)"
    using Cons.prems s by (cases a; auto simp: on_writer_def in_step_def final_statuses_def send_status_def default_status_def Let_def split: option.splits if_splits)+
  obtain fs rc2 where r: "recorder_run as rc1 = (fs, rc2)" by (rule prod.exhaust)
  have "final_statuses as" using Cons.prems(1) by (simp add: final_statuses_def)
  from Cons.IH[OF this 1(2)] 1(1) show ?case by (simp add: s r on_writer_def)
qed (simp add: on_writer_def)

lemma recorder_transparent:
  assumes "final_statuses as" "recorder_run as new_recorder = (fs, rc)"
  shows "delivered fs = delivered as" "(if rc_status rc = 0 then 200 else rc_status rc) = hp_status (delivered as)" "rc_bytes rc = length (hp_body (delivered as))"
proof -
  have "in_step new_recorder fresh_wire" by (simp add: in_step_def new_recorder_def fresh_wire_def)
  from recorder_run_transparent[OF assms(1) this] assms(2)
  have "on_writer fs fresh_wire = on_writer as fresh_wire" "in_step rc (on_writer as fresh_wire)" by simp_all
  thus "delivered fs = delivered as" "(if rc_status rc = 0 then 200 else rc_status rc) = hp_status (delivered as)" "rc_bytes rc = length (hp_body (delivered as))"
    by (auto simp: delivered_def in_step_def Let_def split: option.splits)
qed

section \<open>Panics\<close>

definition silent :: "response_action list \<Rightarrow> bool" where
  "silent as = list_all (\<lambda>a. case a of EditHeader f \<Rightarrow> True | WriteHeader s \<Rightarrow> informational s | _ \<Rightarrow> False) as"

lemma on_writer_append: "on_writer (xs @ ys) w = on_writer ys (on_writer xs w)"
  by (simp add: on_writer_def)

lemma silent_wire: "silent as \<Longrightarrow> wi_sent (on_writer as w) = wi_sent w \<and> wi_body (on_writer as w) = wi_body w"
proof (induction as arbitrary: w)
  case (Cons a as)
  thus ?case by (cases a) (auto simp: on_writer_def silent_def)
qed (simp add: on_writer_def)

lemma sent_kept: "wi_sent w = Some sh \<Longrightarrow> wi_sent (on_writer as w) = Some sh"
proof (induction as arbitrary: w)
  case (Cons a as)
  have "wi_sent (on_wire a w) = Some sh" using Cons.prems by (cases a) (auto simp: send_status_def Let_def)
  thus ?case using Cons.IH by (simp add: on_writer_def)
qed (simp add: on_writer_def)

lemma silent_or_sent: "wi_sent w = None \<Longrightarrow> silent as \<longleftrightarrow> wi_sent (on_writer as w) = None"
proof (induction as arbitrary: w)
  case (Cons a as)
  show ?case
  proof (cases "silent [a]")
    case True
    hence "wi_sent (on_wire a w) = None" using Cons.prems by (cases a) (auto simp: silent_def)
    thus ?thesis using Cons.IH[of "on_wire a w"] True by (simp add: silent_def on_writer_def)
  next
    case False
    hence "wi_sent (on_wire a w) \<noteq> None" using Cons.prems by (cases a) (auto simp: silent_def send_status_def Let_def)
    thus ?thesis using sent_kept False by (auto simp: silent_def on_writer_def)
  qed
qed (simp add: on_writer_def silent_def)

text \<open>No panic leaves the outermost chain.  One before the first byte becomes a plain 500, one
  after it leaves status and headers as they were sent and adds a line to the body; and a
  handler that does not panic is not touched.\<close>
theorem panic_contained:
  assumes "root_chain idBytes (Some nonce) hsts h r st = (as, e, st')" "h r st = (hs, he, st1)"
  shows "e \<noteq> Panicked \<and> st' = st1 \<and> (he \<noteq> Panicked \<longrightarrow> e = he) \<and>
    (he = Panicked \<and> silent hs \<longrightarrow> hp_status (delivered as) = 500 \<and> hp_body (delivered as) = ''internal server error'' @ newline) \<and>
    (he = Panicked \<and> \<not> silent hs \<longrightarrow> hp_status (delivered as) = hp_status (delivered (take (length hs + 2) as)) \<and>
       hp_headers (delivered as) = hp_headers (delivered (take (length hs + 2) as)) \<and>
       hp_body (delivered as) = hp_body (delivered (take (length hs + 2) as)) @ ''internal server error'' @ newline)"
proof -
  let ?pre = "EditHeader (header_set ''X-Request-Id'' (request_id idBytes r)) # EditHeader (security_headers nonce hsts) # hs"
  have as: "as = ?pre @ (if he = Panicked then error_actions 500 ''internal server error'' else [])" "st' = st1" "e = (if he = Panicked then Returned else he)"
    using assms by (auto simp: root_chain_def chain_def request_context_def recover_def security_layer_def split: if_splits)
  have sil: "silent ?pre = silent hs" by (simp add: silent_def)
  have tk: "he = Panicked \<Longrightarrow> take (length hs + 2) as = ?pre" using as(1) by simp
  let ?w = "on_writer ?pre fresh_wire"
  have none: "wi_sent fresh_wire = None" "wi_body fresh_wire = []" by (simp_all add: fresh_wire_def)
  have err: "wi_sent (on_writer (error_actions 500 m) w) = (case wi_sent w of None \<Rightarrow> Some (500, hp_headers (http_error 500 m (kv_del (canonical_key ''Content-Length'') (wi_header w)))) | Some sh \<Rightarrow> Some sh) \<and>
      wi_body (on_writer (error_actions 500 m) w) = wi_body w @ m @ newline" for m w
    by (auto simp: error_actions_def on_writer_def send_status_def informational_def http_error_def Let_def split: option.splits)
  have "hp_status (delivered as) = 500 \<and> hp_body (delivered as) = ''internal server error'' @ newline" if "he = Panicked" "silent hs"
  proof -
    have w: "wi_sent ?w = None" "wi_body ?w = []" using silent_wire[of ?pre fresh_wire] that(2) sil none by simp_all
    thus ?thesis using err[of "''internal server error''" ?w] that(1) by (simp add: delivered_def as(1) on_writer_append del: append_Cons)
  qed
  moreover have "hp_status (delivered as) = hp_status (delivered ?pre) \<and> hp_headers (delivered as) = hp_headers (delivered ?pre) \<and>
      hp_body (delivered as) = hp_body (delivered ?pre) @ ''internal server error'' @ newline" if c: "he = Panicked" "\<not> silent hs"
  proof -
    obtain sh where "wi_sent ?w = Some sh" using silent_or_sent[OF none(1), of ?pre] c(2) sil by auto
    thus ?thesis using err[of "''internal server error''" ?w] c(1) by (simp add: delivered_def as(1) on_writer_append Let_def del: append_Cons split: prod.splits)
  qed
  ultimately show ?thesis using as(2,3) tk by auto
qed

text \<open>A request whose handler panics is neither logged nor counted: the access log is inside the
  recovery and does its work after the call, not in a deferred function.\<close>

lemma panics_not_counted:
  "h r (mx, s) = (as, Panicked, mx1, s1) \<Longrightarrow> snd (snd (recover (access_layer route elapsed h) r (mx, s))) = (mx1, s1)"
  by (simp add: access_layer_def recover_def Let_def split: prod.splits)

text \<open>A request that returns is counted once under the status the client sees.\<close>

lemma returned_counted:
  assumes "h r (mx, s) = (as, Returned, mx1, s1)" "final_statuses as"
  shows "fst (snd (snd (access_layer route elapsed h r (mx, s)))) =
      log_event \<lparr>av_route = route, av_method = ib_method r, av_status = hp_status (delivered as), av_elapsed = elapsed\<rparr> mx1"
proof -
  obtain fs rc where r: "recorder_run as new_recorder = (fs, rc)" by (rule prod.exhaust)
  note t = recorder_transparent(2)[OF assms(2) r]
  hence "hp_status (delivered as) \<noteq> 0" by (metis zero_neq_numeral)
  thus ?thesis using assms(1) r t by (auto simp: access_layer_def log_event_def access_logged_def Let_def split: if_splits)
qed

end
