(* ===== verification/Spec2Isabelle.thy ===== *)
theory Spec2Isabelle
  imports WebSecrets Crawlers Startup Middleware
begin

text \<open>
  A verification development of MCPaw, a platform that turns ordinary HTTP APIs into MCP
  servers.  This theory only joins the others; every property is a theorem that a text block
  with its identifier precedes.

  \<^bold>\<open>The program.\<close>  A connector is a YAML manifest that describes an upstream API; it is
  compiled once (\<open>internal/connector\<close>) and kept in a registry in step with the database
  (\<open>internal/service/connector.go\<close>).  An administrator makes instances of it in the web
  interface (\<open>internal/webui\<close>), with variables, sealed secrets and switches for the tools
  (\<open>internal/service/instance.go\<close>, \<open>internal/secrets\<close>, \<open>internal/store/sqlitestore\<close>).  A client
  with a bearer token posts JSON-RPC to the endpoint of an instance (\<open>internal/httpapi\<close>,
  \<open>internal/httpx\<close>, \<open>internal/mcp\<close>); a tool call goes through the backend
  (\<open>internal/service/mcpbackend.go\<close>) to the engine (\<open>internal/engine\<close>), which renders the
  request from templates (\<open>internal/tmpl\<close>), passes the rate limiter, the circuit breaker and the
  concurrency gate, and sends it with a client that refuses private addresses
  (\<open>internal/upstream\<close>).  An indexer crawls an upstream with the same engine, cuts the texts into
  chunks, embeds and searches them (\<open>internal/index\<close>, \<open>internal/service/index.go\<close>).  Calls are
  audited, logged in a file of bounded size (\<open>internal/usage\<close>) and counted
  (\<open>internal/platform/metrics\<close>).  \<open>cmd/mcpaw\<close> puts the parts together.

  \<^bold>\<open>Which theory models what.\<close>
    \<^item> Go and its standard library, as far as the code uses them: \<open>Prelude\<close> (results, maps,
      collections of facts), \<open>GoStr\<close>, \<open>Utf8\<close>, \<open>Base64\<close>, \<open>GoTime\<close>, \<open>GoValue\<close> (\<open>float64\<close> and dynamic
      values), \<open>Json\<close>, \<open>JsonEnc\<close>, \<open>JsonStruct\<close> (decoding, encoding, structs), \<open>Url\<close>, \<open>Mime\<close>.
    \<^item> Entities: \<open>Domain\<close> (\<open>internal/domain\<close>).
    \<^item> Connectors: \<open>Tmpl\<close> (\<open>internal/tmpl\<close>), \<open>Manifest\<close>, \<open>Compile\<close>, \<open>Registry\<close>
      (\<open>internal/connector\<close>).
    \<^item> Going out: \<open>Ssrf\<close>, \<open>Client\<close>, \<open>Limiter\<close>, \<open>Gate\<close>, \<open>Breaker\<close> (\<open>internal/upstream\<close>);
      \<open>Request\<close>, \<open>Response\<close>, \<open>Executor\<close> (\<open>internal/engine\<close>).
    \<^item> State at rest: \<open>Secrets\<close> (\<open>internal/secrets\<close>), \<open>Store\<close> and \<open>IndexStore\<close>
      (\<open>internal/store/sqlitestore\<close>), \<open>Usage\<close> (\<open>internal/usage\<close>).
    \<^item> Services: \<open>Accounts\<close> (audit, sessions, tokens, users), \<open>Platform\<close> (the shared state and
      the connector service), \<open>Instances\<close>, \<open>Indexer\<close> and \<open>IndexLaws\<close>, \<open>McpBackend\<close>
      (\<open>internal/service\<close>).
    \<^item> Index: \<open>Chunk\<close>, \<open>Rank\<close>, \<open>Embedder\<close>, \<open>HtmlText\<close>, \<open>Crawlers\<close> (\<open>internal/index\<close> and the three
      packages of \<open>internal/index/source\<close>).
    \<^item> Protocol: \<open>McpProtocol\<close>, \<open>McpServer\<close>, \<open>McpSession\<close>, \<open>McpHttp\<close> (\<open>internal/mcp\<close>).
    \<^item> Coming in: \<open>Auth\<close>, \<open>Middleware\<close> (\<open>internal/httpx\<close>), \<open>Router\<close> (\<open>internal/httpapi\<close>), \<open>Web\<close>,
      \<open>WebHandlers\<close>, \<open>WebRoutes\<close>, \<open>WebSecrets\<close> (\<open>internal/webui\<close> and its routes).
    \<^item> The process: \<open>Metrics\<close> (\<open>internal/platform/metrics\<close>), \<open>Startup\<close> (\<open>cmd/mcpaw\<close>,
      \<open>internal/platform/config\<close>, migrations, logging).

  \<^bold>\<open>How it is modelled.\<close>  A Go string or byte slice is a list of bytes (\<open>string\<close>), an \<open>error\<close>
  result is \<open>Inl\<close>, a map an association list with the order of its keys as state where the code
  ranges over it, an instant a number of nanoseconds.  Words are used where addresses or 64-bit
  counters are meant, \<open>float64\<close> and \<open>float32\<close> are rationals with explicit rounding.  A repository
  method is a statement on the record \<open>db\<close> that may fail: \<open>db_faults\<close> says for each statement to
  come whether it does, so every theorem holds for any pattern of failures.  The services are
  chains of operations on the record \<open>platform\<close> (database, registry, cache, engine); the indexer,
  the backend and the interface extend that state (\<open>indexer\<close>, \<open>system\<close>, \<open>web\<close>).  What other
  requests do between two steps of one is an argument wherever the code holds no lock; state
  machines whose interleavings matter (the gate, MCP sessions, the platform, the interface) are
  inductive step relations with invariants over all reachable states.  A goroutine is a pending
  job that runs as one step, a crawler a tree of calls and emitted documents, a handler that may
  panic a list of actions with its ending.

  \<^bold>\<open>Interfaces.\<close>  The locales are the ports between parts: \<open>rate_limiter\<close> (interpreted on the
  memory limiter), \<open>tool_backend\<close> (on the platform's backend), \<open>run_preorder\<close> and
  \<open>index_writer\<close> (what a run keeps of the rest of the system; on the indexer's operations) and
  \<open>paged_source\<close> (on the crawlers of Zotero and Linkding).

  \<^bold>\<open>What the lemmas show.\<close>
    \<^item> Confinement of requests: an argument cannot leave its path segment, its header or its
      template position; redirects stay on the host; every address that is dialled is allowed
      (\<open>Tmpl\<close>, \<open>Request\<close>, \<open>Client\<close>, \<open>Ssrf\<close>).
    \<^item> Control of load: bursts, slots, the breaker's machine and which outcomes move it, and that
      an error tells how far a call went (\<open>Limiter\<close>, \<open>Gate\<close>, \<open>Breaker\<close>, \<open>Executor\<close>).
    \<^item> Authority: who reaches the tools, who changes what in the interface, which cookies and
      tokens are good, how many sign-in attempts pass (\<open>Router\<close>, \<open>WebRoutes\<close>, \<open>WebSecrets\<close>,
      \<open>Accounts\<close>, \<open>Auth\<close>, \<open>McpHttp\<close>, \<open>McpSession\<close>).
    \<^item> Configuration: manifests that compile are well formed, the registry and the tables agree,
      instances stay within their limits, commands take effect at the next call, secrets arrive
      as they were set, a restart loses none (\<open>Compile\<close>, \<open>Registry\<close>, \<open>Platform\<close>, \<open>Instances\<close>,
      \<open>Secrets\<close>, \<open>Startup\<close>).
    \<^item> Index: chunks cover the text, crawls are complete or say so, a run touches its own instance
      and ends, a search shows nothing of another instance (\<open>Chunk\<close>, \<open>Crawlers\<close>, \<open>IndexLaws\<close>).
    \<^item> Protocol and records: one response per request, opaque errors, complete audit and usage
      log, pruning to the cap, metrics that count (\<open>McpServer\<close>, \<open>McpBackend\<close>, \<open>Usage\<close>,
      \<open>Metrics\<close>, \<open>Middleware\<close>).
    \<^item> Round trips and laws of the formats: templates, Base64, UTF-8, URLs, JSON, the key file.
  Where the code does not do what it says, a lemma shows it on an instance:
  \<open>zoned_address_unchecked\<close>, \<open>half_open_admits_all\<close>, \<open>full_breaker_never_opens\<close>,
  \<open>compile_reference_gaps\<close>, \<open>request_segment_gaps\<close>, \<open>redirect_downgrade_followed\<close>,
  \<open>strip_panics\<close>, \<open>failed_children_look_deleted\<close>, \<open>keyless_pages_never_end\<close>,
  \<open>label_escaped_twice\<close>, \<open>panics_not_counted\<close>, \<open>key_file_redacted\<close>,
  \<open>healthcheck_not_trimmed\<close>, and others next to the operation they concern.

  \<^bold>\<open>Bounds and fuel.\<close>  Most functions are structural or have a measure.  The JSON readers take
  fuel proportional to the length of the text, which each value and each element consumes at
  least a byte of.  The crawlers take it as an argument, since the Go loops need not end:
  2001 rounds are enough whenever no full page consists of rows that are passed over
  (\<open>paged_crawls_end\<close>), and \<open>keyless_pages_never_end\<close> shows that the proviso is needed.  Pruning the
  usage log ends because each round deletes a row or stops.

  \<^bold>\<open>Parameters.\<close>  Code that is not in the repository is an argument: the primitives of
  cryptography (\<open>crypto\<close>, with the laws \<open>crypto_ok\<close>), the YAML decoder, the JSON-Schema library
  and regular expressions (\<open>libs\<close>), the lower-case mapping of Unicode, mail addresses, HTML
  entities, SQLite's file sizes and full-text engine, the scripts of the migrations, the network,
  clocks and randomness.  Error texts are functions of the error; log lines are dropped except
  where their content is the point.

  \<^bold>\<open>Not modelled.\<close>  Opening databases and files, listening and shutting down, flag parsing and
  printing, the repository interfaces (declarations), HTML templates with their helper functions
  and static files, the text of the embedded manifests, YAML output, and the memory model: a data
  race is a finding, not a behaviour of the model.
\<close>

end
